(* ===== verification/Prelude.thy ===== *)
theory Prelude
  imports Complex_Main "HOL-Library.AList" "HOL-Library.Char_ord" "HOL-Library.List_Lexorder"
begin

text \<open>
  What the components share: the lemma collections, results that may carry a Python exception,
  Python's slices, dictionaries and number rendering, and the arithmetic of rounding an offset up
  to a multiple (\<open>align_up\<close> of \<^verbatim>\<open>liuqin_layout.py\<close> and \<open>align_to\<close> of
  \<^verbatim>\<open>patch-android-boot-ksu.py\<close> are the same function written in two ways).
\<close>

named_theorems err_simps \<open>inversion of results that may carry an exception\<close>
named_theorems align_simps \<open>rounding an offset up to a multiple\<close>
named_theorems py_simps \<open>Python's slices and dictionaries\<close>

subsection \<open>Results that may carry an exception\<close>

type_synonym bytes = "char list"

definition ebind :: "'e + 'a \<Rightarrow> ('a \<Rightarrow> 'e + 'b) \<Rightarrow> 'e + 'b" where
  "ebind r f = (case r of Inl e \<Rightarrow> Inl e | Inr x \<Rightarrow> f x)"

definition require :: "bool \<Rightarrow> 'e \<Rightarrow> 'e + unit" where
  "require b e = (if b then Inr () else Inl e)"

lemma ebind_simps [simp]:
  "ebind (Inl e) f = Inl e"
  "ebind (Inr x) f = f x"
  by (simp_all add: ebind_def)

lemma ebind_Inr [err_simps]: "ebind r f = Inr y \<longleftrightarrow> (\<exists>x. r = Inr x \<and> f x = Inr y)"
  by (cases r) auto

lemma ebind_Inl [err_simps]:
  "ebind r f = Inl e \<longleftrightarrow> r = Inl e \<or> (\<exists>x. r = Inr x \<and> f x = Inl e)"
  by (cases r) auto

lemma require_simps [simp]:
  "require True e = Inr ()"
  "require False e = Inl e"
  by (simp_all add: require_def)

lemma require_Inr [err_simps]: "require b e = Inr u \<longleftrightarrow> b"
  by (simp add: require_def)

lemma require_Inl [err_simps]: "require b e = Inl e' \<longleftrightarrow> \<not> b \<and> e' = e"
  by (auto simp: require_def)

text \<open>A loop whose body may raise: the first exception stops it.\<close>

primrec each :: "('a \<Rightarrow> 'e + unit) \<Rightarrow> 'a list \<Rightarrow> 'e + unit" where
  "each f [] = Inr ()"
| "each f (x # xs) = ebind (f x) (\<lambda>_. each f xs)"

lemma each_Inr [err_simps]: "each f xs = Inr u \<longleftrightarrow> (\<forall>x \<in> set xs. f x = Inr ())"
  by (induction xs) (auto simp: err_simps)

lemma each_append: "each f (xs @ ys) = ebind (each f xs) (\<lambda>_. each f ys)"
  by (induction xs) (auto simp: ebind_def split: sum.splits)

primrec mapM :: "('a \<Rightarrow> 'e + 'b) \<Rightarrow> 'a list \<Rightarrow> 'e + 'b list" where
  "mapM f [] = Inr []"
| "mapM f (x # xs) = ebind (f x) (\<lambda>y. ebind (mapM f xs) (\<lambda>ys. Inr (y # ys)))"

lemma mapM_Inr: "mapM f xs = Inr ys \<longleftrightarrow> list_all2 (\<lambda>x y. f x = Inr y) xs ys"
  by (induction xs arbitrary: ys) (auto simp: err_simps list_all2_Cons1)

subsection \<open>Rounding up\<close>

lemma div_up_bounds [align_simps]:
  fixes x a :: int
  assumes "0 < a"
  shows "x \<le> (x + a - 1) div a * a" and "(x + a - 1) div a * a < x + a"
proof -
  have "(x + a - 1) div a * a = (x + a - 1) - (x + a - 1) mod a"
    by (simp add: minus_mod_eq_div_mult)
  moreover have "0 \<le> (x + a - 1) mod a" "(x + a - 1) mod a < a"
    using assms by simp_all
  ultimately show "x \<le> (x + a - 1) div a * a" and "(x + a - 1) div a * a < x + a"
    by linarith+
qed

lemma neg_floor_div:
  fixes x a :: int
  assumes "0 < a"
  shows "- (- x div a) = (x + a - 1) div a"
proof -
  define q r where "q = - (- x div a)" and "r = (- x) mod a"
  have "x = a * q - r"
    unfolding q_def r_def mult_minus_right using mult_div_mod_eq [of a "- x"] by linarith
  moreover have "0 \<le> r" "r < a" using assms by (simp_all add: r_def)
  ultimately have "(x + a - 1) div a = q"
    by (intro int_div_pos_eq [of _ _ _ "a - 1 - r"]) auto
  then show ?thesis by (simp add: q_def)
qed

text \<open>
  What every user of a rounding function relies on: the result is the least multiple of the unit
  that is not below the offset.
\<close>

locale rounding =
  fixes up :: "int \<Rightarrow> int" and unit :: int
  assumes unit_pos: "0 < unit"
    and up_ge: "x \<le> up x"
    and up_less: "up x < x + unit"
    and up_dvd: "unit dvd up x"
begin

lemma up_least:
  assumes "unit dvd y" "x \<le> y"
  shows "up x \<le> y"
proof (rule ccontr)
  assume "\<not> up x \<le> y"
  then have "0 < up x - y" by simp
  moreover have "unit dvd up x - y" using assms(1) up_dvd by simp
  ultimately have "unit \<le> up x - y" by (simp add: zdvd_imp_le)
  then show False using up_less [of x] assms(2) by linarith
qed

lemma up_fixed: "unit dvd x \<Longrightarrow> up x = x"
  using up_least [of x x] up_ge [of x] by simp

lemma up_idem: "up (up x) = up x"
  by (rule up_fixed) (rule up_dvd)

lemma up_mono: "x \<le> y \<Longrightarrow> up x \<le> up y"
  using up_dvd [of y] up_ge [of y] by (intro up_least) auto

lemma up_shift: "unit dvd k \<Longrightarrow> up (x + k) = up x + k"
proof -
  assume k: "unit dvd k"
  have "up (x + k) \<le> up x + k" using k up_dvd [of x] up_ge [of x] by (intro up_least) auto
  moreover have "up x \<le> up (x + k) - k"
    using k up_dvd [of "x + k"] up_ge [of "x + k"] by (intro up_least) auto
  ultimately show ?thesis by linarith
qed

lemma up_nonneg: "0 \<le> x \<Longrightarrow> 0 \<le> up x"
  using up_ge [of x] by linarith

end

subsection \<open>Python slices with indices of either sign\<close>

definition py_index :: "nat \<Rightarrow> int \<Rightarrow> nat" where
  "py_index n i = (if i < 0 then nat (int n + i) else min n (nat i))"

definition py_slice :: "'a list \<Rightarrow> int \<Rightarrow> int \<Rightarrow> 'a list" where
  "py_slice xs i j =
     (let a = py_index (length xs) i; b = py_index (length xs) j in take (b - a) (drop a xs))"

lemma py_slice_nonneg [py_simps]:
  assumes "0 \<le> i" "0 \<le> j"
  shows "py_slice xs i j = take (nat j - nat i) (drop (nat i) xs)"
proof (cases "nat i \<le> length xs")
  case True
  then show ?thesis using assms
    by (auto simp: py_slice_def py_index_def Let_def min_def)
next
  case False
  then show ?thesis using assms
    by (auto simp: py_slice_def py_index_def Let_def min_def)
qed

lemma py_slice_append [py_simps]:
  assumes "i = int (length xs)" "j = i + int (length ys)"
  shows "py_slice (xs @ ys @ zs) i j = ys"
  using assms by (simp add: py_slice_nonneg nat_add_distrib)

definition zeros :: "nat \<Rightarrow> bytes" where
  "zeros n = replicate n (CHR 0x00)"

lemma length_zeros [simp]: "length (zeros n) = n"
  by (simp add: zeros_def)

lemma zeros_0 [simp]: "zeros 0 = []"
  by (simp add: zeros_def)

lemma zeros_add: "zeros (m + n) = zeros m @ zeros n"
  by (simp add: zeros_def replicate_add)

definition byte :: "char \<Rightarrow> nat" where
  "byte c = of_char c"

lemma byte_less [simp]: "byte c < 256"
  by (simp add: byte_def)

lemma char_of_byte [simp]: "char_of (byte c) = c"
  by (simp add: byte_def)

subsection \<open>Lists in pieces of a fixed length\<close>

function chunks :: "nat \<Rightarrow> 'a list \<Rightarrow> 'a list list" where
  "chunks n xs = (if xs = [] \<or> n = 0 then [] else take n xs # chunks n (drop n xs))"
  by pat_completeness auto
termination by (relation "measure (\<lambda>(n, xs). length xs)") auto

declare chunks.simps [simp del]

lemma concat_chunks: "0 < n \<Longrightarrow> concat (chunks n xs) = xs"
proof (induction n xs rule: chunks.induct)
  case (1 n xs)
  then show ?case by (cases "xs = []") (simp_all add: chunks.simps [of n])
qed

lemma chunks_bounded: "ys \<in> set (chunks n xs) \<Longrightarrow> ys \<noteq> [] \<and> length ys \<le> n \<and> set ys \<subseteq> set xs"
proof (induction n xs arbitrary: ys rule: chunks.induct)
  case (1 n xs)
  then have ne: "xs \<noteq> [] \<and> n \<noteq> 0" by (auto simp: chunks.simps [of n xs] split: if_splits)
  then consider "ys = take n xs" | "ys \<in> set (chunks n (drop n xs))"
    using 1(2) by (auto simp: chunks.simps [of n xs])
  then show ?case
  proof cases
    case 1
    then show ?thesis using ne by (auto dest: in_set_takeD)
  next
    case 2
    then show ?thesis using 1(1) [of ys] ne by (auto dest: in_set_dropD)
  qed
qed

definition ascii :: "string \<Rightarrow> bool" where
  "ascii s \<longleftrightarrow> list_all (\<lambda>c. byte c < 128) s"

lemma ascii_simps [simp]:
  "ascii []" "ascii (c # s) \<longleftrightarrow> byte c < 128 \<and> ascii s" "ascii (s @ t) \<longleftrightarrow> ascii s \<and> ascii t"
  by (simp_all add: ascii_def)

definition starts_with :: "bytes \<Rightarrow> bytes \<Rightarrow> bool" where
  "starts_with pre s \<longleftrightarrow> take (length pre) s = pre"

fun join_with :: "string \<Rightarrow> string list \<Rightarrow> string" where
  "join_with sep [] = []"
| "join_with sep [s] = s"
| "join_with sep (s # t # r) = s @ sep @ join_with sep (t # r)"

subsection \<open>Rendering numbers\<close>

definition digit_char :: "nat \<Rightarrow> char" where
  "digit_char d = (if d < 10 then char_of (48 + d) else char_of (87 + d))"

fun dec :: "nat \<Rightarrow> string" where
  "dec n = (if n < 10 then [digit_char n] else dec (n div 10) @ [digit_char (n mod 10)])"

declare dec.simps [simp del]

text \<open>Python's \<^verbatim>\<open>str\<close> of an int.\<close>

definition str_int :: "int \<Rightarrow> string" where
  "str_int i = (if i < 0 then ''-'' @ dec (nat (- i)) else dec (nat i))"

definition is_digit :: "char \<Rightarrow> bool" where
  "is_digit c \<longleftrightarrow> CHR ''0'' \<le> c \<and> c \<le> CHR ''9''"

definition digit_value :: "char \<Rightarrow> nat" where
  "digit_value c = of_char c - 48"

text \<open>The value of a string of decimal digits, as Python's \<^verbatim>\<open>int\<close> reads it.\<close>

definition dec_value :: "string \<Rightarrow> nat" where
  "dec_value s = foldl (\<lambda>n c. 10 * n + digit_value c) 0 s"

lemma dec_value_snoc [simp]: "dec_value (s @ [c]) = 10 * dec_value s + digit_value c"
  by (simp add: dec_value_def)

lemma of_char_digit_char: "d < 10 \<Longrightarrow> (of_char (digit_char d) :: nat) = 48 + d"
  by (simp add: digit_char_def)

lemma digit_char_eval [simp]:
  "digit_char 0 = CHR ''0''" "digit_char (Suc 0) = CHR ''1''" "digit_char 1 = CHR ''1''" "digit_char 2 = CHR ''2''"
  "digit_char 3 = CHR ''3''" "digit_char 4 = CHR ''4''" "digit_char 5 = CHR ''5''"
  "digit_char 6 = CHR ''6''" "digit_char 7 = CHR ''7''" "digit_char 8 = CHR ''8''"
  "digit_char 9 = CHR ''9''"
  by code_simp+

lemma digit_value_digit_char [simp]: "d < 10 \<Longrightarrow> digit_value (digit_char d) = d"
  by (simp add: digit_value_def of_char_digit_char)

lemma is_digit_digit_char [simp]: "d < 10 \<Longrightarrow> is_digit (digit_char d)"
  by (simp add: is_digit_def less_eq_char_def of_char_digit_char)

lemma dec_value_dec [simp]: "dec_value (dec n) = n"
proof (induction n rule: dec.induct)
  case (1 n)
  show ?case
  proof (cases "n < 10")
    case True
    then show ?thesis by (simp add: dec.simps [of n] dec_value_def)
  next
    case False
    then show ?thesis using 1 by (subst dec.simps) simp
  qed
qed

lemma dec_digits: "list_all is_digit (dec n)"
proof (induction n rule: dec.induct)
  case (1 n)
  then show ?case by (cases "n < 10") (simp_all add: dec.simps [of n])
qed

lemma dec_not_Nil [simp]: "dec n \<noteq> []"
  by (subst dec.simps) simp

end
