(* ===== verification/PyFloat.thy ===== *)
theory PyFloat
  imports Prelude "HOL-Library.Log_Nat"
begin

text \<open>
  The part of Python's double-precision arithmetic that the layout engine uses: rounding a rational
  to 53 significant bits, half to even (\<open>fl\<close>), truncation to an int, and the rendering of a
  float with one decimal. A float that would exceed the largest double is infinite, and
  \<^verbatim>\<open>int\<close> of it raises OverflowError. The gradual underflow of numbers below
  $2^{-1022}$ is not modelled: every result here is truncated to an integer number of bytes, which
  is 0 on both sides.
\<close>

definition round_half_even :: "rat \<Rightarrow> int" where
  "round_half_even x =
     (let f = \<lfloor>x\<rfloor>; r = x - of_int f
      in if r < 1/2 then f else if 1/2 < r then f + 1 else if even f then f else f + 1)"

text \<open>The exponent \<open>e\<close> with \<open>2 ^ 52 \<le> x / 2 ^ e < 2 ^ 53\<close>.\<close>

definition fl_exp :: "rat \<Rightarrow> int" where
  "fl_exp x = (case quotient_of x of (n, d) \<Rightarrow>
     let e = bitlen n - bitlen d - 53 in if x < 2 powi (e + 53) then e else e + 1)"

definition fl_pos :: "rat \<Rightarrow> rat" where
  "fl_pos x = (let e = fl_exp x in of_int (round_half_even (x / 2 powi e)) * 2 powi e)"

definition fl :: "rat \<Rightarrow> rat" where
  "fl x = (if x = 0 then 0 else if 0 < x then fl_pos x else - fl_pos (- x))"

definition float_max :: "rat" where
  "float_max = 2 powi 1024"

text \<open>\<^verbatim>\<open>int\<close> of a float: \<open>None\<close> is the OverflowError of an infinite one.\<close>

definition float_int :: "rat \<Rightarrow> int option" where
  "float_int x = (if \<bar>x\<bar> < float_max then Some (if x < 0 then \<lceil>x\<rceil> else \<lfloor>x\<rfloor>) else None)"

text \<open>The rendering \<^verbatim>\<open>f'{x:.1f}'\<close> of a non-negative float.\<close>

definition float_1f :: "rat \<Rightarrow> string" where
  "float_1f x = (let n = nat (round_half_even (10 * x)) in dec (n div 10) @ ''.'' @ dec (n mod 10))"

subsection \<open>Rounding to an integer\<close>

lemma round_half_even_bounds:
  "\<bar>of_int (round_half_even x) - x\<bar> \<le> 1/2"
  unfolding round_half_even_def Let_def
  using floor_correct [of x] by (auto simp: abs_le_iff algebra_simps)

lemma floor_le_round_half_even: "\<lfloor>x\<rfloor> \<le> round_half_even x"
  by (auto simp: round_half_even_def Let_def)

lemma round_half_even_of_int [simp]: "round_half_even (of_int n) = n"
  by (simp add: round_half_even_def)

subsection \<open>The exponent\<close>

lemma bitlen_powi:
  assumes "0 < n"
  shows "2 powi (bitlen n - 1) \<le> (of_int n :: rat)" and "(of_int n :: rat) < 2 powi bitlen n"
proof -
  have "0 < bitlen n" using assms bitlen_eq_zero_iff [of n] bitlen_nonneg [of n] by linarith
  then have "2 powi (bitlen n - 1) = (of_int (2 ^ nat (bitlen n - 1)) :: rat)"
    and "2 powi bitlen n = (of_int (2 ^ nat (bitlen n)) :: rat)"
    by (simp_all add: power_int_def)
  then show "2 powi (bitlen n - 1) \<le> (of_int n :: rat)" and "(of_int n :: rat) < 2 powi bitlen n"
    using bitlen_bounds [OF assms] by (simp_all only: of_int_le_iff of_int_less_iff)
qed

lemma powi_shift: "(2::rat) powi (e + int k) = 2 ^ k * 2 powi e"
  by (simp add: power_int_add)

lemma fl_exp_bounds:
  assumes "0 < x"
  shows "2 ^ 52 * 2 powi fl_exp x \<le> x" and "x < 2 ^ 53 * 2 powi fl_exp x"
proof -
  obtain n d where nd: "quotient_of x = (n, d)" by fastforce
  have d: "0 < d" using nd by (rule quotient_of_denom_pos)
  have x: "x = of_int n / of_int d" using nd by (rule quotient_of_div)
  have n: "0 < n" using assms d by (simp add: x zero_less_divide_iff)
  define k where "k = bitlen n - bitlen d"
  have lo: "2 powi (k - 1) * of_int d \<le> (of_int n :: rat)"
  proof -
    have "2 powi (k - 1) * (of_int d :: rat) \<le> 2 powi (k - 1) * 2 powi bitlen d"
      using bitlen_powi(2) [OF d] by (intro mult_left_mono) auto
    also have "\<dots> = 2 powi (bitlen n - 1)" by (simp add: k_def flip: power_int_add)
    also have "\<dots> \<le> of_int n" by (rule bitlen_powi(1) [OF n])
    finally show ?thesis .
  qed
  have hi: "(of_int n :: rat) < 2 powi (k + 1) * of_int d"
  proof -
    have "(of_int n :: rat) < 2 powi bitlen n" by (rule bitlen_powi(2) [OF n])
    also have "2 powi bitlen n = (2 powi (k + 1) * 2 powi (bitlen d - 1) :: rat)"
      by (simp add: k_def flip: power_int_add)
    also have "\<dots> \<le> 2 powi (k + 1) * of_int d"
      using bitlen_powi(1) [OF d] by (intro mult_left_mono) auto
    finally show ?thesis .
  qed
  have b: "2 powi (k - 1) \<le> x" "x < 2 powi (k + 1)"
    using lo hi d by (simp_all add: x pos_le_divide_eq pos_divide_less_eq)
  have e: "fl_exp x = (if x < 2 powi k then k - 53 else k - 52)"
    by (simp add: fl_exp_def nd k_def Let_def)
  show "2 ^ 52 * 2 powi fl_exp x \<le> x" and "x < 2 ^ 53 * 2 powi fl_exp x"
    using b powi_shift [of "k - 53" 52] powi_shift [of "k - 53" 53]
      powi_shift [of "k - 52" 52] powi_shift [of "k - 52" 53]
    by (auto simp: e add.commute split: if_splits)
qed

subsection \<open>Exactness and error\<close>

lemma fl_pos_error: "\<bar>fl_pos x - x\<bar> \<le> 2 powi fl_exp x / 2"
proof -
  define p :: rat where "p = 2 powi fl_exp x"
  have p: "0 < p" by (simp add: p_def)
  have "fl_pos x - x = (of_int (round_half_even (x / p)) - x / p) * p"
    using p by (simp add: fl_pos_def Let_def p_def [symmetric] algebra_simps)
  then have "\<bar>fl_pos x - x\<bar> = \<bar>of_int (round_half_even (x / p)) - x / p\<bar> * p"
    using p by (simp add: abs_mult)
  also have "\<dots> \<le> 1/2 * p"
    using p round_half_even_bounds [of "x / p"] by (intro mult_right_mono) auto
  finally show ?thesis by (simp add: p_def)
qed

lemma fl_exp_le:
  assumes "0 < x" "x < 2 ^ (53 + k)"
  shows "fl_exp x \<le> int k"
proof (rule ccontr)
  assume "\<not> fl_exp x \<le> int k"
  then have "(2::rat) powi (1 + int k) \<le> 2 powi fl_exp x"
    by (intro power_int_increasing) auto
  then have "2 ^ 52 * (2 ^ Suc k) \<le> (2 ^ 52 * 2 powi fl_exp x :: rat)"
    by (simp add: power_int_add)
  also have "\<dots> \<le> x" by (rule fl_exp_bounds(1) [OF assms(1)])
  finally show False using assms(2) by (simp add: power_add)
qed

lemma fl_of_int:
  assumes "0 \<le> n" "n < 2 ^ 53"
  shows "fl (of_int n) = of_int n"
proof (cases "n = 0")
  case False
  then have pos: "0 < (of_int n :: rat)" using assms by simp
  have "(of_int n :: rat) < of_int (2 ^ 53)" using assms(2) by (simp only: of_int_less_iff)
  then have e: "fl_exp (of_int n) \<le> 0" using fl_exp_le [OF pos, of 0] by simp
  define k where "k = nat (- fl_exp (of_int n))"
  have "fl_exp (of_int n) = - int k" using e by (simp add: k_def)
  then have "(2::rat) powi fl_exp (of_int n) = 1 / 2 ^ k" by (simp add: power_int_minus field_simps)
  then have "fl_pos (of_int n) = of_int (round_half_even (of_int (n * 2 ^ k))) / 2 ^ k"
    by (simp add: fl_pos_def Let_def)
  then show ?thesis using pos by (simp add: fl_def del: of_int_mult of_int_power) simp
qed (simp add: fl_def)

text \<open>
  Dividing a multiple of 1/100 below \<open>2 ^ 45\<close> by rounding never carries it to the next integer:
  the fraction is at most 99/100 and the rounding error is below \<open>2 ^ (-8)\<close>.
\<close>

lemma floor_fl_hundredth:
  assumes "0 \<le> n" "n < 2 ^ 51"
  shows "\<lfloor>fl (of_int n / 100)\<rfloor> = n div 100"
proof (cases "n = 0")
  case False
  define x :: rat where "x = of_int n / 100"
  have x: "0 < x" using False assms by (simp add: x_def)
  have "(of_int n :: rat) < of_int (2 ^ 51)" using assms(2) by (simp only: of_int_less_iff)
  then have small: "x < 2 ^ 45" by (simp add: x_def)
  have lt: "fl_exp x < -7"
  proof (rule ccontr)
    assume "\<not> fl_exp x < -7"
    then have "(2::rat) powi (-7) \<le> 2 powi fl_exp x" by (intro power_int_increasing) auto
    then have "2 ^ 45 \<le> (2 ^ 52 * 2 powi fl_exp x :: rat)" by (simp add: power_int_minus)
    also have "\<dots> \<le> x" by (rule fl_exp_bounds(1) [OF x])
    finally show False using small by simp
  qed
  then have "(2::rat) powi fl_exp x \<le> 2 powi (-7)" by (intro power_int_increasing) auto
  then have err: "\<bar>fl_pos x - x\<bar> \<le> 1 / 256"
    using fl_pos_error [of x] by (simp add: power_int_minus)
  have floor_x: "\<lfloor>x\<rfloor> = n div 100"
    by (simp add: x_def floor_divide_of_int_eq [of n 100, simplified])
  have frac: "x \<le> of_int (n div 100) + 99 / 100"
  proof -
    have "n = 100 * (n div 100) + n mod 100" "n mod 100 \<le> 99" by auto
    then have "n \<le> 100 * (n div 100) + 99" by linarith
    then have "(of_int n :: rat) \<le> of_int (100 * (n div 100) + 99)" by (simp only: of_int_le_iff)
    then show ?thesis by (simp add: x_def)
  qed
  define k where "k = nat (- fl_exp x)"
  have pk: "(2::rat) powi fl_exp x = 1 / 2 ^ k"
    using lt by (simp add: k_def power_int_def field_simps)
  have "of_int (n div 100) \<le> x" using floor_x by linarith
  then have "of_int (n div 100 * 2 ^ k) \<le> x / 2 powi fl_exp x"
    by (simp add: pk mult_right_mono)
  then have "n div 100 * 2 ^ k \<le> \<lfloor>x / 2 powi fl_exp x\<rfloor>" by (simp only: le_floor_iff)
  also have "\<dots> \<le> round_half_even (x / 2 powi fl_exp x)" by (rule floor_le_round_half_even)
  finally have "(of_int (n div 100 * 2 ^ k) :: rat) \<le> of_int (round_half_even (x / 2 powi fl_exp x))"
    by (simp only: of_int_le_iff)
  then have "of_int (n div 100) \<le> fl_pos x"
    by (simp add: fl_pos_def Let_def pk field_simps)
  moreover have "fl_pos x < of_int (n div 100) + 1" using err frac by linarith
  ultimately have "\<lfloor>fl_pos x\<rfloor> = n div 100" by (simp add: floor_eq_iff)
  then show ?thesis using x by (simp add: fl_def x_def [symmetric])
qed (simp add: fl_def)

lemma float_int_of_int: "\<bar>n\<bar> < 2 ^ 1024 \<Longrightarrow> float_int (of_int n) = Some n"
proof -
  assume "\<bar>n\<bar> < 2 ^ 1024"
  then have "(of_int \<bar>n\<bar> :: rat) < of_int (2 ^ 1024)" by (simp only: of_int_less_iff)
  then show ?thesis by (simp add: float_int_def float_max_def)
qed

end
