(* ===== verification/PyRegex.thy ===== *)
theory PyRegex
  imports Prelude
begin

text \<open>
  The fragment of Python's \<^verbatim>\<open>re\<close> that the program uses, as a matcher that returns every way a
  pattern matches at a position, in the order in which the backtracking engine tries them; the
  first one is Python's match. Strings are lists of code points below 256, on which
  \<^verbatim>\<open>\d\<close> is the ten ASCII digits and \<^verbatim>\<open>\s\<close> is \<^verbatim>\<open>str.isspace\<close>.
\<close>

datatype re =
    Eps
  | Chr "char \<Rightarrow> bool"
  | Seq re re
  | Alt re re
  | Star bool re \<comment> \<open>greedy when True\<close>
  | Group nat re
  | Bos \<comment> \<open>the start of the string\<close>
  | Bol \<comment> \<open>\<^verbatim>\<open>^\<close> under MULTILINE\<close>
  | Wb \<comment> \<open>\<^verbatim>\<open>\b\<close>: a word boundary\<close>
  | Eos \<comment> \<open>\<^verbatim>\<open>$\<close>: the end, or before a final newline\<close>
  | Eol \<comment> \<open>\<^verbatim>\<open>$\<close> under MULTILINE\<close>

type_synonym caps = "(nat \<times> string) list"

definition newline :: char where
  "newline = CHR 0x0A"

definition is_space :: "char \<Rightarrow> bool" where
  "is_space c = (let n = (of_char c :: nat)
     in (9 \<le> n \<and> n \<le> 13) \<or> (28 \<le> n \<and> n \<le> 32) \<or> n = 133 \<or> n = 160)"

definition is_word :: "char \<Rightarrow> bool" where
  "is_word c \<longleftrightarrow> is_digit c \<or> (CHR ''a'' \<le> c \<and> c \<le> CHR ''z'') \<or> (CHR ''A'' \<le> c \<and> c \<le> CHR ''Z'')
     \<or> c = CHR ''_''"

function matches :: "re \<Rightarrow> string \<Rightarrow> nat \<Rightarrow> caps \<Rightarrow> (nat \<times> caps) list" where
  "matches Eps t i c = [(i, c)]"
| "matches (Chr p) t i c = (if i < length t \<and> p (t ! i) then [(Suc i, c)] else [])"
| "matches (Seq r s) t i c = concat (map (\<lambda>(j, c'). matches s t j c') (matches r t i c))"
| "matches (Alt r s) t i c = matches r t i c @ matches s t i c"
| "matches (Star greedy r) t i c =
     (let more = concat (map (\<lambda>(j, c'). if i < j \<and> i < length t
                                 then matches (Star greedy r) t j c' else []) (matches r t i c))
      in if greedy then more @ [(i, c)] else (i, c) # more)"
| "matches (Group n r) t i c =
     map (\<lambda>(j, c'). (j, AList.update n (take (j - i) (drop i t)) c')) (matches r t i c)"
| "matches Bos t i c = (if i = 0 then [(i, c)] else [])"
| "matches Bol t i c = (if i = 0 \<or> (i \<le> length t \<and> t ! (i - 1) = newline) then [(i, c)] else [])"
| "matches Wb t i c =
     (if (0 < i \<and> i \<le> length t \<and> is_word (t ! (i - 1))) \<noteq> (i < length t \<and> is_word (t ! i)) then [(i, c)] else [])"
| "matches Eos t i c =
     (if i = length t \<or> (Suc i = length t \<and> t ! i = newline) then [(i, c)] else [])"
| "matches Eol t i c = (if i = length t \<or> (i < length t \<and> t ! i = newline) then [(i, c)] else [])"
  by pat_completeness auto
termination
  by (relation "measures [\<lambda>(r, t, i, c). size r, \<lambda>(r, t, i, c). length t - i]") auto

declare matches.simps(5) [simp del]

subsection \<open>Patterns\<close>

definition lit :: "string \<Rightarrow> re" where
  "lit s = foldr (\<lambda>x r. Seq (Chr (\<lambda>y. y = x)) r) s Eps"

definition rs :: "re list \<Rightarrow> re" where
  "rs parts = foldr Seq parts Eps"

definition plus :: "re \<Rightarrow> re" where
  "plus r = Seq r (Star True r)"

definition opt :: "re \<Rightarrow> re" where
  "opt r = Alt r Eps"

definition star :: "re \<Rightarrow> re" where
  "star r = Star True r"

definition digit :: re where
  "digit = Chr is_digit"

definition space :: re where
  "space = Chr is_space"

definition dot :: re where
  "dot = Chr (\<lambda>c. c \<noteq> newline)"

definition is_hex :: "char \<Rightarrow> bool" where
  "is_hex c \<longleftrightarrow> is_digit c \<or> (CHR ''a'' \<le> c \<and> c \<le> CHR ''f'') \<or> (CHR ''A'' \<le> c \<and> c \<le> CHR ''F'')"

definition hex :: re where
  "hex = Chr is_hex"

subsection \<open>\<^verbatim>\<open>re.match\<close>, \<^verbatim>\<open>re.fullmatch\<close> and \<^verbatim>\<open>re.search\<close>\<close>

type_synonym groups = "nat \<rightharpoonup> string"

definition first_match :: "(nat \<times> caps) list \<Rightarrow> groups option" where
  "first_match ms = (case ms of [] \<Rightarrow> None | (j, c) # _ \<Rightarrow> Some (map_of c))"

definition re_match :: "re \<Rightarrow> string \<Rightarrow> groups option" where
  "re_match r t = first_match (matches r t 0 [])"

definition re_fullmatch :: "re \<Rightarrow> string \<Rightarrow> groups option" where
  "re_fullmatch r t = first_match (filter (\<lambda>(j, c). j = length t) (matches r t 0 []))"

definition re_search :: "re \<Rightarrow> string \<Rightarrow> groups option" where
  "re_search r t = first_match (concat (map (\<lambda>i. matches r t i []) [0..<Suc (length t)]))"

text \<open>\<^verbatim>\<open>pattern.search(t, pos)\<close> with the start and the end of the match.\<close>

definition re_search_from :: "re \<Rightarrow> string \<Rightarrow> nat \<Rightarrow> (nat \<times> nat \<times> groups) option" where
  "re_search_from r t pos =
     (case concat (map (\<lambda>i. map (\<lambda>(j, c). (i, j, map_of c)) (matches r t i [])) [pos..<Suc (length t)]) of
        [] \<Rightarrow> None | m # _ \<Rightarrow> Some m)"

text \<open>\<^verbatim>\<open>finditer\<close> for a pattern that matches no empty string: the matches from left to
  right, each searched for from the end of the one before.\<close>

function re_finditer_from :: "re \<Rightarrow> string \<Rightarrow> nat \<Rightarrow> (nat \<times> nat \<times> groups) list" where
  "re_finditer_from r t pos =
     (case re_search_from r t pos of
        None \<Rightarrow> []
      | Some (i, j, g) \<Rightarrow> (i, j, g) # (if pos < j \<and> j \<le> length t then re_finditer_from r t j else []))"
  by pat_completeness auto
termination by (relation "measure (\<lambda>(r, t, pos). length t - pos)") auto

declare re_finditer_from.simps [simp del]

definition re_finditer :: "re \<Rightarrow> string \<Rightarrow> (nat \<times> nat \<times> groups) list" where
  "re_finditer r t = re_finditer_from r t 0"

text \<open>\<^verbatim>\<open>sub\<close> with a function from the match to its replacement.\<close>

fun splice :: "(groups \<Rightarrow> string) \<Rightarrow> string \<Rightarrow> nat \<Rightarrow> (nat \<times> nat \<times> groups) list \<Rightarrow> string" where
  "splice f t pos [] = drop pos t"
| "splice f t pos ((i, j, g) # ms) = take (i - pos) (drop pos t) @ f g @ splice f t j ms"

definition re_sub :: "re \<Rightarrow> (groups \<Rightarrow> string) \<Rightarrow> string \<Rightarrow> string" where
  "re_sub r f t = splice f t 0 (re_finditer r t)"

text \<open>Strings: \<^verbatim>\<open>strip\<close>, \<^verbatim>\<open>upper\<close> and \<^verbatim>\<open>lower\<close> (ASCII letters),
  \<^verbatim>\<open>splitlines\<close> and \<^verbatim>\<open>split(sep, 1)\<close>.\<close>

definition strip :: "string \<Rightarrow> string" where
  "strip s = rev (dropWhile is_space (rev (dropWhile is_space s)))"

definition upper_char :: "char \<Rightarrow> char" where
  "upper_char c = (if CHR ''a'' \<le> c \<and> c \<le> CHR ''z'' then char_of ((of_char c :: nat) - 32) else c)"

definition lower_char :: "char \<Rightarrow> char" where
  "lower_char c = (if CHR ''A'' \<le> c \<and> c \<le> CHR ''Z'' then char_of ((of_char c :: nat) + 32) else c)"

definition is_linebreak :: "char \<Rightarrow> bool" where
  "is_linebreak c = (let n = (of_char c :: nat)
     in (10 \<le> n \<and> n \<le> 13) \<or> (28 \<le> n \<and> n \<le> 30) \<or> n = 133)"

fun splitlines_from :: "string \<Rightarrow> string \<Rightarrow> string list" where
  "splitlines_from cur [] = (if cur = [] then [] else [rev cur])"
| "splitlines_from cur [c] = (if is_linebreak c then [rev cur] else [rev (c # cur)])"
| "splitlines_from cur (c # d # s) =
     (if c = CHR 0x0D \<and> d = newline then rev cur # splitlines_from [] s
      else if is_linebreak c then rev cur # splitlines_from [] (d # s)
      else splitlines_from (c # cur) (d # s))"

definition splitlines :: "string \<Rightarrow> string list" where
  "splitlines s = splitlines_from [] s"

fun split_once :: "string \<Rightarrow> string \<Rightarrow> string \<Rightarrow> (string \<times> string) option" where
  "split_once sep before s =
     (if take (length sep) s = sep then Some (rev before, drop (length sep) s)
      else (case s of [] \<Rightarrow> None | x # s' \<Rightarrow> split_once sep (x # before) s'))"

declare split_once.simps [simp del]

text \<open>\<^verbatim>\<open>split(None, 1)\<close>, \<^verbatim>\<open>split()\<close>, \<^verbatim>\<open>replace\<close> and
  \<^verbatim>\<open>in\<close> on strings.\<close>

definition split_ws_once :: "string \<Rightarrow> string list" where
  "split_ws_once s =
     (let a = dropWhile is_space s; w = takeWhile (\<lambda>c. \<not> is_space c) a;
          r = dropWhile is_space (dropWhile (\<lambda>c. \<not> is_space c) a)
      in if a = [] then [] else if r = [] then [w] else [w, r])"

function split_ws :: "string \<Rightarrow> string list" where
  "split_ws s =
     (let a = dropWhile is_space s
      in if a = [] then []
         else takeWhile (\<lambda>c. \<not> is_space c) a # split_ws (dropWhile (\<lambda>c. \<not> is_space c) a))"
  by pat_completeness auto
termination
proof (relation "measure length")
  fix s a assume a: "a = dropWhile is_space s" "a \<noteq> []"
  then have "\<not> is_space (hd a)" by (metis hd_dropWhile)
  then have "length (dropWhile (\<lambda>c. \<not> is_space c) a) < length a"
    using a(2) by (cases a) (auto intro: le_imp_less_Suc length_dropWhile_le)
  moreover have "length a \<le> length s" by (simp add: a(1) length_dropWhile_le)
  ultimately show "(dropWhile (\<lambda>c. \<not> is_space c) a, s) \<in> measure length" by simp
qed simp

declare split_ws.simps [simp del]

definition contains :: "'a list \<Rightarrow> 'a list \<Rightarrow> bool" where
  "contains sub s \<longleftrightarrow> (\<exists>i \<in> set [0..<Suc (length s)]. take (length sub) (drop i s) = sub)"

fun replace_crlf :: "bytes \<Rightarrow> bytes" where
  "replace_crlf (a # b # s) =
     (if a = CHR 0x0D \<and> b = newline then newline # replace_crlf s else a # replace_crlf (b # s))"
| "replace_crlf s = s"

text \<open>\<^verbatim>\<open>replace(sep, '')\<close>; the fuel is the length of the text.\<close>

primrec remove_all_from :: "nat \<Rightarrow> string \<Rightarrow> string \<Rightarrow> string" where
  "remove_all_from 0 sep s = s"
| "remove_all_from (Suc n) sep s =
     (case split_once sep [] s of None \<Rightarrow> s | Some (a, b) \<Rightarrow> a @ remove_all_from n sep b)"

definition remove_all :: "string \<Rightarrow> string \<Rightarrow> string" where
  "remove_all sep s = remove_all_from (length s) sep s"

subsection \<open>\<^verbatim>\<open>int(text, base)\<close>\<close>

definition alnum_value :: "char \<Rightarrow> nat option" where
  "alnum_value c =
     (if is_digit c then Some (of_char c - 48)
      else if CHR ''a'' \<le> c \<and> c \<le> CHR ''z'' then Some (of_char c - 87)
      else if CHR ''A'' \<le> c \<and> c \<le> CHR ''Z'' then Some (of_char c - 55) else None)"

text \<open>Digits below the base with single underscores between them; \<open>us\<close>: the last character was an
  underscore (or nothing was read).\<close>

fun int_digits :: "nat \<Rightarrow> nat \<Rightarrow> bool \<Rightarrow> string \<Rightarrow> nat option" where
  "int_digits base acc us [] = (if us then None else Some acc)"
| "int_digits base acc us (c # s) =
     (if c = CHR ''_'' then (if us then None else int_digits base acc True s)
      else (case alnum_value c of
              None \<Rightarrow> None
            | Some d \<Rightarrow> if d < base then int_digits base (acc * base + d) False s else None))"

definition int_body :: "nat \<Rightarrow> string \<Rightarrow> nat option" where
  "int_body base s =
     (if base = 16 \<and> (take 2 s = ''0x'' \<or> take 2 s = ''0X'') then
        (let r = drop 2 s in int_digits base 0 True (if take 1 r = ''_'' then drop 1 r else r))
      else int_digits base 0 True s)"

definition py_int :: "nat \<Rightarrow> string \<Rightarrow> int option" where
  "py_int base text =
     (let s = strip text
      in if take 1 s = ''-'' then map_option (\<lambda>n. - int n) (int_body base (drop 1 s))
         else if take 1 s = ''+'' then map_option int (int_body base (drop 1 s))
         else map_option int (int_body base s))"

subsection \<open>Little-endian integers\<close>

primrec le_value :: "bytes \<Rightarrow> nat" where
  "le_value [] = 0"
| "le_value (b # s) = of_char b + 256 * le_value s"

primrec le_bytes :: "nat \<Rightarrow> nat \<Rightarrow> bytes" where
  "le_bytes 0 n = []"
| "le_bytes (Suc w) n = char_of (n mod 256) # le_bytes w (n div 256)"

lemma length_le_bytes [simp]: "length (le_bytes w n) = w"
  by (induction w arbitrary: n) simp_all

lemma le_value_le_bytes: "n < 256 ^ w \<Longrightarrow> le_value (le_bytes w n) = n"
proof (induction w arbitrary: n)
  case (Suc w)
  then have "n div 256 < 256 ^ w" by (simp add: div_less_iff_less_mult mult.commute)
  then show ?case using Suc.IH by simp
qed simp

lemma le_value_less: "le_value s < 256 ^ length s"
proof (induction s)
  case (Cons b s)
  obtain N where N: "N = (256 :: nat) ^ length s" by simp
  have "(of_char b :: nat) < 256" by simp
  moreover have "le_value s < N" using Cons N by simp
  ultimately have "of_char b + 256 * le_value s < 256 * N" by linarith
  then show ?case by (simp add: N)
qed simp

lemma le_bytes_le_value: "le_bytes (length s) (le_value s) = s"
proof (induction s)
  case (Cons b s)
  have b: "(of_char b :: nat) < 256" by simp
  then have "(of_char b + 256 * le_value s) div 256 = le_value s"
    "(of_char b + 256 * le_value s) mod 256 = of_char b" by simp_all
  then show ?case using Cons by simp
qed simp

end
