(* ===== verification/Layout.thy ===== *)
theory Layout
  imports PyFloat PyRegex
begin

text \<open>
  The partition layout engine, \<^verbatim>\<open>tools/lib/liuqin_layout.py\<close>: sizes, the partition table as the
  engine sees it, its classification, the layout plan, the \<^verbatim>\<open>sgdisk\<close> arguments that realise it
  and the two verifications of the edited table. Sizes and offsets are Python ints in bytes; sectors
  are ints as well. Every \<^verbatim>\<open>raise LayoutError\<close> is a constructor of \<open>layout_error\<close>,
  carrying the values the message shows.
\<close>

subsection \<open>Constants\<close>

definition GIB :: int where "GIB = 1024 ^ 3"
definition MIB :: int where "MIB = 1024 ^ 2"
definition DEVICE_SECTOR_SIZE :: int where "DEVICE_SECTOR_SIZE = 4096"
definition STOCK_PARTITION_COUNT :: nat where "STOCK_PARTITION_COUNT = 35"
definition ALIGNMENT :: int where "ALIGNMENT = 4 * MIB"
definition USERDATA_NAME :: string where "USERDATA_NAME = ''userdata''"
definition ROOT_NAME :: string where "ROOT_NAME = ''linux_root''"
definition HOME_NAME :: string where "HOME_NAME = ''linux_home''"
definition ROOT_LABEL :: string where "ROOT_LABEL = ''LIUQIN_ROOT''"
definition HOME_LABEL :: string where "HOME_LABEL = ''LIUQIN_HOME''"
definition METADATA_NAME :: string where "METADATA_NAME = ''metadata''"
definition LINUX_TYPECODE :: string where "LINUX_TYPECODE = ''8300''"
definition ROOT_NUMBER :: int where "ROOT_NUMBER = 36"
definition HOME_NUMBER :: int where "HOME_NUMBER = 37"
definition MIN_ANDROID :: int where "MIN_ANDROID = 16 * GIB"
definition MIN_ROOT :: int where "MIN_ROOT = 16 * GIB"
definition MIN_HOME :: int where "MIN_HOME = 8 * GIB"
definition MODES :: "string list" where "MODES = [''linux-only'', ''dual'']"
definition WIPE_BYTES :: int where "WIPE_BYTES = 16 * MIB"

lemmas size_consts = GIB_def MIB_def ALIGNMENT_def MIN_ANDROID_def MIN_ROOT_def MIN_HOME_def
lemmas name_consts = USERDATA_NAME_def ROOT_NAME_def HOME_NAME_def

subsection \<open>The partition table\<close>

record Partition =
  p_number :: int
  p_first_sector :: int
  p_last_sector :: int
  p_name :: string
  p_sector_size :: int

definition p_start :: "Partition \<Rightarrow> int" where
  "p_start p = p_first_sector p * p_sector_size p"

definition p_end :: "Partition \<Rightarrow> int" where
  "p_end p = (p_last_sector p + 1) * p_sector_size p"

definition p_size :: "Partition \<Rightarrow> int" where
  "p_size p = p_end p - p_start p"

record Disk =
  sector_size :: int
  total_sectors :: int
  first_usable :: int
  last_usable :: int
  entry_count :: int
  partitions :: "Partition list"

definition usable_end :: "Disk \<Rightarrow> int" where
  "usable_end d = (last_usable d + 1) * sector_size d"

datatype layout_error =
    BadSize string
  | BadPercentage string
  | DuplicateName string
  | Unreadable string
  | WrongSectorSize int
  | WrongPartitionCount nat
  | UserdataNotLast
  | UserdataNotToEnd
  | TooFewEntries int
  | UnknownMode string
  | NoUserdata
  | DualNeedsAndroid
  | AndroidTooSmall int
  | RootTooSmall int
  | TooLittleForHome
  | HomeTooSmall int
  | OutsideUsable
  | NotWholeSectors
  | UserdataWouldMove
  | StillExists string
  | Missing string
  | LandedElsewhere string int int
  | FieldChanged string
  | Overflow \<comment> \<open>not a LayoutError: the OverflowError of \<^verbatim>\<open>int\<close> of an infinite float\<close>

text \<open>\<^verbatim>\<open>Disk.by_name\<close>: None when there is no such partition, an error when there are two.\<close>

definition by_name :: "Disk \<Rightarrow> string \<Rightarrow> layout_error + Partition option" where
  "by_name d n =
     (case filter (\<lambda>p. p_name p = n) (partitions d) of
        [] \<Rightarrow> Inr None
      | [p] \<Rightarrow> Inr (Some p)
      | _ \<Rightarrow> Inl (DuplicateName n))"

subsection \<open>The factory table\<close>

definition STOCK_TOTAL_SECTORS :: int where "STOCK_TOTAL_SECTORS = 61731840"
definition STOCK_FIRST_USABLE :: int where "STOCK_FIRST_USABLE = 6"
definition STOCK_LAST_USABLE :: int where "STOCK_LAST_USABLE = 61731834"
definition STOCK_ENTRIES :: int where "STOCK_ENTRIES = 64"

definition STOCK_TABLE :: "(int \<times> int \<times> int \<times> string) list" where
  "STOCK_TABLE =
    [(1, 6, 7, ''switch''),
     (2, 8, 15, ''ssd''),
     (3, 16, 23, ''dbg''),
     (4, 24, 31, ''bk01''),
     (5, 32, 63, ''bk02''),
     (6, 64, 127, ''bk03''),
     (7, 128, 255, ''bk04''),
     (8, 256, 383, ''keystore''),
     (9, 384, 511, ''frp''),
     (10, 512, 1023, ''countrycode''),
     (11, 1024, 2047, ''misc''),
     (12, 2048, 4095, ''bk05''),
     (13, 4096, 6143, ''logfs''),
     (14, 6144, 8191, ''ffu''),
     (15, 8192, 12287, ''oops''),
     (16, 12288, 16383, ''devinfo''),
     (17, 16384, 32767, ''metadata''),
     (18, 32768, 36863, ''bk06''),
     (19, 36864, 45055, ''bk07''),
     (20, 45056, 61439, ''bk08''),
     (21, 61440, 77823, ''persist''),
     (22, 77824, 94207, ''persistbak''),
     (23, 94208, 102399, ''mtdblk''),
     (24, 102400, 117247, ''crash_history''),
     (25, 117248, 141823, ''minidump''),
     (26, 141824, 218623, ''rawdump''),
     (27, 218624, 480767, ''cust''),
     (28, 480768, 2708991, ''super''),
     (29, 2708992, 2709023, ''vbmeta_system_a''),
     (30, 2709024, 2709055, ''vbmeta_system_b''),
     (31, 2709056, 2716159, ''bk010''),
     (32, 2716160, 2717183, ''mem''),
     (33, 2717184, 2725375, ''mbnconfig''),
     (34, 2725376, 2758143, ''rescue''),
     (35, 2758144, 61731834, ''userdata'')]"

definition reference_stock_disk :: "int \<Rightarrow> int \<Rightarrow> Disk" where
  "reference_stock_disk ss scale =
     \<lparr>sector_size = ss, total_sectors = STOCK_TOTAL_SECTORS * scale,
      first_usable = STOCK_FIRST_USABLE * scale,
      last_usable = (STOCK_LAST_USABLE + 1) * scale - 1, entry_count = STOCK_ENTRIES,
      partitions = map (\<lambda>(number, first, last, name).
        \<lparr>p_number = number, p_first_sector = first * scale, p_last_sector = (last + 1) * scale - 1,
         p_name = name, p_sector_size = ss\<rparr>) STOCK_TABLE\<rparr>"

subsection \<open>Sizes\<close>

definition align_up :: "int \<Rightarrow> int" where
  "align_up offset = - (- offset div ALIGNMENT) * ALIGNMENT"

text \<open>\<^verbatim>\<open>human\<close>: the quotient by a power of two, rendered with one decimal.\<close>

definition human :: "int \<Rightarrow> string" where
  "human sz =
     (if 1024 ^ 4 \<le> sz then float_1f (fl (of_int sz / 1024 ^ 4)) @ '' TiB''
      else if GIB \<le> sz then float_1f (fl (of_int sz / of_int GIB)) @ '' GiB''
      else if MIB \<le> sz then float_1f (fl (of_int sz / of_int MIB)) @ '' MiB''
      else if 1024 \<le> sz then float_1f (fl (of_int sz / 1024)) @ '' KiB''
      else str_int sz @ '' B'')"

text \<open>The pattern \<^verbatim>\<open>(\d+(?:\.\d+)?)\s*([%KMGT]?)I?B?\<close>.\<close>

definition SIZE_RE :: re where
  "SIZE_RE = rs [Group 1 (rs [plus digit, opt (rs [lit ''.'', plus digit])]), star space,
                 Group 2 (opt (Chr (\<lambda>c. c \<in> set ''%KMGT''))), opt (lit ''I''), opt (lit ''B'')]"

text \<open>\<^verbatim>\<open>float\<close> of the digits the first group matched.\<close>

definition decimal_value :: "string \<Rightarrow> rat" where
  "decimal_value s =
     (let w = takeWhile is_digit s; f = drop (length w + 1) s
      in of_nat (dec_value (w @ f)) / 10 ^ length f)"

definition unit_scale :: "string \<Rightarrow> int" where
  "unit_scale u = (if u = ''K'' then 1024 else if u = ''M'' then MIB else if u = ''G'' then GIB
                   else if u = ''T'' then 1024 ^ 4 else 1)"

definition of_overflow :: "int option \<Rightarrow> layout_error + int" where
  "of_overflow r = (case r of None \<Rightarrow> Inl Overflow | Some n \<Rightarrow> Inr n)"

definition parse_size :: "string \<Rightarrow> int \<Rightarrow> layout_error + int" where
  "parse_size text region =
     (let value = map upper_char (strip text)
      in case re_fullmatch SIZE_RE value of
           None \<Rightarrow> Inl (BadSize value)
         | Some m \<Rightarrow>
             (let number = fl (decimal_value (the (m 1))); unit = the (m 2)
              in if unit = ''%'' then
                   (if \<not> (0 \<le> number \<and> number \<le> 100) then Inl (BadPercentage value)
                    else of_overflow (float_int (fl (fl (fl (of_int region) * number) / 100))))
                 else of_overflow (float_int (fl (number * of_int (unit_scale unit))))))"

text \<open>The table \<^verbatim>\<open>DEFAULT_SIZES\<close>: the default Android and root sizes of a mode.\<close>

definition DEFAULT_SIZES :: "string \<Rightarrow> (string \<times> string) option" where
  "DEFAULT_SIZES mode = (if mode = ''dual'' then Some (''96G'', ''32G'')
                         else if mode = ''linux-only'' then Some (''0'', ''32G'') else None)"

text \<open>\<^verbatim>\<open>resolve_sizes\<close>; the argument parser admits no other mode than the two.\<close>

definition resolve_sizes ::
  "string \<Rightarrow> string option \<Rightarrow> string option \<Rightarrow> int \<Rightarrow> layout_error + int \<times> int" where
  "resolve_sizes mode android root_req region =
     (case DEFAULT_SIZES mode of
        None \<Rightarrow> Inl (UnknownMode mode)
      | Some (default_android, default_root) \<Rightarrow>
          ebind (parse_size (case android of None \<Rightarrow> default_android | Some a \<Rightarrow> a) region) (\<lambda>a.
          ebind (parse_size (case root_req of None \<Rightarrow> default_root | Some r \<Rightarrow> r) region) (\<lambda>r.
          Inr (a, r))))"

subsection \<open>What table is this\<close>

definition last_partition :: "Disk \<Rightarrow> Partition option" where
  "last_partition d = (if partitions d = [] then None else Some (last (partitions d)))"

definition classify :: "Disk \<Rightarrow> layout_error + string" where
  "classify d =
     ebind (by_name d USERDATA_NAME) (\<lambda>userdata.
     ebind (by_name d ROOT_NAME) (\<lambda>root.
     ebind (by_name d HOME_NAME) (\<lambda>home.
     Inr (if root \<noteq> None then
            (case last_partition d of
               Some l \<Rightarrow> if p_name l \<in> {ROOT_NAME, HOME_NAME} then ''split'' else ''unknown''
             | None \<Rightarrow> ''unknown'')
          else if home \<noteq> None then ''unknown''
          else (case userdata of
                  Some u \<Rightarrow> if last_partition d = Some u
                                \<and> length (partitions d) = STOCK_PARTITION_COUNT
                                \<and> p_last_sector u = last_usable d then ''stock'' else ''unknown''
                | None \<Rightarrow> ''unknown'')))))"

definition check_stock_device :: "Disk \<Rightarrow> layout_error + unit" where
  "check_stock_device d =
     ebind (require (sector_size d = DEVICE_SECTOR_SIZE) (WrongSectorSize (sector_size d))) (\<lambda>_.
     ebind (require (length (partitions d) = STOCK_PARTITION_COUNT)
              (WrongPartitionCount (length (partitions d)))) (\<lambda>_.
     ebind (by_name d USERDATA_NAME) (\<lambda>userdata.
     case userdata of
       None \<Rightarrow> Inl UserdataNotLast
     | Some u \<Rightarrow>
         ebind (require (last_partition d = Some u) UserdataNotLast) (\<lambda>_.
         ebind (require (p_last_sector u = last_usable d) UserdataNotToEnd) (\<lambda>_.
         let free = entry_count d - int (length (partitions d))
         in require (\<not> free < 2) (TooFewEntries free))))))"

subsection \<open>The plan\<close>

record Entry =
  e_number :: int
  e_name :: string
  e_start :: int \<comment> \<open>inclusive byte offset\<close>
  e_end :: int \<comment> \<open>exclusive byte offset\<close>
  e_action :: string
  e_detail :: string

definition e_size :: "Entry \<Rightarrow> int" where
  "e_size e = e_end e - e_start e"

definition e_first_sector :: "Entry \<Rightarrow> int \<Rightarrow> int" where
  "e_first_sector e ss = e_start e div ss"

definition e_last_sector :: "Entry \<Rightarrow> int \<Rightarrow> int" where
  "e_last_sector e ss = e_end e div ss - 1"

record Plan =
  pl_mode :: string
  pl_disk :: Disk
  pl_entries :: "Entry list"
  region_start :: int
  region_end :: int
  pl_keep_home :: bool

definition plan_entry :: "Plan \<Rightarrow> string \<Rightarrow> Entry option" where
  "plan_entry pl n = find (\<lambda>e. e_name e = n) (pl_entries pl)"

definition ljust :: "nat \<Rightarrow> string \<Rightarrow> string" where
  "ljust w s = s @ replicate (w - length s) (CHR '' '')"

definition rjust :: "nat \<Rightarrow> string \<Rightarrow> string" where
  "rjust w s = replicate (w - length s) (CHR '' '') @ s"

definition plan_table :: "Plan \<Rightarrow> string list" where
  "plan_table pl =
     (let ss = sector_size (pl_disk pl)
      in [ljust 12 ''Partition'' @ '' '' @ rjust 15 ''Start (sector)'' @ '' '' @ rjust 12 ''Size''
            @ ''  Action'',
          replicate 12 (CHR ''-'') @ '' '' @ replicate 15 (CHR ''-'') @ '' ''
            @ replicate 12 (CHR ''-'') @ ''  '' @ replicate 40 (CHR ''-'')]
         @ map (\<lambda>item.
             (let start = (if e_action item = ''delete'' then ''-'' else str_int (e_first_sector item ss));
                  sz = (if e_action item = ''delete'' then ''-'' else human (e_size item))
              in ljust 12 (e_name item) @ '' '' @ rjust 15 start @ '' '' @ rjust 12 sz @ ''  ''
                 @ e_detail item)) (pl_entries pl))"

text \<open>The final loop of \<^verbatim>\<open>plan_layout\<close>: every entry that is kept or created lies in
  the region and is a whole number of sectors.\<close>

definition check_entry :: "int \<Rightarrow> int \<Rightarrow> int \<Rightarrow> Entry \<Rightarrow> layout_error + unit" where
  "check_entry r_start r_end ss item =
     (if e_action item = ''delete'' then Inr ()
      else if r_end < e_end item \<or> e_start item < r_start then Inl OutsideUsable
      else if e_start item mod ss \<noteq> 0 \<or> e_end item mod ss \<noteq> 0 then Inl NotWholeSectors
      else Inr ())"

definition plan_layout :: "Disk \<Rightarrow> string \<Rightarrow> int \<Rightarrow> int \<Rightarrow> bool \<Rightarrow> layout_error + Plan" where
  "plan_layout d mode android root_sz keep_home =
     ebind (require (mode \<in> set MODES) (UnknownMode mode)) (\<lambda>_.
     ebind (by_name d USERDATA_NAME) (\<lambda>found.
     case found of None \<Rightarrow> Inl NoUserdata | Some userdata \<Rightarrow>
     (let r_start = p_start userdata; r_end = usable_end d in
     ebind (require (\<not> (mode = ''dual'' \<and> android = 0)) DualNeedsAndroid) (\<lambda>_.
     ebind (require (\<not> (android \<noteq> 0 \<and> android < MIN_ANDROID)) (AndroidTooSmall android)) (\<lambda>_.
     ebind (require (\<not> root_sz < MIN_ROOT) (RootTooSmall root_sz)) (\<lambda>_.
     (let first =
            (if android \<noteq> 0 then
               \<lparr>e_number = p_number userdata, e_name = USERDATA_NAME, e_start = r_start,
                e_end = align_up (r_start + android), e_action = ''shrink'',
                e_detail = ''shrink from '' @ human (p_size userdata)
                  @ '' (keep type GUID, unique GUID and attributes)''\<rparr>
             else
               \<lparr>e_number = p_number userdata, e_name = USERDATA_NAME, e_start = r_start,
                e_end = r_end, e_action = ''delete'',
                e_detail = ''delete (Ubuntu takes the whole tail; no Android data partition)''\<rparr>);
          cursor = (if android \<noteq> 0 then e_end first else align_up r_start);
          root_end = align_up (cursor + root_sz)
      in ebind (require (\<not> r_end < root_end + MIN_HOME) TooLittleForHome) (\<lambda>_.
         let entries =
               [first,
                \<lparr>e_number = ROOT_NUMBER, e_name = ROOT_NAME, e_start = cursor, e_end = root_end,
                 e_action = ''create'',
                 e_detail = ''create ext4 LABEL='' @ ROOT_LABEL @ '' (Ubuntu system)''\<rparr>,
                \<lparr>e_number = HOME_NUMBER, e_name = HOME_NAME, e_start = root_end, e_end = r_end,
                 e_action = ''create'',
                 e_detail = ''create ext4 LABEL='' @ HOME_LABEL @ '' (mounted at /home)''\<rparr>]
         in ebind (require (\<not> e_size (last entries) < MIN_HOME) (HomeTooSmall (e_size (last entries)))) (\<lambda>_.
            ebind (each (check_entry r_start r_end (sector_size d)) entries) (\<lambda>_.
            Inr \<lparr>pl_mode = mode, pl_disk = d, pl_entries = entries, region_start = r_start,
                 region_end = r_end, pl_keep_home = keep_home\<rparr>))))))))))"

subsection \<open>The \<^verbatim>\<open>sgdisk\<close> invocation\<close>

record PartInfo =
  i_typecode :: string
  i_guid :: string
  i_first_sector :: int
  i_last_sector :: int
  i_attributes :: string
  i_name :: string

definition new_arg :: "int \<Rightarrow> Entry \<Rightarrow> string" where
  "new_arg ss e = ''--new='' @ str_int (e_number e) @ '':'' @ str_int (e_first_sector e ss) @ '':''
     @ str_int (e_last_sector e ss)"

definition delete_arg :: "Entry \<Rightarrow> string" where
  "delete_arg e = ''--delete='' @ str_int (e_number e)"

definition num_arg :: "string \<Rightarrow> Entry \<Rightarrow> string \<Rightarrow> string" where
  "num_arg option e v = option @ str_int (e_number e) @ '':'' @ v"

definition sgdisk_arguments :: "Plan \<Rightarrow> string \<Rightarrow> PartInfo \<Rightarrow> layout_error + string list" where
  "sgdisk_arguments pl device info =
     (let ss = sector_size (pl_disk pl) in
      case plan_entry pl USERDATA_NAME of
        None \<Rightarrow> Inl (Missing USERDATA_NAME)
      | Some userdata \<Rightarrow>
          ebind (if e_action userdata = ''delete'' then Inr []
                 else if e_first_sector userdata ss \<noteq> i_first_sector info then Inl UserdataWouldMove
                 else Inr [new_arg ss userdata,
                           num_arg ''--typecode='' userdata (i_typecode info),
                           num_arg ''--partition-guid='' userdata (i_guid info),
                           num_arg ''--change-name='' userdata USERDATA_NAME,
                           num_arg ''--attributes='' userdata (''=:'' @ i_attributes info)])
            (\<lambda>kept. Inr
              ([''--set-alignment=1'', delete_arg userdata] @ kept
               @ concat (map (\<lambda>item.
                   if e_name item = USERDATA_NAME then []
                   else [new_arg ss item, num_arg ''--typecode='' item LINUX_TYPECODE,
                         num_arg ''--change-name='' item (e_name item)]) (pl_entries pl))
               @ [device])))"

subsection \<open>Verifying the edited table\<close>

definition verify_entry :: "Disk \<Rightarrow> Entry \<Rightarrow> layout_error + unit" where
  "verify_entry d item =
     ebind (by_name d (e_name item)) (\<lambda>found.
     if e_action item = ''delete'' then require (found = None) (StillExists (e_name item))
     else (case found of
             None \<Rightarrow> Inl (Missing (e_name item))
           | Some p \<Rightarrow>
               require (\<not> (p_first_sector p \<noteq> e_first_sector item (sector_size d)
                          \<or> p_last_sector p \<noteq> e_last_sector item (sector_size d)))
                 (LandedElsewhere (e_name item) (p_first_sector p) (p_last_sector p))))"

definition verify_applied :: "Disk \<Rightarrow> Plan \<Rightarrow> layout_error + bool" where
  "verify_applied d pl = ebind (each (verify_entry d) (pl_entries pl)) (\<lambda>_. Inr True)"

definition info_fields :: "(string \<times> (PartInfo \<Rightarrow> string)) list" where
  "info_fields =
     [(''typecode'', i_typecode), (''guid'', i_guid), (''attributes'', i_attributes),
      (''name'', i_name), (''first_sector'', \<lambda>i. str_int (i_first_sector i))]"

definition verify_preserved :: "PartInfo \<Rightarrow> PartInfo \<Rightarrow> layout_error + bool" where
  "verify_preserved before after =
     ebind (each (\<lambda>(field, get).
         require (map lower_char (get before) = map lower_char (get after)) (FieldChanged field))
       info_fields) (\<lambda>_. Inr True)"

end
