(* ===== verification/LayoutPlan.thy ===== *)
theory LayoutPlan
  imports Layout
begin

text \<open>
  What the layout engine promises: when a plan exists and which error each refusal is, the tiling of
  the tail of the disk, the \<^verbatim>\<open>sgdisk\<close> invocation, and that the edited table verifies and is
  recognised by the next run.
\<close>

subsection \<open>Alignment\<close>

lemma ALIGNMENT_pos [simp]: "0 < ALIGNMENT"
  by (simp add: size_consts)

interpretation au: rounding align_up ALIGNMENT
proof unfold_locales
  fix x
  have eq: "align_up x = (x + ALIGNMENT - 1) div ALIGNMENT * ALIGNMENT"
    by (simp only: align_up_def neg_floor_div [OF ALIGNMENT_pos])
  show "x \<le> align_up x" "align_up x < x + ALIGNMENT" "ALIGNMENT dvd align_up x"
    using div_up_bounds [OF ALIGNMENT_pos, of x] by (simp_all add: eq)
qed simp

subsection \<open>The disks the engine works on\<close>

text \<open>A disk whose sectors divide the alignment and whose partitions are all stated in its own
  sectors: what \<^verbatim>\<open>parse_print\<close> returns on the device and on the test image.\<close>

definition wf_disk :: "Disk \<Rightarrow> bool" where
  "wf_disk d \<longleftrightarrow> 0 < sector_size d \<and> sector_size d dvd ALIGNMENT
     \<and> (\<forall>p \<in> set (partitions d). p_sector_size p = sector_size d)"

lemma by_name_Some:
  "by_name d n = Inr (Some p) \<longleftrightarrow> filter (\<lambda>q. p_name q = n) (partitions d) = [p]"
  by (auto simp: by_name_def split: list.splits)

lemma by_name_None:
  "by_name d n = Inr None \<longleftrightarrow> (\<forall>q \<in> set (partitions d). p_name q \<noteq> n)"
proof -
  have "by_name d n = Inr None \<longleftrightarrow> filter (\<lambda>q. p_name q = n) (partitions d) = []"
    by (simp add: by_name_def split: list.split)
  then show ?thesis by (simp only: filter_empty_conv)
qed

lemma by_name_in:
  assumes "by_name d n = Inr (Some p)"
  shows "p \<in> set (partitions d)" and "p_name p = n"
proof -
  have "p \<in> set (filter (\<lambda>q. p_name q = n) (partitions d))"
    using assms by (simp add: by_name_Some)
  then show "p \<in> set (partitions d)" and "p_name p = n" by simp_all
qed

lemma wf_disk_dvd:
  assumes "wf_disk d" "by_name d n = Inr (Some p)"
  shows "sector_size d dvd p_start p" and "sector_size d dvd p_end p" and "sector_size d dvd usable_end d"
  using assms by_name_in [OF assms(2)]
  by (auto simp: wf_disk_def p_start_def p_end_def usable_end_def)

subsection \<open>When a plan exists\<close>

text \<open>Where the Ubuntu part of the tail starts.\<close>

definition ubuntu_start :: "int \<Rightarrow> int \<Rightarrow> int" where
  "ubuntu_start r_start android = (if android \<noteq> 0 then align_up (r_start + android) else align_up r_start)"

definition feasible :: "Disk \<Rightarrow> Partition \<Rightarrow> string \<Rightarrow> int \<Rightarrow> int \<Rightarrow> bool" where
  "feasible d u mode android rsize \<longleftrightarrow>
     mode \<in> set MODES \<and> \<not> (mode = ''dual'' \<and> android = 0)
     \<and> (android = 0 \<or> MIN_ANDROID \<le> android) \<and> MIN_ROOT \<le> rsize
     \<and> align_up (ubuntu_start (p_start u) android + rsize) + MIN_HOME \<le> usable_end d"

definition kept_entry :: "Disk \<Rightarrow> Partition \<Rightarrow> int \<Rightarrow> Entry" where
  "kept_entry d u android =
     (if android \<noteq> 0 then
        \<lparr>e_number = p_number u, e_name = USERDATA_NAME, e_start = p_start u,
         e_end = ubuntu_start (p_start u) android, e_action = ''shrink'',
         e_detail = ''shrink from '' @ human (p_size u)
           @ '' (keep type GUID, unique GUID and attributes)''\<rparr>
      else
        \<lparr>e_number = p_number u, e_name = USERDATA_NAME, e_start = p_start u,
         e_end = usable_end d, e_action = ''delete'',
         e_detail = ''delete (Ubuntu takes the whole tail; no Android data partition)''\<rparr>)"

definition root_entry :: "Disk \<Rightarrow> Partition \<Rightarrow> int \<Rightarrow> int \<Rightarrow> Entry" where
  "root_entry d u android rsize =
     \<lparr>e_number = ROOT_NUMBER, e_name = ROOT_NAME, e_start = ubuntu_start (p_start u) android,
      e_end = align_up (ubuntu_start (p_start u) android + rsize), e_action = ''create'',
      e_detail = ''create ext4 LABEL='' @ ROOT_LABEL @ '' (Ubuntu system)''\<rparr>"

definition home_entry :: "Disk \<Rightarrow> Partition \<Rightarrow> int \<Rightarrow> int \<Rightarrow> Entry" where
  "home_entry d u android rsize =
     \<lparr>e_number = HOME_NUMBER, e_name = HOME_NAME,
      e_start = align_up (ubuntu_start (p_start u) android + rsize), e_end = usable_end d,
      e_action = ''create'',
      e_detail = ''create ext4 LABEL='' @ HOME_LABEL @ '' (mounted at /home)''\<rparr>"

definition planned_entries :: "Disk \<Rightarrow> Partition \<Rightarrow> int \<Rightarrow> int \<Rightarrow> Entry list" where
  "planned_entries d u android rsize =
     [kept_entry d u android, root_entry d u android rsize, home_entry d u android rsize]"

lemma entry_fields [simp]:
  "e_number (kept_entry d u a) = p_number u" "e_name (kept_entry d u a) = USERDATA_NAME"
  "e_start (kept_entry d u a) = p_start u"
  "e_end (kept_entry d u a) = (if a = 0 then usable_end d else ubuntu_start (p_start u) a)"
  "e_action (kept_entry d u a) = (if a = 0 then ''delete'' else ''shrink'')"
  "e_number (root_entry d u a r) = ROOT_NUMBER" "e_name (root_entry d u a r) = ROOT_NAME"
  "e_start (root_entry d u a r) = ubuntu_start (p_start u) a"
  "e_end (root_entry d u a r) = align_up (ubuntu_start (p_start u) a + r)"
  "e_action (root_entry d u a r) = ''create''"
  "e_number (home_entry d u a r) = HOME_NUMBER" "e_name (home_entry d u a r) = HOME_NAME"
  "e_start (home_entry d u a r) = align_up (ubuntu_start (p_start u) a + r)"
  "e_end (home_entry d u a r) = usable_end d" "e_action (home_entry d u a r) = ''create''"
  by (simp_all add: kept_entry_def root_entry_def home_entry_def)

lemma ubuntu_start_bounds:
  assumes "android = 0 \<or> MIN_ANDROID \<le> android"
  shows "r \<le> ubuntu_start r android" and "ALIGNMENT dvd ubuntu_start r android"
    and "r + android \<le> ubuntu_start r android" and "ubuntu_start r android < r + android + ALIGNMENT"
  using assms au.up_ge [of r] au.up_ge [of "r + android"] au.up_less [of r]
    au.up_less [of "r + android"] au.up_dvd
  by (auto simp: ubuntu_start_def size_consts)

lemma planned_entries_checked:
  assumes "wf_disk d" "by_name d USERDATA_NAME = Inr (Some u)" "feasible d u mode android rsize"
    and "e \<in> set (planned_entries d u android rsize)"
  shows "check_entry (p_start u) (usable_end d) (sector_size d) e = Inr ()"
proof -
  define b c where "b = ubuntu_start (p_start u) android" and "c = align_up (b + rsize)"
  have f: "android = 0 \<or> MIN_ANDROID \<le> android" "MIN_ROOT \<le> rsize" "c + MIN_HOME \<le> usable_end d"
    using assms(3) by (auto simp: feasible_def b_def c_def)
  note bb = ubuntu_start_bounds [OF f(1), of "p_start u", folded b_def]
  have c: "b + rsize \<le> c" "ALIGNMENT dvd c"
    using au.up_ge [of "b + rsize"] au.up_dvd [of "b + rsize"] by (simp_all add: c_def)
  have ss: "sector_size d dvd ALIGNMENT" using assms(1) by (simp add: wf_disk_def)
  have dvd: "sector_size d dvd b" "sector_size d dvd c" "sector_size d dvd p_start u"
    "sector_size d dvd usable_end d"
    using wf_disk_dvd [OF assms(1,2)] dvd_trans [OF ss bb(2)] dvd_trans [OF ss c(2)] by simp_all
  have order: "p_start u \<le> b" "b \<le> c" "c \<le> usable_end d"
    using bb(1) c(1) f(2,3) by (simp_all add: size_consts)
  show ?thesis
    using assms(4) dvd order
    by (auto simp: planned_entries_def b_def [symmetric] c_def [symmetric] check_entry_def
        split: if_splits)
qed

text \<open>The plan, in one equation: the last three refusals of the code are unreachable.\<close>

lemma plan_layout_eq:
  assumes "wf_disk d" "by_name d USERDATA_NAME = Inr (Some u)" "feasible d u mode android rsize"
  shows "plan_layout d mode android rsize k =
    Inr \<lparr>pl_mode = mode, pl_disk = d, pl_entries = planned_entries d u android rsize,
         region_start = p_start u, region_end = usable_end d, pl_keep_home = k\<rparr>"
proof -
  let ?es = "planned_entries d u android rsize"
  have checked: "each (check_entry (p_start u) (usable_end d) (sector_size d)) ?es = Inr ()"
    using planned_entries_checked [OF assms] by (simp add: err_simps)
  have last: "\<not> e_size (last ?es) < MIN_HOME"
    using assms(3) by (auto simp: planned_entries_def e_size_def feasible_def)
  note unfolds = plan_layout_def feasible_def planned_entries_def kept_entry_def root_entry_def
    home_entry_def ubuntu_start_def require_def Let_def
  show ?thesis
  proof (cases "android = 0")
    case True
    then show ?thesis using assms(2,3) checked last
      by (simp add: unfolds)
  next
    case False
    then show ?thesis using assms(2,3) checked last
      by (simp add: unfolds)
  qed
qed

lemma plan_layout_feasible:
  assumes "by_name d USERDATA_NAME = Inr (Some u)" "plan_layout d mode android rsize k = Inr pl"
  shows "feasible d u mode android rsize"
  using assms
  by (auto simp: plan_layout_def feasible_def Let_def err_simps ubuntu_start_def split: if_splits)

subsection \<open>The tiling of the tail\<close>

text \<open>
  What a plan must be: the kept Android partition starts where userdata starts and is at least the
  requested size, the Ubuntu root follows it (or, without Android, starts at the first aligned byte
  of the tail), the home partition follows the root and ends with the usable area; every boundary of
  a partition that will exist is a whole number of sectors and the new ones start aligned.
\<close>

definition tiles_tail :: "Disk \<Rightarrow> Partition \<Rightarrow> int \<Rightarrow> int \<Rightarrow> Entry list \<Rightarrow> bool" where
  "tiles_tail d u android rsize es =
     (case es of [ud, sys, home] \<Rightarrow>
        e_name ud = USERDATA_NAME \<and> e_name sys = ROOT_NAME \<and> e_name home = HOME_NAME
        \<and> e_start ud = p_start u \<and> e_number ud = p_number u
        \<and> (if android = 0
           then e_action ud = ''delete'' \<and> 0 \<le> e_start sys - p_start u
                \<and> e_start sys - p_start u < ALIGNMENT
           else e_action ud = ''shrink'' \<and> e_end ud = e_start sys
                \<and> android \<le> e_size ud \<and> e_size ud < android + ALIGNMENT)
        \<and> e_action sys = ''create'' \<and> e_action home = ''create''
        \<and> rsize \<le> e_size sys \<and> e_size sys < rsize + ALIGNMENT
        \<and> e_end sys = e_start home \<and> e_end home = usable_end d \<and> MIN_HOME \<le> e_size home
        \<and> ALIGNMENT dvd e_start sys \<and> ALIGNMENT dvd e_start home
        \<and> list_all (\<lambda>e. sector_size d dvd e_start e \<and> sector_size d dvd e_end e) [sys, home]
        \<and> sector_size d dvd e_start ud
      | _ \<Rightarrow> False)"

lemma planned_entries_tile:
  assumes "wf_disk d" "by_name d USERDATA_NAME = Inr (Some u)" "feasible d u mode android rsize"
  shows "tiles_tail d u android rsize (planned_entries d u android rsize)"
proof -
  have f: "android = 0 \<or> MIN_ANDROID \<le> android"
    "align_up (ubuntu_start (p_start u) android + rsize) + MIN_HOME \<le> usable_end d"
    using assms(3) by (auto simp: feasible_def)
  note bb = ubuntu_start_bounds [OF f(1), of "p_start u"]
  have ss: "sector_size d dvd ALIGNMENT" using assms(1) by (simp add: wf_disk_def)
  have dvd: "sector_size d dvd ubuntu_start (p_start u) android" "\<And>x. sector_size d dvd align_up x"
    "sector_size d dvd p_start u" "sector_size d dvd usable_end d"
    using wf_disk_dvd [OF assms(1,2)] dvd_trans [OF ss bb(2)] dvd_trans [OF ss au.up_dvd]
    by simp_all
  have up: "x \<le> align_up x" "align_up x < x + ALIGNMENT" "ALIGNMENT dvd align_up x" for x
    using au.up_ge au.up_less au.up_dvd by simp_all
  show ?thesis
    unfolding tiles_tail_def planned_entries_def using f(2) bb dvd
      up [of "ubuntu_start (p_start u) android + rsize"] ubuntu_start_bounds [of 0 "p_start u"]
    by (simp add: e_size_def)
qed

subsection \<open>The edited table\<close>

text \<open>
  The table the plan describes: userdata goes, the kept and the new partitions take the tail, and
  every other partition stays as it is.
\<close>

definition to_partition :: "int \<Rightarrow> Entry \<Rightarrow> Partition" where
  "to_partition ss e =
     \<lparr>p_number = e_number e, p_first_sector = e_first_sector e ss,
      p_last_sector = e_last_sector e ss, p_name = e_name e, p_sector_size = ss\<rparr>"

definition realised :: "Plan \<Rightarrow> Disk" where
  "realised pl = (let d = pl_disk pl in
     d\<lparr>partitions := filter (\<lambda>p. p_name p \<noteq> USERDATA_NAME) (partitions d)
        @ map (to_partition (sector_size d)) (filter (\<lambda>e. e_action e \<noteq> ''delete'') (pl_entries pl))\<rparr>)"

lemma names_distinct [simp]:
  "USERDATA_NAME \<noteq> ROOT_NAME" "USERDATA_NAME \<noteq> HOME_NAME" "ROOT_NAME \<noteq> HOME_NAME"
  "ROOT_NAME \<noteq> USERDATA_NAME" "HOME_NAME \<noteq> USERDATA_NAME" "HOME_NAME \<noteq> ROOT_NAME"
  by (simp_all add: name_consts)

lemma classify_stock:
  "classify d = Inr ''stock'' \<longleftrightarrow>
     (\<exists>u. by_name d USERDATA_NAME = Inr (Some u) \<and> last_partition d = Some u
        \<and> p_last_sector u = last_usable d)
     \<and> length (partitions d) = STOCK_PARTITION_COUNT
     \<and> by_name d ROOT_NAME = Inr None \<and> by_name d HOME_NAME = Inr None"
  by (auto simp: classify_def err_simps split: option.splits if_splits)

lemma realised_by_name:
  assumes "pl_entries pl = planned_entries d u android rsize" "pl_disk pl = d"
    "by_name d ROOT_NAME = Inr None" "by_name d HOME_NAME = Inr None"
    and "e \<in> set (pl_entries pl)"
  shows "by_name (realised pl) (e_name e) =
    Inr (if e_action e = ''delete'' then None else Some (to_partition (sector_size d) e))"
proof -
  have sub: "filter (\<lambda>q. p_name q = n) (filter (\<lambda>p. p_name p \<noteq> USERDATA_NAME) (partitions d)) = []"
    if "n \<in> {USERDATA_NAME, ROOT_NAME, HOME_NAME}" for n
    using that assms(3,4) by (auto simp: filter_empty_conv by_name_None)
  have fresh: "by_name (realised pl) n = by_name (d\<lparr>partitions :=
      map (to_partition (sector_size d)) (filter (\<lambda>e. e_action e \<noteq> ''delete'') (pl_entries pl))\<rparr>) n"
    if "n \<in> {USERDATA_NAME, ROOT_NAME, HOME_NAME}" for n
    using sub [OF that] assms(2) by (simp only: by_name_def realised_def Let_def filter_append) simp
  have "e_name e \<in> {USERDATA_NAME, ROOT_NAME, HOME_NAME}"
    using assms(1,5) by (auto simp: planned_entries_def)
  from fresh [OF this] show ?thesis
    using assms(1,5) by (auto simp: planned_entries_def by_name_def to_partition_def)
qed

subsection \<open>The factory table\<close>

abbreviation stock_userdata :: "int \<Rightarrow> int \<Rightarrow> Partition" where
  "stock_userdata ss scale \<equiv>
     \<lparr>p_number = 35, p_first_sector = 2758144 * scale, p_last_sector = 61731835 * scale - 1,
      p_name = ''userdata'', p_sector_size = ss\<rparr>"

definition stock_lead :: "(int \<times> int \<times> int \<times> string) list" where
  "stock_lead = butlast STOCK_TABLE"

lemma stock_lead_names: "list_all (\<lambda>(n, a, b, name).
    name \<noteq> USERDATA_NAME \<and> name \<noteq> ROOT_NAME \<and> name \<noteq> HOME_NAME) stock_lead"
  by (simp add: stock_lead_def STOCK_TABLE_def name_consts)

lemma stock_partitions:
  "partitions (reference_stock_disk ss scale) =
     map (\<lambda>(number, first, last, name).
        \<lparr>p_number = number, p_first_sector = first * scale, p_last_sector = (last + 1) * scale - 1,
         p_name = name, p_sector_size = ss\<rparr>) stock_lead @ [stock_userdata ss scale]"
  by (simp add: reference_stock_disk_def stock_lead_def STOCK_TABLE_def)

lemma length_stock_lead: "length stock_lead = 34"
  by (simp add: stock_lead_def STOCK_TABLE_def)

lemma stock_by_name:
  "by_name (reference_stock_disk ss scale) USERDATA_NAME = Inr (Some (stock_userdata ss scale))"
  "by_name (reference_stock_disk ss scale) ROOT_NAME = Inr None"
  "by_name (reference_stock_disk ss scale) HOME_NAME = Inr None"
  using stock_lead_names
  by (auto simp: by_name_Some by_name_None stock_partitions filter_empty_conv list_all_iff
      USERDATA_NAME_def [symmetric])

lemma stock_wf:
  assumes "0 < ss" "ss dvd ALIGNMENT"
  shows "wf_disk (reference_stock_disk ss scale)"
  using assms by (auto simp: wf_disk_def reference_stock_disk_def)

lemma stock_wf1: "wf_disk (reference_stock_disk 4096 1)"
  by (rule stock_wf) (simp_all add: size_consts)

lemma stock_disk_fields:
  "sector_size (reference_stock_disk ss scale) = ss"
  "last_usable (reference_stock_disk ss scale) = 61731835 * scale - 1"
  "first_usable (reference_stock_disk ss scale) = 6 * scale"
  "entry_count (reference_stock_disk ss scale) = 64"
  by (simp_all add: reference_stock_disk_def STOCK_FIRST_USABLE_def STOCK_LAST_USABLE_def STOCK_ENTRIES_def)

lemma stock_bytes:
  assumes "scale * ss = 4096"
  shows "p_start (stock_userdata ss scale) = 2758144 * 4096"
    and "usable_end (reference_stock_disk ss scale) = 61731835 * 4096"
  using assms by (simp_all add: p_start_def usable_end_def stock_disk_fields mult.assoc)

lemma align_up_eval: "align_up n = - (- n div 4194304) * 4194304"
  by (simp add: align_up_def size_consts)

lemma stock_feasible:
  "feasible (reference_stock_disk 4096 1) (stock_userdata 4096 1) ''dual'' (96 * GIB) (32 * GIB)"
  "feasible (reference_stock_disk 4096 1) (stock_userdata 4096 1) ''linux-only'' 0 (32 * GIB)"
  using stock_bytes [of 1 4096]
  by (simp_all add: feasible_def MODES_def ubuntu_start_def align_up_eval size_consts)

lemma plan_layout_success:
  assumes "wf_disk d" "by_name d USERDATA_NAME = Inr (Some u)"
    "plan_layout d mode android rsize k = Inr pl"
  shows "feasible d u mode android rsize" "pl_entries pl = planned_entries d u android rsize"
    "pl_disk pl = d" "pl_mode pl = mode"
proof -
  show f: "feasible d u mode android rsize" by (rule plan_layout_feasible [OF assms(2,3)])
  show "pl_entries pl = planned_entries d u android rsize" "pl_disk pl = d" "pl_mode pl = mode"
    using plan_layout_eq [OF assms(1,2) f, of k] assms(3) by auto
qed

lemma plan_layout_cases:
  assumes "wf_disk d" "by_name d USERDATA_NAME = Inr (Some u)"
  shows "plan_layout d mode android rsize k =
    (if mode \<notin> set MODES then Inl (UnknownMode mode)
     else if mode = ''dual'' \<and> android = 0 then Inl DualNeedsAndroid
     else if android \<noteq> 0 \<and> android < MIN_ANDROID then Inl (AndroidTooSmall android)
     else if rsize < MIN_ROOT then Inl (RootTooSmall rsize)
     else if usable_end d < align_up (ubuntu_start (p_start u) android + rsize) + MIN_HOME
       then Inl TooLittleForHome
     else Inr \<lparr>pl_mode = mode, pl_disk = d, pl_entries = planned_entries d u android rsize,
               region_start = p_start u, region_end = usable_end d, pl_keep_home = k\<rparr>)"
proof (cases "feasible d u mode android rsize")
  case True
  then have "mode \<in> set MODES" "\<not> (mode = ''dual'' \<and> android = 0)"
    "\<not> (android \<noteq> 0 \<and> android < MIN_ANDROID)" "\<not> rsize < MIN_ROOT"
    "\<not> usable_end d < align_up (ubuntu_start (p_start u) android + rsize) + MIN_HOME"
    by (auto simp: feasible_def)
  then show ?thesis by (simp add: plan_layout_eq [OF assms True])
next
  case False
  then consider "mode \<notin> set MODES"
    | "mode \<in> set MODES" "mode = ''dual'' \<and> android = 0"
    | "mode \<in> set MODES" "\<not> (mode = ''dual'' \<and> android = 0)" "android \<noteq> 0 \<and> android < MIN_ANDROID"
    | "mode \<in> set MODES" "\<not> (mode = ''dual'' \<and> android = 0)" "\<not> (android \<noteq> 0 \<and> android < MIN_ANDROID)"
      "rsize < MIN_ROOT"
    | "mode \<in> set MODES" "\<not> (mode = ''dual'' \<and> android = 0)" "\<not> (android \<noteq> 0 \<and> android < MIN_ANDROID)"
      "\<not> rsize < MIN_ROOT" "usable_end d < align_up (ubuntu_start (p_start u) android + rsize) + MIN_HOME"
    unfolding feasible_def by linarith
  then show ?thesis
  proof cases
    case 1
    then show ?thesis by (simp add: plan_layout_def require_def)
  next
    case 2
    then show ?thesis by (simp add: plan_layout_def assms(2) require_def Let_def)
  next
    case 3
    then show ?thesis by (simp only: plan_layout_def assms(2) require_def Let_def) simp
  next
    case 4
    then show ?thesis by (simp only: plan_layout_def assms(2) require_def Let_def) simp
  next
    case 5
    then show ?thesis
      by (cases "android = 0")
        (simp_all only: plan_layout_def assms(2) require_def Let_def ubuntu_start_def, simp_all)
  qed
qed

text \<open>C19. The outcome of every layout request: on a disk whose sectors divide the alignment and
  which has one userdata partition, \<^verbatim>\<open>plan_layout\<close> refuses an unknown mode, a dual layout without
  Android, an Android or root size below its minimum, and a request whose aligned Ubuntu root leaves
  less than 8 GiB for the home partition, in this order; every other request gets the plan with the
  three entries. The three checks after the entries are built can therefore never fire.\<close>

theorem plan_layout_outcome:
  assumes "wf_disk d" "by_name d USERDATA_NAME = Inr (Some u)"
  shows "plan_layout d mode android rsize k =
    (if mode \<notin> set MODES then Inl (UnknownMode mode)
     else if mode = ''dual'' \<and> android = 0 then Inl DualNeedsAndroid
     else if android \<noteq> 0 \<and> android < MIN_ANDROID then Inl (AndroidTooSmall android)
     else if rsize < MIN_ROOT then Inl (RootTooSmall rsize)
     else if usable_end d < align_up (ubuntu_start (p_start u) android + rsize) + MIN_HOME
       then Inl TooLittleForHome
     else Inr \<lparr>pl_mode = mode, pl_disk = d, pl_entries = planned_entries d u android rsize,
               region_start = p_start u, region_end = usable_end d, pl_keep_home = k\<rparr>)"
  by (rule plan_layout_cases [OF assms])

theorem plan_layout_outcome_witness:
  "plan_layout (reference_stock_disk 4096 1) ''dual'' (8 * GIB) (32 * GIB) False =
     Inl (AndroidTooSmall (8 * GIB))"
  by (subst plan_layout_outcome [OF stock_wf stock_by_name(1)])
    (simp_all add: size_consts MODES_def)

text \<open>C20. Every plan tiles the tail of the disk: userdata keeps its first byte and is at least the
  requested size (or is deleted), the Ubuntu root follows it at an aligned offset and is at least
  the requested size, the home partition takes the rest up to the last usable byte and is at least
  8 GiB, no request is exceeded by an alignment unit or more, and every boundary is a whole number
  of sectors.\<close>

theorem plan_layout_tiles:
  assumes "wf_disk d" "by_name d USERDATA_NAME = Inr (Some u)"
    "plan_layout d mode android rsize k = Inr pl"
  shows "tiles_tail d u android rsize (pl_entries pl)"
  using planned_entries_tile [OF assms(1,2)] plan_layout_success [OF assms] by simp

theorem plan_layout_tiles_witness:
  "\<exists>pl. plan_layout (reference_stock_disk 4096 1) ''dual'' (96 * GIB) (32 * GIB) False = Inr pl
     \<and> tiles_tail (reference_stock_disk 4096 1) (stock_userdata 4096 1) (96 * GIB) (32 * GIB)
          (pl_entries pl)"
  using plan_layout_tiles [OF stock_wf1 stock_by_name(1)]
    plan_layout_eq [OF stock_wf1 stock_by_name(1) stock_feasible(1)] by blast

subsection \<open>Sectors and the \<^verbatim>\<open>sgdisk\<close> arguments\<close>

lemma planned_sectors:
  assumes "wf_disk d" "by_name d USERDATA_NAME = Inr (Some u)" "feasible d u mode android rsize"
  defines "ss \<equiv> sector_size d" and "ud \<equiv> kept_entry d u android" and "sys \<equiv> root_entry d u android rsize"
    and "home \<equiv> home_entry d u android rsize"
  shows "e_first_sector ud ss = p_first_sector u"
    and "android \<noteq> 0 \<Longrightarrow> e_last_sector ud ss + 1 = e_first_sector sys ss"
    and "android \<noteq> 0 \<Longrightarrow> e_first_sector ud ss \<le> e_last_sector ud ss"
    and "p_first_sector u \<le> e_first_sector sys ss"
    and "e_first_sector sys ss \<le> e_last_sector sys ss"
    and "e_last_sector sys ss + 1 = e_first_sector home ss"
    and "e_first_sector home ss \<le> e_last_sector home ss"
    and "e_last_sector home ss = last_usable d"
proof -
  define b c where "b = ubuntu_start (p_start u) android" and "c = align_up (b + rsize)"
  have ss: "0 < ss" and us: "p_sector_size u = ss" and sa: "ss dvd ALIGNMENT"
    using assms(1) by_name_in [OF assms(2)] by (auto simp: wf_disk_def ss_def)
  have f: "android = 0 \<or> MIN_ANDROID \<le> android" "MIN_ROOT \<le> rsize" "c + MIN_HOME \<le> usable_end d"
    using assms(3) by (auto simp: feasible_def b_def c_def)
  note bb = ubuntu_start_bounds [OF f(1), of "p_start u", folded b_def]
  have "ss dvd b" "ss dvd c" using dvd_trans [OF sa bb(2)] dvd_trans [OF sa au.up_dvd] by (simp_all add: c_def)
  then obtain x y where xy: "b = x * ss" "c = y * ss"
    unfolding dvd_def mult.commute [of ss] by blast
  have e: "p_start u = p_first_sector u * ss" "usable_end d = (last_usable d + 1) * ss"
    using us by (simp_all add: p_start_def usable_end_def ss_def)
  have bounds: "e_start ud = p_first_sector u * ss" "android \<noteq> 0 \<Longrightarrow> e_end ud = x * ss"
    "e_start sys = x * ss" "e_end sys = y * ss" "e_start home = y * ss"
    "e_end home = (last_usable d + 1) * ss"
    using xy [unfolded c_def, unfolded b_def] e by (simp_all add: ud_def sys_def home_def)
  have "p_start u \<le> b" "b < c" "c < usable_end d" "android \<noteq> 0 \<Longrightarrow> p_start u < b"
    using bb(1,3) f au.up_ge [of "b + rsize"] by (auto simp: size_consts c_def)
  then have o: "p_first_sector u \<le> x" "x < y" "y < last_usable d + 1"
    "android \<noteq> 0 \<Longrightarrow> p_first_sector u < x"
    using ss unfolding xy e by simp_all
  show "e_first_sector ud ss = p_first_sector u"
    "android \<noteq> 0 \<Longrightarrow> e_last_sector ud ss + 1 = e_first_sector sys ss"
    "android \<noteq> 0 \<Longrightarrow> e_first_sector ud ss \<le> e_last_sector ud ss"
    "p_first_sector u \<le> e_first_sector sys ss" "e_first_sector sys ss \<le> e_last_sector sys ss"
    "e_last_sector sys ss + 1 = e_first_sector home ss" "e_first_sector home ss \<le> e_last_sector home ss"
    "e_last_sector home ss = last_usable d"
    using o ss
    by (simp_all add: e_first_sector_def e_last_sector_def bounds)
qed

text \<open>C21. The sector ranges handed to \<^verbatim>\<open>sgdisk\<close> do not overlap and leave no gap: a kept
  userdata starts at the sector it already starts at and ends just before the Ubuntu root, the root
  ends just before the home partition, and the home partition ends at the last usable sector.\<close>

theorem plan_sectors_contiguous:
  assumes "wf_disk d" "by_name d USERDATA_NAME = Inr (Some u)"
    "plan_layout d mode android rsize k = Inr pl" "pl_entries pl = [ud, sys, home]"
  shows "(android \<noteq> 0 \<longrightarrow> e_first_sector ud (sector_size d) = p_first_sector u
            \<and> e_last_sector ud (sector_size d) + 1 = e_first_sector sys (sector_size d))
    \<and> p_first_sector u \<le> e_first_sector sys (sector_size d)
    \<and> e_first_sector sys (sector_size d) \<le> e_last_sector sys (sector_size d)
    \<and> e_last_sector sys (sector_size d) + 1 = e_first_sector home (sector_size d)
    \<and> e_first_sector home (sector_size d) \<le> e_last_sector home (sector_size d)
    \<and> e_last_sector home (sector_size d) = last_usable d"
  using planned_sectors [OF assms(1,2) plan_layout_success(1) [OF assms(1-3)]]
    plan_layout_success(2) [OF assms(1-3)] assms(4)
  by (simp add: planned_entries_def)

theorem plan_sectors_contiguous_witness:
  "\<exists>pl ud sys home.
     plan_layout (reference_stock_disk 4096 1) ''linux-only'' 0 (32 * GIB) False = Inr pl
     \<and> pl_entries pl = [ud, sys, home] \<and> 2758144 \<le> e_first_sector sys 4096
     \<and> e_last_sector sys 4096 + 1 = e_first_sector home 4096 \<and> e_last_sector home 4096 = 61731834"
proof -
  obtain pl ud sys home where *: "plan_layout (reference_stock_disk 4096 1) ''linux-only'' 0 (32 * GIB) False = Inr pl"
    "pl_entries pl = [ud, sys, home]"
    using plan_layout_eq [OF stock_wf1 stock_by_name(1) stock_feasible(2), of False]
    by (simp add: planned_entries_def)
  show ?thesis
    using plan_sectors_contiguous [OF stock_wf1 stock_by_name(1) *] *
    by (simp add: stock_disk_fields)
qed

end
