(* ===== verification/LayoutEdit.thy ===== *)
theory LayoutEdit
  imports LayoutPlan
begin

text \<open>
  The edit of the table: the one \<^verbatim>\<open>sgdisk\<close> invocation a plan is rendered to, what a table that
  passes \<^verbatim>\<open>verify_applied\<close> is, and that the table the plan describes passes it, keeps every
  other partition, has no overlap and is recognised by the next run.
\<close>

subsection \<open>The invocation\<close>

definition starts :: "string \<Rightarrow> string \<Rightarrow> bool" where
  "starts pre s \<longleftrightarrow> take (length pre) s = pre"

definition identity_arguments :: "Partition \<Rightarrow> PartInfo \<Rightarrow> Entry \<Rightarrow> string list" where
  "identity_arguments u info ud =
     [num_arg ''--typecode='' ud (i_typecode info), num_arg ''--partition-guid='' ud (i_guid info),
      num_arg ''--change-name='' ud USERDATA_NAME,
      num_arg ''--attributes='' ud (''=:'' @ i_attributes info)]"

lemma plan_entry_userdata:
  assumes "pl_entries pl = planned_entries d u android rsize"
  shows "plan_entry pl USERDATA_NAME = Some (kept_entry d u android)"
  using assms by (simp add: plan_entry_def planned_entries_def)

lemma kept_first_sector:
  assumes "wf_disk d" "by_name d USERDATA_NAME = Inr (Some u)"
  shows "e_first_sector (kept_entry d u android) (sector_size d) = p_first_sector u"
  using assms(1) by_name_in [OF assms(2)]
  by (auto simp: wf_disk_def e_first_sector_def p_start_def)

lemma sgdisk_arguments_eq:
  assumes "wf_disk d" "by_name d USERDATA_NAME = Inr (Some u)"
    "plan_layout d mode android rsize k = Inr pl"
  shows "sgdisk_arguments pl device info =
    (let ss = sector_size d; ud = kept_entry d u android; sys = root_entry d u android rsize;
         home = home_entry d u android rsize in
     if android \<noteq> 0 \<and> i_first_sector info \<noteq> p_first_sector u then Inl UserdataWouldMove
     else Inr ([''--set-alignment=1'', delete_arg ud]
       @ (if android = 0 then [] else new_arg ss ud # identity_arguments u info ud)
       @ [new_arg ss sys, num_arg ''--typecode='' sys LINUX_TYPECODE, num_arg ''--change-name='' sys ROOT_NAME,
          new_arg ss home, num_arg ''--typecode='' home LINUX_TYPECODE,
          num_arg ''--change-name='' home HOME_NAME, device]))"
proof -
  note s = plan_layout_success [OF assms]
  show ?thesis
    by (simp add: sgdisk_arguments_def Let_def plan_entry_userdata [OF s(2)] s(3)
        kept_first_sector [OF assms(1,2)] identity_arguments_def)
      (simp add: s(2) planned_entries_def)
qed

lemma starts_args [simp]:
  "starts ''--new='' (new_arg ss e)"
  "\<not> starts ''--delete='' (new_arg ss e)"
  "\<not> starts ''--new='' (num_arg ''--typecode='' e v)" "\<not> starts ''--delete='' (num_arg ''--typecode='' e v)"
  "\<not> starts ''--new='' (num_arg ''--partition-guid='' e v)"
  "\<not> starts ''--delete='' (num_arg ''--partition-guid='' e v)"
  "\<not> starts ''--new='' (num_arg ''--change-name='' e v)"
  "\<not> starts ''--delete='' (num_arg ''--change-name='' e v)"
  "\<not> starts ''--new='' (num_arg ''--attributes='' e v)"
  "\<not> starts ''--delete='' (num_arg ''--attributes='' e v)"
  "starts ''--delete='' (delete_arg e)" "\<not> starts ''--new='' (delete_arg e)"
  "\<not> starts ''--new='' ''--set-alignment=1''" "\<not> starts ''--delete='' ''--set-alignment=1''"
  by (simp_all add: starts_def new_arg_def num_arg_def delete_arg_def)



subsection \<open>The edited table\<close>

text \<open>A table in order: no overlap, every partition inside the usable range.\<close>

definition ordered_table :: "Disk \<Rightarrow> bool" where
  "ordered_table d \<longleftrightarrow> sorted_wrt (\<lambda>p q. p_last_sector p < p_first_sector q) (partitions d)
     \<and> (\<forall>p \<in> set (partitions d). first_usable d \<le> p_first_sector p
          \<and> p_first_sector p \<le> p_last_sector p \<and> p_last_sector p \<le> last_usable d)"

lemma last_partition_Some:
  "last_partition d = Some u \<longleftrightarrow> (\<exists>ps. partitions d = ps @ [u])"
  by (cases "partitions d" rule: rev_cases) (auto simp: last_partition_def)

lemma stock_split:
  assumes "by_name d USERDATA_NAME = Inr (Some u)" "last_partition d = Some u"
  obtains ps where "partitions d = ps @ [u]" "\<forall>p \<in> set ps. p_name p \<noteq> USERDATA_NAME"
    "filter (\<lambda>p. p_name p \<noteq> USERDATA_NAME) (partitions d) = ps" "p_name u = USERDATA_NAME"
proof -
  obtain ps where ps: "partitions d = ps @ [u]" using assms(2) by (auto simp: last_partition_Some)
  have u: "p_name u = USERDATA_NAME" using by_name_in [OF assms(1)] by simp
  then have "filter (\<lambda>q. p_name q = USERDATA_NAME) ps = []"
    using assms(1) ps by (simp add: by_name_Some)
  then have no: "\<forall>p \<in> set ps. p_name p \<noteq> USERDATA_NAME" by (simp only: filter_empty_conv)
  then show thesis using that [OF ps no] u ps by (simp add: filter_True)
qed

lemma realised_partitions:
  assumes "pl_entries pl = planned_entries d u android rsize" "pl_disk pl = d"
    "filter (\<lambda>p. p_name p \<noteq> USERDATA_NAME) (partitions d) = ps"
  shows "partitions (realised pl) = ps
      @ (if android = 0 then [] else [to_partition (sector_size d) (kept_entry d u android)])
      @ [to_partition (sector_size d) (root_entry d u android rsize),
         to_partition (sector_size d) (home_entry d u android rsize)]"
  using assms by (simp add: realised_def Let_def planned_entries_def)

lemma realised_fields [simp]:
  "sector_size (realised pl) = sector_size (pl_disk pl)"
  "first_usable (realised pl) = first_usable (pl_disk pl)"
  "last_usable (realised pl) = last_usable (pl_disk pl)"
  by (simp_all add: realised_def Let_def)

lemma realised_ordered:
  assumes "wf_disk d" "by_name d USERDATA_NAME = Inr (Some u)" "last_partition d = Some u"
    "plan_layout d mode android rsize k = Inr pl" "ordered_table d"
  shows "ordered_table (realised pl)"
proof -
  note s = plan_layout_success [OF assms(1,2,4)]
  obtain ps where ps: "partitions d = ps @ [u]" "filter (\<lambda>p. p_name p \<noteq> USERDATA_NAME) (partitions d) = ps"
    using stock_split [OF assms(2,3)] by metis
  note q = planned_sectors [OF assms(1,2) s(1)]
  have lead: "sorted_wrt (\<lambda>p q. p_last_sector p < p_first_sector q) ps"
    "\<forall>p \<in> set ps. p_last_sector p < p_first_sector u"
    "\<forall>p \<in> set ps. first_usable d \<le> p_first_sector p \<and> p_first_sector p \<le> p_last_sector p
       \<and> p_last_sector p \<le> last_usable d" "first_usable d \<le> p_first_sector u"
    using assms(5) ps(1) by (auto simp: ordered_table_def sorted_wrt_append)
  show ?thesis
  proof (cases "android = 0")
    case True
    then show ?thesis unfolding ordered_table_def realised_partitions [OF s(2,3) ps(2)]
      using lead q s(3) by (fastforce simp: sorted_wrt_append to_partition_def)
  next
    case False
    then show ?thesis unfolding ordered_table_def realised_partitions [OF s(2,3) ps(2)]
      using lead q s(3) by (fastforce simp: sorted_wrt_append to_partition_def)
  qed
qed

lemma realised_verify:
  assumes "pl_entries pl = planned_entries d u android rsize" "pl_disk pl = d"
    "by_name d ROOT_NAME = Inr None" "by_name d HOME_NAME = Inr None"
  shows "verify_applied (realised pl) pl = Inr True"
proof -
  have "verify_entry (realised pl) e = Inr ()" if "e \<in> set (pl_entries pl)" for e
    using realised_by_name [OF assms that] assms(2)
    by (auto simp: verify_entry_def to_partition_def)
  then have "each (verify_entry (realised pl)) (pl_entries pl) = Inr ()"
    by (simp add: err_simps)
  then show ?thesis by (simp add: verify_applied_def)
qed

text \<open>C23. The table the plan of an untouched tablet describes is accepted: it passes
  \<^verbatim>\<open>verify_applied\<close>, every partition but userdata is kept as it was, a table without overlaps
  stays one, and the next run of the installer recognises it as a split table.\<close>

theorem realised_table_accepted:
  assumes "wf_disk d" "classify d = Inr ''stock''" "plan_layout d mode android rsize k = Inr pl"
  shows "verify_applied (realised pl) pl = Inr True
    \<and> filter (\<lambda>p. p_name p \<notin> {USERDATA_NAME, ROOT_NAME, HOME_NAME}) (partitions (realised pl))
        = butlast (partitions d)
    \<and> (ordered_table d \<longrightarrow> ordered_table (realised pl))
    \<and> classify (realised pl) = Inr ''split''"
proof -
  obtain u where u: "by_name d USERDATA_NAME = Inr (Some u)" "last_partition d = Some u"
    and none: "by_name d ROOT_NAME = Inr None" "by_name d HOME_NAME = Inr None"
    using assms(2) by (auto simp: classify_stock)
  note s = plan_layout_success [OF assms(1) u(1) assms(3)]
  obtain ps where ps: "partitions d = ps @ [u]" "\<forall>p \<in> set ps. p_name p \<noteq> USERDATA_NAME"
    "filter (\<lambda>p. p_name p \<noteq> USERDATA_NAME) (partitions d) = ps"
    using stock_split [OF u] by metis
  note parts = realised_partitions [OF s(2,3) ps(3)]
  note named = realised_by_name [OF s(2,3) none]
  have "filter (\<lambda>p. p_name p \<notin> {USERDATA_NAME, ROOT_NAME, HOME_NAME}) ps = ps"
    using ps(1,2) none by (intro filter_True) (auto simp: by_name_None)
  then have "filter (\<lambda>p. p_name p \<notin> {USERDATA_NAME, ROOT_NAME, HOME_NAME}) (partitions (realised pl))
      = butlast (partitions d)"
    by (simp add: parts ps(1) to_partition_def)
  moreover have "classify (realised pl) = Inr ''split''"
    using named [of "kept_entry d u android"] named [of "root_entry d u android rsize"]
      named [of "home_entry d u android rsize"]
    by (simp add: s(2) planned_entries_def classify_def last_partition_def parts to_partition_def)
  ultimately show ?thesis
    using realised_verify [OF s(2,3) none] realised_ordered [OF assms(1) u assms(3)] by blast
qed

lemma stock_last: "last_partition (reference_stock_disk ss scale) = Some (stock_userdata ss scale)"
  by (simp add: last_partition_Some stock_partitions)

lemma stock_classify: "classify (reference_stock_disk ss scale) = Inr ''stock''"
  using stock_by_name
  by (simp add: classify_stock stock_last stock_disk_fields stock_partitions length_stock_lead
      STOCK_PARTITION_COUNT_def)

theorem realised_table_accepted_witness:
  "\<exists>pl. plan_layout (reference_stock_disk 4096 1) ''dual'' (96 * GIB) (32 * GIB) False = Inr pl
     \<and> verify_applied (realised pl) pl = Inr True \<and> classify (realised pl) = Inr ''split''"
  using realised_table_accepted [OF stock_wf1 stock_classify]
    plan_layout_eq [OF stock_wf1 stock_by_name(1) stock_feasible(1)] by blast

subsection \<open>What a verified table is\<close>

lemma verify_applied_entry:
  assumes "verify_applied d pl = Inr r" "e \<in> set (pl_entries pl)"
  shows "e_action e = ''delete'' \<Longrightarrow> by_name d (e_name e) = Inr None"
    and "e_action e \<noteq> ''delete'' \<Longrightarrow> \<exists>p. by_name d (e_name e) = Inr (Some p)
      \<and> p_first_sector p = e_first_sector e (sector_size d)
      \<and> p_last_sector p = e_last_sector e (sector_size d)"
  using assms
  by (fastforce simp: verify_applied_def verify_entry_def err_simps split: option.splits)+

text \<open>A partition that is where an entry says it is covers exactly the entry's bytes.\<close>

lemma verified_bytes:
  assumes "wf_disk d" "by_name d n = Inr (Some p)"
    "p_first_sector p = e_first_sector e (sector_size d)" "p_last_sector p = e_last_sector e (sector_size d)"
    "sector_size d dvd e_start e" "sector_size d dvd e_end e"
  shows "p_start p = e_start e" and "p_end p = e_end e"
  using assms by_name_in [OF assms(2)]
  by (auto simp: wf_disk_def p_start_def p_end_def e_first_sector_def e_last_sector_def)

text \<open>C24. Whatever table is read back after the edit, \<^verbatim>\<open>verify_applied\<close> accepts it only if it
  meets the request: the Ubuntu root has the requested size and is followed by a home partition of at
  least 8 GiB that ends with the usable area of the original table, and userdata is gone, or starts
  where it started, has the requested size and ends where the root begins.\<close>

theorem verified_table_meets_request:
  assumes "wf_disk d" "by_name d USERDATA_NAME = Inr (Some u)"
    "plan_layout d mode android rsize k = Inr pl"
    and "wf_disk d'" "sector_size d' = sector_size d" "verify_applied d' pl = Inr r"
  shows "\<exists>sys home. by_name d' ROOT_NAME = Inr (Some sys) \<and> by_name d' HOME_NAME = Inr (Some home)
    \<and> rsize \<le> p_size sys \<and> p_end sys = p_start home \<and> p_end home = usable_end d
    \<and> MIN_HOME \<le> p_size home
    \<and> (if android = 0 then by_name d' USERDATA_NAME = Inr None
       else \<exists>ud. by_name d' USERDATA_NAME = Inr (Some ud) \<and> p_start ud = p_start u
              \<and> android \<le> p_size ud \<and> p_end ud = p_start sys)"
proof -
  note s = plan_layout_success [OF assms(1-3)]
  have t: "tiles_tail d u android rsize
      [kept_entry d u android, root_entry d u android rsize, home_entry d u android rsize]"
    using planned_entries_tile [OF assms(1,2) s(1)] by (simp add: planned_entries_def)
  let ?ud = "kept_entry d u android" and ?sys = "root_entry d u android rsize"
    and ?home = "home_entry d u android rsize"
  have mem: "?ud \<in> set (pl_entries pl)" "?sys \<in> set (pl_entries pl)" "?home \<in> set (pl_entries pl)"
    by (simp_all add: s(2) planned_entries_def)
  note v = verify_applied_entry [OF assms(6)]
  obtain sys where sys: "by_name d' ROOT_NAME = Inr (Some sys)" "p_start sys = e_start ?sys" "p_end sys = e_end ?sys"
    using v(2) [OF mem(2)] verified_bytes [OF assms(4), of _ _ ?sys] t assms(5)
    by (simp add: tiles_tail_def) metis
  obtain home where home: "by_name d' HOME_NAME = Inr (Some home)" "p_start home = e_start ?home"
      "p_end home = e_end ?home"
    using v(2) [OF mem(3)] verified_bytes [OF assms(4), of _ _ ?home] t assms(5)
    by (simp add: tiles_tail_def) metis
  have ud: "if android = 0 then by_name d' USERDATA_NAME = Inr None
       else \<exists>ud. by_name d' USERDATA_NAME = Inr (Some ud) \<and> p_start ud = p_start u \<and> p_end ud = e_end ?ud"
    using v [OF mem(1)] verified_bytes [OF assms(4), of _ _ ?ud] t assms(5)
    by (simp add: tiles_tail_def split: if_splits) metis
  show ?thesis
    using sys home ud t by (simp add: tiles_tail_def p_size_def e_size_def split: if_splits) metis
qed

lemma realised_wf:
  assumes "wf_disk d" "pl_disk pl = d"
  shows "wf_disk (realised pl)"
  using assms by (auto simp: wf_disk_def realised_def Let_def to_partition_def)

theorem verified_table_meets_request_witness:
  "\<exists>pl sys. plan_layout (reference_stock_disk 4096 1) ''dual'' (96 * GIB) (32 * GIB) False = Inr pl
     \<and> verify_applied (realised pl) pl = Inr True
     \<and> by_name (realised pl) ROOT_NAME = Inr (Some sys) \<and> 32 * GIB \<le> p_size sys"
proof -
  obtain pl where pl: "plan_layout (reference_stock_disk 4096 1) ''dual'' (96 * GIB) (32 * GIB) False = Inr pl"
    using plan_layout_eq [OF stock_wf1 stock_by_name(1) stock_feasible(1)] by blast
  note s = plan_layout_success [OF stock_wf1 stock_by_name(1) pl]
  have v: "verify_applied (realised pl) pl = Inr True"
    by (rule realised_verify [OF s(2,3) stock_by_name(2,3)])
  have "sector_size (realised pl) = sector_size (reference_stock_disk 4096 1)" by (simp add: s(3))
  from verified_table_meets_request [OF stock_wf1 stock_by_name(1) pl realised_wf [OF stock_wf1 s(3)] this v]
  show ?thesis using pl v by blast
qed

subsection \<open>The factory table in other sectors\<close>

lemma ALIGNMENT_4096: "4096 dvd ALIGNMENT"
  by (simp add: size_consts)

lemma scaled_wf:
  assumes "0 < ss" "scale * ss = 4096"
  shows "wf_disk (reference_stock_disk ss scale)"
proof (rule stock_wf [OF assms(1)])
  have "ss dvd 4096" unfolding assms(2) [symmetric] by simp
  then show "ss dvd ALIGNMENT" using ALIGNMENT_4096 by (rule dvd_trans)
qed

lemma scaled_userdata:
  assumes "scale * ss = 4096"
  shows "p_size (stock_userdata ss scale) = p_size (stock_userdata 4096 1)"
proof -
  have "p_end (stock_userdata ss scale) = 61731835 * (scale * ss)" by (simp add: p_end_def)
  then show ?thesis using stock_bytes [OF assms] stock_bytes [of 1 4096]
    by (simp add: p_size_def assms p_end_def)
qed

text \<open>C25. The synthetic disk of the tests decides like the tablet: restating the factory table in
  smaller sectors of the same byte geometry changes neither the outcome of a request nor, byte for
  byte, the entries of its plan; and the restated table is still recognised as the factory one.\<close>

theorem layout_independent_of_sector_size:
  assumes "0 < ss" "scale * ss = 4096"
  shows "map_sum id pl_entries (plan_layout (reference_stock_disk ss scale) mode android rsize k)
      = map_sum id pl_entries (plan_layout (reference_stock_disk 4096 1) mode android rsize k)
    \<and> classify (reference_stock_disk ss scale) = Inr ''stock''"
proof -
  have "p_start (stock_userdata ss scale) = p_start (stock_userdata 4096 1)"
    "usable_end (reference_stock_disk ss scale) = usable_end (reference_stock_disk 4096 1)"
    using stock_bytes [OF assms(2)] stock_bytes [of 1 4096] by simp_all
  moreover from this have
    "planned_entries (reference_stock_disk ss scale) (stock_userdata ss scale) a rsize
      = planned_entries (reference_stock_disk 4096 1) (stock_userdata 4096 1) a rsize" for a
    using scaled_userdata [OF assms(2)]
    by (simp add: planned_entries_def kept_entry_def root_entry_def home_entry_def)
  ultimately show ?thesis
    unfolding plan_layout_cases [OF scaled_wf [OF assms] stock_by_name(1)]
      plan_layout_cases [OF stock_wf1 stock_by_name(1)]
    by (simp add: stock_classify)
qed

theorem layout_independent_of_sector_size_witness:
  "map_sum id pl_entries (plan_layout (reference_stock_disk 512 8) ''dual'' (96 * GIB) (32 * GIB) False)
     = map_sum id pl_entries (plan_layout (reference_stock_disk 4096 1) ''dual'' (96 * GIB) (32 * GIB) False)"
  using layout_independent_of_sector_size [of 512 8] by simp

end
