(* ===== verification/PyRegexRules.thy ===== *)
theory PyRegexRules
  imports PyRegex
begin

text \<open>
  Rules for the first match of a pattern: \<open>consumes r u s c w c'\<close> says that at the position between
  \<open>u\<close> and \<open>w @ s\<close> the matcher's first result consumes \<open>w\<close> and turns the groups \<open>c\<close> into
  \<open>c'\<close>. One rule per construct; a pattern is then followed from left to right. Then what holds of
  every match, not only the first (where it ends, what a search has passed over), how a match depends
  on the text before it, and lines of text.
\<close>

definition consumes :: "re \<Rightarrow> string \<Rightarrow> string \<Rightarrow> caps \<Rightarrow> string \<Rightarrow> caps \<Rightarrow> bool" where
  "consumes r u s c w c' \<longleftrightarrow>
     (\<exists>ms. matches r (u @ w @ s) (length u) c = (length u + length w, c') # ms)"

text \<open>The next character, if there is one, is not in a class.\<close>

definition stops :: "(char \<Rightarrow> bool) \<Rightarrow> string \<Rightarrow> bool" where
  "stops P s \<longleftrightarrow> (case s of [] \<Rightarrow> True | x # _ \<Rightarrow> \<not> P x)"

lemma stops_simps [simp]:
  "stops P []" "stops P (x # s) \<longleftrightarrow> \<not> P x"
  by (simp_all add: stops_def)

lemma stops_append: "w \<noteq> [] \<Longrightarrow> stops P (w @ s) \<longleftrightarrow> \<not> P (hd w)"
  by (cases w) simp_all

subsection \<open>Greedy runs of a class\<close>

definition run :: "(char \<Rightarrow> bool) \<Rightarrow> string \<Rightarrow> nat \<Rightarrow> nat" where
  "run P t i = length (takeWhile P (drop i t))"

lemma run_step: "i < length t \<Longrightarrow> run P t i = (if P (t ! i) then Suc (run P t (Suc i)) else 0)"
  by (simp add: run_def Cons_nth_drop_Suc [symmetric])

lemma run_end: "length t \<le> i \<Longrightarrow> run P t i = 0"
  by (simp add: run_def)

lemma matches_star_chr:
  "matches (Star True (Chr P)) t i c = map (\<lambda>j. (j, c)) (rev [i ..< Suc (i + run P t i)])"
proof (induction "length t - i" arbitrary: i)
  case 0
  then show ?case by (simp add: run_end matches.simps(5))
next
  case (Suc n)
  then have i: "i < length t" "n = length t - Suc i" by simp_all
  show ?case
  proof (cases "P (t ! i)")
    case True
    have "[i ..< Suc (i + run P t i)] = i # [Suc i ..< Suc (Suc i + run P t (Suc i))]"
      using True i(1) by (simp add: run_step upt_conv_Cons del: upt_Suc)
    moreover have "matches (Star True (Chr P)) t i c = matches (Star True (Chr P)) t (Suc i) c @ [(i, c)]"
      using True i(1) by (subst matches.simps(5)) simp
    ultimately show ?thesis using Suc(1) [OF i(2)] by (simp del: upt_Suc)
  next
    case False
    then show ?thesis using i(1) by (subst matches.simps(5)) (simp add: run_step)
  qed
qed

lemma run_class:
  assumes "list_all P w" "stops P s"
  shows "run P (u @ w @ s) (length u) = length w"
proof -
  have "takeWhile P (w @ s) = w @ takeWhile P s"
    using assms(1) by (simp add: takeWhile_append list_all_iff)
  moreover have "takeWhile P s = []" using assms(2) by (cases s) simp_all
  ultimately show ?thesis by (simp add: run_def)
qed

subsection \<open>The rules\<close>

lemma consumes_Eps: "consumes Eps u s c [] c"
  by (simp add: consumes_def)

lemma consumes_Bos: "consumes Bos [] s c [] c"
  by (simp add: consumes_def)

lemma consumes_Eos: "consumes Eos u [] c [] c"
  by (simp add: consumes_def)

lemma consumes_Seq:
  assumes "consumes r u (w' @ s) c w c'" "consumes r' (u @ w) s c' w' c''"
  shows "consumes (Seq r r') u s c (w @ w') c''"
  using assms by (auto simp: consumes_def add.assoc)

lemma consumes_Chr: "P x \<Longrightarrow> consumes (Chr P) u s c [x] c"
  by (simp add: consumes_def)

lemma consumes_Group:
  assumes "consumes r u s c w c'"
  shows "consumes (Group n r) u s c w (AList.update n w c')"
  using assms by (auto simp: consumes_def)

lemma consumes_star:
  assumes "list_all P w" "stops P s"
  shows "consumes (Star True (Chr P)) u s c w c"
  by (simp add: consumes_def matches_star_chr run_class [OF assms])

lemma consumes_plus:
  assumes "list_all P w" "w \<noteq> []" "stops P s"
  shows "consumes (plus (Chr P)) u s c w c"
proof -
  obtain x w' where w: "w = x # w'" using assms(2) by (cases w) auto
  have "consumes (Star True (Chr P)) (u @ [x]) s c w' c"
    using assms w by (intro consumes_star) simp_all
  moreover have "consumes (Chr P) u (w' @ s) c [x] c"
    using assms(1) w by (intro consumes_Chr) simp
  ultimately show ?thesis using consumes_Seq [of "Chr P" u w' s c "[x]" c "Star True (Chr P)" c] w by (simp add: plus_def)
qed

lemma consumes_opt_yes: "consumes r u s c w c' \<Longrightarrow> consumes (opt r) u s c w c'"
  by (auto simp: consumes_def opt_def)

lemma consumes_opt_no: "matches r (u @ s) (length u) c = [] \<Longrightarrow> consumes (opt r) u s c [] c"
  by (auto simp: consumes_def opt_def)

lemma matches_lit [simp]:
  "matches (lit []) t i c = [(i, c)]"
  "matches (lit (x # w)) t i c = (if i < length t \<and> t ! i = x then matches (lit w) t (Suc i) c else [])"
  by (auto simp: lit_def)

lemma matches_rs [simp]:
  "matches (rs []) t i c = [(i, c)]"
  "matches (rs (r # ps)) t i c = concat (map (\<lambda>(j, c'). matches (rs ps) t j c') (matches r t i c))"
  by (simp_all add: rs_def)

lemma consumes_lit: "consumes (lit w) u s c w c"
proof (induction w arbitrary: u)
  case Nil
  then show ?case by (simp add: lit_def consumes_Eps)
next
  case (Cons x w)
  then show ?case
    using consumes_Seq [OF consumes_Chr [of "\<lambda>y. y = x" x u "w @ s" c] Cons.IH [of "u @ [x]"]]
    by (simp add: lit_def)
qed

lemma lazy_step:
  "matches (Star False (Chr P)) t i c =
     (i, c) # (if i < length t \<and> P (t ! i) then matches (Star False (Chr P)) t (Suc i) c else [])"
  by (subst matches.simps(5)) auto

lemma consumes_lazy:
  assumes "list_all P w" "consumes r (u @ w) s c w' c'"
    and "\<And>k. k < length w \<Longrightarrow> matches r (u @ w @ w' @ s) (length u + k) c = []"
  shows "consumes (Seq (Star False (Chr P)) r) u s c (w @ w') c'"
  using assms
proof (induction w arbitrary: u)
  case Nil
  then show ?case
    unfolding consumes_def matches.simps(3) lazy_step [of P _ "length u"] by auto
next
  case (Cons x w)
  have "consumes (Seq (Star False (Chr P)) r) (u @ [x]) s c (w @ w') c'"
  proof (rule Cons.IH)
    fix k assume "k < length w"
    then show "matches r ((u @ [x]) @ w @ w' @ s) (length (u @ [x]) + k) c = []"
      using Cons.prems(3) [of "Suc k"] by simp
  qed (use Cons.prems in simp_all)
  moreover have "matches r (u @ x # w @ w' @ s) (length u) c = []"
    using Cons.prems(3) [of 0] by simp
  ultimately show ?case using Cons.prems(1)
    unfolding consumes_def matches.simps(3) lazy_step [of P _ "length u"] by auto
qed

text \<open>A sequence of parts, and the classes by name.\<close>

lemma consumes_Nil: "consumes (rs []) u s c [] c"
  by (simp add: rs_def consumes_Eps)

lemma consumes_Cons:
  assumes "consumes r u (w' @ s) c w c'" "consumes (rs ps) (u @ w) s c' w' c''"
  shows "consumes (rs (r # ps)) u s c (w @ w') c''"
  using consumes_Seq [OF assms] by (simp add: rs_def)

lemma consumes_Cons_lazy:
  assumes "list_all P w" "consumes (rs ps) (u @ w) s c w' c'"
    and "\<And>k. k < length w \<Longrightarrow> matches (rs ps) (u @ w @ w' @ s) (length u + k) c = []"
  shows "consumes (rs (Star False (Chr P) # ps)) u s c (w @ w') c'"
  using consumes_lazy [of P w "rs ps"] assms by (simp add: rs_def)

lemmas consumes_digits = consumes_plus [of is_digit, folded digit_def]
lemmas consumes_spaces = consumes_plus [of is_space, folded space_def]
lemmas consumes_opt_spaces = consumes_star [of is_space, folded space_def star_def]

subsection \<open>All the matches of a run and of a literal\<close>

lemma run_ge: "k \<le> run P t i \<longleftrightarrow> k = 0 \<or> (i + k \<le> length t \<and> (\<forall>m < k. P (t ! (i + m))))"
proof (induction k arbitrary: i)
  case (Suc k)
  show ?case
  proof (cases "i < length t")
    case True
    show ?thesis
    proof (cases "P (t ! i)")
      case False
      then show ?thesis using True by (auto simp: run_step intro: exI [of _ 0])
    next
      case P: True
      have "(\<forall>m < Suc k. P (t ! (i + m))) \<longleftrightarrow> (\<forall>m < k. P (t ! (Suc i + m)))"
        using P by (auto simp: less_Suc_eq_0_disj)
      then show ?thesis using True P Suc.IH [of "Suc i"] by (auto simp: run_step)
    qed
  qed (simp add: run_end)
qed simp

lemma in_matches_star:
  "(j, c') \<in> set (matches (star (Chr P)) t i c) \<longleftrightarrow>
     c' = c \<and> i \<le> j \<and> (i = j \<or> (j \<le> length t \<and> (\<forall>k. i \<le> k \<and> k < j \<longrightarrow> P (t ! k))))"
proof -
  have "(j, c') \<in> set (matches (star (Chr P)) t i c) \<longleftrightarrow> c' = c \<and> i \<le> j \<and> j - i \<le> run P t i"
    by (auto simp: star_def matches_star_chr simp del: upt_Suc)
  also have "\<dots> \<longleftrightarrow> c' = c \<and> i \<le> j \<and> (i = j \<or> (j \<le> length t \<and> (\<forall>m < j - i. P (t ! (i + m)))))"
    by (auto simp: run_ge)
  also have "(\<forall>m < j - i. P (t ! (i + m))) \<longleftrightarrow> (\<forall>k. i \<le> k \<and> k < j \<longrightarrow> P (t ! k))"
    by (metis add.commute add_diff_inverse_nat le_add1 less_diff_conv linorder_not_less)
  finally show ?thesis .
qed

lemma matches_lit_take:
  "matches (lit w) t i c = (if starts_with w (drop i t) then [(i + length w, c)] else [])"
proof (induction w arbitrary: i)
  case (Cons x w)
  then show ?case
    by (cases "i < length t") (auto simp: starts_with_def Cons_nth_drop_Suc [symmetric])
qed (simp add: starts_with_def)

lemma in_matches_Seq:
  "(j, c') \<in> set (matches (Seq r s) t i c) \<longleftrightarrow>
     (\<exists>k d. (k, d) \<in> set (matches r t i c) \<and> (j, c') \<in> set (matches s t k d))"
  by auto

lemma in_matches_rs:
  "(j, c') \<in> set (matches (rs []) t i c) \<longleftrightarrow> j = i \<and> c' = c"
  "(j, c') \<in> set (matches (rs (r # ps)) t i c) \<longleftrightarrow>
     (\<exists>k d. (k, d) \<in> set (matches r t i c) \<and> (j, c') \<in> set (matches (rs ps) t k d))"
  by auto

lemma in_matches_Group:
  "(j, c') \<in> set (matches (Group n r) t i c) \<longleftrightarrow>
     (\<exists>d. (j, d) \<in> set (matches r t i c) \<and> c' = AList.update n (take (j - i) (drop i t)) d)"
  by auto

lemma in_matches_plus:
  "(j, c') \<in> set (matches (plus (Chr P)) t i c) \<longleftrightarrow>
     c' = c \<and> i < j \<and> j \<le> length t \<and> (\<forall>k. i \<le> k \<and> k < j \<longrightarrow> P (t ! k))"
proof -
  have "(j, c') \<in> set (matches (plus (Chr P)) t i c) \<longleftrightarrow>
      i < length t \<and> P (t ! i) \<and> (j, c') \<in> set (matches (star (Chr P)) t (Suc i) c)"
    by (auto simp: plus_def star_def)
  moreover have "(\<forall>k. i \<le> k \<and> k < j \<longrightarrow> P (t ! k)) \<longleftrightarrow> P (t ! i) \<and> (\<forall>k. Suc i \<le> k \<and> k < j \<longrightarrow> P (t ! k))"
    if "i < j" using that by (metis Suc_le_eq le_neq_implies_less le_refl less_imp_le)
  ultimately show ?thesis by (auto simp: in_matches_star)
qed

lemmas in_matches_spaces = in_matches_star [where P = is_space, folded space_def]
lemmas in_matches_dots = in_matches_star [where P = "\<lambda>c. c \<noteq> newline", folded dot_def]

lemma starts_with_single: "starts_with [x] (drop k t) \<longleftrightarrow> k < length t \<and> t ! k = x"
  by (cases "k < length t") (auto simp: starts_with_def Cons_nth_drop_Suc [symmetric])

lemma starts_with_single_0: "starts_with [x] t \<longleftrightarrow> 0 < length t \<and> t ! 0 = x"
  using starts_with_single [of x 0 t] by simp

lemmas in_matches = starts_with_single starts_with_single_0 in_matches_spaces in_matches_dots in_matches_rs in_matches_Group in_matches_plus in_matches_star matches_lit_take

lemma in_matches_atoms:
  "(j, d) \<in> set (matches Bol t i c) \<longleftrightarrow> j = i \<and> d = c \<and> (i = 0 \<or> (i \<le> length t \<and> t ! (i - 1) = newline))"
  "(j, d) \<in> set (matches Eol t i c) \<longleftrightarrow> j = i \<and> d = c \<and> (i = length t \<or> (i < length t \<and> t ! i = newline))"
  "(j, d) \<in> set (matches Eos t i c) \<longleftrightarrow> j = i \<and> d = c \<and> (i = length t \<or> (Suc i = length t \<and> t ! i = newline))"
  "(j, d) \<in> set (matches (Chr P) t i c) \<longleftrightarrow> j = Suc i \<and> d = c \<and> i < length t \<and> P (t ! i)"
  "(j, d) \<in> set (matches (lit [x]) t i c) \<longleftrightarrow> j = Suc i \<and> d = c \<and> i < length t \<and> t ! i = x"
  by (auto simp: lit_def)

text \<open>For a chain of parts: the parts one by one, runs left as they are.\<close>

lemmas in_chain = in_matches_rs in_matches_atoms in_matches_Group

lemma matches_not_Nil: "matches r t i c \<noteq> [] \<Longrightarrow> \<exists>j d. (j, d) \<in> set (matches r t i c)"
  by (metis list.set_intros(1) neq_Nil_conv surj_pair)

subsection \<open>Where a match can end, and the groups it leaves alone\<close>

lemma in_matches_Star:
  "(j, c') \<in> set (matches (Star g r) t i c) \<longleftrightarrow> j = i \<and> c' = c \<or>
     (\<exists>k d. (k, d) \<in> set (matches r t i c) \<and> i < k \<and> i < length t \<and> (j, c') \<in> set (matches (Star g r) t k d))"
  by (subst matches.simps(5)) (auto simp: Let_def split: if_splits)

lemma matches_ge: "(j, c') \<in> set (matches r t i c) \<Longrightarrow> i \<le> j"
proof (induction r t i c arbitrary: j c' rule: matches.induct)
  case (3 r s t i c)
  then show ?case by (fastforce dest: le_trans)
next
  case (5 greedy r t i c)
  from 5(3) consider "j = i" "c' = c" | k d where "(k, d) \<in> set (matches r t i c)" "i < k" "i < length t"
      "(j, c') \<in> set (matches (Star greedy r) t k d)"
    using iffD1 [OF in_matches_Star 5(3)] by blast
  then show ?case
  proof cases
    case 2
    then show ?thesis using 5(2) [OF 2(1) refl conjI [OF 2(2,3)] 2(4)] by simp
  qed simp_all
qed (auto split: if_splits)

lemma matches_le: "(j, c') \<in> set (matches r t i c) \<Longrightarrow> i \<le> length t \<Longrightarrow> j \<le> length t"
proof (induction r t i c arbitrary: j c' rule: matches.induct)
  case (3 r s t i c)
  then show ?case by fastforce
next
  case (5 greedy r t i c)
  from 5(3) consider "j = i" "c' = c" | k d where "(k, d) \<in> set (matches r t i c)" "i < k" "i < length t"
      "(j, c') \<in> set (matches (Star greedy r) t k d)"
    using iffD1 [OF in_matches_Star 5(3)] by blast
  then show ?case
  proof cases
    case 2
    then show ?thesis using 5(2) [OF 2(1) refl conjI [OF 2(2,3)] 2(4)] 5(1) [OF 2(1)] 5(4) by simp
  qed (use 5(4) in simp_all)
qed (auto split: if_splits)

primrec no_groups :: "re \<Rightarrow> bool" where
  "no_groups Eps = True"
| "no_groups (Chr p) = True"
| "no_groups (Seq r s) \<longleftrightarrow> no_groups r \<and> no_groups s"
| "no_groups (Alt r s) \<longleftrightarrow> no_groups r \<and> no_groups s"
| "no_groups (Star g r) = no_groups r"
| "no_groups (Group n r) = False"
| "no_groups Bos = True"
| "no_groups Bol = True"
| "no_groups Wb = True"
| "no_groups Eos = True"
| "no_groups Eol = True"

lemma matches_caps: "(j, c') \<in> set (matches r t i c) \<Longrightarrow> no_groups r \<Longrightarrow> c' = c"
proof (induction r t i c arbitrary: j c' rule: matches.induct)
  case (3 r s t i c)
  then show ?case by fastforce
next
  case (5 greedy r t i c)
  from 5(3) consider "j = i" "c' = c" | k d where "(k, d) \<in> set (matches r t i c)" "i < k" "i < length t"
      "(j, c') \<in> set (matches (Star greedy r) t k d)"
    using iffD1 [OF in_matches_Star 5(3)] by blast
  then show ?case
  proof cases
    case 2
    then show ?thesis using 5(2) [OF 2(1) refl conjI [OF 2(2,3)] 2(4)] 5(1) [OF 2(1)] 5(4) by simp
  qed simp_all
qed (auto split: if_splits)

lemma no_groups_lit [simp]: "no_groups (lit w)"
  by (induction w) (simp_all add: lit_def)

lemma no_groups_derived [simp]:
  "no_groups (rs ps) \<longleftrightarrow> list_all no_groups ps" "no_groups (opt r) = no_groups r" "no_groups (plus r) = no_groups r"
  "no_groups (star r) = no_groups r" "no_groups space" "no_groups dot" "no_groups digit" "no_groups hex"
  by (induction ps) (simp_all add: rs_def opt_def plus_def star_def space_def dot_def digit_def hex_def)

subsection \<open>From the rules to \<^verbatim>\<open>re.match\<close> and \<^verbatim>\<open>re.fullmatch\<close>\<close>

lemma re_match_consumes:
  assumes "consumes r [] s [] w c"
  shows "re_match r (w @ s) = Some (map_of c)"
  using assms by (auto simp: consumes_def re_match_def first_match_def)

lemma re_fullmatch_consumes:
  assumes "consumes r [] [] [] w c"
  shows "re_fullmatch r w = Some (map_of c)"
  using assms by (auto simp: consumes_def re_fullmatch_def first_match_def)

subsection \<open>Searching\<close>

lemma first_of_concat:
  "(case concat (map f xs) of [] \<Rightarrow> None | m # _ \<Rightarrow> Some m) =
     (case find (\<lambda>x. f x \<noteq> []) xs of None \<Rightarrow> None | Some x \<Rightarrow> Some (hd (f x)))"
proof (induction xs)
  case (Cons a xs)
  then show ?case by (cases "f a") simp_all
qed simp

lemma find_upt:
  "find P [a..<b] = Some i \<longleftrightarrow> a \<le> i \<and> i < b \<and> P i \<and> (\<forall>k. a \<le> k \<and> k < i \<longrightarrow> \<not> P k)"
  "find P [a..<b] = None \<longleftrightarrow> (\<forall>k. a \<le> k \<and> k < b \<longrightarrow> \<not> P k)"
proof -
  show "find P [a..<b] = Some i \<longleftrightarrow> a \<le> i \<and> i < b \<and> P i \<and> (\<forall>k. a \<le> k \<and> k < i \<longrightarrow> \<not> P k)"
  proof (cases "i - a < length [a..<b] \<and> a \<le> i")
    case True
    show ?thesis
    proof
      assume "find P [a..<b] = Some i"
      then obtain n where n: "n < b - a" "P (a + n)" "i = a + n" "\<forall>m < n. \<not> P (a + m)"
        by (auto simp: find_Some_iff)
      then show "a \<le> i \<and> i < b \<and> P i \<and> (\<forall>k. a \<le> k \<and> k < i \<longrightarrow> \<not> P k)"
        by (auto dest: le_Suc_ex)
    qed (use True in \<open>auto simp: find_Some_iff intro!: exI [of _ "i - a"]\<close>)
  qed (auto simp: find_Some_iff)
  show "find P [a..<b] = None \<longleftrightarrow> (\<forall>k. a \<le> k \<and> k < b \<longrightarrow> \<not> P k)"
    by (auto simp: find_None_iff)
qed

lemma search_from_Some:
  "re_search_from r t pos = Some (i, j, g) \<longleftrightarrow> pos \<le> i \<and> i \<le> length t
     \<and> (\<forall>k. pos \<le> k \<and> k < i \<longrightarrow> matches r t k [] = [])
     \<and> (\<exists>c ms. matches r t i [] = (j, c) # ms \<and> g = map_of c)"
proof -
  have "re_search_from r t pos = Some (i, j, g) \<longleftrightarrow>
      find (\<lambda>k. matches r t k [] \<noteq> []) [pos..<Suc (length t)] = Some i
      \<and> (\<exists>c ms. matches r t i [] = (j, c) # ms \<and> g = map_of c)"
  proof (cases "find (\<lambda>k. matches r t k [] \<noteq> []) [pos..<Suc (length t)]")
    case (Some k)
    then have "matches r t k [] \<noteq> []" unfolding find_upt by blast
    then show ?thesis using Some unfolding re_search_from_def first_of_concat
      by (cases "matches r t k []") (auto simp del: upt_Suc simp: split_beta)
  qed (simp add: re_search_from_def first_of_concat del: upt_Suc)
  then show ?thesis unfolding find_upt by auto
qed

lemma search_from_None:
  "re_search_from r t pos = None \<longleftrightarrow> (\<forall>k. pos \<le> k \<and> k \<le> length t \<longrightarrow> matches r t k [] = [])"
  unfolding re_search_from_def first_of_concat
  by (auto split: option.splits simp: find_upt less_Suc_eq_le simp del: upt_Suc)

subsection \<open>Text in front of the match\<close>

text \<open>A pattern that looks at its left context only for the start of a line matches behind a text that
  ends a line as it does on its own.\<close>

primrec shiftable :: "re \<Rightarrow> bool" where
  "shiftable Eps = True"
| "shiftable (Chr p) = True"
| "shiftable (Seq r s) \<longleftrightarrow> shiftable r \<and> shiftable s"
| "shiftable (Alt r s) \<longleftrightarrow> shiftable r \<and> shiftable s"
| "shiftable (Star g r) = shiftable r"
| "shiftable (Group n r) = shiftable r"
| "shiftable Bos = False"
| "shiftable Bol = True"
| "shiftable Wb = False"
| "shiftable Eos = True"
| "shiftable Eol = True"

lemma shiftable_lit [simp]: "shiftable (lit w)"
  by (induction w) (simp_all add: lit_def)

lemma shiftable_derived [simp]:
  "shiftable (rs ps) \<longleftrightarrow> list_all shiftable ps" "shiftable (opt r) = shiftable r" "shiftable (plus r) = shiftable r"
  "shiftable (star r) = shiftable r" "shiftable space" "shiftable dot" "shiftable digit" "shiftable hex"
  by (induction ps) (simp_all add: rs_def opt_def plus_def star_def space_def dot_def digit_def hex_def)

definition ends_line :: "string \<Rightarrow> bool" where
  "ends_line x \<longleftrightarrow> x = [] \<or> last x = newline"

lemma concat_map_cong: "(\<And>x. x \<in> set xs \<Longrightarrow> f x = map h (g x)) \<Longrightarrow> concat (map f xs) = map h (concat (map g xs))"
  by (induction xs) auto

lemma matches_prepend:
  assumes "ends_line x"
  shows "shiftable r \<Longrightarrow> matches r (x @ t) (length x + i) c = map (\<lambda>(j, d). (length x + j, d)) (matches r t i c)"
proof (induction r t i c rule: matches.induct)
  case (3 r s t i c)
  then show ?case by (auto simp: split_beta comp_def intro!: concat_map_cong)
next
  case (5 greedy r t i c)
  let ?C = "concat (map (\<lambda>(j, c'). if i < j \<and> i < length t then matches (Star greedy r) t j c' else []) (matches r t i c))"
  have r: "matches r (x @ t) (length x + i) c = map (\<lambda>(j, d). (length x + j, d)) (matches r t i c)"
    using 5 by simp
  have more: "concat (map (\<lambda>(j, c'). if length x + i < j \<and> length x + i < length (x @ t)
        then matches (Star greedy r) (x @ t) j c' else []) (matches r (x @ t) (length x + i) c))
      = map (\<lambda>(j, d). (length x + j, d)) ?C"
    unfolding r map_map using 5 by (intro concat_map_cong) (auto split: if_splits)
  show ?case
    by (subst (1 2) matches.simps(5)) (simp only: Let_def more list.map map_append prod.case split: if_split, simp)
next
  case (8 t i c)
  then show ?case using assms by (cases i; cases "x = []") (auto simp: ends_line_def nth_append last_conv_nth)
qed (auto simp: nth_append)

subsection \<open>Lines\<close>

definition no_breaks :: "string \<Rightarrow> bool" where
  "no_breaks l \<longleftrightarrow> (\<forall>c \<in> set l. \<not> is_linebreak c)"

definition unlines :: "string list \<Rightarrow> string" where
  "unlines ls = concat (map (\<lambda>l. l @ [newline]) ls)"

lemma linebreak_newline [simp]: "is_linebreak newline" "is_linebreak (CHR 0x0D)"
  by code_simp+

lemma no_breaks_newline: "no_breaks l \<Longrightarrow> newline \<notin> set l"
  by (auto simp: no_breaks_def)

lemma splitlines_from_line: "no_breaks l \<Longrightarrow> splitlines_from cur (l @ newline # s) = (rev cur @ l) # splitlines_from [] s"
proof (induction l arbitrary: cur)
  case Nil
  have "newline \<noteq> CHR 0x0D" by code_simp
  then show ?case by (cases s) simp_all
next
  case (Cons c l)
  then have c: "\<not> is_linebreak c" "c \<noteq> CHR 0x0D" "no_breaks l" by (auto simp: no_breaks_def)
  obtain d z where d: "l @ newline # s = d # z" by (cases l) auto
  have "splitlines_from cur (c # d # z) = splitlines_from (c # cur) (d # z)" using c by simp
  then show ?case using Cons.IH [OF c(3), of "c # cur"] d by simp
qed

lemma splitlines_unlines: "list_all no_breaks ls \<Longrightarrow> splitlines (unlines ls) = ls"
  unfolding splitlines_def unlines_def
  by (induction ls) (simp_all add: splitlines_from_line)

lemma splitlines_no_breaks: "list_all no_breaks (splitlines s)"
proof -
  have "list_all no_breaks (splitlines_from cur s)" if "no_breaks cur" for cur
    using that by (induction cur s rule: splitlines_from.induct) (auto simp: no_breaks_def)
  then show ?thesis by (simp add: splitlines_def no_breaks_def)
qed

lemma join_with_unlines: "ls \<noteq> [] \<Longrightarrow> join_with [newline] ls @ [newline] = unlines ls"
  by (induction "[newline]" ls rule: join_with.induct) (simp_all add: unlines_def)

lemma starts_with_take:
  assumes "k + length w \<le> n" "take n s = take n t"
  shows "starts_with w (drop k s) \<longleftrightarrow> starts_with w (drop k t)"
proof -
  have "take (length w) (drop k x) = take (length w) (drop k (take n x))" for x :: string
    using assms(1) by (simp add: drop_take min_def)
  from this [of s] this [of t] show ?thesis unfolding starts_with_def assms(2) by metis
qed

end
