(* ===== verification/LayoutSize.thy ===== *)
theory LayoutSize
  imports LayoutEdit PyRegexRules
begin

text \<open>
  The sizes a user gives: what \<^verbatim>\<open>parse_size\<close> returns for a whole number of units and for a whole
  percentage, through the pattern, the doubles and \<^verbatim>\<open>int\<close>, and the default sizes.
\<close>

subsection \<open>A whole number and a unit\<close>

lemma size_re_unit:
  assumes ds: "list_all is_digit ds" "ds \<noteq> []" and u: "u \<in> set ''%KMGT''"
  shows "re_fullmatch SIZE_RE (ds @ [u]) = Some (map_of [(1, ds), (2, [u])])"
proof (rule re_fullmatch_consumes)
  let ?unit = "opt (Chr (\<lambda>c. c \<in> set ''%KMGT''))"
  have nd: "\<not> is_digit u" "u \<noteq> CHR ''.''" "\<not> is_space u"
    using u by (auto simp: is_digit_def is_space_def Let_def less_eq_char_def)
  have frac: "consumes (opt (rs [lit ''.'', plus digit])) ds [u] [] [] []"
    using nd by (intro consumes_opt_no) simp
  have num: "consumes (rs [plus digit, opt (rs [lit ''.'', plus digit])]) [] [u] [] (ds @ [] @ []) []"
    by (rule frac consumes_Cons consumes_digits consumes_Nil | simp add: ds nd)+
  have "consumes (Group 2 ?unit) ds [] [(1, ds)] [u] (AList.update 2 [u] [(1, ds)])"
    by (rule consumes_Group, rule consumes_opt_yes, rule consumes_Chr, rule u)
  then have unit: "consumes (Group 2 ?unit) ds [] [(1, ds)] [u] [(1, ds), (2, [u])]" by simp
  have g: "consumes (Group 1 (rs [plus digit, opt (rs [lit ''.'', plus digit])])) [] [u] [] ds [(1, ds)]"
    using consumes_Group [OF num, of 1] by simp
  have "consumes SIZE_RE [] [] [] (ds @ [] @ [u] @ [] @ [] @ []) [(1, ds), (2, [u])]"
    unfolding SIZE_RE_def
    by (rule g unit consumes_Cons consumes_opt_spaces consumes_opt_no consumes_Nil
        | simp only: append_Nil append_Nil2 | simp add: nd)+
  then show "consumes SIZE_RE [] [] [] (ds @ [u]) [(1, ds), (2, [u])]" by simp
qed

lemma strip_id:
  assumes "s \<noteq> []" "\<not> is_space (hd s)" "\<not> is_space (last s)"
  shows "strip s = s"
proof -
  have "dropWhile is_space s = s" using assms by (cases s) simp_all
  moreover have "dropWhile is_space (rev s) = rev s"
    using assms by (cases s rule: rev_cases) simp_all
  ultimately show ?thesis by (simp add: strip_def)
qed

lemma digit_plain:
  assumes "is_digit c"
  shows "\<not> is_space c" "upper_char c = c" "c \<noteq> CHR ''.''"
  using assms by (auto simp: is_digit_def is_space_def upper_char_def less_eq_char_def)

lemma size_text_plain:
  assumes "list_all is_digit ds" "ds \<noteq> []" "u \<in> set ''%KMGT''"
  shows "map upper_char (strip (ds @ [u])) = ds @ [u]"
proof -
  have u: "\<not> is_space u" "upper_char u = u"
    using assms(3) by (auto simp: is_space_def upper_char_def less_eq_char_def)
  have "\<not> is_space (hd ds)" using assms(1,2) digit_plain(1) by (cases ds) auto
  then have "strip (ds @ [u]) = ds @ [u]" using assms(2) u(1) by (intro strip_id) auto
  moreover have "map upper_char ds = ds" using assms(1) digit_plain(2) by (intro map_idI) (auto simp: list_all_iff)
  ultimately show ?thesis using u(2) by simp
qed

lemma decimal_value_digits:
  assumes "list_all is_digit ds"
  shows "decimal_value ds = of_nat (dec_value ds)"
proof -
  have w: "takeWhile is_digit ds = ds" using assms by (simp add: list_all_iff)
  show ?thesis unfolding decimal_value_def w by simp
qed

lemma parse_size_plain:
  assumes "u \<in> set ''%KMGT''"
  shows "parse_size (dec n @ [u]) region =
    (if u = CHR ''%'' then
       (if 100 < fl (of_nat n) \<or> fl (of_nat n) < 0 then Inl (BadPercentage (dec n @ [u]))
        else of_overflow (float_int (fl (fl (fl (of_int region) * fl (of_nat n)) / 100))))
     else of_overflow (float_int (fl (fl (of_nat n) * of_int (unit_scale [u])))))"
proof -
  show ?thesis
    using size_re_unit [OF dec_digits dec_not_Nil assms]
    unfolding parse_size_def size_text_plain [OF dec_digits dec_not_Nil assms]
    by (auto simp: Let_def decimal_value_digits [OF dec_digits] not_le)
qed

lemma parse_size_units:
  assumes u: "u \<in> {''K'', ''M'', ''G'', ''T''}" and b: "int n * unit_scale u < 2 ^ 53"
  shows "parse_size (dec n @ u) region = Inr (int n * unit_scale u)"
proof -
  have s: "1 \<le> unit_scale u" using u by (auto simp: unit_scale_def size_consts)
  then have "int n * 1 \<le> int n * unit_scale u" by (intro mult_left_mono) simp_all
  then have n: "fl (of_nat n) = of_nat n" using fl_of_int [of "int n"] b by simp
  have "fl (of_int (int n * unit_scale u)) = of_int (int n * unit_scale u)"
    using b s by (intro fl_of_int) simp_all
  moreover have "float_int (of_int (int n * unit_scale u)) = Some (int n * unit_scale u)"
  proof (rule float_int_of_int)
    have "(2::int) ^ 53 \<le> 2 ^ 1024" by (rule power_increasing) simp_all
    then show "\<bar>int n * unit_scale u\<bar> < 2 ^ 1024" using b s by (simp add: abs_mult)
  qed
  ultimately show ?thesis using u n by (auto simp: parse_size_plain of_overflow_def)
qed

lemma parse_size_percent:
  assumes p: "n \<le> 100" "0 \<le> region" "region < 2 ^ 43"
  shows "parse_size (dec n @ ''%'') region = Inr (region * int n div 100)"
proof -
  have "region * int n \<le> region * 100" using p by (intro mult_left_mono) simp_all
  then have b: "0 \<le> region * int n" "region * int n < 2 ^ 51" using p by simp_all
  have f: "fl (of_nat n) = of_nat n" "fl (of_int region) = of_int region"
    "fl (of_int (region * int n)) = of_int (region * int n)"
    using fl_of_int [of "int n"] fl_of_int [of region] fl_of_int [of "region * int n"] p b by simp_all
  have "0 \<le> fl (of_int (region * int n) / 100)" "fl (of_int (region * int n) / 100) < float_max"
  proof -
    let ?x = "fl (of_int (region * int n) / 100)"
    have fx: "\<lfloor>?x\<rfloor> = region * int n div 100" by (rule floor_fl_hundredth [OF b])
    then have "0 \<le> \<lfloor>?x\<rfloor>" using b(1) by simp
    then show "0 \<le> ?x" by simp
    have "\<lfloor>?x\<rfloor> < 2 ^ 51" using fx b by simp
    then have "?x < of_int (2 ^ 51)" by (simp only: floor_less_iff)
    also have "(of_int (2 ^ 51) :: rat) \<le> float_max"
    proof -
      have "(2::rat) powi 51 \<le> 2 powi 1024" by (rule power_int_increasing) simp_all
      then show ?thesis by (simp add: float_max_def)
    qed
    finally show "?x < float_max" .
  qed
  then have "float_int (fl (of_int (region * int n) / 100)) = Some (region * int n div 100)"
    using floor_fl_hundredth [OF b] by (simp add: float_int_def)
  then show ?thesis using p(1) f by (simp add: parse_size_plain of_overflow_def)
qed

lemma parse_size_too_much:
  assumes "100 < n" "n < 2 ^ 53"
  shows "parse_size (dec n @ ''%'') region = Inl (BadPercentage (dec n @ ''%''))"
  using fl_of_int [of "int n"] assms by (simp add: parse_size_plain)

text \<open>C26. Sizes mean what they say: a whole number of KiB, MiB, GiB or TiB below 8 PiB is parsed
  to exactly that many bytes although the code goes through doubles; a whole percentage of a region
  below 8 TiB is the exact percentage rounded down; a percentage above 100 is refused.\<close>

theorem parse_size_exact:
  "(u \<in> {''K'', ''M'', ''G'', ''T''} \<and> int n * unit_scale u < 2 ^ 53 \<longrightarrow>
      parse_size (dec n @ u) region = Inr (int n * unit_scale u))
    \<and> (n \<le> 100 \<and> 0 \<le> region \<and> region < 2 ^ 43 \<longrightarrow>
      parse_size (dec n @ ''%'') region = Inr (region * int n div 100))
    \<and> (100 < n \<and> n < 2 ^ 53 \<longrightarrow>
      parse_size (dec n @ ''%'') region = Inl (BadPercentage (dec n @ ''%'')))"
  by (intro conjI impI; elim conjE)
    (rule parse_size_units parse_size_percent parse_size_too_much; assumption)+

lemma parse_size_zero: "parse_size ''0'' region = Inr 0"
  by code_simp

lemma dec_eval [simp]: "dec 96 = ''96''" "dec 32 = ''32''" "dec 50 = ''50''" "dec 101 = ''101''"
  by code_simp+

theorem parse_size_exact_witness:
  "parse_size ''96G'' 0 = Inr (96 * GIB) \<and> parse_size ''50%'' 241551933440 = Inr 120775966720
    \<and> parse_size ''101%'' 0 = Inl (BadPercentage ''101%'')"
  using parse_size_exact [of "''G''" 96 0] parse_size_exact [of "''G''" 50 241551933440]
    parse_size_exact [of "''G''" 101 0]
  by (simp add: unit_scale_def size_consts)

text \<open>C27. Without sizes on the command line both layouts fit the tablet: the default Android and
  Ubuntu sizes are 96 GiB and 32 GiB (dual) or nothing and 32 GiB (Linux only), and on the factory
  table, whatever the size of its sectors, the plan exists, with these byte ranges.\<close>

theorem default_layouts:
  assumes "0 < ss" "scale * ss = 4096"
  shows "resolve_sizes ''dual'' None None region = Inr (96 * GIB, 32 * GIB)
    \<and> resolve_sizes ''linux-only'' None None region = Inr (0, 32 * GIB)
    \<and> map_sum id (\<lambda>pl. map (\<lambda>e. (e_name e, e_start e, e_end e)) (pl_entries pl))
        (plan_layout (reference_stock_disk ss scale) ''dual'' (96 * GIB) (32 * GIB) k)
      = Inr [(''userdata'', 11297357824, 114378670080), (''linux_root'', 114378670080, 148738408448),
             (''linux_home'', 148738408448, 252853596160)]
    \<and> map_sum id (\<lambda>pl. map (\<lambda>e. (e_name e, e_start e, e_end e)) (pl_entries pl))
        (plan_layout (reference_stock_disk ss scale) ''linux-only'' 0 (32 * GIB) k)
      = Inr [(''userdata'', 11297357824, 252853596160), (''linux_root'', 11299454976, 45659193344),
             (''linux_home'', 45659193344, 252853596160)]"
proof -
  note wf = scaled_wf [OF assms]
  note bytes = stock_bytes [OF assms(2)]
  have sizes: "resolve_sizes ''dual'' None None region = Inr (96 * GIB, 32 * GIB)"
    "resolve_sizes ''linux-only'' None None region = Inr (0, 32 * GIB)"
    using parse_size_units [of "''G''" 96 region] parse_size_units [of "''G''" 32 region]
    by (simp_all add: resolve_sizes_def DEFAULT_SIZES_def parse_size_zero unit_scale_def size_consts)
  have f: "feasible (reference_stock_disk ss scale) (stock_userdata ss scale) ''dual'' (96 * GIB) (32 * GIB)"
    "feasible (reference_stock_disk ss scale) (stock_userdata ss scale) ''linux-only'' 0 (32 * GIB)"
    using bytes
    by (simp_all add: feasible_def MODES_def ubuntu_start_def align_up_eval size_consts)
  show ?thesis
    unfolding plan_layout_eq [OF wf stock_by_name(1) f(1)] plan_layout_eq [OF wf stock_by_name(1) f(2)]
    using sizes bytes
    by (simp add: planned_entries_def ubuntu_start_def align_up_eval size_consts name_consts)
qed

theorem default_layouts_witness:
  "resolve_sizes ''dual'' None None 241551933440 = Inr (96 * GIB, 32 * GIB)
    \<and> (\<exists>pl. plan_layout (reference_stock_disk 512 8) ''dual'' (96 * GIB) (32 * GIB) False = Inr pl)"
  using default_layouts [of 512 8 241551933440 False]
  by (cases "plan_layout (reference_stock_disk 512 8) ''dual'' (96 * GIB) (32 * GIB) False") simp_all

end
