(* ===== verification/LayoutText.thy ===== *)
theory LayoutText
  imports LayoutSize
begin

text \<open>
  Reading \<^verbatim>\<open>sgdisk\<close>: \<^verbatim>\<open>parse_print\<close> on the report of \<^verbatim>\<open>sgdisk -p\<close> and
  \<^verbatim>\<open>parse_info\<close> on that of \<^verbatim>\<open>sgdisk -i\<close>, pattern by pattern, with the refusals in the order of
  the code; what a parsed table is, and that a row of the report is read back field by field.
\<close>

subsection \<open>The report of the table\<close>

definition nonspace :: re where
  "nonspace = Chr (\<lambda>c. \<not> is_space c)"

definition SECTOR_SIZE_RE :: re where
  "SECTOR_SIZE_RE = rs [Bol, lit ''Sector size (logical'', opt (lit ''/physical''), lit ''):'',
     star space, Group 1 (plus digit)]"

definition DISK_RE :: re where
  "DISK_RE = rs [Bol, lit ''Disk'', plus space, plus nonspace, lit '':'', star space,
     Group 1 (plus digit), plus space, lit ''sectors'']"

definition USABLE_RE :: re where
  "USABLE_RE = rs [Bol, lit ''First usable sector is '', Group 1 (plus digit),
     lit '', last usable sector is '', Group 2 (plus digit)]"

definition CAPACITY_RE :: re where
  "CAPACITY_RE = rs [Bol, lit ''Partition table holds up to '', Group 1 (plus digit), lit '' entries'']"

definition PRINT_ROW :: re where
  "PRINT_ROW = rs [Bos, star space, Group 1 (plus digit), plus space, Group 2 (plus digit), plus space,
     Group 3 (plus digit), plus space, plus digit, opt (rs [lit ''.'', plus digit]), plus space,
     plus nonspace, plus space, hex, hex, hex, hex, plus space,
     Group 4 (rs [nonspace, Star False dot]), star space, Eos]"

definition read_group :: "re \<Rightarrow> string \<Rightarrow> nat \<Rightarrow> string \<Rightarrow> layout_error + string" where
  "read_group r label g text =
     (case re_search r text of None \<Rightarrow> Inl (Unreadable label) | Some m \<Rightarrow> Inr (the (m g)))"

definition read_int :: "re \<Rightarrow> string \<Rightarrow> nat \<Rightarrow> string \<Rightarrow> layout_error + int" where
  "read_int r label g text = ebind (read_group r label g text) (\<lambda>s. Inr (int (dec_value s)))"

definition print_row :: "int \<Rightarrow> string \<Rightarrow> Partition option" where
  "print_row ss line =
     (case re_match PRINT_ROW line of
        None \<Rightarrow> None
      | Some m \<Rightarrow> Some \<lparr>p_number = int (dec_value (the (m 1))), p_first_sector = int (dec_value (the (m 2))),
          p_last_sector = int (dec_value (the (m 3))), p_name = the (m 4), p_sector_size = ss\<rparr>)"

definition parse_print :: "string \<Rightarrow> layout_error + Disk" where
  "parse_print text =
     ebind (read_int SECTOR_SIZE_RE ''the sector size'' 1 text) (\<lambda>ss.
     ebind (read_int DISK_RE ''the disk size'' 1 text) (\<lambda>total.
     ebind (read_int USABLE_RE ''the usable range'' 1 text) (\<lambda>first.
     ebind (read_int USABLE_RE ''the usable range'' 2 text) (\<lambda>last.
     ebind (read_int CAPACITY_RE ''the table capacity'' 1 text) (\<lambda>entries.
     let rows = (case split_once ''Number  Start (sector)'' [] text of
                   None \<Rightarrow> []
                 | Some (_, body) \<Rightarrow> List.map_filter (print_row ss) (drop 1 (splitlines body)))
     in Inr \<lparr>sector_size = ss, total_sectors = total, first_usable = first, last_usable = last,
             entry_count = entries, partitions = sort_key p_first_sector rows\<rparr>)))))"

subsection \<open>The report of one partition\<close>

definition dash_hex :: re where
  "dash_hex = Chr (\<lambda>c. is_hex c \<or> c = CHR ''-'')"

definition CODE_RE :: re where
  "CODE_RE = rs [Bol, lit ''Partition GUID code:'', star space, Group 1 (plus dash_hex)]"

definition GUID_RE :: re where
  "GUID_RE = rs [Bol, lit ''Partition unique GUID:'', star space, Group 1 (plus dash_hex)]"

definition FIRST_RE :: re where
  "FIRST_RE = rs [Bol, lit ''First sector:'', star space, Group 1 (plus digit)]"

definition LAST_RE :: re where
  "LAST_RE = rs [Bol, lit ''Last sector:'', star space, Group 1 (plus digit)]"

definition FLAGS_RE :: re where
  "FLAGS_RE = rs [Bol, lit ''Attribute flags:'', star space, Group 1 (plus hex)]"

definition NAME_RE :: re where
  "NAME_RE = rs [Bol, lit ''Partition name:'', star space, lit [CHR 0x27], Group 1 (star dot), lit [CHR 0x27]]"

definition parse_info :: "string \<Rightarrow> layout_error + PartInfo" where
  "parse_info text =
     ebind (read_group CODE_RE ''the partition type'' 1 text) (\<lambda>typecode.
     ebind (read_group GUID_RE ''the partition GUID'' 1 text) (\<lambda>guid.
     ebind (read_int FIRST_RE ''the first sector'' 1 text) (\<lambda>first.
     ebind (read_int LAST_RE ''the last sector'' 1 text) (\<lambda>last.
     ebind (read_group FLAGS_RE ''the attribute flags'' 1 text) (\<lambda>attributes.
     ebind (read_group NAME_RE ''the partition name'' 1 text) (\<lambda>name.
     Inr \<lparr>i_typecode = typecode, i_guid = guid, i_first_sector = first, i_last_sector = last,
          i_attributes = attributes, i_name = name\<rparr>))))))"

subsection \<open>What a parsed table is\<close>

lemma read_int_nonneg: "read_int r l g t = Inr n \<Longrightarrow> 0 \<le> n"
  by (auto simp: read_int_def err_simps)

lemma print_row_fields:
  assumes "print_row ss line = Some p"
  shows "p_sector_size p = ss" "0 \<le> p_number p" "0 \<le> p_first_sector p" "0 \<le> p_last_sector p"
  using assms by (auto simp: print_row_def split: option.splits)

lemma parse_print_fields:
  assumes "parse_print text = Inr d"
  shows "0 \<le> sector_size d" "0 \<le> first_usable d" "0 \<le> last_usable d" "0 \<le> entry_count d"
    and "sorted (map p_first_sector (partitions d))"
    and "\<forall>p \<in> set (partitions d). p_sector_size p = sector_size d \<and> 0 \<le> p_first_sector p \<and> 0 \<le> p_last_sector p"
  using assms
  by (auto simp: parse_print_def err_simps Let_def read_int_nonneg map_filter_def print_row_fields
      split: option.splits)


subsection \<open>A row of the report\<close>

lemma lazy_prefix:
  assumes "list_all P w"
  shows "\<exists>ys. matches (Star False (Chr P)) (u @ w @ s) (length u) c =
    map (\<lambda>k. (length u + k, c)) [0..<length w] @ (length u + length w, c) # ys"
  using assms
proof (induction w arbitrary: u)
  case Nil
  then show ?case by (subst lazy_step) simp
next
  case (Cons x w)
  then obtain ys where "matches (Star False (Chr P)) ((u @ [x]) @ w @ s) (length (u @ [x])) c =
      map (\<lambda>k. (length (u @ [x]) + k, c)) [0..<length w] @ (length (u @ [x]) + length w, c) # ys"
    using Cons.IH [of "u @ [x]"] by auto
  moreover have "map (\<lambda>k. (length u + k, c)) [0..<length (x # w)] =
      (length u, c) # map (\<lambda>k. (length (u @ [x]) + k, c)) [0..<length w]"
    by (simp add: upt_conv_Cons map_Suc_upt [symmetric] del: upt_Suc)
  ultimately show ?case using Cons.prems by (subst lazy_step) simp
qed

lemma run_bound:
  assumes "i \<le> q" "q < length t" "\<not> P (t ! q)"
  shows "i + run P t i \<le> q"
proof (rule ccontr)
  assume "\<not> i + run P t i \<le> q"
  then have lt: "q - i < length (takeWhile P (drop i t))" using assms(1) by (simp add: run_def)
  then have "P (takeWhile P (drop i t) ! (q - i))" by (meson nth_mem set_takeWhileD)
  then show False using assms lt by (simp add: takeWhile_nth)
qed

lemma trailing_fails:
  assumes "i \<le> q" "q < length t" "\<not> is_space (t ! q)"
  shows "matches (rs [star space, Eos]) t i c = []"
proof -
  have "matches Eos t j c = []" if "j \<le> q" for j
    using that assms by (cases "j = q") (auto simp: newline_def is_space_def)
  moreover have "i + run is_space t i \<le> q" by (rule run_bound) (use assms in simp_all)
  ultimately show ?thesis
    by (simp add: star_def space_def matches_star_chr del: upt_Suc)
qed

lemma consumes_Cons_later:
  assumes "matches r (u @ w @ w' @ s) (length u) c = xs @ (length u + length w, c') # ys"
    and "\<And>j c. (j, c) \<in> set xs \<Longrightarrow> matches (rs ps) (u @ w @ w' @ s) j c = []"
    and "consumes (rs ps) (u @ w) s c' w' c''"
  shows "consumes (rs (r # ps)) u s c (w @ w') c''"
proof -
  have "concat (map (\<lambda>(j, c). matches (rs ps) (u @ w @ w' @ s) j c) xs) = []"
    using assms(2) by auto
  moreover have "matches (rs (r # ps)) (u @ w @ w' @ s) (length u) c =
      concat (map (\<lambda>(j, c). matches (rs ps) (u @ w @ w' @ s) j c) xs)
      @ matches (rs ps) (u @ w @ w' @ s) (length u + length w) c'
      @ concat (map (\<lambda>(j, c). matches (rs ps) (u @ w @ w' @ s) j c) ys)"
    using assms(1) by simp
  moreover obtain ms where "matches (rs ps) (u @ w @ w' @ s) (length u + length w) c' =
      (length u + length (w @ w'), c'') # ms"
    using assms(3) by (auto simp: consumes_def add.assoc)
  ultimately show ?thesis unfolding consumes_def by (simp only: append_assoc append_Nil append_Cons) blast
qed

lemma consumes_name:
  assumes name: "name \<noteq> []" "\<not> is_space (hd name)" "\<not> is_space (last name)" "list_all (\<lambda>x. x \<noteq> newline) name"
    and sp: "list_all is_space w"
  shows "consumes (rs [Group 4 (rs [nonspace, Star False dot]), star space, Eos]) u [] c
    (name @ w) (AList.update 4 name c)"
proof -
  obtain x xs where n: "name = x # xs" using name(1) by (cases name) auto
  let ?t = "u @ name @ w @ []"
  have "list_all (\<lambda>x. x \<noteq> newline) xs" using name(4) n by simp
  from lazy_prefix [OF this, of "u @ [x]" w c] obtain ys where
    "matches (Star False dot) ?t (Suc (length u)) c =
       map (\<lambda>k. (Suc (length u) + k, c)) [0..<length xs] @ (length u + length name, c) # ys"
    by (auto simp: n dot_def)
  then obtain zs where group: "matches (Group 4 (rs [nonspace, Star False dot])) ?t (length u) c =
      map (\<lambda>k. (Suc (length u) + k, AList.update 4 (take (Suc k) name) c)) [0..<length xs]
      @ (length u + length name, AList.update 4 name c) # zs"
    using name(2) by (auto simp: n nonspace_def comp_def Suc_diff_le)
  have fails: "matches (rs [star space, Eos]) ?t j c' = []" if "j < length u + length name" for j c'
  proof (rule trailing_fails)
    show "j \<le> length u + (length name - 1)" "length u + (length name - 1) < length ?t"
      using that name(1) by (cases name; simp)+
    show "\<not> is_space (?t ! (length u + (length name - 1)))"
      using name(1,3) by (simp add: nth_append last_conv_nth)
  qed
  have "consumes (rs [star space, Eos]) (u @ name) [] (AList.update 4 name c) (w @ [] @ []) (AList.update 4 name c)"
    by (rule consumes_Cons consumes_opt_spaces consumes_Eos consumes_Nil | simp add: sp)+
  then have rest: "consumes (rs [star space, Eos]) (u @ name) [] (AList.update 4 name c) w (AList.update 4 name c)"
    by (simp only: append_Nil2)
  show ?thesis
    by (rule consumes_Cons_later [OF group _ rest], rule fails) (auto simp: n)
qed

definition spaces :: "string \<Rightarrow> bool" where
  "spaces w \<longleftrightarrow> w \<noteq> [] \<and> list_all is_space w"

lemma digit_class:
  assumes "is_digit x"
  shows "\<not> is_space x" and "is_hex x"
  using assms by (auto simp: is_digit_def is_space_def is_hex_def less_eq_char_def)

lemma hex_not_space: "is_hex x \<Longrightarrow> \<not> is_space x"
  by (auto simp: is_digit_def is_space_def is_hex_def less_eq_char_def)

lemma stops_at_spaces:
  assumes "spaces w"
  shows "stops is_digit (w @ s)" and "stops (\<lambda>c. \<not> is_space c) (w @ s)" and "w @ s \<noteq> CHR ''.'' # s'"
  using assms digit_class(1) by (cases w; auto simp: spaces_def is_space_def)+

lemma stops_space:
  "stops is_space (dec n @ s)" "is_hex h \<Longrightarrow> stops is_space ([h] @ s)"
  "v \<noteq> [] \<Longrightarrow> \<not> is_space (hd v) \<Longrightarrow> stops is_space (v @ s)"
proof -
  have "is_digit (hd (dec n))" using dec_digits [of n] dec_not_Nil [of n] by (cases "dec n") auto
  then show "stops is_space (dec n @ s)" by (simp add: stops_append digit_class)
qed (simp_all add: hex_not_space stops_append)

lemma consumes_number:
  "consumes (Group g (plus digit)) u (w @ s) c (dec n) (AList.update g (dec n) c)" if "spaces w"
  by (rule consumes_Group, rule consumes_digits) (simp_all add: dec_digits stops_at_spaces that)

lemma consumes_gap: "spaces w \<Longrightarrow> stops is_space s \<Longrightarrow> consumes (plus space) u s c w c"
  by (rule consumes_spaces) (simp_all add: spaces_def)

lemma consumes_word:
  "list_all (\<lambda>x. \<not> is_space x) v \<Longrightarrow> v \<noteq> [] \<Longrightarrow> spaces w \<Longrightarrow>
   consumes (plus nonspace) u (w @ s) c v c"
  unfolding nonspace_def by (rule consumes_plus) (simp_all add: stops_at_spaces)

lemma consumes_Cons_Bos: "consumes (rs ps) [] s c w c' \<Longrightarrow> consumes (rs (Bos # ps)) [] s c w c'"
  by (auto simp: consumes_def)

lemma consumes_hex: "is_hex h \<Longrightarrow> consumes hex u s c [h] c"
  by (simp add: hex_def consumes_Chr)

text \<open>The size column: digits with or without a fraction.\<close>

definition decimal_text :: "string \<Rightarrow> string \<Rightarrow> bool" where
  "decimal_text ip fp \<longleftrightarrow> list_all is_digit ip \<and> ip \<noteq> []
     \<and> (fp = [] \<or> (hd fp = CHR ''.'' \<and> list_all is_digit (tl fp) \<and> tl fp \<noteq> []))"

lemma consumes_fraction:
  assumes "decimal_text ip fp" "spaces w"
  shows "consumes (opt (rs [lit ''.'', plus digit])) u (w @ s) c fp c"
proof (cases "fp = []")
  case True
  have "w \<noteq> []" "hd w \<noteq> CHR ''.''" using assms(2) by (auto simp: spaces_def is_space_def neq_Nil_conv)
  then show ?thesis unfolding True by (intro consumes_opt_no) (auto simp: nth_append hd_conv_nth)
next
  case False
  then obtain f where f: "fp = ''.'' @ f @ []" "list_all is_digit f" "f \<noteq> []"
    using assms(1) by (cases fp) (auto simp: decimal_text_def)
  show ?thesis unfolding f(1)
    by (rule consumes_opt_yes, (rule consumes_Cons consumes_lit consumes_digits consumes_Nil
        | simp only: append_Nil2 | simp add: f stops_at_spaces assms(2))+)
qed

lemma consumes_whole:
  assumes "decimal_text ip fp" "spaces w"
  shows "consumes (plus digit) u (fp @ w @ s) c ip c"
  using assms stops_at_spaces(1) [OF assms(2)]
  by (intro consumes_digits; cases fp) (auto simp: decimal_text_def is_digit_def less_eq_char_def)

text \<open>C29. A row of the report is read back field by field: a line with the number, the two sector
  bounds, a size with its unit, a four-digit type code and the name, separated by spaces, gives exactly
  this partition, whatever the spacing and including names with inner spaces.\<close>

theorem print_row_reads_row:
  assumes sp: "list_all is_space w0" "spaces w1" "spaces w2" "spaces w3" "spaces w4" "spaces w5"
      "spaces w6" "list_all is_space w7"
    and sz: "decimal_text ip fp" and unit: "list_all (\<lambda>x. \<not> is_space x) unit" "unit \<noteq> []"
    and code: "is_hex h1" "is_hex h2" "is_hex h3" "is_hex h4"
    and name: "name \<noteq> []" "\<not> is_space (hd name)" "\<not> is_space (last name)" "list_all (\<lambda>x. x \<noteq> newline) name"
  shows "print_row ss (w0 @ dec n @ w1 @ dec a @ w2 @ dec b @ w3 @ ip @ fp @ w4 @ unit @ w5
      @ [h1, h2, h3, h4] @ w6 @ name @ w7)
    = Some \<lparr>p_number = int n, p_first_sector = int a, p_last_sector = int b, p_name = name,
            p_sector_size = ss\<rparr>"
proof -
  let ?c = "AList.update 4 name (AList.update 3 (dec b) (AList.update 2 (dec a) (AList.update 1 (dec n) [])))"
  have "\<not> is_space (hd unit)" using unit by (cases unit) auto
  moreover have "\<not> is_space (hd ip)" "ip \<noteq> []" using sz digit_class(1) by (cases ip; auto simp: decimal_text_def)+
  ultimately have st: "stops is_space (unit @ s)" "stops is_space (ip @ s)" "stops is_space (name @ s)" for s
    using unit name by (simp_all add: stops_append)
  have "consumes PRINT_ROW [] [] [] (w0 @ dec n @ w1 @ dec a @ w2 @ dec b @ w3 @ ip @ fp @ w4 @ unit @ w5
      @ [h1] @ [h2] @ [h3] @ [h4] @ w6 @ name @ w7) ?c"
    unfolding PRINT_ROW_def
    by (simp only: append_assoc append_Nil append_Nil2
        | rule consumes_name [OF name sp(8)] consumes_Cons_Bos consumes_Cons consumes_opt_spaces consumes_gap
          consumes_number consumes_word consumes_hex consumes_fraction [OF sz] consumes_whole [OF sz]
          sp code unit stops_space(1,2) st)+
  then have "re_match PRINT_ROW (w0 @ dec n @ w1 @ dec a @ w2 @ dec b @ w3 @ ip @ fp @ w4 @ unit @ w5
      @ [h1, h2, h3, h4] @ w6 @ name @ w7) = Some (map_of ?c)"
    using re_match_consumes [of PRINT_ROW "[]"] by simp
  then show ?thesis by (simp add: print_row_def update_conv')
qed

theorem print_row_reads_row_witness:
  "print_row 4096 ''  35         2758144        61731834   225.0 GiB   0700  userdata'' =
    Some \<lparr>p_number = 35, p_first_sector = 2758144, p_last_sector = 61731834,
          p_name = ''userdata'', p_sector_size = 4096\<rparr>"
proof -
  have d: "dec 35 = ''35''" "dec 2758144 = ''2758144''" "dec 61731834 = ''61731834''"
    by (simp_all add: dec.simps)
  have "print_row 4096 (''  '' @ dec 35 @ ''         '' @ dec 2758144 @ ''        '' @ dec 61731834 @ ''   ''
      @ ''225'' @ ''.0'' @ '' '' @ ''GiB'' @ ''   '' @ ''0700'' @ ''  '' @ ''userdata'' @ []) =
    Some \<lparr>p_number = int 35, p_first_sector = int 2758144, p_last_sector = int 61731834,
          p_name = ''userdata'', p_sector_size = 4096\<rparr>"
    by (rule print_row_reads_row) code_simp+
  then show ?thesis by (simp add: d)
qed

end
