(* ===== verification/Effects.thy ===== *)
theory Effects
  imports Prelude
begin

text \<open>
  Programs with effects. A program takes the state of the outside world (the tablet, the host's
  files, the operator) and returns the list of the operations it performed, the new world and a
  result that may be an exception. What the outside world does is a parameter of every model that
  uses these programs. The rules below show that a program performs an operation only when the
  operations before it permit it, at every point where it may be interrupted.
\<close>

type_synonym ('w, 'ev, 'e, 'a) prog = "'w \<Rightarrow> 'ev list \<times> 'w \<times> ('e + 'a)"

definition ret :: "'a \<Rightarrow> ('w, 'ev, 'e, 'a) prog" where
  "ret x = (\<lambda>w. ([], w, Inr x))"

definition raise :: "'e \<Rightarrow> ('w, 'ev, 'e, 'a) prog" where
  "raise e = (\<lambda>w. ([], w, Inl e))"

definition lift :: "'e + 'a \<Rightarrow> ('w, 'ev, 'e, 'a) prog" where
  "lift r = (\<lambda>w. ([], w, r))"

definition pbind :: "('w, 'ev, 'e, 'a) prog \<Rightarrow> ('a \<Rightarrow> ('w, 'ev, 'e, 'b) prog) \<Rightarrow> ('w, 'ev, 'e, 'b) prog" where
  "pbind m f = (\<lambda>w. case m w of (t, w', r) \<Rightarrow>
     (case r of Inl e \<Rightarrow> (t, w', Inl e)
      | Inr x \<Rightarrow> (case f x w' of (t', w'', r') \<Rightarrow> (t @ t', w'', r'))))"

definition pseq :: "('w, 'ev, 'e, 'a) prog \<Rightarrow> ('w, 'ev, 'e, 'b) prog \<Rightarrow> ('w, 'ev, 'e, 'b) prog" where
  "pseq m n = pbind m (\<lambda>_. n)"

text \<open>\<^verbatim>\<open>try: m except: h\<close>, where \<open>h\<close> gives None for an exception it does not catch.\<close>

definition pcatch :: "('w, 'ev, 'e, 'a) prog \<Rightarrow> ('e \<Rightarrow> ('w, 'ev, 'e, 'a) prog option) \<Rightarrow> ('w, 'ev, 'e, 'a) prog" where
  "pcatch m h = (\<lambda>w. case m w of (t, w', r) \<Rightarrow>
     (case r of Inr x \<Rightarrow> (t, w', Inr x)
      | Inl e \<Rightarrow> (case h e of None \<Rightarrow> (t, w', Inl e)
                  | Some n \<Rightarrow> (case n w' of (t', w'', r') \<Rightarrow> (t @ t', w'', r')))))"

text \<open>One operation on the outside world.\<close>

definition perform :: "'ev \<Rightarrow> ('w \<Rightarrow> ('e + 'a) \<times> 'w) \<Rightarrow> ('w, 'ev, 'e, 'a) prog" where
  "perform ev f = (\<lambda>w. case f w of (r, w') \<Rightarrow> ([ev], w', r))"

text \<open>An operation recorded with what came of it, its result or its exception.\<close>

definition attempt :: "('e + 'a \<Rightarrow> 'ev) \<Rightarrow> ('w \<Rightarrow> ('e + 'a) \<times> 'w) \<Rightarrow> ('w, 'ev, 'e, 'a) prog" where
  "attempt ev f = (\<lambda>w. case f w of (r, w') \<Rightarrow> ([ev r], w', r))"

text \<open>Looking at the world without changing it, and an operation recorded with what it returned.\<close>

definition look :: "('w \<Rightarrow> 'a) \<Rightarrow> ('w, 'ev, 'e, 'a) prog" where
  "look f = (\<lambda>w. ([], w, Inr (f w)))"

definition observe :: "('a \<Rightarrow> 'ev) \<Rightarrow> ('w \<Rightarrow> 'a \<times> 'w) \<Rightarrow> ('w, 'ev, 'e, 'a) prog" where
  "observe ev f = (\<lambda>w. case f w of (x, w') \<Rightarrow> ([ev x], w', Inr x))"

definition check :: "bool \<Rightarrow> 'e \<Rightarrow> ('w, 'ev, 'e, unit) prog" where
  "check b e = (if b then ret () else raise e)"

primrec for_each :: "('a \<Rightarrow> ('w, 'ev, 'e, 'b) prog) \<Rightarrow> 'a list \<Rightarrow> ('w, 'ev, 'e, 'b list) prog" where
  "for_each f [] = ret []"
| "for_each f (x # xs) = pbind (f x) (\<lambda>y. pbind (for_each f xs) (\<lambda>ys. ret (y # ys)))"

definition trace_of :: "('w, 'ev, 'e, 'a) prog \<Rightarrow> 'w \<Rightarrow> 'ev list" where
  "trace_of m w = fst (m w)"

definition result_of :: "('w, 'ev, 'e, 'a) prog \<Rightarrow> 'w \<Rightarrow> 'e + 'a" where
  "result_of m w = snd (snd (m w))"

definition world_of :: "('w, 'ev, 'e, 'a) prog \<Rightarrow> 'w \<Rightarrow> 'w" where
  "world_of m w = fst (snd (m w))"

named_theorems run_simps \<open>operations, world and result of a composed program\<close>

lemmas run_defs = trace_of_def result_of_def world_of_def

lemma run_basic [run_simps]:
  "trace_of (ret x) w = []" "result_of (ret x) w = Inr x" "world_of (ret x) w = w"
  "trace_of (raise e) w = []" "result_of (raise e) w = Inl e" "world_of (raise e) w = w"
  "trace_of (lift r) w = []" "result_of (lift r) w = r" "world_of (lift r) w = w"
  "trace_of (perform ev f) w = [ev]" "result_of (perform ev f) w = fst (f w)"
  "world_of (perform ev f) w = snd (f w)"
  "trace_of (attempt av f) w = [av (fst (f w))]" "result_of (attempt av f) w = fst (f w)"
  "world_of (attempt av f) w = snd (f w)"
  "trace_of (look q) w = []" "result_of (look q) w = Inr (q w)" "world_of (look q) w = w"
  "trace_of (observe ob g) w = [ob (fst (g w))]" "result_of (observe ob g) w = Inr (fst (g w))"
  "world_of (observe ob g) w = snd (g w)"
  by (simp_all add: run_defs ret_def raise_def lift_def perform_def attempt_def look_def observe_def split_beta)

lemma run_check [run_simps]:
  "trace_of (check b e) w = []" "result_of (check b e) w = (if b then Inr () else Inl e)"
  "world_of (check b e) w = w"
  by (simp_all add: check_def run_basic)

lemma run_bind [run_simps]:
  "trace_of (pbind m f) w = trace_of m w
     @ (case result_of m w of Inl e \<Rightarrow> [] | Inr x \<Rightarrow> trace_of (f x) (world_of m w))"
  "result_of (pbind m f) w =
     (case result_of m w of Inl e \<Rightarrow> Inl e | Inr x \<Rightarrow> result_of (f x) (world_of m w))"
  "world_of (pbind m f) w =
     (case result_of m w of Inl e \<Rightarrow> world_of m w | Inr x \<Rightarrow> world_of (f x) (world_of m w))"
  by (simp_all add: run_defs pbind_def split_beta split: sum.split)

lemma run_seq [run_simps]:
  "trace_of (pseq m n) w = trace_of m w
     @ (case result_of m w of Inl e \<Rightarrow> [] | Inr x \<Rightarrow> trace_of n (world_of m w))"
  "result_of (pseq m n) w =
     (case result_of m w of Inl e \<Rightarrow> Inl e | Inr x \<Rightarrow> result_of n (world_of m w))"
  "world_of (pseq m n) w =
     (case result_of m w of Inl e \<Rightarrow> world_of m w | Inr x \<Rightarrow> world_of n (world_of m w))"
  by (simp_all add: pseq_def run_bind)

lemma run_catch:
  "trace_of (pcatch m h) w = trace_of m w @ (case result_of m w of Inr x \<Rightarrow> []
     | Inl e \<Rightarrow> (case h e of None \<Rightarrow> [] | Some n \<Rightarrow> trace_of n (world_of m w)))"
  "result_of (pcatch m h) w = (case result_of m w of Inr x \<Rightarrow> Inr x
     | Inl e \<Rightarrow> (case h e of None \<Rightarrow> Inl e | Some n \<Rightarrow> result_of n (world_of m w)))"
  by (simp_all add: run_defs pcatch_def split_beta split: sum.split option.split)

subsection \<open>Runs without an exception\<close>

text \<open>\<open>runs m w t w' x\<close>: from the world \<open>w\<close> the program performs \<open>t\<close>, leaves \<open>w'\<close> and
  returns \<open>x\<close>.\<close>

definition runs :: "('w, 'ev, 'e, 'a) prog \<Rightarrow> 'w \<Rightarrow> 'ev list \<Rightarrow> 'w \<Rightarrow> 'a \<Rightarrow> bool" where
  "runs m w t w' x \<longleftrightarrow> m w = (t, w', Inr x)"

named_theorems runs_simps \<open>inversion of runs without an exception\<close>

lemma runsI: "result_of m w = Inr x \<Longrightarrow> runs m w (trace_of m w) (world_of m w) x"
  by (cases "m w") (simp add: runs_def run_defs)

lemma runs_result: "runs m w t w' x \<Longrightarrow> result_of m w = Inr x \<and> trace_of m w = t \<and> world_of m w = w'"
  by (simp add: runs_def run_defs)

lemma runs_basic [runs_simps]:
  "runs (ret a) w t w' x \<longleftrightarrow> t = [] \<and> w' = w \<and> x = a"
  "runs (raise e) w t w' x \<longleftrightarrow> False"
  "runs (lift r) w t w' x \<longleftrightarrow> t = [] \<and> w' = w \<and> r = Inr x"
  "runs (look q) w t w' y \<longleftrightarrow> t = [] \<and> w' = w \<and> y = q w"
  "runs (observe ob g) w t w' y \<longleftrightarrow> g w = (y, w') \<and> t = [ob y]"
  "runs (perform ev f) w t w' x \<longleftrightarrow> f w = (Inr x, w') \<and> t = [ev]"
  "runs (check b e) w t w' u \<longleftrightarrow> t = [] \<and> w' = w \<and> b"
  by (auto simp: runs_def ret_def raise_def lift_def look_def observe_def perform_def check_def
      split: prod.splits)

lemma runs_bind [runs_simps]:
  "runs (pbind m f) w t w' y \<longleftrightarrow>
     (\<exists>t1 w1 x t2. runs m w t1 w1 x \<and> runs (f x) w1 t2 w' y \<and> t = t1 @ t2)"
  by (auto simp: runs_def pbind_def split: prod.splits sum.splits)

lemma runs_seq [runs_simps]:
  "runs (pseq m n) w t w' y \<longleftrightarrow>
     (\<exists>t1 w1 x t2. runs m w t1 w1 x \<and> runs n w1 t2 w' y \<and> t = t1 @ t2)"
  by (simp add: pseq_def runs_bind)

lemma runs_for_each:
  assumes "runs (for_each f xs) w t w' ys"
  shows "\<exists>ts. length ts = length xs \<and> length ys = length xs \<and> t = concat ts
    \<and> (\<forall>i < length xs. \<exists>w1 w2. runs (f (xs ! i)) w1 (ts ! i) w2 (ys ! i))"
  using assms
proof (induction xs arbitrary: w t ys)
  case (Cons x xs)
  then obtain t1 w1 y t2 ys' where r: "runs (f x) w t1 w1 y" "runs (for_each f xs) w1 t2 w' ys'" "ys = y # ys'" "t = t1 @ t2"
    by (auto simp: runs_simps)
  from Cons.IH [OF r(2)] obtain ts where ts: "length ts = length xs" "length ys' = length xs" "t2 = concat ts"
    "\<forall>i < length xs. \<exists>w1 w2. runs (f (xs ! i)) w1 (ts ! i) w2 (ys' ! i)" by blast
  have "\<exists>v1 v2. runs (f ((x # xs) ! i)) v1 ((t1 # ts) ! i) v2 (ys ! i)" if "i < length (x # xs)" for i
    using that r(1,3) ts(4) by (cases i) auto
  then show ?case using ts r(3,4) by (intro exI [of _ "t1 # ts"]) auto
qed (simp add: runs_simps)

text \<open>A loop that only looks leaves the world alone.\<close>

lemma runs_for_each_quiet:
  assumes "runs (for_each f xs) w t w' ys" "\<And>x v s v' y. runs (f x) v s v' y \<Longrightarrow> s = [] \<and> v' = v"
  shows "t = [] \<and> w' = w"
  using assms(1)
proof (induction xs arbitrary: w t ys)
  case (Cons x xs)
  then show ?case using assms(2) by (auto simp: runs_simps) blast+
qed (simp add: runs_simps)

subsection \<open>Policies\<close>

text \<open>
  A policy says after which operations another one is permitted; what has happened never takes a
  permission away. \<open>safe P m Q\<close> says that started after operations satisfying \<open>P\<close> the program
  performs every operation with permission and that its result and all operations so far satisfy
  \<open>Q\<close>.
\<close>

locale policy =
  fixes permits :: "'ev set \<Rightarrow> 'ev \<Rightarrow> bool"
  assumes never_revoked: "permits H e \<Longrightarrow> H \<subseteq> H' \<Longrightarrow> permits H' e"
begin

primrec ok_from :: "'ev set \<Rightarrow> 'ev list \<Rightarrow> bool" where
  "ok_from H [] = True"
| "ok_from H (e # t) \<longleftrightarrow> permits H e \<and> ok_from (insert e H) t"

definition safe :: "('ev set \<Rightarrow> bool) \<Rightarrow> ('w, 'ev, 'e, 'a) prog \<Rightarrow> ('a \<Rightarrow> 'ev set \<Rightarrow> bool) \<Rightarrow> bool" where
  "safe P m Q \<longleftrightarrow> (\<forall>H w. P H \<longrightarrow> ok_from H (trace_of m w)
     \<and> (\<forall>x. result_of m w = Inr x \<longrightarrow> Q x (H \<union> set (trace_of m w))))"

lemma ok_from_append: "ok_from H (s @ t) \<longleftrightarrow> ok_from H s \<and> ok_from (H \<union> set s) t"
  by (induction s arbitrary: H) auto

lemma ok_from_mono: "ok_from H t \<Longrightarrow> H \<subseteq> H' \<Longrightarrow> ok_from H' t"
proof (induction t arbitrary: H H')
  case (Cons e t)
  then have "permits H' e" "insert e H \<subseteq> insert e H'" by (auto intro: never_revoked)
  then show ?case using Cons by (meson ok_from.simps(2))
qed simp

lemma ok_from_permits:
  assumes "ok_from H t" "t = a @ e # b"
  shows "permits (H \<union> set a) e"
  using assms by (simp add: ok_from_append)

lemma safe_ret: "(\<And>H. P H \<Longrightarrow> Q x H) \<Longrightarrow> safe P (ret x) Q"
  by (simp add: safe_def run_simps)

lemma safe_raise: "safe P (raise e) Q"
  by (simp add: safe_def run_simps)

lemma safe_lift: "(\<And>H x. P H \<Longrightarrow> r = Inr x \<Longrightarrow> Q x H) \<Longrightarrow> safe P (lift r) Q"
  by (simp add: safe_def run_simps)

lemma safe_check: "(\<And>H. P H \<Longrightarrow> b \<Longrightarrow> Q () H) \<Longrightarrow> safe P (check b e) Q"
  by (simp add: safe_def run_simps)

lemma safe_perform:
  "(\<And>H. P H \<Longrightarrow> permits H ev) \<Longrightarrow> (\<And>H x. P H \<Longrightarrow> Q x (insert ev H)) \<Longrightarrow> safe P (perform ev f) Q"
  by (simp add: safe_def run_simps)

lemma safe_attempt:
  "(\<And>H r. P H \<Longrightarrow> permits H (ev r)) \<Longrightarrow> (\<And>H x. P H \<Longrightarrow> Q x (insert (ev (Inr x)) H)) \<Longrightarrow> safe P (attempt ev f) Q"
  by (simp add: safe_def run_simps)

lemma safe_bind:
  assumes "safe P m R" "\<And>x. safe (R x) (f x) Q"
  shows "safe P (pbind m f) Q"
  using assms unfolding safe_def
  by (auto simp: run_simps ok_from_append Un_assoc [symmetric] split: sum.splits)

lemma safe_seq: "safe P m (\<lambda>_. R) \<Longrightarrow> safe R n Q \<Longrightarrow> safe P (pseq m n) Q"
  unfolding pseq_def by (rule safe_bind)

lemma safe_weaken:
  "safe P m Q \<Longrightarrow> (\<And>H. P' H \<Longrightarrow> P H) \<Longrightarrow> (\<And>H x. Q x H \<Longrightarrow> Q' x H) \<Longrightarrow> safe P' m Q'"
  unfolding safe_def by blast

lemma safe_if:
  "(b \<Longrightarrow> safe P m Q) \<Longrightarrow> (\<not> b \<Longrightarrow> safe P n Q) \<Longrightarrow> safe P (if b then m else n) Q"
  by simp

lemma safe_catch:
  assumes "safe P m Q" "\<And>e n. h e = Some n \<Longrightarrow> safe P n Q" "\<And>H H'. P H \<Longrightarrow> H \<subseteq> H' \<Longrightarrow> P H'"
  shows "safe P (pcatch m h) Q"
proof -
  have "P (H \<union> X)" if "P H" for H X using assms(3) [OF that, of "H \<union> X"] by simp
  then show ?thesis using assms(1,2) unfolding safe_def
    by (auto simp: run_catch ok_from_append Un_assoc [symmetric] split: sum.splits option.splits)
qed

text \<open>An assertion that more operations cannot falsify is kept by any program that is safe.\<close>

lemma safe_keep:
  assumes "safe P m Q" "\<And>H H'. R H \<Longrightarrow> H \<subseteq> H' \<Longrightarrow> R H'"
  shows "safe (\<lambda>H. P H \<and> R H) m (\<lambda>x H. Q x H \<and> R H)"
proof -
  have "R (H \<union> X)" if "R H" for H X using assms(2) [OF that, of "H \<union> X"] by simp
  then show ?thesis using assms(1) by (simp add: safe_def)
qed

text \<open>A loop keeps an assertion that its body keeps.\<close>

lemma safe_for_each:
  assumes "\<And>x. x \<in> set xs \<Longrightarrow> safe P (f x) (\<lambda>_. P)"
  shows "safe P (for_each f xs) (\<lambda>_. P)"
  using assms
proof (induction xs)
  case Nil
  then show ?case by (simp add: safe_ret)
next
  case (Cons x xs)
  show ?case unfolding for_each.simps
    by (intro safe_bind [of P _ "\<lambda>_. P"] safe_ret Cons.prems Cons.IH) simp_all
qed

text \<open>A program that only performs operations that need no permission keeps every assertion that
  further operations cannot falsify.\<close>

definition free :: "('w, 'ev, 'e, 'a) prog \<Rightarrow> bool" where
  "free m \<longleftrightarrow> (\<forall>w. \<forall>e \<in> set (trace_of m w). permits {} e)"

definition stable :: "('ev set \<Rightarrow> bool) \<Rightarrow> bool" where
  "stable P \<longleftrightarrow> (\<forall>H H'. P H \<longrightarrow> H \<subseteq> H' \<longrightarrow> P H')"

lemma free_ret: "free (ret x)" and free_raise: "free (raise e)" and free_lift: "free (lift r)"
  and free_check: "free (check b e)"
  by (simp_all add: free_def run_simps)

lemma free_perform: "permits {} ev \<Longrightarrow> free (perform ev f)"
  by (simp add: free_def run_simps)

lemma free_attempt: "(\<And>r. permits {} (ev r)) \<Longrightarrow> free (attempt ev f)"
  by (simp add: free_def run_simps)

lemma free_bind: "free m \<Longrightarrow> (\<And>x. free (f x)) \<Longrightarrow> free (pbind m f)"
  by (auto simp: free_def run_simps split: sum.splits)

lemma free_seq: "free m \<Longrightarrow> free n \<Longrightarrow> free (pseq m n)"
  unfolding pseq_def by (rule free_bind)

lemma free_catch:
  assumes "free m" "\<And>e n. h e = Some n \<Longrightarrow> free n"
  shows "free (pcatch m h)"
proof -
  have "permits {} ev" if "ev \<in> set (trace_of (pcatch m h) w)" for ev w
  proof (cases "result_of m w")
    case (Inr x)
    then show ?thesis using that assms(1) by (simp add: run_catch free_def)
  next
    case (Inl e)
    show ?thesis
    proof (cases "h e")
      case None
      then show ?thesis using that assms(1) Inl by (simp add: run_catch free_def)
    next
      case (Some n)
      then show ?thesis using that assms(1) assms(2) [OF Some] Inl by (auto simp: run_catch free_def)
    qed
  qed
  then show ?thesis by (simp add: free_def)
qed

lemma free_for_each: "(\<And>x. x \<in> set xs \<Longrightarrow> free (f x)) \<Longrightarrow> free (for_each f xs)"
  by (induction xs) (auto intro!: free_bind free_ret)

lemma free_if: "(b \<Longrightarrow> free m) \<Longrightarrow> (\<not> b \<Longrightarrow> free n) \<Longrightarrow> free (if b then m else n)"
  by simp

lemma free_option: "free m \<Longrightarrow> (\<And>x. free (f x)) \<Longrightarrow> free (case r of None \<Rightarrow> m | Some x \<Rightarrow> f x)"
  by (simp split: option.split)

lemma free_prod: "(\<And>x y. free (f x y)) \<Longrightarrow> free (case r of (x, y) \<Rightarrow> f x y)"
  by (simp split: prod.split)

lemmas free_rules = free_ret free_raise free_lift free_check free_perform free_attempt free_bind free_seq
  free_catch free_for_each free_if free_option free_prod

lemma ok_from_free: "\<forall>e \<in> set t. permits {} e \<Longrightarrow> ok_from H t"
proof (induction t arbitrary: H)
  case (Cons e t)
  then have "permits H e" by (intro never_revoked [of "{}" e H]) simp_all
  then show ?case using Cons by simp
qed simp

lemma safe_free:
  assumes "free m" "stable P"
  shows "safe P m (\<lambda>_. P)"
proof -
  have "P (H \<union> X)" if "P H" for H X using assms(2) that unfolding stable_def by blast
  then show ?thesis using assms(1) by (auto simp: safe_def free_def intro: ok_from_free)
qed

text \<open>What every result of a program satisfies may be used after it.\<close>

lemma safe_free_result:
  assumes "free m" "stable P" "\<And>w x. result_of m w = Inr x \<Longrightarrow> S x"
  shows "safe P m (\<lambda>x H. P H \<and> S x)"
  using safe_free [OF assms(1,2)] assms(3) by (auto simp: safe_def)

text \<open>The usual step: a free operation first.\<close>

lemma safe_bind_free:
  "free m \<Longrightarrow> stable P \<Longrightarrow> (\<And>x. safe P (f x) Q) \<Longrightarrow> safe P (pbind m f) Q"
  by (rule safe_bind [OF safe_free])

lemma safe_seq_free:
  "free m \<Longrightarrow> stable P \<Longrightarrow> safe P n Q \<Longrightarrow> safe P (pseq m n) Q"
  unfolding pseq_def by (rule safe_bind_free)

lemma safe_bind_lift:
  "(\<And>x. r = Inr x \<Longrightarrow> safe P (f x) Q) \<Longrightarrow> safe P (pbind (lift r) f) Q"
  by (cases r) (simp_all add: safe_def run_simps)

lemma safe_seq_lift: "(r = Inr () \<Longrightarrow> safe P n Q) \<Longrightarrow> safe P (pseq (lift r) n) Q"
  unfolding pseq_def by (rule safe_bind_lift) simp

lemma stableI: "(\<And>H H'. P H \<Longrightarrow> H \<subseteq> H' \<Longrightarrow> P H') \<Longrightarrow> stable P"
  by (simp add: stable_def)

lemma stable_const: "stable (\<lambda>_. b)" and stable_in: "stable (\<lambda>H. e \<in> H)"
  by (auto simp: stable_def)

lemma stable_conj: "stable P \<Longrightarrow> stable R \<Longrightarrow> stable (\<lambda>H. P H \<and> R H)"
  unfolding stable_def by blast

lemma stable_disj: "stable P \<Longrightarrow> stable R \<Longrightarrow> stable (\<lambda>H. P H \<or> R H)"
  unfolding stable_def by blast

lemma stable_ex: "(\<And>x. stable (S x)) \<Longrightarrow> stable (\<lambda>H. \<exists>x. S x H)"
  unfolding stable_def by blast

lemma stable_all: "(\<And>x. stable (S x)) \<Longrightarrow> stable (\<lambda>H. \<forall>x. S x H)"
  unfolding stable_def by blast

lemma stable_imp: "stable P \<Longrightarrow> stable (\<lambda>H. b \<longrightarrow> P H)"
  unfolding stable_def by blast

lemmas stable_rules = stable_const stable_in stable_conj stable_disj stable_ex stable_all stable_imp

text \<open>What a seen operation returned is on record.\<close>

lemma safe_seen:
  assumes "\<And>H r. P H \<Longrightarrow> permits H (ev r)" "stable P"
  shows "safe P (attempt ev f) (\<lambda>x H. P H \<and> ev (Inr x) \<in> H)"
proof (rule safe_attempt)
  show "P H \<Longrightarrow> permits H (ev r)" for H r by (rule assms(1))
  fix H x assume "P H"
  then show "P (insert (ev (Inr x)) H) \<and> ev (Inr x) \<in> insert (ev (Inr x)) H"
    using assms(2) unfolding stable_def by blast
qed

text \<open>A loop establishes for every element and its result what the body establishes.\<close>

lemma stable_list_all2: "(\<And>x y. stable (R x y)) \<Longrightarrow> stable (\<lambda>H. list_all2 (\<lambda>x y. R x y H) xs ys)"
  unfolding stable_def by (metis (mono_tags, lifting) list_all2_mono)

lemma safe_for_each_both:
  assumes "\<And>x. x \<in> set xs \<Longrightarrow> safe P (f x) (\<lambda>y H. P H \<and> R x y H)" "\<And>x y. stable (R x y)" "stable P"
  shows "safe P (for_each f xs) (\<lambda>ys H. P H \<and> list_all2 (\<lambda>x y. R x y H) xs ys)"
proof -
  have "safe (\<lambda>H. P H \<and> S H) (for_each f xs) (\<lambda>ys H. (P H \<and> S H) \<and> list_all2 (\<lambda>x y. R x y H) xs ys)"
    if "stable S" for S
    using assms(1) that
  proof (induction xs arbitrary: S)
    case Nil
    then show ?case by (simp add: safe_ret)
  next
    case (Cons x xs)
    have body: "safe (\<lambda>H. P H \<and> S H) (f x) (\<lambda>y H. (P H \<and> R x y H) \<and> S H)"
      by (rule safe_keep) (use Cons.prems in \<open>auto simp: stable_def\<close>)
    show ?case unfolding for_each.simps
    proof (rule safe_bind [OF body])
      fix y
      have "safe (\<lambda>H. P H \<and> (S H \<and> R x y H)) (for_each f xs)
          (\<lambda>ys H. (P H \<and> (S H \<and> R x y H)) \<and> list_all2 (\<lambda>x y. R x y H) xs ys)"
        by (intro Cons.IH Cons.prems stable_conj assms(2)) simp
      then have rest: "safe (\<lambda>H. (P H \<and> R x y H) \<and> S H) (for_each f xs)
          (\<lambda>ys H. (P H \<and> (S H \<and> R x y H)) \<and> list_all2 (\<lambda>x y. R x y H) xs ys)"
        by (rule safe_weaken) blast+
      show "safe (\<lambda>H. (P H \<and> R x y H) \<and> S H) (pbind (for_each f xs) (\<lambda>ys. ret (y # ys)))
          (\<lambda>ys H. (P H \<and> S H) \<and> list_all2 (\<lambda>x y. R x y H) (x # xs) ys)"
        by (rule safe_bind [OF rest]) (simp add: safe_ret)
    qed
  qed
  from this [OF stable_const [of True]] show ?thesis by simp
qed

lemma safe_for_each_all:
  assumes "\<And>x. x \<in> set xs \<Longrightarrow> safe P (f x) (\<lambda>_ H. P H \<and> R x H)" "\<And>x. stable (R x)" "stable P"
  shows "safe P (for_each f xs) (\<lambda>_ H. P H \<and> (\<forall>x \<in> set xs. R x H))"
  by (rule safe_weaken [OF safe_for_each_both [where R = "\<lambda>x y. R x", OF assms]])
    (auto simp: list_all2_conv_all_nth in_set_conv_nth)

lemma safe_for_each_results:
  assumes "\<And>x. x \<in> set xs \<Longrightarrow> safe P (f x) (\<lambda>y H. P H \<and> R y H)" "\<And>y. stable (R y)" "stable P"
  shows "safe P (for_each f xs) (\<lambda>ys H. P H \<and> (\<forall>y \<in> set ys. R y H))"
  by (rule safe_weaken [OF safe_for_each_both [where R = "\<lambda>x. R", OF assms]])
    (auto simp: list_all2_conv_all_nth in_set_conv_nth)

text \<open>The log of a safe program, from nothing.\<close>

lemma safe_log:
  assumes "safe P m Q" "P {}"
  shows "ok_from {} (trace_of m w)"
  using assms by (simp add: safe_def)

lemma safe_trace:
  assumes "safe P m Q" "P {}" "trace_of m w = a @ e # b"
  shows "permits (set a) e"
proof -
  have "ok_from {} (trace_of m w)" using assms(1,2) by (simp add: safe_def)
  from ok_from_permits [OF this assms(3)] show ?thesis by simp
qed

end

end
