(* ===== verification/Shell.thy ===== *)
theory Shell
  imports Layout
begin

text \<open>
  The text side of the channel to the RAM installer, from \<^verbatim>\<open>tools/install-liuqin.py\<close>: Python's
  \<^verbatim>\<open>shlex\<close> and \<^verbatim>\<open>base64\<close>, the framing of a remote command in one bounded input line
  (\<^verbatim>\<open>frame_command\<close>), the boot-id guard, and the lines \<^verbatim>\<open>stage_blob\<close> sends.
\<close>

subsection \<open>Python exceptions\<close>

datatype exn =
    SystemExit string \<comment> \<open>\<^verbatim>\<open>parser.error\<close>\<close>
  | RuntimeError string
  | OSError string
  | ValueError string
  | KeyError string
  | SubprocessError string
  | IndexError
  | AttributeError
  | TypeError
  | LayoutExn layout_error

definition of_layout :: "layout_error + 'a \<Rightarrow> exn + 'a" where
  "of_layout r = map_sum LayoutExn id r"

subsection \<open>\<^verbatim>\<open>shlex\<close>\<close>

definition squote :: char where
  "squote = CHR 0x27"

definition backslash :: char where
  "backslash = CHR 0x5C"

definition shell_safe :: "char \<Rightarrow> bool" where
  "shell_safe c \<longleftrightarrow> is_word c \<or> c \<in> set ''@%+=:,./-''"

definition shlex_quote :: "string \<Rightarrow> string" where
  "shlex_quote s =
     (if s = [] then [squote, squote]
      else if list_all shell_safe s then s
      else [squote] @ concat (map (\<lambda>c. if c = squote then [squote, CHR 0x22, squote, CHR 0x22, squote] else [c]) s)
        @ [squote])"

definition shlex_join :: "string list \<Rightarrow> string" where
  "shlex_join args = concat (map (\<lambda>(i, a). (if i = 0 then [] else '' '') @ shlex_quote a) (enumerate 0 args))"

text \<open>\<^verbatim>\<open>shlex.split\<close> (POSIX rules, no comments): a word is collected in reverse; the mode is
  between words, in a word, in quotes, or after a backslash.\<close>

datatype shlex_mode = Between | InWord | SingleQ | DoubleQ | Escaped shlex_mode

fun shlex_from :: "shlex_mode \<Rightarrow> string \<Rightarrow> string \<Rightarrow> exn + string list" where
  "shlex_from Between w [] = Inr []"
| "shlex_from InWord w [] = Inr [rev w]"
| "shlex_from SingleQ w [] = Inl (ValueError ''No closing quotation'')"
| "shlex_from DoubleQ w [] = Inl (ValueError ''No closing quotation'')"
| "shlex_from (Escaped m) w [] = Inl (ValueError ''No escaped character'')"
| "shlex_from Between w (c # s) =
     (if c \<in> {CHR '' '', CHR 0x09, CHR 0x0D, newline} then shlex_from Between [] s
      else if c = backslash then shlex_from (Escaped InWord) [] s
      else if c = squote then shlex_from SingleQ [] s
      else if c = CHR 0x22 then shlex_from DoubleQ [] s
      else shlex_from InWord [c] s)"
| "shlex_from InWord w (c # s) =
     (if c \<in> {CHR '' '', CHR 0x09, CHR 0x0D, newline} then ebind (shlex_from Between [] s) (\<lambda>ws. Inr (rev w # ws))
      else if c = backslash then shlex_from (Escaped InWord) w s
      else if c = squote then shlex_from SingleQ w s
      else if c = CHR 0x22 then shlex_from DoubleQ w s
      else shlex_from InWord (c # w) s)"
| "shlex_from SingleQ w (c # s) = (if c = squote then shlex_from InWord w s else shlex_from SingleQ (c # w) s)"
| "shlex_from DoubleQ w (c # s) =
     (if c = CHR 0x22 then shlex_from InWord w s
      else if c = backslash then shlex_from (Escaped DoubleQ) w s
      else shlex_from DoubleQ (c # w) s)"
| "shlex_from (Escaped m) w (c # s) =
     (if m = DoubleQ \<and> c \<noteq> backslash \<and> c \<noteq> CHR 0x22 then shlex_from m (c # backslash # w) s
      else shlex_from m (c # w) s)"

definition shlex_split :: "string \<Rightarrow> exn + string list" where
  "shlex_split s = shlex_from Between [] s"

subsection \<open>\<^verbatim>\<open>base64\<close>\<close>

definition b64_alphabet :: string where
  "b64_alphabet = ''ABCDEFGHIJKLMNOPQRSTUVWXYZabcdefghijklmnopqrstuvwxyz0123456789+/''"

definition b64_char :: "nat \<Rightarrow> char" where
  "b64_char i = b64_alphabet ! i"

definition b64_value :: "char \<Rightarrow> nat option" where
  "b64_value c = map_of (zip b64_alphabet [0..<64]) c"

fun b64encode :: "bytes \<Rightarrow> string" where
  "b64encode [] = []"
| "b64encode [a] = [b64_char (byte a div 4), b64_char (byte a mod 4 * 16), CHR ''='', CHR ''='']"
| "b64encode [a, b] = [b64_char (byte a div 4), b64_char (byte a mod 4 * 16 + byte b div 16),
     b64_char (byte b mod 16 * 4), CHR ''='']"
| "b64encode (a # b # c # s) = [b64_char (byte a div 4), b64_char (byte a mod 4 * 16 + byte b div 16),
     b64_char (byte b mod 16 * 4 + byte c div 64), b64_char (byte c mod 64)] @ b64encode s"

text \<open>CPython's lenient decoder: what is not in the alphabet is skipped, a complete padding ends the
  input, an incomplete group is an error. \<open>q\<close> is the position in the group of four, \<open>l\<close> what is
  left of the last character.\<close>

fun b64decode_from :: "nat \<Rightarrow> nat \<Rightarrow> nat \<Rightarrow> string \<Rightarrow> bytes option" where
  "b64decode_from q l pads [] = (if q = 0 then Some [] else None)"
| "b64decode_from q l pads (c # s) =
     (if c = CHR ''='' then
        (if 2 \<le> q then (if 4 \<le> q + Suc pads then Some [] else b64decode_from q l (Suc pads) s)
         else b64decode_from q l pads s)
      else (case b64_value c of
              None \<Rightarrow> b64decode_from q l pads s
            | Some v \<Rightarrow>
                (if q = 0 then b64decode_from 1 v 0 s
                 else if q = 1 then map_option (Cons (char_of (l * 4 + v div 16))) (b64decode_from 2 (v mod 16) 0 s)
                 else if q = 2 then map_option (Cons (char_of (l * 16 + v div 4))) (b64decode_from 3 (v mod 4) 0 s)
                 else map_option (Cons (char_of (l * 64 + v))) (b64decode_from 0 0 0 s))))"

definition b64decode :: "string \<Rightarrow> exn + bytes" where
  "b64decode s = (case b64decode_from 0 0 0 s of None \<Rightarrow> Inl (ValueError ''Incorrect padding'') | Some b \<Rightarrow> Inr b)"

subsection \<open>One remote command, one input line\<close>

definition RAM_SHELL_LINE_BYTES :: nat where
  "RAM_SHELL_LINE_BYTES = 1023"

definition utf8 :: "string \<Rightarrow> bytes" where
  "utf8 s = concat (map (\<lambda>c. if byte c < 128 then [c]
     else [char_of (192 + byte c div 64), char_of (128 + byte c mod 64)]) s)"

definition printf_line :: "string \<Rightarrow> string" where
  "printf_line fmt = ''printf '' @ [squote, backslash, CHR ''n''] @ fmt @ [backslash, CHR ''n'', squote] @ '' ''"

definition frame_text :: "string \<Rightarrow> string \<Rightarrow> string \<Rightarrow> bytes" where
  "frame_text text start end_mark = utf8 (''stty -echo; '' @ printf_line ''%s'' @ shlex_quote start
     @ ''; sh -c '' @ shlex_quote text @ ''; result=$?; '' @ printf_line ''%s %s'' @ shlex_quote end_mark
     @ '' '' @ [CHR 0x22] @ ''$result'' @ [CHR 0x22, newline])"

definition frame_command :: "string \<Rightarrow> string \<Rightarrow> string \<Rightarrow> exn + bytes" where
  "frame_command text start end_mark =
     (let line = frame_text text start end_mark
      in if RAM_SHELL_LINE_BYTES < length line then Inl (RuntimeError ''remote command line too long'')
         else Inr line)"

definition token_start :: "string \<Rightarrow> string" where
  "token_start u = ''LIUQIN_'' @ u @ ''_START''"

definition token_end :: "string \<Rightarrow> string" where
  "token_end u = ''LIUQIN_'' @ u @ ''_END''"

text \<open>\<^verbatim>\<open>remote\<close> puts the boot-id guard before every command.\<close>

definition guarded :: "string \<Rightarrow> string \<Rightarrow> string" where
  "guarded boot_id text = ''test '' @ [CHR 0x22] @ ''$(cat /proc/sys/kernel/random/boot_id)'' @ [CHR 0x22]
     @ '' = '' @ shlex_quote boot_id @ '' && '' @ text"

subsection \<open>Staging a blob\<close>

definition LAYOUT_WORK :: string where
  "LAYOUT_WORK = ''/run/liuqin-layout''"

definition blob_path :: "string \<Rightarrow> string" where
  "blob_path name = LAYOUT_WORK @ ''/liuqin-gpt-'' @ name @ ''.b64''"

definition chunk_command :: "string \<Rightarrow> string \<Rightarrow> string" where
  "chunk_command path chunk = ''printf %s '' @ shlex_quote chunk @ '' >>'' @ path"

definition stage_commands :: "string \<Rightarrow> bytes \<Rightarrow> string list" where
  "stage_commands name data =
     [''mkdir -p '' @ shlex_quote LAYOUT_WORK, '':>'' @ blob_path name]
     @ map (chunk_command (blob_path name)) (chunks 500 (b64encode data))
     @ [''printf '' @ [CHR 0x22, backslash, CHR ''n'', CHR 0x22] @ '' >>'' @ blob_path name]"

subsection \<open>Base64 round trip\<close>

lemma b64_value_char [simp]:
  assumes "i < 64"
  shows "b64_value (b64_char i) = Some i"
proof -
  have "\<forall>j \<in> set [0..<64]. b64_value (b64_char j) = Some j" by code_simp
  then show ?thesis using assms by simp
qed

lemma b64_char_not_pad [simp]:
  assumes "i < 64"
  shows "b64_char i \<noteq> CHR ''=''"
proof -
  have "\<forall>j \<in> set [0..<64]. b64_char j \<noteq> CHR ''=''" by code_simp
  then show ?thesis using assms by simp
qed

lemma quot_rem:
  fixes m k n :: nat
  assumes "k < n"
  shows "(m * n + k) div n = m" and "(m * n + k) mod n = k"
  using assms by simp_all

lemma byte_rest: "byte b div 16 < 16" "byte c div 64 < 4" "byte a div 4 < 64"
  using byte_less [of a] byte_less [of b] byte_less [of c] by (simp_all add: div_less_iff_less_mult)

lemma byte_parts: "byte a div 4 < 64" "byte a mod 4 * 16 + byte b div 16 < 64"
  "byte b mod 16 * 4 + byte c div 64 < 64" "byte c mod 64 < 64" "byte a mod 4 * 16 < 64" "byte b mod 16 * 4 < 64"
proof -
  have "byte a mod 4 < 4" "byte b mod 16 < 16" by simp_all
  then show "byte a mod 4 * 16 + byte b div 16 < 64" "byte b mod 16 * 4 + byte c div 64 < 64"
    "byte a mod 4 * 16 < 64" "byte b mod 16 * 4 < 64"
    using byte_rest(1) [of b] byte_rest(2) [of c] by linarith+
qed (use byte_rest in simp_all)

lemma byte_joins:
  "byte a div 4 * 4 + (byte a mod 4 * 16 + byte b div 16) div 16 = byte a"
  "(byte a mod 4 * 16 + byte b div 16) mod 16 * 16 + (byte b mod 16 * 4 + byte c div 64) div 4 = byte b"
  "(byte b mod 16 * 4 + byte c div 64) mod 4 * 64 + byte c mod 64 = byte c"
  "byte a div 4 * 4 + byte a mod 4 * 16 div 16 = byte a"
  "(byte a mod 4 * 16 + byte b div 16) mod 16 * 16 + byte b mod 16 * 4 div 4 = byte b"
  by (simp_all only: quot_rem byte_rest nonzero_mult_div_cancel_right div_mult_mod_eq)

lemma b64_newline [simp]: "b64_value newline = None" "newline \<noteq> CHR ''=''"
  by code_simp+

text \<open>Also with the line end after it, as the shell leaves it in the file.\<close>

lemma b64decode_encode:
  "nl \<in> {[], [newline]} \<Longrightarrow> b64decode_from 0 0 0 (b64encode bs @ nl) = Some bs"
proof (induction bs rule: b64encode.induct)
  case (2 a)
  then show ?case by (auto simp: byte_parts byte_joins(4))
next
  case (3 a b)
  have "byte b div 16 div 16 = 0" "byte b div 16 mod 16 * 16 + byte b mod 16 = byte b"
    using byte_rest(1) [of b] by simp_all
  then show ?case using 3 by (auto simp: byte_parts)
next
  case (4 a b c s)
  have "byte b div 16 div 16 = 0" "byte b div 16 mod 16 * 16 + byte b mod 16 = byte b"
    "byte c div 64 div 4 = 0" "byte c div 64 mod 4 * 64 + byte c mod 64 = byte c"
    using byte_rest(1) [of b] byte_rest(2) [of c] by simp_all
  then show ?case using 4 by (auto simp: byte_parts)
qed auto

subsection \<open>The length of a staged line\<close>

lemma quote_safe: "s \<noteq> [] \<Longrightarrow> list_all shell_safe s \<Longrightarrow> shlex_quote s = s"
  by (simp add: shlex_quote_def)

lemma utf8_ascii: "ascii s \<Longrightarrow> utf8 s = s"
  by (induction s) (simp_all add: utf8_def)

lemma safe_ascii: "list_all shell_safe s \<Longrightarrow> ascii s"
  by (induction s) (auto simp: shell_safe_def is_word_def is_digit_def less_eq_char_def byte_def)

text \<open>A text without single quotes that needs quoting grows by two characters.\<close>

lemma quote_plain:
  assumes "squote \<notin> set s" "\<not> list_all shell_safe s"
  shows "shlex_quote s = [squote] @ s @ [squote]"
proof -
  have "concat (map (\<lambda>c. if c = squote then [squote, CHR 0x22, squote, CHR 0x22, squote] else [c]) s) = s"
    using assms(1) by (induction s) auto
  then show ?thesis using assms(2) by (auto simp: shlex_quote_def)
qed

lemma frame_length:
  assumes "squote \<notin> set text" "\<not> list_all shell_safe text" "ascii text"
    and "list_all shell_safe start" "start \<noteq> []" "list_all shell_safe stop" "stop \<noteq> []"
  shows "length (frame_text text start stop) = length text + length start + length stop + 81"
proof -
  have "ascii (''stty -echo; '' @ printf_line ''%s'' @ shlex_quote start
     @ ''; sh -c '' @ shlex_quote text @ ''; result=$?; '' @ printf_line ''%s %s'' @ shlex_quote stop
     @ '' '' @ [CHR 0x22] @ ''$result'' @ [CHR 0x22, newline])"
    using assms safe_ascii [OF assms(4)] safe_ascii [OF assms(6)]
    by (simp add: quote_safe quote_plain printf_line_def)
      (simp add: byte_def squote_def backslash_def newline_def)
  then show ?thesis unfolding frame_text_def
    using assms by (simp add: utf8_ascii quote_safe quote_plain printf_line_def)
qed

lemma b64_char_safe: "i < 64 \<Longrightarrow> shell_safe (b64_char i)"
proof -
  have "\<forall>j \<in> set [0..<64]. shell_safe (b64_char j)" by code_simp
  then show "i < 64 \<Longrightarrow> shell_safe (b64_char i)" by simp
qed

lemma b64encode_safe: "list_all shell_safe (b64encode bs)"
proof -
  have "shell_safe (CHR ''='')" by code_simp
  then show ?thesis
    by (induction bs rule: b64encode.induct) (simp_all add: b64_char_safe byte_parts)
qed

lemma uuid_safe: "list_all is_word u \<Longrightarrow> list_all shell_safe u"
  by (induction u) (auto simp: shell_safe_def)

text \<open>The commands of a staged blob, with the guard in front: short enough, and quoted as they are.\<close>

lemma guarded_frame:
  assumes boot: "list_all shell_safe boot_id" "boot_id \<noteq> []" "length boot_id \<le> 36"
    and tok: "list_all is_word u" "length u = 32"
    and cmd: "ascii text" "squote \<notin> set text" "length text \<le> 600"
  shows "\<exists>line. frame_command (guarded boot_id text) (token_start u) (token_end u) = Inr line
    \<and> length line \<le> RAM_SHELL_LINE_BYTES"
proof -
  let ?g = "guarded boot_id text"
  have sq: "\<not> shell_safe squote" by code_simp
  have "squote \<notin> set boot_id" using boot(1) sq by (auto simp: list_all_iff)
  then have q: "squote \<notin> set ?g" "\<not> list_all shell_safe ?g" "ascii ?g"
    using cmd boot safe_ascii [OF boot(1)]
    by (simp_all add: guarded_def quote_safe) (simp_all add: squote_def shell_safe_def is_word_def is_digit_def
        less_eq_char_def byte_def)
  have w: "shell_safe (CHR ''_'')" by code_simp
  have tokens: "list_all shell_safe (token_start u)" "list_all shell_safe (token_end u)"
    using uuid_safe [OF tok(1)] by (simp_all add: token_start_def token_end_def) code_simp+
  have "length (frame_text ?g (token_start u) (token_end u)) = length ?g + 169"
    using frame_length [OF q tokens(1) _ tokens(2)] tok(2)
    by (simp add: token_start_def token_end_def)
  then have "length (frame_text ?g (token_start u) (token_end u)) \<le> RAM_SHELL_LINE_BYTES"
    using boot cmd by (simp add: guarded_def quote_safe RAM_SHELL_LINE_BYTES_def)
  then show ?thesis by (simp add: frame_command_def Let_def)
qed

lemma stage_commands_plain:
  assumes "name \<in> {''head'', ''tail''}" "cmd \<in> set (stage_commands name data)"
  shows "ascii cmd \<and> squote \<notin> set cmd \<and> length cmd \<le> 600"
proof -
  have "ascii (chunk_command (blob_path name) c) \<and> squote \<notin> set (chunk_command (blob_path name) c)
      \<and> length (chunk_command (blob_path name) c) \<le> 600"
    if c: "c \<in> set (chunks 500 (b64encode data))" for c
  proof -
    have "c \<noteq> []" "length c \<le> 500" "set c \<subseteq> set (b64encode data)" using chunks_bounded [OF c] by auto
    moreover from this have "list_all shell_safe c" using b64encode_safe [of data] by (auto simp: list_all_iff)
    moreover have "\<not> shell_safe squote" by code_simp
    ultimately have "shlex_quote c = c" "ascii c" "squote \<notin> set c" "length c \<le> 500"
      using quote_safe safe_ascii by (auto simp: list_all_iff)
    then show ?thesis using assms(1)
      by (auto simp: chunk_command_def blob_path_def LAYOUT_WORK_def squote_def byte_def)
  qed
  moreover have "shlex_quote LAYOUT_WORK = LAYOUT_WORK" by code_simp
  ultimately show ?thesis using assms
    by (auto simp: stage_commands_def) (auto simp: blob_path_def LAYOUT_WORK_def squote_def backslash_def byte_def)
qed

text \<open>C30. Staging a saved partition table always fits the RAM shell: whatever the data, every command
  \<^verbatim>\<open>stage_blob\<close> sends, with the boot-id guard and the markers around it, is an input line of at
  most 1023 bytes, so \<^verbatim>\<open>frame_command\<close> never refuses one half way; and what the chunk commands
  print, in order and ended by the newline, decodes to exactly the data.\<close>

theorem stage_blob_fits_and_decodes:
  assumes "list_all shell_safe boot_id" "boot_id \<noteq> []" "length boot_id \<le> 36"
    "list_all is_word u" "length u = 32" "name \<in> {''head'', ''tail''}"
  shows "list_all (\<lambda>cmd. \<exists>line. frame_command (guarded boot_id cmd) (token_start u) (token_end u) = Inr line
        \<and> length line \<le> RAM_SHELL_LINE_BYTES) (stage_commands name data)
    \<and> (\<exists>cs. tl (tl (butlast (stage_commands name data))) = map (chunk_command (blob_path name)) cs
         \<and> b64decode (concat cs @ [newline]) = Inr data)"
proof
  show "list_all (\<lambda>cmd. \<exists>line. frame_command (guarded boot_id cmd) (token_start u) (token_end u) = Inr line
        \<and> length line \<le> RAM_SHELL_LINE_BYTES) (stage_commands name data)"
    unfolding list_all_iff
    using guarded_frame [OF assms(1-5)] stage_commands_plain [OF assms(6)] by blast
  show "\<exists>cs. tl (tl (butlast (stage_commands name data))) = map (chunk_command (blob_path name)) cs
      \<and> b64decode (concat cs @ [newline]) = Inr data"
    by (rule exI [of _ "chunks 500 (b64encode data)"])
      (simp add: stage_commands_def butlast_append concat_chunks b64decode_def b64decode_encode)
qed

theorem stage_blob_fits_and_decodes_witness:
  "\<exists>line. frame_command
      (guarded ''4f1e2c1a-93ab-4c07-8a35-1f2e3d4c5b6a'' ('':>'' @ blob_path ''head''))
      (token_start ''0123456789abcdef0123456789abcdef'') (token_end ''0123456789abcdef0123456789abcdef'') = Inr line
    \<and> length line \<le> RAM_SHELL_LINE_BYTES"
proof -
  have "list_all shell_safe ''4f1e2c1a-93ab-4c07-8a35-1f2e3d4c5b6a''"
    "list_all is_word ''0123456789abcdef0123456789abcdef''" by code_simp+
  from stage_blob_fits_and_decodes [OF this(1) _ _ this(2), of "''head''" "[]"] show ?thesis
    by (simp add: stage_commands_def)
qed

end
