(* ===== verification/Device.thy ===== *)
theory Device
  imports Effects Shell LayoutText
begin

text \<open>
  What the installer does to the outside world, and the two channels to the tablet: the
  \<^verbatim>\<open>fastboot\<close> program and the shell of the RAM installer (\<^verbatim>\<open>command\<close>, \<^verbatim>\<open>remote\<close> and
  \<^verbatim>\<open>device_layout\<close> of \<^verbatim>\<open>tools/install-liuqin.py\<close>). How the tablet, the host's file
  system, JSON and SHA-256 answer is the parameter \<open>env\<close>.
\<close>

subsection \<open>The outside world\<close>

text \<open>An operation whose answer matters is recorded with what came of it.\<close>

datatype op =
    Fastboot "string list" "exn + string"
  | FastbootDevices "exn + string"
  | Shell string "exn + bytes" \<comment> \<open>a command sent to the RAM shell and its reply\<close>
  | Layout "string list" "exn + bytes" \<comment> \<open>a call of \<^verbatim>\<open>install-layout.sh\<close> in the RAM shell\<close>
  | NewToken
  | ReadFile string "exn + bytes"
  | WriteFile string bytes "exn + unit"
  | Mkdir string
  | Chmod string
  | Query string \<comment> \<open>\<^verbatim>\<open>is_file\<close>, \<^verbatim>\<open>is_dir\<close> or \<^verbatim>\<open>exists\<close> of a path\<close>
  | Ask "exn + string" \<comment> \<open>the confirmation prompt and the answer\<close>
  | IsATty
  | Wait
  | Serve

text \<open>The manifest of a saved partition table, \<^verbatim>\<open>gpt/manifest.json\<close>.\<close>

record Saved =
  sv_serial :: string
  sv_disk :: string
  sv_sector_size :: int
  sv_sectors :: int
  sv_files :: "(string \<times> string) list"

text \<open>An image of the pinned ROM table with the keys the installer adds.\<close>

record RomEntry =
  r_partition :: string
  r_bytes :: nat
  r_sha256 :: string
  r_sparse :: bool
  r_override :: bool
  r_path :: string
  r_flash :: "(nat \<times> string) option"

record RomTable =
  rt_rom :: string
  rt_images :: "(string \<times> RomEntry) list"

record Manifest =
  mf_device :: string
  mf_status :: string
  mf_kernel_release :: string
  mf_files :: "string \<rightharpoonup> string"

record 'w env =
  fastboot_op :: "string list \<Rightarrow> 'w \<Rightarrow> (exn + string) \<times> 'w"
  send_op :: "bytes \<Rightarrow> 'w \<Rightarrow> (exn + bytes list) \<times> 'w" \<comment> \<open>the chunks received before the deadline\<close>
  token_op :: "'w \<Rightarrow> string \<times> 'w"
  read_op :: "string \<Rightarrow> 'w \<Rightarrow> (exn + bytes) \<times> 'w"
  write_op :: "string \<Rightarrow> bytes \<Rightarrow> 'w \<Rightarrow> (exn + unit) \<times> 'w"
  mkdir_op :: "string \<Rightarrow> 'w \<Rightarrow> (exn + unit) \<times> 'w"
  chmod_op :: "string \<Rightarrow> 'w \<Rightarrow> (exn + unit) \<times> 'w"
  query_op :: "string \<Rightarrow> 'w \<Rightarrow> bool \<times> 'w"
  ask_op :: "'w \<Rightarrow> (exn + string) \<times> 'w"
  tty_op :: "'w \<Rightarrow> bool \<times> 'w"
  wait_op :: "'w \<Rightarrow> unit \<times> 'w"
  devices_op :: "'w \<Rightarrow> (exn + string) \<times> 'w"
  serve_op :: "string option \<Rightarrow> 'w \<Rightarrow> (exn + string \<times> nat) \<times> 'w" \<comment> \<open>host address and port\<close>
  sha256 :: "bytes \<Rightarrow> string"
  dump_saved :: "Saved \<Rightarrow> bytes"
  load_saved :: "bytes \<Rightarrow> exn + Saved"
  load_manifest :: "bytes \<Rightarrow> exn + Manifest"
  load_rom :: "bytes \<Rightarrow> exn + RomTable"
  resolve :: "string \<Rightarrow> string"
  inet_ok :: "string \<Rightarrow> bool"
  here :: string \<comment> \<open>the directory of the program\<close>
  scratch_dir :: string
  ready_tries :: nat \<comment> \<open>retries before the deadline of the RAM channel\<close>
  reboot_tries :: nat

type_synonym ('w, 'a) io = "('w, op, exn, 'a) prog"

definition total :: "('w \<Rightarrow> 'a \<times> 'w) \<Rightarrow> 'w \<Rightarrow> ('e + 'a) \<times> 'w" where
  "total f w = (case f w of (x, w') \<Rightarrow> (Inr x, w'))"

definition fastboot :: "'w env \<Rightarrow> string list \<Rightarrow> ('w, string) io" where
  "fastboot env args = attempt (Fastboot args) (fastboot_op env args)"

definition read_file :: "'w env \<Rightarrow> string \<Rightarrow> ('w, bytes) io" where
  "read_file env path = attempt (ReadFile path) (read_op env path)"

definition write_file :: "'w env \<Rightarrow> string \<Rightarrow> bytes \<Rightarrow> ('w, unit) io" where
  "write_file env path data = attempt (WriteFile path data) (write_op env path data)"

definition mkdir :: "'w env \<Rightarrow> string \<Rightarrow> ('w, unit) io" where
  "mkdir env path = perform (Mkdir path) (mkdir_op env path)"

definition chmod :: "'w env \<Rightarrow> string \<Rightarrow> ('w, unit) io" where
  "chmod env path = perform (Chmod path) (chmod_op env path)"

definition query :: "'w env \<Rightarrow> string \<Rightarrow> ('w, bool) io" where
  "query env path = perform (Query path) (total (query_op env path))"

text \<open>\<^verbatim>\<open>sha\<close>: the digest of a file.\<close>

definition sha :: "'w env \<Rightarrow> string \<Rightarrow> ('w, string) io" where
  "sha env path = pbind (read_file env path) (\<lambda>data. ret (sha256 env data))"

subsection \<open>The reply of the RAM shell\<close>

definition END_RE :: "string \<Rightarrow> re" where
  "END_RE stop = rs [Alt Bos (lit [newline]), lit stop, lit '' '', Group 1 (plus digit),
     opt (lit [CHR 0x0D]), lit [newline]]"

definition START_RE :: "string \<Rightarrow> re" where
  "START_RE start = rs [Alt Bos (lit [newline]), lit start, opt (lit [CHR 0x0D]), lit [newline]]"

definition remove_cr :: "bytes \<Rightarrow> bytes" where
  "remove_cr s = (if s \<noteq> [] \<and> last s = CHR 0x0D then butlast s else s)"

text \<open>The loop of \<^verbatim>\<open>command\<close> over the chunks as they arrive; an empty chunk is a closed connection,
  no more chunks is the deadline.\<close>

fun receive :: "string \<Rightarrow> string \<Rightarrow> bytes \<Rightarrow> bytes list \<Rightarrow> exn + bytes" where
  "receive start stop buffer [] = Inl (RuntimeError ''RAM command timed out or connection closed'')"
| "receive start stop buffer (chunk # rest) =
     (if chunk = [] then Inl (RuntimeError ''RAM command timed out or connection closed'')
      else
        (let buf = buffer @ chunk in
         case re_search_from (END_RE stop) buf (length buf - 512) of
           None \<Rightarrow> receive start stop buf rest
         | Some (i, _, m) \<Rightarrow>
             (case re_search_from (START_RE start) buf 0 of
                None \<Rightarrow> Inl (RuntimeError ''reply'')
              | Some (_, first_end, _) \<Rightarrow>
                  if dec_value (the (m 1)) \<noteq> 0 then Inl (RuntimeError ''reply'')
                  else Inr (remove_cr (replace_crlf (take (i - first_end) (drop first_end buf)))))))"

text \<open>\<open>label\<close> is how the log names the command; what is logged is the reply, or why there is none.\<close>

definition exchange :: "'w env \<Rightarrow> bytes \<Rightarrow> string \<Rightarrow> string \<Rightarrow> 'w \<Rightarrow> (exn + bytes) \<times> 'w" where
  "exchange env line start stop w =
     (case send_op env line w of (parts, w') \<Rightarrow> (ebind parts (receive start stop []), w'))"

definition command :: "'w env \<Rightarrow> (exn + bytes \<Rightarrow> op) \<Rightarrow> string \<Rightarrow> ('w, bytes) io" where
  "command env label txt =
     pbind (perform NewToken (total (token_op env))) (\<lambda>u.
     pbind (lift (frame_command txt (token_start u) (token_end u))) (\<lambda>line.
     attempt label (exchange env line (token_start u) (token_end u))))"

definition remote :: "'w env \<Rightarrow> string \<Rightarrow> string \<Rightarrow> ('w, bytes) io" where
  "remote env boot_id txt = command env (Shell txt) (guarded boot_id txt)"

definition layout_command :: "string \<Rightarrow> string list \<Rightarrow> string" where
  "layout_command boot_id args =
     shlex_join ([''sh'', ''/usr/lib/liuqin/install-layout.sh'', boot_id] @ args)"

definition device_layout :: "'w env \<Rightarrow> string \<Rightarrow> string list \<Rightarrow> ('w, string) io" where
  "device_layout env boot_id args =
     command env (Layout args) (guarded boot_id (layout_command boot_id args))"

text \<open>The geometry report and the digest report are lines of a key and a value.\<close>

definition dict_lines :: "string \<Rightarrow> exn + (string \<rightharpoonup> string)" where
  "dict_lines text =
     ebind (mapM (\<lambda>line. case split_ws_once line of [k, v] \<Rightarrow> Inr (k, v)
                     | _ \<Rightarrow> Inl (ValueError ''dictionary update sequence element''))
              (filter (\<lambda>l. l \<noteq> []) (splitlines text)))
       (\<lambda>kvs. Inr (map_of (rev kvs)))"

definition get_key :: "(string \<rightharpoonup> string) \<Rightarrow> string \<Rightarrow> exn + string" where
  "get_key d k = (case d k of None \<Rightarrow> Inl (KeyError k) | Some v \<Rightarrow> Inr v)"

definition to_int :: "nat \<Rightarrow> string \<Rightarrow> exn + int" where
  "to_int base s = (case py_int base s of None \<Rightarrow> Inl (ValueError s) | Some n \<Rightarrow> Inr n)"

definition get_int :: "(string \<rightharpoonup> string) \<Rightarrow> string \<Rightarrow> exn + int" where
  "get_int d k = ebind (get_key d k) (to_int 10)"

end
