(* ===== verification/Images.thy ===== *)
theory Images
  imports Device
begin

text \<open>
  The images the installer writes: the boot image rule (\<^verbatim>\<open>boot_image_kind\<close>), the zero-filled boot
  partition (\<^verbatim>\<open>pad_boot_image\<close>), the pinned ROM (\<^verbatim>\<open>verify_rom\<close>, \<^verbatim>\<open>check_android_boot\<close>)
  and the choice of what to flash (\<^verbatim>\<open>stock_images_to_flash\<close>). A \<^verbatim>\<open>hashlib\<close> digest is the
  bytes fed to it so far; \<^verbatim>\<open>hexdigest\<close> is the parameter \<open>sha256\<close> of them.
\<close>

subsection \<open>Kinds of boot images\<close>

definition u32 :: "bytes \<Rightarrow> int \<Rightarrow> nat" where
  "u32 s offset = le_value (py_slice s offset (offset + 4))"

definition boot_image_kind :: "bytes \<Rightarrow> string" where
  "boot_image_kind header =
     (if length header < 1652 \<or> take 8 header \<noteq> ''ANDROID!'' then ''unknown''
      else let version = u32 header 40; kernel = u32 header 8
        in if kernel = 0 then ''unknown''
           else if version = 2 \<and> u32 header 36 = 4096 \<and> u32 header 1644 = 1660 \<and> 0 < u32 header 1648
             then ''ubuntu''
           else if (version, u32 header 20) \<in> {(3, 1580), (4, 1584)} then ''android''
           else ''unknown'')"

subsection \<open>Zero filling\<close>

function update_zeros :: "bytes \<Rightarrow> int \<Rightarrow> bytes" where
  "update_zeros fed n =
     (if 0 < n then let block = min n (2 ^ 20) in update_zeros (fed @ zeros (nat block)) (n - block)
      else fed)"
  by pat_completeness auto
termination by (relation "measure (\<lambda>(fed, n). nat n)") auto

declare update_zeros.simps [simp del]

definition zero_digest :: "'w env \<Rightarrow> int \<Rightarrow> string" where
  "zero_digest env n = sha256 env (update_zeros [] n)"

text \<open>The copy loop of \<^verbatim>\<open>pad_boot_image\<close>: the two digests and the file, chunk by chunk.\<close>

definition copy_chunk :: "bytes \<times> bytes \<times> bytes \<Rightarrow> bytes \<Rightarrow> bytes \<times> bytes \<times> bytes" where
  "copy_chunk st chunk = (case st of (img, padded, out) \<Rightarrow> (img @ chunk, padded @ chunk, out @ chunk))"

definition truncate_file :: "bytes \<Rightarrow> nat \<Rightarrow> bytes" where
  "truncate_file s n = take n s @ zeros (n - length s)"

definition pad_image :: "'w env \<Rightarrow> bytes \<Rightarrow> string \<Rightarrow> nat \<Rightarrow> exn + bytes \<times> string" where
  "pad_image env source expected n =
     (case foldl copy_chunk ([], [], []) (chunks (2 ^ 20) source) of (img, padded, out) \<Rightarrow>
        (let len = length out in
         if n < len then Inl (RuntimeError ''the image is larger than the partition'')
         else let file = truncate_file out n in
           if sha256 env img \<noteq> expected
             then Inl (RuntimeError ''the image changed while it was being padded; nothing was written'')
           else if length file \<noteq> n then Inl (RuntimeError ''the padded image is not the partition size'')
           else Inr (file, sha256 env (update_zeros padded (int n - int len)))))"

text \<open>The file is written as it is copied and truncated before the digest is compared.\<close>

definition pad_boot_image :: "'w env \<Rightarrow> string \<Rightarrow> string \<Rightarrow> nat \<Rightarrow> string \<Rightarrow> ('w, string \<times> string) io" where
  "pad_boot_image env source expected n directory =
     (let target = directory @ ''/boot-padded.img'' in
      pbind (read_file env source) (\<lambda>data.
      pseq (write_file env target data)
      (pseq (if length data \<le> n then write_file env target (truncate_file data n) else ret ())
      (pbind (lift (pad_image env data expected n)) (\<lambda>(_, digest). ret (target, digest))))))"

subsection \<open>The pinned ROM\<close>

definition ANDROID_BOOT_IMAGE :: string where "ANDROID_BOOT_IMAGE = ''boot.img''"
definition ANDROID_BOOT_URL :: string where "ANDROID_BOOT_URL = ''android-boot.img''"
definition ANDROID_FIRMWARE_PARTITIONS :: "string list" where
  "ANDROID_FIRMWARE_PARTITIONS = [''modem_a'', ''bluetooth_a'', ''dsp_a'']"

text \<open>\<^verbatim>\<open>boot_partition_bytes\<close>\<close>

definition boot_partition_bytes :: "RomTable \<Rightarrow> exn + nat" where
  "boot_partition_bytes table =
     (case map_of (rt_images table) ANDROID_BOOT_IMAGE of
        None \<Rightarrow> Inl (KeyError ANDROID_BOOT_IMAGE) | Some e \<Rightarrow> Inr (r_bytes e))"

definition usage :: "string \<Rightarrow> ('w, op, exn, 'a) prog" where
  "usage msg = raise (SystemExit msg)"

definition check_android_boot :: "'w env \<Rightarrow> RomTable \<Rightarrow> string \<Rightarrow> ('w, string) io" where
  "check_android_boot env table path =
     pbind (lift (boot_partition_bytes table)) (\<lambda>expected.
     pbind (query env path) (\<lambda>there.
     if \<not> there then usage ''--android-boot is not a file''
     else pbind (read_file env path) (\<lambda>content.
       if length content \<noteq> expected then usage ''--android-boot must be as long as the stock boot.img''
       else let header = take 4096 content in
         if take 8 header \<noteq> ''ANDROID!'' then usage ''no Android boot magic''
         else if boot_image_kind header \<noteq> ''android'' then usage ''not a header version 3 or 4 image''
         else sha env path)))"

definition sorted_items :: "(string \<times> 'a) list \<Rightarrow> (string \<times> 'a) list" where
  "sorted_items items = sort_key fst items"

definition verify_image :: "'w env \<Rightarrow> string \<Rightarrow> string \<times> RomEntry \<Rightarrow> ('w, string \<times> RomEntry) io" where
  "verify_image env images item =
     (case item of (name, e) \<Rightarrow>
        (let path = images @ ''/'' @ name in
         pbind (query env path) (\<lambda>there.
         if \<not> there then usage (''the ROM directory does not contain '' @ name)
         else pbind (read_file env path) (\<lambda>content.
           if length content \<noteq> r_bytes e \<or> sha256 env content \<noteq> r_sha256 e
             then usage (''ROM image does not match the pinned release: '' @ name)
           else ret (name, e\<lparr>r_path := path\<rparr>)))))"

definition verify_rom ::
  "'w env \<Rightarrow> RomTable \<Rightarrow> string \<Rightarrow> string option \<Rightarrow> ('w, (string \<times> RomEntry) list) io" where
  "verify_rom env table rom_dir android_boot =
     pbind (query env (rom_dir @ ''/images'')) (\<lambda>sub.
     let images = (if sub then rom_dir @ ''/images'' else rom_dir) in
     pbind (for_each (verify_image env images) (sorted_items (rt_images table))) (\<lambda>selected.
     case android_boot of
       None \<Rightarrow> ret selected
     | Some override \<Rightarrow>
         pbind (sha env override) (\<lambda>digest.
         case map_of selected ANDROID_BOOT_IMAGE of
           None \<Rightarrow> raise (KeyError ANDROID_BOOT_IMAGE)
         | Some e \<Rightarrow> ret (AList.update ANDROID_BOOT_IMAGE
             (e\<lparr>r_path := override, r_sha256 := digest, r_override := True\<rparr>) selected))))"

subsection \<open>What to flash\<close>

text \<open>The reason to write one image, from the digest report of its partition: None when the partition
  already carries its bytes followed by zeros.\<close>

definition flash_reason :: "'w env \<Rightarrow> RomEntry \<Rightarrow> (string \<rightharpoonup> string) \<Rightarrow> exn + string option" where
  "flash_reason env e report =
     ebind (get_int report ''size'') (\<lambda>n.
     let padding = n - int (r_bytes e) in
     ebind (get_key report ''content'') (\<lambda>content.
     if content \<noteq> r_sha256 e then Inr (Some ''content differs'')
     else ebind (get_key report ''padding'') (\<lambda>tail_digest.
       if tail_digest \<noteq> zero_digest env padding then Inr (Some ''the bytes after the image are not zero'')
       else Inr None)))"

definition select_image :: "'w env \<Rightarrow> string \<Rightarrow> string \<times> RomEntry \<Rightarrow> ('w, (string \<times> RomEntry) list) io" where
  "select_image env boot_id item =
     (case item of (name, e) \<Rightarrow>
        if r_override e \<or> r_sparse e then ret [(name, e)]
        else
          pbind (device_layout env boot_id [''digest'', r_partition e, dec (r_bytes e)]) (\<lambda>text.
          pbind (lift (dict_lines text)) (\<lambda>report.
          pbind (lift (flash_reason env e report)) (\<lambda>reason.
          ret (case reason of None \<Rightarrow> [] | Some _ \<Rightarrow> [(name, e)])))))"

definition stock_images_to_flash ::
  "'w env \<Rightarrow> string \<Rightarrow> (string \<times> RomEntry) list \<Rightarrow> ('w, (string \<times> RomEntry) list) io" where
  "stock_images_to_flash env boot_id images =
     pbind (for_each (select_image env boot_id) (sorted_items images)) (\<lambda>parts. ret (concat parts))"

subsection \<open>Zero filling is exact\<close>

lemma update_zeros_eq: "update_zeros fed n = fed @ zeros (nat n)"
proof (induction fed n rule: update_zeros.induct)
  case (1 fed n)
  show ?case
  proof (cases "0 < n")
    case True
    have "nat (min n (2 ^ 20)) + nat (n - min n (2 ^ 20)) = nat n" using True by (simp add: min_def nat_diff_distrib)
    then show ?thesis using 1 [OF True refl] True
      by (subst update_zeros.simps) (simp add: Let_def flip: zeros_add)
  next
    case False
    then show ?thesis by (subst update_zeros.simps) simp
  qed
qed

lemma copy_chunks: "foldl copy_chunk (a, b, c) cs = (a @ concat cs, b @ concat cs, c @ concat cs)"
  by (induction cs arbitrary: a b c) (simp_all add: copy_chunk_def)

lemma truncate_longer: "length s \<le> n \<Longrightarrow> truncate_file s n = s @ zeros (n - length s)"
  by (simp add: truncate_file_def)

lemma pad_image_Inr:
  "pad_image env source expected n = Inr (img, d) \<Longrightarrow> length source \<le> n \<and> sha256 env source = expected
     \<and> d = sha256 env (source @ zeros (n - length source))"
  by (auto simp: pad_image_def copy_chunks concat_chunks truncate_longer update_zeros_eq Let_def
      nat_diff_distrib split: if_splits)

text \<open>C31. What is flashed to a boot partition is the verified image, zero-filled to exactly the size of
  the partition: \<^verbatim>\<open>pad_boot_image\<close> produces it, with the digest of the whole file, if and only if
  the image fits and still has its recorded digest; otherwise it refuses. Reading the image in 1 MiB
  chunks and feeding the zeros to the digest block by block make no difference.\<close>

theorem pad_image_exact:
  "pad_image env source expected n =
     (if n < length source then Inl (RuntimeError ''the image is larger than the partition'')
      else if sha256 env source \<noteq> expected
        then Inl (RuntimeError ''the image changed while it was being padded; nothing was written'')
      else let file = source @ zeros (n - length source) in Inr (file, sha256 env file))"
  by (auto simp: pad_image_def copy_chunks concat_chunks truncate_longer update_zeros_eq Let_def
      nat_diff_distrib)

end
