(* ===== verification/InstallSteps.thy ===== *)
theory InstallSteps
  imports Images
begin

text \<open>
  The steps of an installation, from \<^verbatim>\<open>tools/install-liuqin.py\<close>: the backups, the restore of a
  saved partition table, the edit of the table, the comparison with the confirmed plan, the commands
  that install the root and the Fastboot tail.
\<close>

definition ANCHOR :: string where "ANCHOR = ''persist''"
definition DUAL_UBUNTU_SLOT :: string where "DUAL_UBUNTU_SLOT = ''a''"
definition DUAL_FALLBACK_SLOT :: string where "DUAL_FALLBACK_SLOT = ''b''"
definition LINUX_ONLY_UBUNTU_SLOT :: string where "LINUX_ONLY_UBUNTU_SLOT = ''b''"

definition boot_slots :: "string \<Rightarrow> string list" where
  "boot_slots mode = (if mode = ''dual'' then [DUAL_UBUNTU_SLOT, DUAL_FALLBACK_SLOT]
                      else [LINUX_ONLY_UBUNTU_SLOT])"

definition runtime :: "string \<Rightarrow> ('w, op, exn, 'a) prog" where
  "runtime msg = raise (RuntimeError msg)"

subsection \<open>Backups\<close>

definition partlabel :: "string \<Rightarrow> string" where
  "partlabel name = ''/dev/disk/by-partlabel/'' @ name"

text \<open>The two commands of \<^verbatim>\<open>backup_partition\<close>: the bytes of a partition and their digest.\<close>

definition content_command :: "string \<Rightarrow> string" where
  "content_command name = ''test -b '' @ partlabel name @ '' && /bin/busybox base64 '' @ partlabel name"

definition digest_command :: "string \<Rightarrow> string" where
  "digest_command name = ''/bin/busybox sha256sum '' @ partlabel name"

definition backup_partition :: "'w env \<Rightarrow> string \<Rightarrow> string \<Rightarrow> string \<Rightarrow> ('w, string) io" where
  "backup_partition env boot_id directory name =
     (let target = directory @ ''/'' @ name @ ''.img'' in
      pbind (remote env boot_id (content_command name)) (\<lambda>content.
      pbind (lift (b64decode content)) (\<lambda>data.
      pseq (write_file env target data)
      (pseq (chmod env target)
      (pbind (remote env boot_id (digest_command name)) (\<lambda>out.
       case split_ws out of
         [] \<Rightarrow> raise IndexError
       | expected # _ \<Rightarrow>
           pbind (sha env target) (\<lambda>digest.
           if digest \<noteq> expected then runtime (''Backup verification failed: '' @ name)
           else ret expected)))))))"

definition geometry :: "'w env \<Rightarrow> string \<Rightarrow> ('w, string \<rightharpoonup> string) io" where
  "geometry env boot_id =
     pbind (device_layout env boot_id [''geometry'', ANCHOR]) (\<lambda>text. lift (dict_lines text))"

definition gpt_copy :: "string \<Rightarrow> string \<Rightarrow> string" where
  "gpt_copy target half = target @ ''/sda-'' @ half @ ''.bin''"

definition backup_half ::
  "'w env \<Rightarrow> string \<Rightarrow> string \<Rightarrow> (string \<rightharpoonup> string) \<Rightarrow> string \<Rightarrow> ('w, string \<times> string) io" where
  "backup_half env boot_id target geo half =
     pbind (device_layout env boot_id [''backup-gpt'', ANCHOR, half]) (\<lambda>text.
     pbind (lift (b64decode text)) (\<lambda>data.
     pbind (lift (get_int geo ''sector'')) (\<lambda>sector.
     if int (length data) \<noteq> 6 * sector then runtime (''the GPT copy has the wrong length: '' @ half)
     else pseq (write_file env (gpt_copy target half) data)
       (pseq (chmod env (gpt_copy target half))
         (ret (''sda-'' @ half @ ''.bin'', sha256 env data))))))"

definition backup_partition_table :: "'w env \<Rightarrow> string \<Rightarrow> string \<Rightarrow> string \<Rightarrow> ('w, string) io" where
  "backup_partition_table env boot_id directory serial =
     (let target = directory @ ''/gpt'' in
      pseq (mkdir env target)
      (pbind (device_layout env boot_id [''report'', ANCHOR]) (\<lambda>report.
       pseq (write_file env (target @ ''/sgdisk-p.txt'') report)
       (pbind (geometry env boot_id) (\<lambda>geo.
        pbind (for_each (backup_half env boot_id target geo) [''head'', ''tail'']) (\<lambda>copies.
        pbind (lift (get_key geo ''disk'')) (\<lambda>disk.
        pbind (lift (get_int geo ''sector'')) (\<lambda>sector.
        pbind (lift (get_int geo ''sectors'')) (\<lambda>sectors.
        pseq (write_file env (target @ ''/manifest.json'')
               (dump_saved env \<lparr>sv_serial = serial, sv_disk = disk, sv_sector_size = sector,
                                sv_sectors = sectors, sv_files = copies\<rparr> @ [newline]))
          (ret target))))))))))"

subsection \<open>Restoring a saved table\<close>

definition stage_blob :: "'w env \<Rightarrow> string \<Rightarrow> string \<Rightarrow> bytes \<Rightarrow> ('w, unit) io" where
  "stage_blob env boot_id name data =
     pseq (for_each (remote env boot_id) (stage_commands name data)) (ret ())"

text \<open>The half of the name \<^verbatim>\<open>sda-HALF.bin\<close>: \<^verbatim>\<open>name.split('-')[1].split('.')[0]\<close>.\<close>

definition half_of :: "string \<Rightarrow> exn + string" where
  "half_of name =
     (let rest = dropWhile (\<lambda>c. c \<noteq> CHR ''-'') name
      in if rest = [] then Inl IndexError
         else Inr (takeWhile (\<lambda>c. c \<noteq> CHR ''.'' \<and> c \<noteq> CHR ''-'') (tl rest)))"

definition restore_half :: "'w env \<Rightarrow> string \<Rightarrow> string \<Rightarrow> string \<times> string \<Rightarrow> ('w, unit) io" where
  "restore_half env boot_id directory item =
     (case item of (name, digest) \<Rightarrow>
       (let path = directory @ ''/gpt/'' @ name in
        pbind (query env path) (\<lambda>there.
        if \<not> there then runtime (''the saved partition table does not match its manifest: '' @ name)
        else pbind (sha env path) (\<lambda>actual.
          if actual \<noteq> digest then runtime (''the saved partition table does not match its manifest: '' @ name)
          else pbind (lift (half_of name)) (\<lambda>half.
            pbind (read_file env path) (\<lambda>data. stage_blob env boot_id half data))))))"

definition restore_partition_table :: "'w env \<Rightarrow> string \<Rightarrow> string \<Rightarrow> string \<Rightarrow> ('w, unit) io" where
  "restore_partition_table env boot_id directory serial =
     pbind (read_file env (directory @ ''/gpt/manifest.json'')) (\<lambda>text.
     pbind (lift (load_saved env text)) (\<lambda>saved.
     if sv_serial saved \<noteq> serial then runtime ''this backup was taken from another serial''
     else pbind (geometry env boot_id) (\<lambda>geo.
       pbind (lift (get_int geo ''sectors'')) (\<lambda>sectors.
       pbind (if sectors \<noteq> sv_sectors saved then ret True
              else pbind (lift (get_int geo ''sector'')) (\<lambda>sector. ret (sector \<noteq> sv_sector_size saved)))
       (\<lambda>differs.
       if differs then runtime ''the tablet geometry differs from the saved partition table''
       else pseq (for_each (restore_half env boot_id directory) (sv_files saved))
         (pbind (device_layout env boot_id [''restore-gpt'', ANCHOR]) (\<lambda>out.
          if contains ''GPT_RESTORED'' out then ret ()
          else runtime ''the device did not confirm the partition-table restore'')))))))"

subsection \<open>Editing the table\<close>

definition named :: "Disk \<Rightarrow> string \<Rightarrow> exn + Partition" where
  "named d n = ebind (of_layout (by_name d n))
     (\<lambda>found. case found of None \<Rightarrow> Inl AttributeError | Some p \<Rightarrow> Inr p)"

definition userdata_info :: "'w env \<Rightarrow> string \<Rightarrow> ('w, PartInfo) io" where
  "userdata_info env boot_id =
     pbind (device_layout env boot_id [''info'', USERDATA_NAME]) (\<lambda>text.
     lift (of_layout (parse_info text)))"

definition edit_and_verify ::
  "'w env \<Rightarrow> string \<Rightarrow> Plan \<Rightarrow> PartInfo \<Rightarrow> string list \<Rightarrow> ('w, unit) io" where
  "edit_and_verify env boot_id pl info arguments =
     pbind (device_layout env boot_id ([''apply'', ANCHOR] @ arguments)) (\<lambda>out.
     if \<not> contains ''LAYOUT_APPLIED'' out then runtime ''the device did not confirm the partition-table edit''
     else pbind (device_layout env boot_id [''report'', ANCHOR]) (\<lambda>text.
       pbind (lift (of_layout (parse_print text))) (\<lambda>after.
       pbind (lift (of_layout (verify_applied after pl))) (\<lambda>_.
       case plan_entry pl USERDATA_NAME of
         None \<Rightarrow> raise AttributeError
       | Some e \<Rightarrow>
           if e_action e = ''delete'' then ret ()
           else pbind (userdata_info env boot_id) (\<lambda>info'.
             pseq (lift (of_layout (verify_preserved info info'))) (ret ()))))))"

definition edit_failed :: "exn \<Rightarrow> ('w, unit) io option" where
  "edit_failed e =
     (case e of RuntimeError m \<Rightarrow> Some (runtime (m @ '': restore with --restore-partition-table''))
      | LayoutExn le \<Rightarrow> Some (runtime ''partition-table edit failed: restore with --restore-partition-table'')
      | _ \<Rightarrow> None)"

definition apply_layout ::
  "'w env \<Rightarrow> string \<Rightarrow> Disk \<Rightarrow> Plan \<Rightarrow> string option \<Rightarrow> string \<Rightarrow> ('w, unit) io" where
  "apply_layout env boot_id before pl saved mode =
     pbind (lift (named before USERDATA_NAME)) (\<lambda>userdata.
     pbind (userdata_info env boot_id) (\<lambda>info.
     if i_first_sector info \<noteq> p_first_sector userdata \<or> i_name info \<noteq> USERDATA_NAME
       then runtime ''the userdata partition reports inconsistent geometry''
     else
       pseq (device_layout env boot_id [''wipe-head'', USERDATA_NAME, str_int WIPE_BYTES])
       (pseq (if mode = ''dual''
              then pseq (device_layout env boot_id [''wipe-head'', METADATA_NAME, str_int WIPE_BYTES]) (ret ())
              else ret ())
       (pbind (case saved of None \<Rightarrow> raise TypeError | Some dir \<Rightarrow> read_file env (dir @ ''/manifest.json'')) (\<lambda>text.
        pbind (lift (load_saved env text)) (\<lambda>sv.
        pbind (lift (of_layout (sgdisk_arguments pl (sv_disk sv) info))) (\<lambda>arguments.
        pcatch (edit_and_verify env boot_id pl info arguments) edit_failed)))))))"

text \<open>\<^verbatim>\<open>confirm_plan\<close>: what was confirmed and what will be written is the same decision.\<close>

definition confirm_entry :: "Entry \<times> Entry \<Rightarrow> exn + unit" where
  "confirm_entry two = (case two of (one, other) \<Rightarrow>
     require (\<not> (e_action one \<noteq> e_action other
                  \<or> (e_name one \<noteq> HOME_NAME \<and> e_size one \<noteq> e_size other)))
       (RuntimeError ''not the layout that was confirmed; nothing was written''))"

definition confirm_plan :: "Plan \<Rightarrow> Plan \<Rightarrow> exn + unit" where
  "confirm_plan expected actual =
     ebind (require (map e_name (pl_entries expected) = map e_name (pl_entries actual))
             (RuntimeError ''the computed layout has a different shape from the confirmed one'')) (\<lambda>_.
     each confirm_entry (zip (pl_entries expected) (pl_entries actual)))"

subsection \<open>Installing the root\<close>

definition stat_size :: "'w env \<Rightarrow> string \<Rightarrow> ('w, nat) io" where
  "stat_size env path = pbind (read_file env path) (\<lambda>data. ret (length data))"

definition file_digest :: "Manifest \<Rightarrow> string \<Rightarrow> exn + string" where
  "file_digest mf name = get_key (mf_files mf) name"

definition switch_store_arguments ::
  "'w env \<Rightarrow> string \<Rightarrow> string \<Rightarrow> string \<Rightarrow> RomEntry \<Rightarrow> ('w, string list) io" where
  "switch_store_arguments env base_url ubuntu_sha256 ubuntu_image android_entry =
     pbind (stat_size env ubuntu_image) (\<lambda>ubuntu_size.
     pbind (stat_size env (r_path android_entry)) (\<lambda>android_size.
     ret [''SWITCH-STORE'', ''ubuntu'', base_url @ ''/boot.img'', ubuntu_sha256, dec ubuntu_size,
          ''android'', base_url @ ''/'' @ ANDROID_BOOT_URL, r_sha256 android_entry, dec android_size]))"

definition install_root_command ::
  "'w env \<Rightarrow> string \<Rightarrow> string \<Rightarrow> string \<Rightarrow> Manifest \<Rightarrow> bool \<Rightarrow> bool \<Rightarrow> string
     \<Rightarrow> (string \<times> RomEntry) list \<Rightarrow> ('w, string list) io" where
  "install_root_command env boot_id base_url bundle mf rescue keep_home mode rom_images =
     pbind (lift (file_digest mf ''rootfs.tar.gz'')) (\<lambda>root_sha.
     pbind (stat_size env (bundle @ ''/rootfs.tar.gz'')) (\<lambda>root_size.
     let install = [''sh'', ''/usr/lib/liuqin/install-root.sh'', boot_id, base_url @ ''/rootfs.tar.gz'',
             root_sha, dec root_size, ''ERASE-LIUQIN-USERDATA'', ROOT_NAME, HOME_NAME]
           @ (if rescue then [''ENABLE-USB-RESCUE''] else []) @ (if keep_home then [''KEEP-HOME''] else [])
     in if mode = ''dual'' then
          pbind (lift (file_digest mf ''boot.img'')) (\<lambda>boot_sha.
          case map_of rom_images ANDROID_BOOT_IMAGE of
            None \<Rightarrow> raise (KeyError ANDROID_BOOT_IMAGE)
          | Some e \<Rightarrow>
              pbind (switch_store_arguments env base_url boot_sha (bundle @ ''/boot.img'') e)
                (\<lambda>store. ret (install @ store)))
        else ret install))"

subsection \<open>The Fastboot tail\<close>

definition check_flash :: "'w env \<Rightarrow> string \<times> RomEntry \<Rightarrow> ('w, unit) io" where
  "check_flash env item =
     (case item of (name, e) \<Rightarrow>
        if r_partition e \<in> set ANDROID_FIRMWARE_PARTITIONS then
          (case r_flash e of
             None \<Rightarrow> raise (KeyError ''flash_bytes'')
           | Some (n, digest) \<Rightarrow>
               pbind (stat_size env (r_path e)) (\<lambda>m.
               if m \<noteq> n then runtime (''the zero-filled firmware image changed before flashing: '' @ name)
               else pbind (sha env (r_path e)) (\<lambda>actual.
                 if actual \<noteq> digest
                 then runtime (''the zero-filled firmware image changed before flashing: '' @ name)
                 else ret ())))
        else ret ())"

definition flash :: "'w env \<Rightarrow> string \<Rightarrow> string \<Rightarrow> string \<Rightarrow> ('w, string) io" where
  "flash env serial part img = fastboot env [''-s'', serial, ''flash'', part, img]"

definition finish_in_fastboot ::
  "'w env \<Rightarrow> string \<Rightarrow> string \<Rightarrow> (string \<times> RomEntry) list \<Rightarrow> string \<Rightarrow> string \<Rightarrow> nat \<Rightarrow> ('w, unit) io" where
  "finish_in_fastboot env serial mode flashes padded_image padded_sha256 partition_bytes =
     pbind (stat_size env padded_image) (\<lambda>n.
     pbind (if n \<noteq> partition_bytes then ret True
            else pbind (sha env padded_image) (\<lambda>digest. ret (digest \<noteq> padded_sha256))) (\<lambda>changed.
     if changed then runtime ''the zero-filled boot image changed before it was flashed; boot_a was not written''
     else
       pseq (for_each (check_flash env) flashes)
       (pseq (for_each (\<lambda>(name, e). flash env serial (r_partition e) (r_path e)) flashes)
       (pseq (for_each (\<lambda>slot. flash env serial (''boot_'' @ slot) padded_image) (boot_slots mode))
       (pseq (fastboot env [''-s'', serial, ''--set-active='' @ hd (boot_slots mode)])
       (pseq (fastboot env [''-s'', serial, ''reboot'']) (ret ())))))))"

end
