(* ===== verification/Installer.thy ===== *)
theory Installer
  imports InstallSteps
begin

text \<open>
  The whole installation: \<^verbatim>\<open>validate_arguments\<close>, \<^verbatim>\<open>reference_plan\<close> and \<^verbatim>\<open>main\<close> of
  \<^verbatim>\<open>tools/install-liuqin.py\<close>, phase by phase in the order of the code. Printing, the shutdown of
  the HTTP server and the removal of the scratch directory have no effect on the tablet and are left
  out; the two deadlines are numbers of attempts given by \<open>env\<close>.
\<close>

subsection \<open>Arguments\<close>

record Args =
  a_bundle :: string
  a_check :: bool
  a_serial :: "string option"
  a_host_address :: "string option"
  a_device_address :: string
  a_backup :: "string option"
  a_no_backup :: bool
  a_erase_userdata :: bool
  a_layout :: "string option"
  a_android_size :: "string option"
  a_root_size :: "string option"
  a_keep_home :: bool
  a_rom_dir :: "string option"
  a_android_boot :: "string option"
  a_restore :: "string option"
  a_yes :: bool
  a_allow_unverified :: bool
  a_enable_rescue :: bool

text \<open>Truth of an optional string; a path given on the command line is always true.\<close>

definition given :: "string option \<Rightarrow> bool" where
  "given arg = (case arg of None \<Rightarrow> False | Some s \<Rightarrow> s \<noteq> [])"

definition LIB :: "'w env \<Rightarrow> string \<Rightarrow> string list" where
  "LIB env name = [here env @ ''/lib/'' @ name, here env @ ''/'' @ name]"

definition load_rom_table :: "'w env \<Rightarrow> ('w, RomTable) io" where
  "load_rom_table env =
     pbind (query env (LIB env ''liuqin-rom-images.json'' ! 0)) (\<lambda>in_lib.
     pbind (if in_lib then ret True else query env (LIB env ''liuqin-rom-images.json'' ! 1)) (\<lambda>found.
     if \<not> found then usage ''liuqin-rom-images.json is missing next to this program''
     else pbind (read_file env (LIB env ''liuqin-rom-images.json'' ! (if in_lib then 0 else 1))) (\<lambda>text.
       lift (load_rom env text))))"

text \<open>The refusals of \<^verbatim>\<open>validate_arguments\<close> that need no file, in order.\<close>

definition reject :: "bool \<Rightarrow> string \<Rightarrow> exn + unit" where
  "reject b msg = require (\<not> b) (SystemExit msg)"

definition restore_conflict :: "Args \<Rightarrow> bool" where
  "restore_conflict args \<longleftrightarrow> given (a_layout args) \<or> a_rom_dir args \<noteq> None \<or> a_android_boot args \<noteq> None
     \<or> given (a_android_size args) \<or> given (a_root_size args)"

definition validate_arguments :: "'w env \<Rightarrow> Args \<Rightarrow> bool \<Rightarrow> ('w, unit) io" where
  "validate_arguments env args preview =
     pseq (lift (reject (a_no_backup args \<and> (a_backup args \<noteq> None \<or> \<not> a_keep_home args \<or> a_restore args \<noteq> None))
             ''--no-backup requires --keep-home and cannot be combined with --backup or restore''))
     (pseq (lift (reject (a_keep_home args \<and> (given (a_android_size args) \<or> given (a_root_size args)))
             ''--keep-home keeps the existing sizes''))
     (if a_restore args \<noteq> None then
        pseq (lift (reject (restore_conflict args) ''--restore-partition-table is a separate action''))
          (lift (reject (\<not> preview \<and> \<not> given (a_serial args)) ''--restore-partition-table requires --serial''))
      else
        pseq (case a_android_boot args of
                None \<Rightarrow> ret ()
              | Some img \<Rightarrow>
                  pseq (lift (reject (a_layout args \<noteq> Some ''dual'') ''--android-boot only applies to --layout dual''))
                    (pbind (load_rom_table env) (\<lambda>table.
                     pseq (check_android_boot env table img) (ret ()))))
        (if preview then ret ()
         else
           pseq (lift (reject (\<not> given (a_layout args)) ''--layout linux-only|dual is required''))
           (pseq (lift (reject (a_layout args = Some ''dual'' \<and> a_rom_dir args = None)
                   ''--layout dual needs --rom-dir''))
             (lift (reject (a_layout args \<noteq> Some ''dual'' \<and> a_rom_dir args \<noteq> None)
                   ''--rom-dir only applies to --layout dual''))))))"

definition the_layout :: "Args \<Rightarrow> string" where
  "the_layout args = (case a_layout args of None \<Rightarrow> [] | Some m \<Rightarrow> m)"

definition plan_for :: "Disk \<Rightarrow> Args \<Rightarrow> exn + Plan" where
  "plan_for disk args =
     ebind (named disk USERDATA_NAME) (\<lambda>u.
     let region = usable_end disk - p_start u in
     ebind (of_layout (resolve_sizes (the_layout args) (a_android_size args) (a_root_size args) region)) (\<lambda>(android, root_req).
     of_layout (plan_layout disk (the_layout args) android root_req False)))"

text \<open>\<^verbatim>\<open>reference_plan\<close>: a LayoutError becomes a usage error.\<close>

definition reference_plan :: "Args \<Rightarrow> exn + Plan" where
  "reference_plan args =
     (case plan_for (reference_stock_disk DEVICE_SECTOR_SIZE 1) args of
        Inl (LayoutExn e) \<Rightarrow> Inl (SystemExit ''layout'') | r \<Rightarrow> r)"

subsection \<open>The phases of \<^verbatim>\<open>main\<close>\<close>

text \<open>\<^verbatim>\<open>bundle in args.backup.parents\<close> on resolved paths.\<close>

definition is_parent :: "string \<Rightarrow> string \<Rightarrow> bool" where
  "is_parent d path \<longleftrightarrow> d \<noteq> path \<and> take (length d + 1) path = (if d = ''/'' then d @ drop 1 (take 2 path) else d @ ''/'')"

definition check_bundle :: "'w env \<Rightarrow> string \<Rightarrow> ('w, Manifest) io" where
  "check_bundle env bundle =
     pbind (read_file env (bundle @ ''/bundle.json'')) (\<lambda>text.
     pbind (lift (load_manifest env text)) (\<lambda>mf.
     pseq (lift (reject (mf_device mf \<noteq> ''liuqin'') ''wrong device bundle''))
     (pseq (for_each (\<lambda>name.
         pbind (sha env (bundle @ ''/'' @ name)) (\<lambda>digest.
         pbind (lift (file_digest mf name)) (\<lambda>expected.
         lift (reject (digest \<noteq> expected) (''bundle checksum mismatch: '' @ name)))))
       [''boot.img'', ''installer.img'', ''rootfs.tar.gz'']) (ret mf))))"

record Prepared =
  pr_planned :: "Plan option"
  pr_rom :: "(string \<times> RomEntry) list"
  pr_backup :: string

definition prepare :: "'w env \<Rightarrow> Args \<Rightarrow> string \<Rightarrow> ('w, Prepared) io" where
  "prepare env args bundle =
     pbind (if a_no_backup args then ret []
            else pbind (query env (the (a_backup args))) (\<lambda>there.
              if there then usage ''--backup must be a new directory''
              else let b = resolve env (the (a_backup args)) in
                if b = bundle \<or> is_parent bundle b
                then usage ''private backups must be outside the served bundle directory''
                else ret b)) (\<lambda>backup.
     pbind (if a_keep_home args then ret None
            else pbind (lift (reference_plan args)) (\<lambda>pl. ret (Some pl))) (\<lambda>planned.
     pbind (if the_layout args = ''dual'' then
              pbind (load_rom_table env) (\<lambda>table.
              verify_rom env table (resolve env (the (a_rom_dir args))) (map_option (resolve env) (a_android_boot args)))
            else ret []) (\<lambda>rom.
     ret \<lparr>pr_planned = planned, pr_rom = rom, pr_backup = backup\<rparr>)))"

definition getvar :: "'w env \<Rightarrow> string \<Rightarrow> string \<Rightarrow> ('w, string) io" where
  "getvar env serial name = fastboot env [''-s'', serial, ''getvar'', name]"

definition check_var :: "'w env \<Rightarrow> string \<Rightarrow> string \<times> string \<Rightarrow> ('w, unit) io" where
  "check_var env serial nv =
     (case nv of (name, v) \<Rightarrow>
        pbind (getvar env serial name) (\<lambda>out.
        if re_search (rs [Wb, lit name, lit '':'', star space, lit v, Wb]) out = None
        then usage (''Fastboot device check failed: '' @ name) else ret ()))"

definition HEX_RE :: re where
  "HEX_RE = rs [lit ''0x'', plus hex]"

definition partition_size :: "'w env \<Rightarrow> string \<Rightarrow> string \<Rightarrow> bool \<Rightarrow> ('w, int option) io" where
  "partition_size env serial name required =
     pbind (getvar env serial (''partition-size:'' @ name)) (\<lambda>out.
     case re_search (rs [lit ''partition-size:'', lit name, lit '':'', star space, Group 1 HEX_RE]) out of
       None \<Rightarrow> if required then runtime (''Cannot determine partition size: '' @ name) else ret None
     | Some m \<Rightarrow> pbind (lift (to_int 16 (the (m 1)))) (\<lambda>n. ret (Some n)))"

text \<open>\<^verbatim>\<open>int(text, 0)\<close> of a hexadecimal or decimal literal.\<close>

definition int_literal :: "string \<Rightarrow> exn + int" where
  "int_literal s =
     (if take 2 s = ''0x'' then to_int 16 s
      else if take 1 s = ''0'' \<and> (\<exists>c \<in> set s. c \<noteq> CHR ''0'') then Inl (ValueError s)
      else to_int 10 s)"

definition max_download :: "'w env \<Rightarrow> string \<Rightarrow> ('w, int option) io" where
  "max_download env serial =
     pbind (getvar env serial ''max-download-size'') (\<lambda>out.
     case re_search (rs [lit ''max-download-size:'', star space, Group 1 (Alt HEX_RE (plus digit))]) out of
       None \<Rightarrow> ret None
     | Some m \<Rightarrow> pbind (lift (int_literal (the (m 1)))) (\<lambda>n. ret (Some n)))"

definition check_boot_slot :: "'w env \<Rightarrow> string \<Rightarrow> nat \<Rightarrow> string \<Rightarrow> ('w, unit) io" where
  "check_boot_slot env serial boot_bytes slot =
     pbind (partition_size env serial (''boot_'' @ slot) True) (\<lambda>reported.
     if reported \<noteq> Some (int boot_bytes) then usage (''wrong size of boot_'' @ slot) else ret ())"

definition confirm :: "'w env \<Rightarrow> Args \<Rightarrow> ('w, unit) io" where
  "confirm env args =
     (if a_yes args then ret ()
      else pbind (perform IsATty (total (tty_op env))) (\<lambda>tty.
        if \<not> tty then usage ''data erasure needs an interactive confirmation; pass --yes to skip it''
        else pbind (attempt Ask (ask_op env)) (\<lambda>answer.
          if answer \<noteq> ''YES'' then usage ''data erasure was not confirmed'' else ret ())))"

text \<open>The identity and size checks before the RAM installer is booted; they return the size of the boot
  partition.\<close>

definition fastboot_checks :: "'w env \<Rightarrow> Args \<Rightarrow> string \<Rightarrow> string \<Rightarrow> ('w, nat) io" where
  "fastboot_checks env args serial bundle =
     pbind (partition_size env serial ''userdata'' False) (\<lambda>userdata_size.
     if (case userdata_size of None \<Rightarrow> False | Some n \<Rightarrow> n < 16 * 1024 ^ 3)
     then usage ''userdata is smaller than 16 GiB''
     else
       pbind (load_rom_table env) (\<lambda>table.
       pbind (lift (boot_partition_bytes table)) (\<lambda>boot_bytes.
       pseq (for_each (check_boot_slot env serial boot_bytes) (boot_slots (the_layout args)))
       (pbind (for_each (\<lambda>name. stat_size env (bundle @ ''/'' @ name)) [''boot.img'', ''installer.img'']) (\<lambda>sizes.
        if boot_bytes < Max (set sizes) then usage ''boot image exceeds the reported boot partition size''
        else pbind (max_download env serial) (\<lambda>limit.
          if (case limit of None \<Rightarrow> True | Some n \<Rightarrow> n < int boot_bytes)
          then usage ''the bootloader cannot receive a whole boot partition in one download''
          else pseq (confirm env args) (ret boot_bytes)))))))"

text \<open>\<^verbatim>\<open>uuid.UUID(text)\<close> drops \<^verbatim>\<open>urn:\<close>, \<^verbatim>\<open>uuid:\<close>, the braces at the ends and
  the hyphens, and needs 32 characters that \<^verbatim>\<open>int(text, 16)\<close> accepts.\<close>

definition is_uuid :: "string \<Rightarrow> bool" where
  "is_uuid s \<longleftrightarrow> (let braces = dropWhile (\<lambda>c. c \<in> set ''{}'');
       bare = remove_all ''uuid:'' (remove_all ''urn:'' s);
       h = filter (\<lambda>c. c \<noteq> CHR ''-'') (rev (braces (rev (braces bare))))
     in length h = 32 \<and> py_int 16 h \<noteq> None)"

definition ask_boot_id :: "'w env \<Rightarrow> ('w, string) io" where
  "ask_boot_id env =
     (let q = ''test '' @ [CHR 0x22] @ ''$(cat /etc/liuqin-installer)'' @ [CHR 0x22]
            @ '' = liuqin && cat /proc/sys/kernel/random/boot_id'' in
      pbind (command env (Shell q) q) (\<lambda>out.
      let boot_id = strip out in
      if is_uuid boot_id then ret boot_id else raise (ValueError ''badly formed hexadecimal UUID string'')))"

text \<open>The loop makes one attempt and then as many more as fit before the deadline.\<close>

definition not_ready :: "exn \<Rightarrow> bool" where
  "not_ready e \<longleftrightarrow> (case e of OSError _ \<Rightarrow> True | RuntimeError _ \<Rightarrow> True | ValueError _ \<Rightarrow> True | _ \<Rightarrow> False)"

primrec wait_for_channel :: "'w env \<Rightarrow> nat \<Rightarrow> ('w, string) io" where
  "wait_for_channel env 0 =
     pcatch (ask_boot_id env) (\<lambda>e. if not_ready e
       then Some (runtime ''Installer USB channel did not become ready; no formatting performed'') else None)"
| "wait_for_channel env (Suc n) =
     pcatch (ask_boot_id env) (\<lambda>e. if not_ready e
       then Some (pseq (perform Wait (total (wait_op env))) (wait_for_channel env n)) else None)"

definition serial_of :: "string list \<Rightarrow> string" where
  "serial_of words =
     (case find (\<lambda>w. take 21 w = ''androidboot.serialno='') words of None \<Rightarrow> [] | Some w \<Rightarrow> drop 21 w)"

definition check_ram :: "'w env \<Rightarrow> string \<Rightarrow> string \<Rightarrow> Manifest \<Rightarrow> ('w, unit) io" where
  "check_ram env boot_id serial mf =
     pbind (remote env boot_id ''cat /proc/cmdline'') (\<lambda>out.
     pbind (lift (shlex_split out)) (\<lambda>words.
     if serial_of words \<noteq> serial then runtime ''RAM device serial does not match the selected Fastboot device''
     else pbind (remote env boot_id ''uname -r'') (\<lambda>rel.
       if strip rel \<noteq> mf_kernel_release mf then runtime ''Installer kernel does not match this bundle''
       else ret ())))"

definition REBOOT :: string where
  "REBOOT = ''(sleep 2; /usr/sbin/liuqin-reboot bootloader) >/dev/null 2>&1 &''"

definition sha_sums :: "(string \<times> string) list \<Rightarrow> bytes" where
  "sha_sums backups = concat (map (\<lambda>(n, h). h @ ''  '' @ n @ [newline]) backups)"

text \<open>The backups before any edit: boot_a, boot_b, persist and the partition table.\<close>

definition take_backups ::
  "'w env \<Rightarrow> string \<Rightarrow> Args \<Rightarrow> string \<Rightarrow> string \<Rightarrow> ('w, (string \<times> string) list \<times> string option) io" where
  "take_backups env boot_id args backup serial =
     (if a_no_backup args then ret ([], None)
      else
        pseq (mkdir env backup)
        (pbind (for_each (\<lambda>name. pbind (backup_partition env boot_id backup name)
                  (\<lambda>digest. ret (name @ ''.img'', digest))) [''boot_a'', ''boot_b'', ''persist'']) (\<lambda>backups.
         pseq (write_file env (backup @ ''/SHA256SUMS'') (sha_sums backups))
         (pbind (backup_partition_table env boot_id backup serial) (\<lambda>saved.
          ret (backups, Some saved))))))"

text \<open>Reading the table of the tablet and, on a factory one, editing it. \<^verbatim>\<open>saved\<close> is None only
  after --no-backup, which the arguments admit with --keep-home alone; \<^verbatim>\<open>apply_layout\<close> would raise
  a TypeError on it, after the wipes.\<close>

definition repartition ::
  "'w env \<Rightarrow> string \<Rightarrow> Args \<Rightarrow> Plan option \<Rightarrow> string option \<Rightarrow> ('w, unit) io" where
  "repartition env boot_id args planned saved =
     pbind (device_layout env boot_id [''report'', ANCHOR]) (\<lambda>text.
     pbind (lift (of_layout (parse_print text))) (\<lambda>disk.
     pbind (lift (of_layout (classify disk))) (\<lambda>state.
     if state = ''unknown'' then runtime ''this partition table is neither the factory layout nor one this installer created''
     else if state = ''stock'' \<and> a_keep_home args then runtime ''there is no linux_home to keep''
     else if state = ''split'' then
       (if \<not> a_keep_home args then runtime ''the tablet already carries a split layout'' else ret ())
     else
       pseq (lift (of_layout (check_stock_device disk)))
       (pbind (lift (plan_for disk args)) (\<lambda>pl.
        case planned of
          None \<Rightarrow> raise AttributeError
        | Some expected \<Rightarrow>
            pseq (lift (confirm_plan expected pl))
              (apply_layout env boot_id disk pl saved (the_layout args)))))))"

definition blockdev_size :: "'w env \<Rightarrow> string \<Rightarrow> string \<Rightarrow> ('w, nat) io" where
  "blockdev_size env boot_id name =
     pbind (remote env boot_id (''/bin/busybox blockdev --getsize64 '' @ shlex_quote (partlabel name))) (\<lambda>out.
     pbind (lift (to_int 10 (strip out))) (\<lambda>n. ret (nat n)))"

definition prepare_firmware ::
  "'w env \<Rightarrow> string \<Rightarrow> bool \<Rightarrow> string \<Rightarrow> string \<times> RomEntry
     \<Rightarrow> ('w, (string \<times> RomEntry) \<times> (string \<times> string) list) io" where
  "prepare_firmware env boot_id no_backup backup item =
     (case item of (img_name, e) \<Rightarrow>
       (let name = r_partition e in
        if name \<notin> set ANDROID_FIRMWARE_PARTITIONS then ret (item, [])
        else
          pbind (if no_backup then pbind (blockdev_size env boot_id name) (\<lambda>n. ret (n, []))
                 else pbind (backup_partition env boot_id backup name) (\<lambda>digest.
                   pbind (stat_size env (backup @ ''/'' @ name @ ''.img'')) (\<lambda>n. ret (n, [(name @ ''.img'', digest)]))))
            (\<lambda>(n, new).
          pseq (mkdir env (scratch_dir env @ ''/'' @ name))
          (pbind (pad_boot_image env (r_path e) (r_sha256 e) n (scratch_dir env @ ''/'' @ name)) (\<lambda>(img, digest).
           ret ((img_name, e\<lparr>r_path := img, r_flash := Some (n, digest)\<rparr>), new))))))"

definition prepare_flashes ::
  "'w env \<Rightarrow> string \<Rightarrow> Args \<Rightarrow> string \<Rightarrow> (string \<times> string) list \<Rightarrow> (string \<times> RomEntry) list
     \<Rightarrow> ('w, (string \<times> RomEntry) list) io" where
  "prepare_flashes env boot_id args backup backups rom =
     (if the_layout args \<noteq> ''dual'' then ret []
      else
        pbind (stock_images_to_flash env boot_id (filter (\<lambda>(n, e). n \<noteq> ANDROID_BOOT_IMAGE) rom)) (\<lambda>flashes.
        pbind (for_each (prepare_firmware env boot_id (a_no_backup args) backup) flashes) (\<lambda>done.
        pseq (if a_no_backup args then ret ()
              else write_file env (backup @ ''/SHA256SUMS'') (sha_sums (backups @ concat (map snd done))))
          (ret (map fst done)))))"

primrec wait_for_fastboot :: "'w env \<Rightarrow> string \<Rightarrow> nat \<Rightarrow> ('w, unit) io" where
  "wait_for_fastboot env serial 0 = runtime ''Return to Fastboot not observed; boot partition was not flashed''"
| "wait_for_fastboot env serial (Suc n) =
     pbind (attempt FastbootDevices (devices_op env)) (\<lambda>out.
     if \<exists>line \<in> set (splitlines out). split_ws line \<noteq> [] \<and> hd (split_ws line) = serial then ret ()
     else pseq (perform Wait (total (wait_op env))) (wait_for_fastboot env serial n))"

text \<open>Everything from the RAM installer's boot to the end of an installation.\<close>

definition install_ram ::
  "'w env \<Rightarrow> Args \<Rightarrow> string \<Rightarrow> string \<Rightarrow> Manifest \<Rightarrow> Prepared \<Rightarrow> nat \<Rightarrow> string \<times> string \<Rightarrow> string \<Rightarrow> ('w, unit) io" where
  "install_ram env args serial bundle mf prep boot_bytes padded_boot boot_id =
     pseq (lift (if the_layout args = ''dual'' \<and> map_of (pr_rom prep) ANDROID_BOOT_IMAGE = None
                 then Inl (KeyError ANDROID_BOOT_IMAGE) else Inr ()))
     (pbind (perform Serve (serve_op env (a_host_address args))) (\<lambda>(host, port).
     pbind (take_backups env boot_id args (pr_backup prep) serial) (\<lambda>(backups, saved).
     pseq (repartition env boot_id args (pr_planned prep) saved)
     (pbind (prepare_flashes env boot_id args (pr_backup prep) backups (pr_rom prep)) (\<lambda>flashes.
      pbind (install_root_command env boot_id (''http://'' @ host @ '':'' @ dec port) bundle mf
               (a_enable_rescue args) (a_keep_home args) (the_layout args) (pr_rom prep)) (\<lambda>install.
      pbind (remote env boot_id (shlex_join install)) (\<lambda>result.
      if \<not> contains ''liuqin-install: ROOT_INSTALLED'' result
      then runtime ''Device did not confirm root installation''
      else
        pseq (remote env boot_id REBOOT)
        (pseq (wait_for_fastboot env serial (reboot_tries env))
          (finish_in_fastboot env serial (the_layout args) flashes (fst padded_boot) (snd padded_boot)
             boot_bytes)))))))))"

definition boot_ram :: "'w env \<Rightarrow> string \<Rightarrow> string \<Rightarrow> Manifest \<Rightarrow> ('w, string) io" where
  "boot_ram env serial bundle mf =
     pseq (fastboot env [''-s'', serial, ''boot'', bundle @ ''/installer.img''])
     (pbind (wait_for_channel env (ready_tries env)) (\<lambda>boot_id.
      pseq (check_ram env boot_id serial mf) (ret boot_id)))"

definition check_addresses :: "'w env \<Rightarrow> Args \<Rightarrow> ('w, unit) io" where
  "check_addresses env args =
     check ((given (a_host_address args) \<longrightarrow> inet_ok env (the (a_host_address args)))
             \<and> inet_ok env (a_device_address args)) (OSError ''illegal IP address'')"

definition run_restore :: "'w env \<Rightarrow> Args \<Rightarrow> string \<Rightarrow> string \<Rightarrow> Manifest \<Rightarrow> string \<Rightarrow> ('w, unit) io" where
  "run_restore env args serial bundle mf dir =
     (let saved = resolve env dir in
      pbind (query env (saved @ ''/gpt/manifest.json'')) (\<lambda>there.
      if \<not> there then usage ''the backup directory has no saved partition table''
      else
        pseq (check_addresses env args)
        (pseq (for_each (check_var env serial) [(''product'', ''liuqin''), (''unlocked'', ''yes'')])
        (pbind (boot_ram env serial bundle mf) (\<lambda>boot_id.
         pseq (restore_partition_table env boot_id saved serial)
           (pseq (remote env boot_id REBOOT) (ret ())))))))"

definition run_install :: "'w env \<Rightarrow> Args \<Rightarrow> string \<Rightarrow> string \<Rightarrow> Manifest \<Rightarrow> ('w, unit) io" where
  "run_install env args serial bundle mf =
     pbind (prepare env args bundle) (\<lambda>prep.
     pseq (check_addresses env args)
     (pseq (for_each (check_var env serial) [(''product'', ''liuqin''), (''unlocked'', ''yes'')])
     (pbind (fastboot_checks env args serial bundle) (\<lambda>boot_bytes.
      pbind (lift (file_digest mf ''boot.img'')) (\<lambda>boot_sha.
      pbind (pad_boot_image env (bundle @ ''/boot.img'') boot_sha boot_bytes (scratch_dir env)) (\<lambda>padded_boot.
      pbind (boot_ram env serial bundle mf) (\<lambda>boot_id.
      install_ram env args serial bundle mf prep boot_bytes padded_boot boot_id)))))))"

definition main :: "'w env \<Rightarrow> Args \<Rightarrow> ('w, unit) io" where
  "main env args =
     (let bundle = resolve env (a_bundle args) in
      pbind (check_bundle env bundle) (\<lambda>mf.
      if a_check args then
        pseq (validate_arguments env args True)
          (if given (a_layout args) then pseq (lift (reference_plan args)) (ret ()) else ret ())
      else
        pseq (validate_arguments env args False)
        (pseq (lift (reject (mf_status mf \<noteq> ''DEVICE_TESTED'' \<and> \<not> a_allow_unverified args)
                 ''bundle has not passed device testing''))
        (case a_restore args of
           Some dir \<Rightarrow> run_restore env args (the (a_serial args)) bundle mf dir
         | None \<Rightarrow>
             pseq (lift (reject (\<not> (given (a_serial args) \<and> (a_backup args \<noteq> None \<or> a_no_backup args)
                                     \<and> a_erase_userdata args))
                     ''--serial, --backup (or --no-backup), --erase-userdata and --layout are required''))
               (run_install env args (the (a_serial args)) bundle mf)))))"

end
