(* ===== verification/InstallSafety.thy ===== *)
theory InstallSafety
  imports Installer
begin

text \<open>
  What the installer never does, at any point where it may be stopped: it edits the partition table
  or erases the head of a partition only after the operator said yes and with verified backups on
  disk, and what it has the tablet apply is the plan that was confirmed. The conditions speak of what
  was answered: the log of a run holds the replies of the tablet, the operator and the host.
\<close>

subsection \<open>Operations that change nothing on the tablet\<close>

fun neutral :: "op \<Rightarrow> bool" where
  "neutral (Fastboot args r) \<longleftrightarrow> length args \<ge> 3 \<and> args ! 2 \<in> {''getvar'', ''boot'', ''reboot''}"
| "neutral (Layout args r) \<longleftrightarrow> args \<noteq> [] \<and> hd args \<notin> {''apply'', ''wipe-head'', ''restore-gpt''}"
| "neutral _ \<longleftrightarrow> True"

subsection \<open>What a verified backup is\<close>

definition image_file :: "string \<Rightarrow> string \<Rightarrow> string" where
  "image_file dir name = dir @ ''/'' @ name @ ''.img''"

text \<open>A partition is saved when its bytes, as the tablet sent them, were written to its image file, and
  the file was read again with the digest that the tablet itself reports for the partition.\<close>

definition partition_saved :: "'w env \<Rightarrow> string \<Rightarrow> string \<Rightarrow> op set \<Rightarrow> bool" where
  "partition_saved env dir name H \<longleftrightarrow> (\<exists>text data copy reply.
     Shell (content_command name) (Inr text) \<in> H
     \<and> b64decode text = Inr data
     \<and> WriteFile (image_file dir name) data (Inr ()) \<in> H
     \<and> ReadFile (image_file dir name) (Inr copy) \<in> H
     \<and> Shell (digest_command name) (Inr reply) \<in> H
     \<and> split_ws reply \<noteq> [] \<and> hd (split_ws reply) = sha256 env copy)"

lemma partition_savedI:
  "Shell (content_command name) (Inr content) \<in> H \<Longrightarrow> b64decode content = Inr data \<Longrightarrow>
   WriteFile (image_file dir name) data (Inr ()) \<in> H \<Longrightarrow> ReadFile (image_file dir name) (Inr copy) \<in> H \<Longrightarrow>
   Shell (digest_command name) (Inr reply) \<in> H \<Longrightarrow> split_ws reply = sha256 env copy # rest \<Longrightarrow>
   partition_saved env dir name H"
  unfolding partition_saved_def
  by (rule exI [of _ content], rule exI [of _ data], rule exI [of _ copy], rule exI [of _ reply]) simp

text \<open>One copy of the GPT: six sectors, as the tablet sent them.\<close>

definition half_saved :: "'w env \<Rightarrow> string \<Rightarrow> (string \<rightharpoonup> string) \<Rightarrow> string \<Rightarrow> string \<times> string \<Rightarrow> op set \<Rightarrow> bool" where
  "half_saved env dir geo half copy H \<longleftrightarrow> (\<exists>text data sector.
     Layout [''backup-gpt'', ANCHOR, half] (Inr text) \<in> H \<and> b64decode text = Inr data
     \<and> get_int geo ''sector'' = Inr sector \<and> int (length data) = 6 * sector
     \<and> WriteFile (gpt_copy dir half) data (Inr ()) \<in> H
     \<and> copy = (''sda-'' @ half @ ''.bin'', sha256 env data))"

definition table_saved :: "'w env \<Rightarrow> string \<Rightarrow> string \<Rightarrow> op set \<Rightarrow> bool" where
  "table_saved env dir serial H \<longleftrightarrow> (\<exists>text geo saved.
     Layout [''geometry'', ANCHOR] (Inr text) \<in> H \<and> dict_lines text = Inr geo
     \<and> list_all2 (\<lambda>half copy. half_saved env dir geo half copy H) [''head'', ''tail''] (sv_files saved)
     \<and> sv_serial saved = serial \<and> get_int geo ''sectors'' = Inr (sv_sectors saved)
     \<and> get_int geo ''sector'' = Inr (sv_sector_size saved)
     \<and> WriteFile (dir @ ''/manifest.json'') (dump_saved env saved @ [newline]) (Inr ()) \<in> H)"

definition backed_up :: "'w env \<Rightarrow> string \<Rightarrow> string \<Rightarrow> op set \<Rightarrow> bool" where
  "backed_up env dir serial H \<longleftrightarrow> (\<forall>n \<in> set [''boot_a'', ''boot_b'', ''persist'']. partition_saved env dir n H)
     \<and> table_saved env (dir @ ''/gpt'') serial H"

lemma backups_mono:
  assumes "H \<subseteq> H'"
  shows "partition_saved env dir n H \<Longrightarrow> partition_saved env dir n H'"
    "half_saved env dir geo h c H \<Longrightarrow> half_saved env dir geo h c H'"
    "table_saved env dir s H \<Longrightarrow> table_saved env dir s H'"
    "backed_up env dir s H \<Longrightarrow> backed_up env dir s H'"
proof -
  show part: "partition_saved env dir n H \<Longrightarrow> partition_saved env dir n H'" for n
    using assms unfolding partition_saved_def by blast
  show half: "half_saved env dir geo h c H \<Longrightarrow> half_saved env dir geo h c H'" for dir geo h c
    using assms unfolding half_saved_def by blast
  have "list_all2 (\<lambda>h c. half_saved env dir geo h c H) hs cs \<Longrightarrow> list_all2 (\<lambda>h c. half_saved env dir geo h c H') hs cs"
    for dir geo hs cs by (erule list_all2_mono) (rule half)
  then show table: "table_saved env dir s H \<Longrightarrow> table_saved env dir s H'" for dir
    using assms unfolding table_saved_def by blast
  show "backed_up env dir s H \<Longrightarrow> backed_up env dir s H'"
    unfolding backed_up_def using part table by blast
qed

text \<open>A policy on the installer's operations that lets the neutral ones pass.\<close>

locale install_policy = policy permits for permits :: "op set \<Rightarrow> op \<Rightarrow> bool" +
  assumes neutral_free: "neutral e \<Longrightarrow> permits {} e"
begin

lemma free_neutral: "neutral ev \<Longrightarrow> free (perform ev f)"
  by (rule free_perform) (rule neutral_free)

lemma free_seen: "(\<And>r. neutral (ev r)) \<Longrightarrow> free (attempt ev f)"
  by (rule free_attempt) (rule neutral_free)

lemma free_files: "free (read_file env p)" "free (write_file env p d)" "free (mkdir env p)"
  "free (query env p)" "free (chmod env p)"
  by (simp_all add: read_file_def write_file_def mkdir_def query_def chmod_def free_neutral free_seen)

lemma free_command: "(\<And>r. neutral (label r)) \<Longrightarrow> free (command env label txt)"
  unfolding command_def by (intro free_bind free_lift free_neutral free_seen) simp_all

lemma free_remote: "free (remote env b txt)"
  unfolding remote_def by (rule free_command) simp

lemma free_device_layout: "args \<noteq> [] \<Longrightarrow> hd args \<notin> {''apply'', ''wipe-head'', ''restore-gpt''} \<Longrightarrow> free (device_layout env b args)"
  unfolding device_layout_def by (rule free_command) simp

lemma free_fastboot: "x \<in> {''getvar'', ''boot'', ''reboot''} \<Longrightarrow> free (fastboot env (a # s # x # r))"
  unfolding fastboot_def by (rule free_seen) auto

lemma free_stops: "free (usage m)" "free (runtime m)"
  by (simp_all add: usage_def runtime_def free_raise)

lemma free_sha: "free (sha env p)" and free_stat: "free (stat_size env p)"
  unfolding sha_def stat_size_def by (intro free_rules free_files)+

lemmas free_ops = free_files free_remote free_device_layout free_fastboot free_stops free_sha free_stat

text \<open>The steps that only read or save.\<close>

lemma free_backup_partition: "free (backup_partition env b d n)"
  unfolding backup_partition_def Let_def
  by (intro free_rules free_ops) (auto split: list.split intro!: free_rules free_ops)

lemma free_load_rom_table: "free (load_rom_table env)"
  unfolding load_rom_table_def by (intro free_rules free_ops)

lemma free_check_android_boot: "free (check_android_boot env t p)"
  unfolding check_android_boot_def Let_def by (intro free_rules free_ops)

lemma free_pad_boot_image: "free (pad_boot_image env s e n d)"
  unfolding pad_boot_image_def Let_def
  by (intro free_rules free_ops)

lemma free_verify_rom: "free (verify_rom env t d a)"
proof -
  have "free (verify_image env i x)" for i x
    unfolding verify_image_def Let_def
    by (auto split: prod.split intro!: free_rules free_ops)
  then show ?thesis unfolding verify_rom_def Let_def
    by (auto split: option.split intro!: free_rules free_ops)
qed

lemma free_validate: "free (validate_arguments env args p)"
  unfolding validate_arguments_def
  by (auto split: option.split intro!: free_rules free_load_rom_table free_check_android_boot)


lemma free_check_bundle: "free (check_bundle env d)"
  unfolding check_bundle_def by (intro free_rules free_ops)

lemma free_prepare: "free (prepare env args d)"
  unfolding prepare_def Let_def
  by (intro free_rules free_ops free_load_rom_table free_verify_rom)

lemma free_check_var: "free (check_var env s nv)"
  unfolding check_var_def getvar_def by (auto split: prod.split intro!: free_rules free_ops)

lemma free_partition_size: "free (partition_size env s n r)"
  unfolding partition_size_def getvar_def by (auto split: option.split intro!: free_rules free_ops)

lemma free_max_download: "free (max_download env s)"
  unfolding max_download_def getvar_def by (auto split: option.split intro!: free_rules free_ops)

lemma free_check_boot_slot: "free (check_boot_slot env s n x)"
  unfolding check_boot_slot_def by (intro free_rules free_ops free_partition_size)

lemma free_wait: "free (perform Wait f)" and free_ask: "free (attempt Ask g)" and free_tty: "free (perform IsATty h)"
  and free_serve: "free (perform Serve k)"
  by (simp_all add: free_neutral free_seen)

lemma free_ask_boot_id: "free (ask_boot_id env)"
  unfolding ask_boot_id_def Let_def by (intro free_rules free_command) simp_all

lemma free_wait_for_channel: "free (wait_for_channel env n)"
proof (induction n)
  case 0
  show ?case unfolding wait_for_channel.simps
    by (rule free_catch [OF free_ask_boot_id]) (auto simp: free_stops split: if_splits)
next
  case (Suc n)
  show ?case unfolding wait_for_channel.simps
    by (rule free_catch [OF free_ask_boot_id]) (auto split: if_splits intro!: free_seq free_wait Suc.IH)
qed

lemma free_check_ram: "free (check_ram env b s mf)"
  unfolding check_ram_def by (intro free_rules free_ops)

lemma free_boot_ram: "free (boot_ram env s d mf)"
  unfolding boot_ram_def by (intro free_rules free_ops free_wait_for_channel free_check_ram) simp_all

lemma free_geometry: "free (geometry env b)"
  unfolding geometry_def by (intro free_rules free_ops) simp_all

lemma free_backup_half: "free (backup_half env b t g h)"
  unfolding backup_half_def by (intro free_rules free_ops) simp_all

lemma free_select_image: "free (select_image env b x)"
  unfolding select_image_def
  by (auto split: prod.split intro!: free_rules free_ops)

lemma free_stock_images: "free (stock_images_to_flash env b xs)"
  unfolding stock_images_to_flash_def by (intro free_rules free_select_image)

lemma free_prepare_flashes: "free (prepare_flashes env b args d bs rom)"
proof -
  have "free (blockdev_size env b n)" for n
    unfolding blockdev_size_def by (intro free_rules free_ops)
  then have "free (prepare_firmware env b nb d x)" for nb x
    unfolding prepare_firmware_def Let_def
    by (auto split: prod.split intro!: free_rules free_ops free_backup_partition free_pad_boot_image)
  then show ?thesis unfolding prepare_flashes_def
    by (intro free_rules free_ops free_stock_images)
qed

lemma free_install_root: "free (install_root_command env b u d mf r k m rom)"
  unfolding install_root_command_def Let_def switch_store_arguments_def
  by (auto split: option.split intro!: free_rules free_ops)

lemma free_wait_for_fastboot: "free (wait_for_fastboot env s n)"
proof (induction n)
  case 0
  then show ?case by (simp add: free_stops)
next
  case (Suc n)
  then show ?case unfolding wait_for_fastboot.simps
    by (auto intro!: free_rules free_seen free_wait)
qed

lemma free_check_addresses: "free (check_addresses env args)"
  unfolding check_addresses_def by (rule free_check)

lemma free_check_flash: "free (check_flash env x)"
  unfolding check_flash_def by (auto split: prod.split option.split intro!: free_rules free_ops)

text \<open>An operation that needs no permission and is on record with what it returned.\<close>

lemma permits_neutral: "neutral e \<Longrightarrow> permits H e"
  by (rule never_revoked [of "{}"]) (simp_all add: neutral_free)

lemma safe_seen_free: "(\<And>r. neutral (ev r)) \<Longrightarrow> stable P \<Longrightarrow> safe P (attempt ev f) (\<lambda>x H. P H \<and> ev (Inr x) \<in> H)"
  by (rule safe_seen) (simp_all add: permits_neutral)

lemma safe_read: "stable P \<Longrightarrow> safe P (read_file env p) (\<lambda>d H. P H \<and> ReadFile p (Inr d) \<in> H)"
  unfolding read_file_def by (rule safe_seen_free) simp_all

lemma safe_write: "stable P \<Longrightarrow> safe P (write_file env p d) (\<lambda>_ H. P H \<and> WriteFile p d (Inr ()) \<in> H)"
  unfolding write_file_def by (rule safe_weaken [OF safe_seen_free [of "WriteFile p d" P]]) simp_all

lemma safe_command:
  assumes "\<And>H r. P H \<Longrightarrow> permits H (label r)" "stable P"
  shows "safe P (command env label txt) (\<lambda>out H. P H \<and> label (Inr out) \<in> H)"
  unfolding command_def
  by (rule safe_bind_free free_neutral free_lift safe_seen assms | simp)+

lemma safe_remote: "stable P \<Longrightarrow> safe P (remote env b txt) (\<lambda>out H. P H \<and> Shell txt (Inr out) \<in> H)"
  unfolding remote_def by (rule safe_command [OF permits_neutral]) simp_all

lemma safe_layout:
  assumes "\<And>H r. P H \<Longrightarrow> permits H (Layout xs r)" "stable P"
  shows "safe P (device_layout env b xs) (\<lambda>out H. P H \<and> Layout xs (Inr out) \<in> H)"
  unfolding device_layout_def by (rule safe_command [OF assms])

lemma safe_layout_free:
  "xs \<noteq> [] \<Longrightarrow> hd xs \<notin> {''apply'', ''wipe-head'', ''restore-gpt''} \<Longrightarrow> stable P \<Longrightarrow>
   safe P (device_layout env b xs) (\<lambda>out H. P H \<and> Layout xs (Inr out) \<in> H)"
  by (rule safe_layout) (simp_all add: permits_neutral)

lemma safe_fastboot:
  "(\<And>H r. P H \<Longrightarrow> permits H (Fastboot xs r)) \<Longrightarrow> stable P \<Longrightarrow>
   safe P (fastboot env xs) (\<lambda>out H. P H \<and> Fastboot xs (Inr out) \<in> H)"
  unfolding fastboot_def by (rule safe_seen)

lemma safe_sha: "stable P \<Longrightarrow> safe P (sha env p) (\<lambda>h H. P H \<and> (\<exists>d. ReadFile p (Inr d) \<in> H \<and> sha256 env d = h))"
  unfolding sha_def by (rule safe_bind [OF safe_read]) (auto intro!: safe_ret)

lemma safe_stat: "stable P \<Longrightarrow> safe P (stat_size env p) (\<lambda>n H. P H \<and> (\<exists>d. ReadFile p (Inr d) \<in> H \<and> length d = n))"
  unfolding stat_size_def by (rule safe_bind [OF safe_read]) (auto intro!: safe_ret)

text \<open>The confirmation: the answer was \<^verbatim>\<open>YES\<close>, or it was declined with --yes.\<close>

lemma safe_confirm:
  assumes "stable P"
  shows "safe P (confirm env args) (\<lambda>_ H. P H \<and> (a_yes args \<or> Ask (Inr ''YES'') \<in> H))"
proof (cases "a_yes args")
  case True
  then show ?thesis by (simp add: confirm_def safe_ret)
next
  case False
  have ask: "safe P (attempt Ask f) (\<lambda>x H. P H \<and> Ask (Inr x) \<in> H)" for f :: "'a \<Rightarrow> (exn + string) \<times> 'a"
    by (rule safe_seen_free [OF _ assms]) simp
  show ?thesis unfolding confirm_def using False
    by (simp only: if_False)
      (rule safe_bind_free [OF free_tty assms] safe_if safe_bind [OF ask] safe_ret
        | simp add: usage_def safe_raise)+
qed

lemma safe_fastboot_checks:
  assumes "stable P"
  shows "safe P (fastboot_checks env args s d) (\<lambda>_ H. P H \<and> (a_yes args \<or> Ask (Inr ''YES'') \<in> H))"
proof -
  have tail: "safe P (pseq (confirm env args) (ret n)) (\<lambda>_ H. P H \<and> (a_yes args \<or> Ask (Inr ''YES'') \<in> H))" for n
    by (rule safe_seq [OF safe_confirm [OF assms]]) (simp add: safe_ret)
  show ?thesis unfolding fastboot_checks_def
    by (rule tail safe_bind_free safe_seq_free safe_if assms free_partition_size free_load_rom_table
        free_lift free_for_each free_check_boot_slot free_stat free_max_download
        | simp add: usage_def safe_raise)+
qed

text \<open>The backups.\<close>

lemma stable_backups: "stable (partition_saved env dir n)" "stable (half_saved env dir geo h c)"
    "stable (table_saved env dir s)" "stable (backed_up env dir s)"
  by (rule stableI, erule (1) backups_mono [rotated])+

lemma safe_backup_partition:
  assumes "stable P"
  shows "safe P (backup_partition env b dir n) (\<lambda>_ H. P H \<and> partition_saved env dir n H)"
  unfolding backup_partition_def Let_def image_file_def [symmetric]
proof (rule safe_bind [OF safe_remote [OF assms]], rule safe_bind_lift, rule safe_seq [OF safe_write])
  fix content data assume d: "b64decode content = Inr data"
  let ?P = "\<lambda>H. (P H \<and> Shell (content_command n) (Inr content) \<in> H)
     \<and> WriteFile (image_file dir n) data (Inr ()) \<in> H"
  show "stable (\<lambda>H. P H \<and> Shell (content_command n) (Inr content) \<in> H)"
    by (intro stable_rules assms)
  have st: "stable ?P" by (intro stable_rules assms)
  have final: "safe (\<lambda>H. (?P H \<and> Shell (digest_command n) (Inr out) \<in> H)
        \<and> (\<exists>c. ReadFile (image_file dir n) (Inr c) \<in> H \<and> sha256 env c = digest))
      (if digest \<noteq> expected then runtime m else ret expected) (\<lambda>_ H. P H \<and> partition_saved env dir n H)"
    if "split_ws out = expected # r" for out expected r digest m
    using that d by (auto simp: runtime_def safe_raise intro!: safe_ret partition_savedI)
  show "safe ?P (pseq (chmod env (image_file dir n)) (pbind (remote env b (digest_command n)) (\<lambda>out.
      case split_ws out of [] \<Rightarrow> raise IndexError
      | expected # x \<Rightarrow> pbind (sha env (image_file dir n)) (\<lambda>digest.
          if digest \<noteq> expected then runtime (''Backup verification failed: '' @ n) else ret expected))))
      (\<lambda>_ H. P H \<and> partition_saved env dir n H)"
  proof (rule safe_seq_free [OF free_files(5) st], rule safe_bind [OF safe_remote [OF st]])
    fix out
    let ?R = "\<lambda>H. ?P H \<and> Shell (digest_command n) (Inr out) \<in> H"
    have R: "stable ?R" by (intro stable_rules assms)
    show "safe ?R (case split_ws out of [] \<Rightarrow> raise IndexError
      | expected # x \<Rightarrow> pbind (sha env (image_file dir n)) (\<lambda>digest.
          if digest \<noteq> expected then runtime (''Backup verification failed: '' @ n) else ret expected))
      (\<lambda>_ H. P H \<and> partition_saved env dir n H)"
    proof (cases "split_ws out")
      case Nil
      show ?thesis unfolding Nil list.case by (rule safe_raise)
    next
      case (Cons expected r)
      show ?thesis unfolding Cons list.case by (rule safe_bind [OF safe_sha [OF R] final [OF Cons]])
    qed
  qed
qed

lemma safe_backup_half:
  assumes "stable P"
  shows "safe P (backup_half env b t geo h) (\<lambda>c H. P H \<and> half_saved env t geo h c H)"
  unfolding backup_half_def
proof (rule safe_bind [OF safe_layout_free], simp, simp, rule assms, rule safe_bind_lift, rule safe_bind_lift, rule safe_if)
  fix content data sector
  assume d: "b64decode content = Inr data" "get_int geo ''sector'' = Inr sector" "\<not> int (length data) \<noteq> 6 * sector"
  let ?P = "\<lambda>H. P H \<and> Layout [''backup-gpt'', ANCHOR, h] (Inr content) \<in> H"
  have st: "stable ?P" "stable (\<lambda>H. ?P H \<and> WriteFile (gpt_copy t h) data (Inr ()) \<in> H)" by (intro stable_rules assms)+
  show "safe ?P (pseq (write_file env (gpt_copy t h) data) (pseq (chmod env (gpt_copy t h))
      (ret (''sda-'' @ h @ ''.bin'', sha256 env data)))) (\<lambda>c H. P H \<and> half_saved env t geo h c H)"
    by (rule safe_seq [OF safe_write [OF st(1)]], rule safe_seq_free [OF free_files(5) st(2)], rule safe_ret)
      (use d in \<open>auto simp: half_saved_def\<close>)
qed (simp add: runtime_def safe_raise)

lemma safe_geometry:
  assumes "stable P"
  shows "safe P (geometry env b) (\<lambda>geo H. P H \<and> (\<exists>text. Layout [''geometry'', ANCHOR] (Inr text) \<in> H \<and> dict_lines text = Inr geo))"
  unfolding geometry_def
  by (rule safe_bind [OF safe_layout_free], simp, simp, rule assms, rule safe_lift) auto

lemma safe_backup_table:
  assumes "stable P"
  shows "safe P (backup_partition_table env b dir s)
    (\<lambda>r H. r = dir @ ''/gpt'' \<and> P H \<and> table_saved env (dir @ ''/gpt'') s H)"
proof -
  let ?t = "dir @ ''/gpt''"
  let ?G = "\<lambda>geo H. P H \<and> (\<exists>text. Layout [''geometry'', ANCHOR] (Inr text) \<in> H \<and> dict_lines text = Inr geo)"
  let ?Q = "\<lambda>geo cs H. ?G geo H \<and> list_all2 (\<lambda>half c. half_saved env ?t geo half c H) [''head'', ''tail''] cs"
  have G: "stable (?G geo)" for geo by (intro stable_rules assms)
  have Q: "stable (?Q geo cs)" for geo cs by (intro stable_conj G stable_list_all2 stable_backups)
  have halves: "safe (?G geo) (for_each (backup_half env b ?t geo) [''head'', ''tail'']) (?Q geo)" for geo
    by (rule safe_for_each_both [OF safe_backup_half [OF G] stable_backups(2) G])
  have last: "safe (?Q geo cs) (pseq (write_file env (?t @ ''/manifest.json'')
        (dump_saved env \<lparr>sv_serial = s, sv_disk = disk, sv_sector_size = ss, sv_sectors = ns, sv_files = cs\<rparr> @ [newline])) (ret ?t))
      (\<lambda>r H. r = ?t \<and> P H \<and> table_saved env ?t s H)"
    if "get_int geo ''sector'' = Inr ss" "get_int geo ''sectors'' = Inr ns" for geo cs disk ss ns
  proof (rule safe_seq [OF safe_write [OF Q]], rule safe_ret)
    fix H
    let ?sv = "\<lparr>sv_serial = s, sv_disk = disk, sv_sector_size = ss, sv_sectors = ns, sv_files = cs\<rparr>"
    assume H: "?Q geo cs H \<and> WriteFile (?t @ ''/manifest.json'') (dump_saved env ?sv @ [newline]) (Inr ()) \<in> H"
    then have "table_saved env ?t s H" unfolding table_saved_def
      using that by (elim conjE exE) (rule exI, rule exI [of _ geo], rule exI [of _ ?sv], simp)
    then show "?t = ?t \<and> P H \<and> table_saved env ?t s H" using H by blast
  qed
  show ?thesis unfolding backup_partition_table_def Let_def
    by (rule safe_seq_free [OF free_files(3) assms] safe_bind_free [OF free_device_layout assms]
        safe_seq_free [OF free_files(2) assms] safe_bind [OF safe_geometry [OF assms]] safe_bind [OF halves]
        safe_bind_free [OF free_lift Q] safe_bind_lift last | assumption | simp)+
qed

lemma safe_take_backups:
  assumes "stable P"
  shows "safe P (take_backups env b args dir s)
    (\<lambda>(_, saved) H. P H \<and> (saved = None \<longleftrightarrow> a_no_backup args)
       \<and> (saved \<noteq> None \<longrightarrow> saved = Some (dir @ ''/gpt'') \<and> backed_up env dir s H))"
proof (cases "a_no_backup args")
  case True
  then show ?thesis by (simp add: take_backups_def safe_ret)
next
  case False
  let ?Q = "\<lambda>H. P H \<and> (\<forall>n \<in> set [''boot_a'', ''boot_b'', ''persist'']. partition_saved env dir n H)"
  have st: "stable ?Q" using assms stable_backups(1) unfolding stable_def by blast
  have one: "safe R (pbind (backup_partition env b dir n) (\<lambda>digest. ret (n @ ''.img'', digest)))
      (\<lambda>_ H. R H \<and> partition_saved env dir n H)" if "stable R" for n R
    by (rule safe_bind [OF safe_backup_partition [OF that]]) (simp add: safe_ret)
  have images: "safe P (for_each (\<lambda>n. pbind (backup_partition env b dir n) (\<lambda>digest. ret (n @ ''.img'', digest)))
      [''boot_a'', ''boot_b'', ''persist'']) (\<lambda>_. ?Q)"
    by (rule safe_for_each_all [OF one [OF assms] stable_backups(1) assms])
  have last: "safe ?Q (pbind (backup_partition_table env b dir s) (\<lambda>saved. ret (bs, Some saved)))
      (\<lambda>(_, saved) H. P H \<and> (saved = None \<longleftrightarrow> a_no_backup args)
         \<and> (saved \<noteq> None \<longrightarrow> saved = Some (dir @ ''/gpt'') \<and> backed_up env dir s H))" for bs
    by (rule safe_bind [OF safe_backup_table [OF st]], rule safe_ret) (simp add: backed_up_def False del: list.set)
  show ?thesis unfolding take_backups_def if_not_P [OF False]
    by (rule last safe_bind [OF images] safe_seq_free free_files assms st)+
qed

end

subsection \<open>Editing the partition table\<close>

text \<open>The table may be edited, and the head of a partition erased, only with the operator's consent and
  the backups in the directory of \<^verbatim>\<open>--backup\<close>, and never with --keep-home.\<close>

definition consented :: "Args \<Rightarrow> op set \<Rightarrow> bool" where
  "consented args H \<longleftrightarrow> (a_yes args \<or> Ask (Inr ''YES'') \<in> H) \<and> a_erase_userdata args \<and> \<not> a_check args"

definition backup_dir :: "'w env \<Rightarrow> Args \<Rightarrow> string" where
  "backup_dir env args = resolve env (the (a_backup args))"

definition edit_allowed :: "'w env \<Rightarrow> Args \<Rightarrow> op set \<Rightarrow> bool" where
  "edit_allowed env args H \<longleftrightarrow> consented args H \<and> \<not> a_keep_home args \<and> a_backup args \<noteq> None
     \<and> backed_up env (backup_dir env args) (the (a_serial args)) H"

text \<open>The arguments of the edit come from the table the tablet reported, a factory table, through a plan
  of the shape that was shown before the confirmation, for the disk of the saved table.\<close>

definition agreed_plan :: "Args \<Rightarrow> string \<Rightarrow> Plan \<Rightarrow> bool" where
  "agreed_plan args report pl \<longleftrightarrow> (\<exists>disk confirmed. parse_print report = Inr disk \<and> classify disk = Inr ''stock''
     \<and> check_stock_device disk = Inr () \<and> plan_for disk args = Inr pl
     \<and> reference_plan args = Inr confirmed \<and> confirm_plan confirmed pl = Inr ())"

definition planned_edit :: "'w env \<Rightarrow> Args \<Rightarrow> string list \<Rightarrow> op set \<Rightarrow> bool" where
  "planned_edit env args arguments H \<longleftrightarrow> (\<exists>report pl content info text saved.
     Layout [''report'', ANCHOR] (Inr report) \<in> H \<and> agreed_plan args report pl
     \<and> Layout [''info'', USERDATA_NAME] (Inr content) \<in> H \<and> parse_info content = Inr info
     \<and> ReadFile (backup_dir env args @ ''/gpt/manifest.json'') (Inr text) \<in> H \<and> load_saved env text = Inr saved
     \<and> sgdisk_arguments pl (sv_disk saved) info = Inr arguments)"

lemma planned_editI:
  "Layout [''report'', ANCHOR] (Inr report) \<in> H \<Longrightarrow> agreed_plan args report pl \<Longrightarrow>
   Layout [''info'', USERDATA_NAME] (Inr content) \<in> H \<Longrightarrow> parse_info content = Inr info \<Longrightarrow>
   ReadFile (backup_dir env args @ ''/gpt/manifest.json'') (Inr mtext) \<in> H \<Longrightarrow> load_saved env mtext = Inr saved \<Longrightarrow>
   sgdisk_arguments pl (sv_disk saved) info = Inr arguments \<Longrightarrow> planned_edit env args arguments H"
  unfolding planned_edit_def by blast

text \<open>A saved table is written back only when asked for, with files that are those of its manifest.\<close>

definition restore_checked :: "'w env \<Rightarrow> Args \<Rightarrow> op set \<Rightarrow> bool" where
  "restore_checked env args H \<longleftrightarrow> (\<exists>dir text saved. a_restore args = Some dir
     \<and> ReadFile (resolve env dir @ ''/gpt/manifest.json'') (Inr text) \<in> H \<and> load_saved env text = Inr saved
     \<and> sv_serial saved = the (a_serial args)
     \<and> (\<forall>(name, digest) \<in> set (sv_files saved).
          \<exists>c. ReadFile (resolve env dir @ ''/gpt/'' @ name) (Inr c) \<in> H \<and> sha256 env c = digest))"

definition layout_permits :: "'w env \<Rightarrow> Args \<Rightarrow> op set \<Rightarrow> string \<Rightarrow> string list \<Rightarrow> bool" where
  "layout_permits env args H verb rest \<longleftrightarrow>
     (verb = ''apply'' \<longrightarrow> edit_allowed env args H
        \<and> (\<exists>arguments. rest = ANCHOR # arguments \<and> planned_edit env args arguments H))
     \<and> (verb = ''wipe-head'' \<longrightarrow> edit_allowed env args H
        \<and> (rest = [USERDATA_NAME, str_int WIPE_BYTES]
           \<or> the_layout args = ''dual'' \<and> rest = [METADATA_NAME, str_int WIPE_BYTES]))
     \<and> (verb = ''restore-gpt'' \<longrightarrow> restore_checked env args H)"

fun edit_permits :: "'w env \<Rightarrow> Args \<Rightarrow> op set \<Rightarrow> op \<Rightarrow> bool" where
  "edit_permits env args H (Layout (verb # rest) r) \<longleftrightarrow> layout_permits env args H verb rest"
| "edit_permits env args H _ \<longleftrightarrow> True"

lemma edit_conditions_mono:
  assumes "H \<subseteq> H'"
  shows "consented args H \<Longrightarrow> consented args H'" "edit_allowed env args H \<Longrightarrow> edit_allowed env args H'"
    "planned_edit env args xs H \<Longrightarrow> planned_edit env args xs H'" "restore_checked env args H \<Longrightarrow> restore_checked env args H'"
proof -
  show c: "consented args H \<Longrightarrow> consented args H'" using assms by (auto simp: consented_def)
  show "edit_allowed env args H \<Longrightarrow> edit_allowed env args H'"
    unfolding edit_allowed_def using c backups_mono(4) [OF assms] by blast
  show "planned_edit env args xs H \<Longrightarrow> planned_edit env args xs H'"
    using assms unfolding planned_edit_def by blast
  show "restore_checked env args H \<Longrightarrow> restore_checked env args H'"
    using assms unfolding restore_checked_def by (fast elim!: bspec)
qed

lemma layout_permits_mono: "layout_permits env args H v rest \<Longrightarrow> H \<subseteq> H' \<Longrightarrow> layout_permits env args H' v rest"
  unfolding layout_permits_def using edit_conditions_mono(2-4) [of H H' env args] by blast

lemma layout_permits_neutral: "v \<notin> {''apply'', ''wipe-head'', ''restore-gpt''} \<Longrightarrow> layout_permits env args H v rest"
  unfolding layout_permits_def by blast

interpretation edit: install_policy "edit_permits env args" for env args
proof unfold_locales
  fix H H' e assume "edit_permits env args H e" "H \<subseteq> H'"
  then show "edit_permits env args H' e"
    by (cases "(env, args, H, e)" rule: edit_permits.cases) (simp_all add: layout_permits_mono)
next
  fix e assume "neutral e" then show "edit_permits env args {} e"
    by (cases "(env, args, {} :: op set, e)" rule: edit_permits.cases) (simp_all add: layout_permits_neutral)
qed


abbreviation edit_safe :: "'w env \<Rightarrow> Args \<Rightarrow> (op set \<Rightarrow> bool) \<Rightarrow> ('w, 'a) io \<Rightarrow> ('a \<Rightarrow> op set \<Rightarrow> bool) \<Rightarrow> bool" where
  "edit_safe env args \<equiv> policy.safe (edit_permits env args)"

abbreviation edit_free :: "'w env \<Rightarrow> Args \<Rightarrow> ('w, 'a) io \<Rightarrow> bool" where
  "edit_free env args \<equiv> policy.free (edit_permits env args)"

abbreviation edit_stable :: "(op set \<Rightarrow> bool) \<Rightarrow> bool" where
  "edit_stable \<equiv> policy.stable"

lemma stable_edit: "edit_stable (consented args)" "edit_stable (edit_allowed env args)"
    "edit_stable (planned_edit env args xs)" "edit_stable (restore_checked env args)"
  by (rule edit.stableI, erule (1) edit_conditions_mono [rotated])+

lemmas stable_edit_rules = edit.stable_rules stable_edit

lemma classify_range: "classify d = Inr s \<Longrightarrow> s \<in> {''stock'', ''split'', ''unknown''}"
  by (auto simp: classify_def err_simps split: if_splits option.splits)

lemma edit_userdata_info: "edit_free env args (userdata_info env b)"
  unfolding userdata_info_def by (intro edit.free_rules edit.free_ops) simp_all

lemma of_layout_Inr: "of_layout r = Inr x \<longleftrightarrow> r = Inr x"
  by (cases r) (simp_all add: of_layout_def)

lemma edit_info:
  assumes "edit_stable P"
  shows "edit_safe env args P (userdata_info env b)
    (\<lambda>info H. P H \<and> (\<exists>t. Layout [''info'', USERDATA_NAME] (Inr t) \<in> H \<and> parse_info t = Inr info))"
  unfolding userdata_info_def
  by (rule edit.safe_bind [OF edit.safe_layout_free], simp, simp, rule assms, rule edit.safe_lift)
    (auto simp: of_layout_Inr)

text \<open>The edit itself, once its arguments are the agreed ones.\<close>

lemma edit_and_verify_safe:
  "edit_safe env args (\<lambda>H. edit_allowed env args H \<and> planned_edit env args xs H)
     (edit_and_verify env b pl info xs) (\<lambda>_ _. True)"
proof -
  let ?P = "\<lambda>H. edit_allowed env args H \<and> planned_edit env args xs H"
  have st: "edit_stable ?P" by (intro stable_edit_rules)
  have send: "edit_safe env args ?P (device_layout env b ([''apply'', ANCHOR] @ xs))
      (\<lambda>out H. ?P H \<and> Layout ([''apply'', ANCHOR] @ xs) (Inr out) \<in> H)"
    by (rule edit.safe_layout [OF _ st]) (simp add: layout_permits_def)
  have tail: "edit_free env args (case plan_entry pl USERDATA_NAME of None \<Rightarrow> raise AttributeError
       | Some e \<Rightarrow> if e_action e = ''delete'' then ret ()
           else pbind (userdata_info env b) (\<lambda>info'.
             pseq (lift (of_layout (verify_preserved info info'))) (ret ())))"
    by (auto split: option.split intro!: edit.free_rules edit_userdata_info)
  have rest: "edit_free env args (if \<not> contains ''LAYOUT_APPLIED'' out then runtime ''the device did not confirm the partition-table edit''
     else pbind (device_layout env b [''report'', ANCHOR]) (\<lambda>text.
       pbind (lift (of_layout (parse_print text))) (\<lambda>after.
       pbind (lift (of_layout (verify_applied after pl))) (\<lambda>_.
       case plan_entry pl USERDATA_NAME of None \<Rightarrow> raise AttributeError
       | Some e \<Rightarrow> if e_action e = ''delete'' then ret ()
           else pbind (userdata_info env b) (\<lambda>info'.
             pseq (lift (of_layout (verify_preserved info info'))) (ret ()))))))" for out
    by (intro edit.free_if edit.free_bind edit.free_lift edit.free_stops edit.free_device_layout tail) simp_all
  show ?thesis unfolding edit_and_verify_def
    by (rule edit.safe_bind [OF send], rule edit.safe_weaken [where P = "\<lambda>_. True" and Q = "\<lambda>_ _. True"],
        rule edit.safe_free [OF rest edit.stable_const]) simp_all
qed


lemma edit_wipe:
  assumes "\<And>H. P H \<Longrightarrow> layout_permits env args H ''wipe-head'' [n, z]" "edit_stable P"
  shows "edit_safe env args P (device_layout env b [''wipe-head'', n, z]) (\<lambda>_. P)"
  by (rule edit.safe_weaken [OF edit.safe_layout [OF _ assms(2)]]) (simp_all add: assms(1))

lemma edit_apply_layout:
  assumes agreed: "agreed_plan args report pl"
  shows "edit_safe env args (\<lambda>H. edit_allowed env args H \<and> Layout [''report'', ANCHOR] (Inr report) \<in> H)
     (apply_layout env b d pl (Some (backup_dir env args @ ''/gpt'')) (the_layout args)) (\<lambda>_ _. True)"
proof -
  let ?A = "\<lambda>H. edit_allowed env args H \<and> Layout [''report'', ANCHOR] (Inr report) \<in> H"
  let ?I = "\<lambda>info H. ?A H \<and> (\<exists>t. Layout [''info'', USERDATA_NAME] (Inr t) \<in> H \<and> parse_info t = Inr info)"
  have A: "edit_stable ?A" by (intro stable_edit_rules)
  have I: "edit_stable (?I info)" for info by (intro stable_edit_rules)
  have data: "edit_safe env args (?I info) (device_layout env b [''wipe-head'', USERDATA_NAME, str_int WIPE_BYTES]) (\<lambda>_. ?I info)" for info
    by (rule edit_wipe [OF _ I]) (simp add: layout_permits_def)
  have meta: "edit_safe env args (?I info)
      (if the_layout args = ''dual'' then pseq (device_layout env b [''wipe-head'', METADATA_NAME, str_int WIPE_BYTES]) (ret ()) else ret ())
      (\<lambda>_. ?I info)" for info
  proof (rule edit.safe_if)
    assume dual: "the_layout args = ''dual''"
    have "edit_safe env args (?I info) (device_layout env b [''wipe-head'', METADATA_NAME, str_int WIPE_BYTES]) (\<lambda>_. ?I info)"
      by (rule edit_wipe [OF _ I]) (simp add: layout_permits_def dual)
    then show "edit_safe env args (?I info) (pseq (device_layout env b [''wipe-head'', METADATA_NAME, str_int WIPE_BYTES]) (ret ())) (\<lambda>_. ?I info)"
      by (rule edit.safe_seq) (simp add: edit.safe_ret)
  qed (simp add: edit.safe_ret)
  let ?m = "backup_dir env args @ ''/gpt/manifest.json''"
  have read: "edit_safe env args (?I info) (read_file env ((backup_dir env args @ ''/gpt'') @ ''/manifest.json''))
      (\<lambda>content H. ?I info H \<and> ReadFile ?m (Inr content) \<in> H)" for info
    using edit.safe_read [OF I, of _ _ _ env "(backup_dir env args @ ''/gpt'') @ ''/manifest.json''"] by simp
  have go: "edit_safe env args (\<lambda>H. ?I info H \<and> ReadFile ?m (Inr content) \<in> H)
      (pcatch (edit_and_verify env b pl info xs) edit_failed) (\<lambda>_ _. True)"
    if sv: "load_saved env content = Inr sv" "of_layout (sgdisk_arguments pl (sv_disk sv) info) = Inr xs" for info content sv xs
  proof (rule edit.safe_catch)
    have "?I info H \<and> ReadFile ?m (Inr content) \<in> H \<Longrightarrow> planned_edit env args xs H" for H
      using agreed sv by (auto simp: of_layout_Inr intro: planned_editI)
    then show "edit_safe env args (\<lambda>H. ?I info H \<and> ReadFile ?m (Inr content) \<in> H) (edit_and_verify env b pl info xs) (\<lambda>_ _. True)"
      by (intro edit.safe_weaken [OF edit_and_verify_safe]) simp_all
  next
    show "edit_failed e = Some n \<Longrightarrow> edit_safe env args (\<lambda>H. ?I info H \<and> ReadFile ?m (Inr content) \<in> H) n (\<lambda>_ _. True)" for e n
      by (auto simp: edit_failed_def runtime_def edit.safe_raise split: exn.splits)
  next
    fix H H' :: "op set" assume "?I info H \<and> ReadFile ?m (Inr content) \<in> H" "H \<subseteq> H'"
    then show "?I info H' \<and> ReadFile ?m (Inr content) \<in> H'" using edit_conditions_mono(2) by blast
  qed
  show ?thesis unfolding apply_layout_def option.case
    by (rule edit.safe_bind_free [OF edit.free_lift A] edit.safe_bind [OF edit_info [OF A]] edit.safe_if
        edit.safe_seq [OF data] edit.safe_seq [OF meta] edit.safe_bind [OF read] edit.safe_bind_lift go
        | assumption | simp add: runtime_def edit.safe_raise)+
qed


text \<open>What \<open>repartition\<close> needs: the consent, and verified backups unless the home is kept.\<close>

definition ready_to_edit :: "'w env \<Rightarrow> Args \<Rightarrow> string option \<Rightarrow> op set \<Rightarrow> bool" where
  "ready_to_edit env args saved H \<longleftrightarrow> consented args H \<and> (saved = None \<longrightarrow> a_keep_home args)
     \<and> (saved \<noteq> None \<longrightarrow> saved = Some (backup_dir env args @ ''/gpt'') \<and> a_backup args \<noteq> None
          \<and> backed_up env (backup_dir env args) (the (a_serial args)) H)"

lemma stable_ready: "edit_stable (ready_to_edit env args saved)"
proof (rule edit.stableI)
  fix H H' :: "op set" assume "ready_to_edit env args saved H" "H \<subseteq> H'"
  then show "ready_to_edit env args saved H'"
    unfolding ready_to_edit_def using edit_conditions_mono(1) backups_mono(4) by blast
qed

lemma edit_repartition:
  assumes planned: "\<And>c. planned = Some c \<Longrightarrow> reference_plan args = Inr c"
  shows "edit_safe env args (ready_to_edit env args saved) (repartition env b args planned saved) (\<lambda>_ _. True)"
proof -
  let ?R = "\<lambda>report H. ready_to_edit env args saved H \<and> Layout [''report'', ANCHOR] (Inr report) \<in> H"
  have rest: "edit_safe env args (?R report)
      (pseq (lift (of_layout (check_stock_device disk)))
       (pbind (lift (plan_for disk args)) (\<lambda>pl.
        case planned of None \<Rightarrow> raise AttributeError
        | Some expected \<Rightarrow> pseq (lift (confirm_plan expected pl))
            (apply_layout env b disk pl saved (the_layout args))))) (\<lambda>_ _. True)"
    if d: "parse_print report = Inr disk" "classify disk = Inr ''stock''" "\<not> a_keep_home args" for report disk
  proof (rule edit.safe_seq_lift, rule edit.safe_bind_lift)
    fix pl assume pl: "of_layout (check_stock_device disk) = Inr ()" "plan_for disk args = Inr pl"
    show "edit_safe env args (?R report) (case planned of None \<Rightarrow> raise AttributeError
        | Some expected \<Rightarrow> pseq (lift (confirm_plan expected pl))
            (apply_layout env b disk pl saved (the_layout args))) (\<lambda>_ _. True)"
    proof (cases planned)
      case None
      show ?thesis unfolding None option.case by (rule edit.safe_raise)
    next
      case (Some expected)
      show ?thesis unfolding Some option.case
      proof (rule edit.safe_seq_lift)
        assume "confirm_plan expected pl = Inr ()"
        then have agreed: "agreed_plan args report pl"
          using d pl planned [OF Some] by (auto simp: agreed_plan_def of_layout_Inr)
        show "edit_safe env args (?R report) (apply_layout env b disk pl saved (the_layout args)) (\<lambda>_ _. True)"
        proof (cases saved)
          case None
          then have "\<not> ready_to_edit env args saved H" for H using d(3) by (simp add: ready_to_edit_def)
          then show ?thesis by (simp add: edit.safe_def)
        next
          case (Some sd)
          show ?thesis
          proof (cases "sd = backup_dir env args @ ''/gpt''")
            case True
            have "ready_to_edit env args (Some sd) H \<Longrightarrow> edit_allowed env args H" for H
              using d(3) by (simp add: ready_to_edit_def edit_allowed_def)
            then show ?thesis unfolding Some True
              by (intro edit.safe_weaken [OF edit_apply_layout [OF agreed]]) auto
          next
            case False
            then have "\<not> ready_to_edit env args saved H" for H by (simp add: ready_to_edit_def Some)
            then show ?thesis by (simp add: edit.safe_def)
          qed
        qed
      qed
    qed
  qed
  show ?thesis unfolding repartition_def
  proof (rule edit.safe_bind [OF edit.safe_layout_free], simp, simp, rule stable_ready,
      rule edit.safe_bind_lift, rule edit.safe_bind_lift)
    fix report disk state assume d: "of_layout (parse_print report) = Inr disk" "of_layout (classify disk) = Inr state"
    then have "state \<in> {''stock'', ''split'', ''unknown''}" using classify_range by (simp add: of_layout_Inr)
    then show "edit_safe env args (?R report)
      (if state = ''unknown'' then runtime ''this partition table is neither the factory layout nor one this installer created''
       else if state = ''stock'' \<and> a_keep_home args then runtime ''there is no linux_home to keep''
       else if state = ''split'' then
         if \<not> a_keep_home args then runtime ''the tablet already carries a split layout'' else ret ()
       else pseq (lift (of_layout (check_stock_device disk)))
             (pbind (lift (plan_for disk args)) (\<lambda>pl.
              case planned of None \<Rightarrow> raise AttributeError
              | Some expected \<Rightarrow> pseq (lift (confirm_plan expected pl))
                  (apply_layout env b disk pl saved (the_layout args))))) (\<lambda>_ _. True)"
      using rest [of report disk] d by (auto simp: of_layout_Inr runtime_def edit.safe_raise edit.safe_ret)
  qed
qed

lemma edit_finish: "edit_free env args (finish_in_fastboot env s m fls p d n)"
proof -
  have fb: "edit_free env args (fastboot env xs)" for xs
    unfolding fastboot_def by (rule edit.free_attempt) simp
  show ?thesis unfolding finish_in_fastboot_def flash_def
    by (auto split: prod.split intro!: edit.free_rules edit.free_ops edit.free_check_flash fb)
qed

text \<open>What the preparation without the tablet fixes, and what the arguments rule out.\<close>

definition prepared_for :: "'w env \<Rightarrow> Args \<Rightarrow> Prepared \<Rightarrow> bool" where
  "prepared_for env args prep \<longleftrightarrow> (\<forall>c. pr_planned prep = Some c \<longrightarrow> reference_plan args = Inr c)
     \<and> (\<not> a_no_backup args \<longrightarrow> pr_backup prep = backup_dir env args)"

lemma prepare_result: "result_of (prepare env args bundle) w = Inr prep \<Longrightarrow> prepared_for env args prep"
  unfolding prepare_def prepared_for_def backup_dir_def
  by (auto simp: run_simps usage_def Let_def split: sum.splits if_splits)

definition backups_possible :: "Args \<Rightarrow> bool" where
  "backups_possible args \<longleftrightarrow> (a_no_backup args \<longrightarrow> a_keep_home args) \<and> (\<not> a_no_backup args \<longrightarrow> a_backup args \<noteq> None)"

lemma validate_result:
  "result_of (validate_arguments env args p) w = Inr u \<Longrightarrow> a_no_backup args \<longrightarrow> a_keep_home args"
  unfolding validate_arguments_def
  by (auto simp: run_simps reject_def require_def split: sum.splits if_splits)


lemma edit_install_ram:
  assumes "prepared_for env args prep" "backups_possible args" "s = the (a_serial args)"
  shows "edit_safe env args (consented args) (install_ram env args s bundle mf prep n pb b) (\<lambda>_ _. True)"
proof -
  have T: "edit_stable (\<lambda>_. True)" by (rule edit.stable_const)
  have backups: "edit_safe env args (consented args) (take_backups env b args (pr_backup prep) s)
      (\<lambda>(_, saved). ready_to_edit env args saved)"
    by (rule edit.safe_weaken [OF edit.safe_take_backups [OF stable_edit(1)]])
      (use assms in \<open>auto simp: ready_to_edit_def prepared_for_def backups_possible_def\<close>)
  have plan: "pr_planned prep = Some c \<Longrightarrow> reference_plan args = Inr c" for c
    using assms(1) by (simp add: prepared_for_def)
  have tail: "edit_free env args (pbind (prepare_flashes env b args d bs rom) (\<lambda>flashes.
      pbind (install_root_command env b u bundle mf r k m rom) (\<lambda>install.
      pbind (remote env b (shlex_join install)) (\<lambda>result.
      if \<not> contains ''liuqin-install: ROOT_INSTALLED'' result then runtime msg
      else pseq (remote env b REBOOT) (pseq (wait_for_fastboot env s t)
          (finish_in_fastboot env s m flashes x y n))))))" for d bs rom u r k m t x y msg
    by (intro edit.free_rules edit.free_prepare_flashes edit.free_install_root edit.free_ops
        edit.free_wait_for_fastboot edit_finish)
  show ?thesis unfolding install_ram_def
    apply (rule edit.safe_seq_lift)
    apply (rule edit.safe_bind_free [OF edit.free_serve stable_edit(1)])
    apply (split prod.split, intro allI impI)
    apply (rule edit.safe_bind [OF backups])
    apply (split prod.split, intro allI impI)
    apply (rule edit.safe_seq [where R = "\<lambda>_. True"])
     apply (rule edit.safe_weaken [OF edit_repartition [OF plan]], assumption, simp, simp)
    apply (rule edit.safe_free [OF tail T])
    done
qed

lemma edit_run_install:
  assumes "\<not> a_check args" "a_erase_userdata args" "backups_possible args" "s = the (a_serial args)"
  shows "edit_safe env args (\<lambda>_. True) (run_install env args s bundle mf) (\<lambda>_ _. True)"
proof -
  have T: "edit_stable (\<lambda>_. True)" by (rule edit.stable_const)
  let ?C = "\<lambda>prep H. consented args H \<and> prepared_for env args prep"
  let ?P = "\<lambda>prep H. True \<and> prepared_for env args prep"
  have C: "edit_stable (?C prep)" and P: "edit_stable (?P prep)" for prep by (intro stable_edit_rules)+
  have checks: "edit_safe env args (?P prep) (fastboot_checks env args s bundle) (\<lambda>_. ?C prep)" for prep
    by (rule edit.safe_weaken [OF edit.safe_fastboot_checks [OF P]]) (use assms in \<open>auto simp: consented_def\<close>)
  have last: "edit_safe env args (?C prep) (install_ram env args s bundle mf prep n pb b) (\<lambda>_ _. True)" for prep n pb b
  proof (cases "prepared_for env args prep")
    case True
    then show ?thesis using edit_install_ram [OF True assms(3,4)] by simp
  qed (simp add: edit.safe_def)
  show ?thesis unfolding run_install_def
    by (rule edit.safe_bind [OF edit.safe_free_result [OF edit.free_prepare T prepare_result]]
        edit.safe_seq_free [OF edit.free_check_addresses P]
        edit.safe_seq_free [OF edit.free_for_each [OF edit.free_check_var] P] edit.safe_bind [OF checks]
        edit.safe_bind_free [OF edit.free_lift C] edit.safe_bind_free [OF edit.free_pad_boot_image C]
        edit.safe_bind_free [OF edit.free_boot_ram C] last | assumption)+
qed

text \<open>A restore checks every file of the saved table against its manifest first.\<close>

lemma edit_restore_half:
  assumes "edit_stable P"
  shows "edit_safe env args P (restore_half env b d x)
    (\<lambda>_ H. P H \<and> (\<exists>c. ReadFile (d @ ''/gpt/'' @ fst x) (Inr c) \<in> H \<and> sha256 env c = snd x))"
proof (cases x)
  case x: (Pair name digest)
  let ?path = "d @ ''/gpt/'' @ name"
  let ?Q = "\<lambda>h H. P H \<and> (\<exists>c. ReadFile ?path (Inr c) \<in> H \<and> sha256 env c = h)"
  have Q: "edit_stable (?Q h)" for h by (intro edit.stable_rules assms)
  have stage: "edit_safe env args (?Q digest) (pbind (lift (half_of name)) (\<lambda>half.
      pbind (read_file env ?path) (\<lambda>data. stage_blob env b half data))) (\<lambda>_. ?Q digest)"
    by (rule edit.safe_free [OF _ Q]) (unfold stage_blob_def, intro edit.free_rules edit.free_ops)
  have "edit_safe env args (?Q h) (if h \<noteq> digest then runtime m else pbind (lift (half_of name)) (\<lambda>half.
      pbind (read_file env ?path) (\<lambda>data. stage_blob env b half data))) (\<lambda>_. ?Q digest)" for h m
    using stage by (simp add: runtime_def edit.safe_raise)
  note check = this
  have stop: "edit_safe env args P (runtime m) (\<lambda>_. ?Q digest)" for m
    unfolding runtime_def by (rule edit.safe_raise)
  show ?thesis unfolding x restore_half_def prod.case Let_def fst_conv snd_conv
    by (rule edit.safe_bind_free [OF edit.free_files(4) assms] edit.safe_if stop
        edit.safe_bind [OF edit.safe_sha [OF assms] check])+
qed

lemma edit_run_restore:
  assumes "a_restore args = Some dir" "s = the (a_serial args)"
  shows "edit_safe env args (\<lambda>_. True) (run_restore env args s bundle mf dir) (\<lambda>_ _. True)"
proof -
  have T: "edit_stable (\<lambda>_. True)" by (rule edit.stable_const)
  let ?d = "resolve env dir"
  let ?M = "\<lambda>m H. True \<and> ReadFile (?d @ ''/gpt/manifest.json'') (Inr m) \<in> H"
  let ?F = "\<lambda>m saved H. ?M m H \<and> (\<forall>x \<in> set (sv_files saved).
     \<exists>c. ReadFile (?d @ ''/gpt/'' @ fst x) (Inr c) \<in> H \<and> sha256 env c = snd x)"
  have M: "edit_stable (?M m)" for m by (intro edit.stable_rules)
  have F: "edit_stable (?F m saved)" for m saved
    by (rule edit.stableI) (fast elim!: bspec)
  have files: "edit_safe env args (?M m) (for_each (restore_half env b ?d) (sv_files saved)) (\<lambda>_. ?F m saved)" for b m saved
    by (rule edit.safe_for_each_all [OF edit_restore_half [OF M] _ M]) (intro edit.stable_rules)
  have gpt: "edit_safe env args (?F m saved) (pbind (device_layout env b [''restore-gpt'', ANCHOR]) (\<lambda>out.
      if contains ''GPT_RESTORED'' out then ret () else runtime msg)) (\<lambda>_ _. True)"
    if "load_saved env m = Inr saved" "sv_serial saved = s" for b m saved msg
  proof (rule edit.safe_bind [OF edit.safe_layout [OF _ F]])
    fix H r assume "?F m saved H"
    then show "edit_permits env args H (Layout [''restore-gpt'', ANCHOR] r)"
      using that assms by (auto simp: layout_permits_def restore_checked_def split: prod.splits) fastforce
  qed (auto simp: runtime_def edit.safe_raise intro!: edit.safe_ret)
  have table: "edit_safe env args (\<lambda>_. True) (restore_partition_table env b ?d s) (\<lambda>_ _. True)" for b
    unfolding restore_partition_table_def
    by (rule edit.safe_bind [OF edit.safe_read [OF T]] edit.safe_bind_lift edit.safe_if
        edit.safe_bind_free [OF edit.free_geometry M] edit.safe_bind_free [OF _ M] edit.free_if edit.free_ret edit.free_bind edit.free_lift
        edit.safe_seq [OF files] gpt | assumption | simp add: runtime_def edit.safe_raise)+
  have reboot: "edit_free env args (pseq (remote env b REBOOT) (ret ()))" for b
    by (intro edit.free_rules edit.free_ops)
  show ?thesis unfolding run_restore_def Let_def
    by (rule edit.safe_bind_free [OF edit.free_files(4) T] edit.safe_if edit.safe_seq_free [OF edit.free_check_addresses T]
        edit.safe_seq_free [OF edit.free_for_each [OF edit.free_check_var] T] edit.safe_bind_free [OF edit.free_boot_ram T]
        edit.safe_seq [OF table] edit.safe_free [OF reboot T]
        | simp add: usage_def edit.safe_raise)+
qed


lemma edit_main: "edit_safe env args (\<lambda>_. True) (main env args) (\<lambda>_ _. True)"
proof -
  have T: "edit_stable (\<lambda>_. True)" by (rule edit.stable_const)
  let ?V = "\<lambda>_ _. True \<and> (a_no_backup args \<longrightarrow> a_keep_home args)"
  have V: "edit_stable (?V u)" for u :: unit by (rule edit.stable_const)
  have checked: "edit_free env args (pseq (validate_arguments env args True)
      (if given (a_layout args) then pseq (lift (reference_plan args)) (ret ()) else ret ()))"
    by (intro edit.free_rules edit.free_validate)
  have install: "edit_safe env args (?V u) (pseq (lift (reject (\<not> (given (a_serial args)
        \<and> (a_backup args \<noteq> None \<or> a_no_backup args) \<and> a_erase_userdata args)) msg))
      (run_install env args (the (a_serial args)) bd mf)) (\<lambda>_ _. True)"
    if "\<not> a_check args" for bd mf msg and u :: unit
  proof (rule edit.safe_seq_lift)
    assume "reject (\<not> (given (a_serial args) \<and> (a_backup args \<noteq> None \<or> a_no_backup args) \<and> a_erase_userdata args)) msg = Inr ()"
    then have a: "a_erase_userdata args" "\<not> a_no_backup args \<Longrightarrow> a_backup args \<noteq> None"
      by (auto simp: reject_def require_def split: if_splits)
    show "edit_safe env args (?V u) (run_install env args (the (a_serial args)) bd mf) (\<lambda>_ _. True)"
    proof (cases "a_no_backup args \<longrightarrow> a_keep_home args")
      case True
      then have "backups_possible args" using a(2) by (auto simp: backups_possible_def)
      from edit_run_install [OF that a(1) this refl] show ?thesis by (rule edit.safe_weaken) simp_all
    qed (simp add: edit.safe_def)
  qed
  have real: "edit_safe env args (?V u) (case a_restore args of
           Some dir \<Rightarrow> run_restore env args (the (a_serial args)) bd mf dir
         | None \<Rightarrow> pseq (lift (reject (\<not> (given (a_serial args)
              \<and> (a_backup args \<noteq> None \<or> a_no_backup args) \<and> a_erase_userdata args)) msg))
            (run_install env args (the (a_serial args)) bd mf)) (\<lambda>_ _. True)"
    if "\<not> a_check args" for bd mf msg and u :: unit
  proof (cases "a_restore args")
    case None
    then show ?thesis using install [OF that] by simp
  next
    case (Some dir)
    show ?thesis unfolding Some option.case
      by (rule edit.safe_weaken [OF edit_run_restore [OF Some refl]]) simp_all
  qed
  have valid: "edit_safe env args (\<lambda>_. True) (validate_arguments env args False) ?V"
    by (rule edit.safe_free_result [OF edit.free_validate T validate_result])
  have rest: "edit_safe env args (?V u) (pseq (lift r) m) (\<lambda>_ _. True)"
    if "edit_safe env args (?V u) m (\<lambda>_ _. True)" for r :: "exn + unit" and m u
    by (rule edit.safe_seq_lift [where r = r]) (rule that)
  show ?thesis unfolding main_def Let_def
    by (rule edit.safe_bind_free [OF edit.free_check_bundle T] edit.safe_if edit.safe_free [OF checked T]
        edit.safe_seq [OF valid] rest real | assumption)+
qed


text \<open>The log of a run in which every call of the layout script was prepared by what precedes it.\<close>

fun prepared_log :: "'w env \<Rightarrow> Args \<Rightarrow> op set \<Rightarrow> op list \<Rightarrow> bool" where
  "prepared_log env args H [] \<longleftrightarrow> True"
| "prepared_log env args H (e # t) \<longleftrightarrow> edit_permits env args H e \<and> prepared_log env args (insert e H) t"

lemma prepared_log_ok: "prepared_log env args H t \<longleftrightarrow> policy.ok_from (edit_permits env args) H t"
  by (induction t arbitrary: H) (simp_all add: edit.ok_from.simps)

text \<open>C1. The installer never touches the partition table unprepared: whatever the tablet, the host
  and the operator do, and wherever the run stops, each \<^verbatim>\<open>apply\<close> and each \<^verbatim>\<open>wipe-head\<close> it
  sends comes after the operator answered \<^verbatim>\<open>YES\<close> (or --yes) to --erase-userdata, never with
  --keep-home or --check, and after verified backups: boot_a, boot_b and persist were each written to
  their image file from what the tablet sent, and the file was read back with the SHA-256 the tablet
  reports for the partition; both copies of the GPT, six sectors each, and the manifest with their
  digests, the geometry and the serial number were written. What is applied is the \<^verbatim>\<open>sgdisk\<close>
  rendering of a plan that was computed on the factory table the tablet reported and matches the
  plan shown before the confirmation; only the heads of userdata and, in the dual layout, of metadata
  are erased. A saved table is written back only under --restore-partition-table, from a backup of
  this serial number whose files were read with the digests of its manifest.\<close>

theorem table_edit_prepared: "prepared_log env args {} (trace_of (main env args) w)"
  unfolding prepared_log_ok by (rule edit.safe_log [OF edit_main TrueI])

end
