(* ===== verification/FlashSafety.thy ===== *)
theory FlashSafety
  imports InstallSafety
begin

text \<open>
  The Fastboot tail of an installation: a partition is flashed only after the tablet confirmed the
  root and was seen in Fastboot again, with an image whose bytes were checked against the pinned ROM
  table or the bundle's manifest, a firmware partition only with its verified backup, and the booting
  slot is selected only when the boot image was flashed to every slot it goes to.
\<close>

subsection \<open>What must have been answered before a flash\<close>

definition root_installed :: "string \<Rightarrow> op set \<Rightarrow> bool" where
  "root_installed serial H \<longleftrightarrow>
     (\<exists>args reply. Shell (shlex_join (''sh'' # ''/usr/lib/liuqin/install-root.sh'' # args)) (Inr reply) \<in> H
        \<and> contains ''liuqin-install: ROOT_INSTALLED'' reply)
     \<and> (\<exists>listing. FastbootDevices (Inr listing) \<in> H
        \<and> (\<exists>line \<in> set (splitlines listing). split_ws line \<noteq> [] \<and> hd (split_ws line) = serial))"

definition firmware_saved :: "'w env \<Rightarrow> Args \<Rightarrow> string \<Rightarrow> op set \<Rightarrow> bool" where
  "firmware_saved env args part H \<longleftrightarrow> (part \<in> set ANDROID_FIRMWARE_PARTITIONS
     \<longrightarrow> a_no_backup args \<or> partition_saved env (backup_dir env args) part H)"

text \<open>The table of pinned images, as the program read it.\<close>

definition pinned_table :: "'w env \<Rightarrow> RomTable \<Rightarrow> op set \<Rightarrow> bool" where
  "pinned_table env table H \<longleftrightarrow> (\<exists>path content. ReadFile path (Inr content) \<in> H
     \<and> path \<in> set (LIB env ''liuqin-rom-images.json'') \<and> load_rom env content = Inr table)"

text \<open>The digest of a file with a given digest, zero-filled to \<open>n\<close> bytes; and an image file that was
  found to have this length and this digest.\<close>

definition padded :: "'w env \<Rightarrow> string \<Rightarrow> nat \<Rightarrow> string \<Rightarrow> op set \<Rightarrow> bool" where
  "padded env expected n digest H \<longleftrightarrow> (\<exists>path source. ReadFile path (Inr source) \<in> H
     \<and> sha256 env source = expected \<and> length source \<le> n
     \<and> digest = sha256 env (source @ zeros (n - length source)))"

definition holds_padded :: "'w env \<Rightarrow> string \<Rightarrow> string \<Rightarrow> nat \<Rightarrow> op set \<Rightarrow> bool" where
  "holds_padded env img expected n H \<longleftrightarrow> (\<exists>c. ReadFile img (Inr c) \<in> H \<and> length c = n)
     \<and> (\<exists>c. ReadFile img (Inr c) \<in> H \<and> padded env expected n (sha256 env c) H)"

text \<open>A stock image goes to the partition of its entry in the table: the bytes of the entry, or for
  firmware those bytes zero-filled.\<close>

definition stock_source :: "'w env \<Rightarrow> string \<Rightarrow> string \<Rightarrow> op set \<Rightarrow> bool" where
  "stock_source env part img H \<longleftrightarrow> (\<exists>table name e. pinned_table env table H \<and> (name, e) \<in> set (rt_images table)
     \<and> name \<noteq> ANDROID_BOOT_IMAGE \<and> r_partition e = part
     \<and> (if part \<in> set ANDROID_FIRMWARE_PARTITIONS then \<exists>n. holds_padded env img (r_sha256 e) n H
        else \<exists>c. ReadFile img (Inr c) \<in> H \<and> length c = r_bytes e \<and> sha256 env c = r_sha256 e))"

text \<open>The boot image of the bundle, zero-filled to the size the table gives the boot partition.\<close>

definition boot_digest :: "'w env \<Rightarrow> Args \<Rightarrow> string \<Rightarrow> op set \<Rightarrow> bool" where
  "boot_digest env args digest H \<longleftrightarrow> (\<exists>content mf.
     ReadFile (resolve env (a_bundle args) @ ''/bundle.json'') (Inr content) \<in> H
     \<and> load_manifest env content = Inr mf \<and> mf_files mf ''boot.img'' = Some digest)"

definition boot_size :: "'w env \<Rightarrow> nat \<Rightarrow> op set \<Rightarrow> bool" where
  "boot_size env n H \<longleftrightarrow> (\<exists>table. pinned_table env table H \<and> boot_partition_bytes table = Inr n)"

definition boot_source :: "'w env \<Rightarrow> Args \<Rightarrow> string \<Rightarrow> op set \<Rightarrow> bool" where
  "boot_source env args img H \<longleftrightarrow> (\<exists>n digest. boot_digest env args digest H \<and> boot_size env n H
     \<and> holds_padded env img digest n H)"

definition boot_flashed :: "'w env \<Rightarrow> Args \<Rightarrow> string \<Rightarrow> string \<Rightarrow> op set \<Rightarrow> bool" where
  "boot_flashed env args serial slot H \<longleftrightarrow> (\<exists>img answer. boot_source env args img H
     \<and> Fastboot [''-s'', serial, ''flash'', ''boot_'' @ slot, img] (Inr answer) \<in> H)"

definition flash_allowed :: "'w env \<Rightarrow> Args \<Rightarrow> op set \<Rightarrow> string \<Rightarrow> string \<Rightarrow> string \<Rightarrow> bool" where
  "flash_allowed env args H serial part img \<longleftrightarrow> serial = the (a_serial args) \<and> root_installed serial H
     \<and> firmware_saved env args part H
     \<and> (stock_source env part img H
        \<or> boot_source env args img H \<and> part \<in> (\<lambda>slot. ''boot_'' @ slot) ` set (boot_slots (the_layout args)))"

definition active_allowed :: "'w env \<Rightarrow> Args \<Rightarrow> op set \<Rightarrow> string \<Rightarrow> string \<Rightarrow> bool" where
  "active_allowed env args H serial verb \<longleftrightarrow> serial = the (a_serial args)
     \<and> verb = ''--set-active='' @ hd (boot_slots (the_layout args))
     \<and> (\<forall>slot \<in> set (boot_slots (the_layout args)). boot_flashed env args serial slot H)"

fun flash_permits :: "'w env \<Rightarrow> Args \<Rightarrow> op set \<Rightarrow> op \<Rightarrow> bool" where
  "flash_permits env args H (Fastboot xs r) \<longleftrightarrow>
     (case xs of
        [a, serial, verb] \<Rightarrow> take 13 verb = ''--set-active='' \<longrightarrow> active_allowed env args H serial verb
      | [a, serial, verb, part, img] \<Rightarrow> verb = ''flash'' \<longrightarrow> flash_allowed env args H serial part img
      | _ \<Rightarrow> True)"
| "flash_permits env args H _ \<longleftrightarrow> True"

lemmas flash_defs = root_installed_def pinned_table_def padded_def holds_padded_def stock_source_def
  boot_digest_def boot_size_def boot_source_def boot_flashed_def

lemma flash_conditions_mono:
  assumes "H \<subseteq> H'"
  shows "root_installed s H \<Longrightarrow> root_installed s H'"
    and "firmware_saved env args p H \<Longrightarrow> firmware_saved env args p H'"
    and "pinned_table env t H \<Longrightarrow> pinned_table env t H'"
    and "padded env x n d H \<Longrightarrow> padded env x n d H'"
    and "holds_padded env img x n H \<Longrightarrow> holds_padded env img x n H'"
    and "stock_source env p img H \<Longrightarrow> stock_source env p img H'"
    and "boot_digest env args d H \<Longrightarrow> boot_digest env args d H'"
    and "boot_size env n H \<Longrightarrow> boot_size env n H'"
    and "boot_source env args img H \<Longrightarrow> boot_source env args img H'"
    and "boot_flashed env args s x H \<Longrightarrow> boot_flashed env args s x H'"
proof -
  show "root_installed s H \<Longrightarrow> root_installed s H'" using assms unfolding root_installed_def by blast
  show "firmware_saved env args p H \<Longrightarrow> firmware_saved env args p H'"
    using backups_mono(1) [OF assms] unfolding firmware_saved_def by blast
  show t: "pinned_table env t H \<Longrightarrow> pinned_table env t H'" for t using assms unfolding pinned_table_def by blast
  show p: "padded env x n d H \<Longrightarrow> padded env x n d H'" for x n d using assms unfolding padded_def by blast
  show h: "holds_padded env img x n H \<Longrightarrow> holds_padded env img x n H'" for img x n
    using assms p unfolding holds_padded_def by blast
  show "stock_source env p img H \<Longrightarrow> stock_source env p img H'"
    using assms t h unfolding stock_source_def by (auto split: if_splits) blast+
  show d: "boot_digest env args d H \<Longrightarrow> boot_digest env args d H'" for d using assms unfolding boot_digest_def by blast
  show n: "boot_size env n H \<Longrightarrow> boot_size env n H'" for n using t unfolding boot_size_def by blast
  show b: "boot_source env args img H \<Longrightarrow> boot_source env args img H'" for img
    using d n h unfolding boot_source_def by blast
  show "boot_flashed env args s x H \<Longrightarrow> boot_flashed env args s x H'"
    using assms b unfolding boot_flashed_def by blast
qed

lemma flash_allowed_mono:
  assumes "H \<subseteq> H'"
  shows "flash_allowed env args H s part img \<Longrightarrow> flash_allowed env args H' s part img"
    and "active_allowed env args H s verb \<Longrightarrow> active_allowed env args H' s verb"
proof -
  note m = flash_conditions_mono(1,2,6,9,10) [OF assms]
  show "flash_allowed env args H s part img \<Longrightarrow> flash_allowed env args H' s part img"
    unfolding flash_allowed_def using m(1-4) by blast
  show "active_allowed env args H s verb \<Longrightarrow> active_allowed env args H' s verb"
    unfolding active_allowed_def using m(5) by blast
qed

interpretation fl: install_policy "flash_permits env args" for env args
proof unfold_locales
  fix H H' e assume "flash_permits env args H e" "H \<subseteq> H'"
  then show "flash_permits env args H' e"
    by (cases e) (auto split: list.splits intro: flash_allowed_mono)
next
  fix e assume "neutral e" then show "flash_permits env args {} e"
    by (cases e) (auto split: list.splits)
qed

abbreviation fl_safe :: "'w env \<Rightarrow> Args \<Rightarrow> (op set \<Rightarrow> bool) \<Rightarrow> ('w, 'a) io \<Rightarrow> ('a \<Rightarrow> op set \<Rightarrow> bool) \<Rightarrow> bool" where
  "fl_safe env args \<equiv> policy.safe (flash_permits env args)"

abbreviation fl_free :: "'w env \<Rightarrow> Args \<Rightarrow> ('w, 'a) io \<Rightarrow> bool" where
  "fl_free env args \<equiv> policy.free (flash_permits env args)"

abbreviation fl_stable :: "(op set \<Rightarrow> bool) \<Rightarrow> bool" where
  "fl_stable \<equiv> policy.stable"

lemma stable_flash: "fl_stable (root_installed s)" "fl_stable (firmware_saved env args p)"
    "fl_stable (pinned_table env t)" "fl_stable (padded env x n d)" "fl_stable (holds_padded env img x n)"
    "fl_stable (stock_source env p img)" "fl_stable (boot_digest env args d)" "fl_stable (boot_size env n)"
    "fl_stable (boot_source env args img)" "fl_stable (boot_flashed env args s x)"
  by (rule fl.stableI, erule (1) flash_conditions_mono [rotated])+

lemma stable_ball: "(\<And>x. fl_stable (R x)) \<Longrightarrow> fl_stable (\<lambda>H. \<forall>x \<in> A. R x H)"
  unfolding fl.stable_def by blast

lemmas stable_flash_rules = fl.stable_rules stable_ball stable_flash fl.stable_backups

subsection \<open>Phases without Fastboot writes\<close>

lemma fl_device_layout: "fl_free env args (device_layout env b xs)"
  unfolding device_layout_def command_def
  by (rule fl.free_bind fl.free_perform fl.free_attempt fl.free_lift | simp only: flash_permits.simps)+

lemma fl_apply_layout: "fl_free env args (apply_layout env b d pl saved mode)"
proof -
  have i: "fl_free env args (userdata_info env b)" for b
    unfolding userdata_info_def by (intro fl.free_rules fl_device_layout)
  have e: "fl_free env args (edit_and_verify env b pl info xs)" for info xs
    unfolding edit_and_verify_def by (intro fl.free_rules fl_device_layout fl.free_stops i)
  have c: "fl_free env args (pcatch (edit_and_verify env b pl info xs) edit_failed)" for info xs
    by (rule fl.free_catch [OF e]) (auto simp: edit_failed_def fl.free_stops split: exn.splits)
  show ?thesis unfolding apply_layout_def
    by (rule c fl.free_bind fl.free_seq fl.free_if fl.free_lift fl.free_ret fl_device_layout
        fl.free_stops fl.free_files fl.free_option fl.free_raise i)+
qed

lemma fl_repartition: "fl_free env args (repartition env b args' planned saved)"
  unfolding repartition_def
  by (intro fl.free_rules fl_device_layout fl.free_stops fl_apply_layout)

lemma fl_run_restore: "fl_free env args (run_restore env args' s d mf dir)"
proof -
  have h: "fl_free env args (restore_half env b d x)" for b d x
    unfolding restore_half_def stage_blob_def Let_def
    by (auto split: prod.split intro!: fl.free_rules fl.free_ops)
  have "fl_free env args (restore_partition_table env b d s)" for b d
    unfolding restore_partition_table_def
    by (rule h fl.free_seq fl.free_bind fl.free_if fl.free_lift fl.free_ret fl_device_layout
        fl.free_for_each fl.free_files fl.free_stops fl.free_geometry)+
  then show ?thesis unfolding run_restore_def Let_def
    by (intro fl.free_rules fl.free_ops fl.free_check_addresses fl.free_check_var fl.free_boot_ram)
qed

lemma fl_take_backups: "fl_free env args (take_backups env b args' d s)"
proof -
  have "fl_free env args (backup_partition_table env b d s)" for d
    unfolding backup_partition_table_def Let_def
    by (intro fl.free_rules fl_device_layout fl.free_files fl.free_geometry fl.free_backup_half)
  then show ?thesis unfolding take_backups_def
    by (intro fl.free_rules fl.free_files fl.free_backup_partition)
qed


subsection \<open>What the phases before establish\<close>

lemma fl_load_rom_table:
  assumes "fl_stable P"
  shows "fl_safe env args P (load_rom_table env) (\<lambda>table H. P H \<and> pinned_table env table H)"
proof -
  have found: "fl_free env args (if b then ret True else query env p)" for b p
    by (intro fl.free_rules fl.free_files)
  have read: "fl_safe env args P (pbind (read_file env p) (\<lambda>content. lift (load_rom env content)))
      (\<lambda>table H. P H \<and> pinned_table env table H)" if "p \<in> set (LIB env ''liuqin-rom-images.json'')" for p
    by (rule fl.safe_bind [OF fl.safe_read [OF assms]], rule fl.safe_lift) (use that in \<open>auto simp: pinned_table_def\<close>)
  have "LIB env n ! (if b then 0 else 1) \<in> set (LIB env n)" for n b by (simp add: LIB_def)
  then show ?thesis unfolding load_rom_table_def
    by (intro fl.safe_bind_free [OF fl.free_files(4) assms] fl.safe_bind_free [OF found assms] fl.safe_if read)
      (simp_all add: usage_def fl.safe_raise)
qed

lemma fl_pad_boot_image:
  assumes "fl_stable P"
  shows "fl_safe env args P (pad_boot_image env p expected n d) (\<lambda>(_, digest) H. P H \<and> padded env expected n digest H)"
proof -
  have R: "fl_stable (\<lambda>H. P H \<and> ReadFile p (Inr data) \<in> H)" for data by (intro fl.stable_rules assms)
  have truncate: "fl_free env args (if b then write_file env q z else ret ())" for b q z
    by (intro fl.free_rules fl.free_files)
  have last: "fl_safe env args (\<lambda>H. P H \<and> ReadFile p (Inr data) \<in> H)
      (pbind (lift (pad_image env data expected n)) (\<lambda>(_, digest). ret (q, digest)))
      (\<lambda>(_, digest) H. P H \<and> padded env expected n digest H)" for data q
  proof (rule fl.safe_bind_lift)
    fix r assume "pad_image env data expected n = Inr r"
    then show "fl_safe env args (\<lambda>H. P H \<and> ReadFile p (Inr data) \<in> H) (case r of (_, digest) \<Rightarrow> ret (q, digest))
      (\<lambda>(_, digest) H. P H \<and> padded env expected n digest H)"
      by (cases r) (auto simp: padded_def dest!: pad_image_Inr intro!: fl.safe_ret)
  qed
  show ?thesis unfolding pad_boot_image_def Let_def
    by (rule fl.safe_bind [OF fl.safe_read [OF assms]] fl.safe_seq_free [OF fl.free_files(2) R]
        fl.safe_seq_free [OF truncate R] last)+
qed

text \<open>An item of the verified ROM: other than the Android boot image it has the bytes of its entry.\<close>

definition rom_item :: "'w env \<Rightarrow> string \<times> RomEntry \<Rightarrow> op set \<Rightarrow> bool" where
  "rom_item env x H \<longleftrightarrow> (fst x \<noteq> ANDROID_BOOT_IMAGE \<longrightarrow> (\<exists>table e0 c. pinned_table env table H
     \<and> (fst x, e0) \<in> set (rt_images table) \<and> r_partition (snd x) = r_partition e0
     \<and> r_sha256 (snd x) = r_sha256 e0 \<and> ReadFile (r_path (snd x)) (Inr c) \<in> H
     \<and> length c = r_bytes e0 \<and> sha256 env c = r_sha256 e0))"

lemma stable_rom_item: "fl_stable (rom_item env x)"
  unfolding rom_item_def by (intro stable_flash_rules)

lemma alist_update_subset: "set (AList.update k v al) \<subseteq> insert (k, v) (set al)"
  by (induction al) auto

lemma fl_verify_rom:
  assumes "fl_stable P" "\<And>H. P H \<Longrightarrow> pinned_table env table H"
  shows "fl_safe env args P (verify_rom env table dir override) (\<lambda>rom H. P H \<and> (\<forall>x \<in> set rom. rom_item env x H))"
proof -
  let ?Q = "\<lambda>rom H. P H \<and> (\<forall>x \<in> set rom. rom_item env x H)"
  have Q: "fl_stable (?Q rom)" for rom
    by (intro stable_flash_rules stable_rom_item assms(1))
  have one: "fl_safe env args P (verify_image env images x) (\<lambda>y H. P H \<and> rom_item env y H)"
    if "x \<in> set (rt_images table)" for images x
  proof (cases x)
    case x: (Pair name e)
    have "fl_safe env args (\<lambda>H. P H \<and> ReadFile (images @ ''/'' @ name) (Inr c) \<in> H)
        (if length c \<noteq> r_bytes e \<or> sha256 env c \<noteq> r_sha256 e then usage m
         else ret (name, e\<lparr>r_path := images @ ''/'' @ name\<rparr>)) (\<lambda>y H. P H \<and> rom_item env y H)" for c m
      using that assms(2) by (auto simp: x usage_def rom_item_def fl.safe_raise intro!: fl.safe_ret) blast
    note compare = this
    have stop: "fl_safe env args P (usage m) (\<lambda>y H. P H \<and> rom_item env y H)" for m
      unfolding usage_def by (rule fl.safe_raise)
    show ?thesis unfolding x verify_image_def prod.case Let_def
      by (rule fl.safe_bind_free [OF fl.free_files(4) assms(1)] stop compare fl.safe_if
          fl.safe_bind [OF fl.safe_read [OF assms(1)]])+
  qed
  have loop: "fl_safe env args P (for_each (verify_image env images) (sorted_items (rt_images table))) ?Q" for images
    by (rule fl.safe_for_each_results [OF one stable_rom_item assms(1)]) (simp add: sorted_items_def)
  have upd: "?Q rom H \<Longrightarrow> ?Q (AList.update ANDROID_BOOT_IMAGE e rom) H" for rom e H
    using alist_update_subset [of ANDROID_BOOT_IMAGE e rom] by (fastforce simp: rom_item_def)
  have over: "fl_safe env args (?Q rom) (case override of None \<Rightarrow> ret rom
      | Some path \<Rightarrow> pbind (sha env path) (\<lambda>digest. case map_of rom ANDROID_BOOT_IMAGE of
           None \<Rightarrow> raise (KeyError ANDROID_BOOT_IMAGE)
         | Some e \<Rightarrow> ret (AList.update ANDROID_BOOT_IMAGE
             (e\<lparr>r_path := path, r_sha256 := digest, r_override := True\<rparr>) rom))) ?Q" for rom
  proof (cases override)
    case None
    show ?thesis unfolding None option.case by (rule fl.safe_ret)
  next
    case (Some path)
    show ?thesis unfolding Some option.case
      by (rule fl.safe_bind_free [OF fl.free_sha Q])
        (cases "map_of rom ANDROID_BOOT_IMAGE"; simp only: option.case; (rule fl.safe_raise | rule fl.safe_ret, erule upd))
  qed
  show ?thesis unfolding verify_rom_def Let_def
    by (rule fl.safe_bind_free [OF fl.free_files(4) assms(1)] fl.safe_bind [OF loop] over)+
qed


lemma fl_prepare:
  "fl_safe env args (\<lambda>_. True) (prepare env args bundle) (\<lambda>prep H. \<forall>x \<in> set (pr_rom prep). rom_item env x H)"
proof -
  have T: "fl_stable (\<lambda>_. True)" by (rule fl.stable_const)
  have backup: "fl_free env args (if a_no_backup args then ret []
      else pbind (query env (the (a_backup args))) (\<lambda>there.
        if there then usage ''--backup must be a new directory''
        else let b = resolve env (the (a_backup args)) in
          if b = bundle \<or> is_parent bundle b
          then usage ''private backups must be outside the served bundle directory'' else ret b))"
    unfolding Let_def by (intro fl.free_rules fl.free_files fl.free_stops)
  have planned: "fl_free env args (if a_keep_home args then ret None
      else pbind (lift (reference_plan args)) (\<lambda>pl. ret (Some pl)))"
    by (intro fl.free_rules)
  have rom: "fl_safe env args (\<lambda>_. True) (if the_layout args = ''dual'' then
        pbind (load_rom_table env) (\<lambda>table. verify_rom env table d ov) else ret [])
      (\<lambda>rom H. \<forall>x \<in> set rom. rom_item env x H)" for d ov
  proof (rule fl.safe_if)
    have V: "fl_stable (\<lambda>H. True \<and> pinned_table env table H)" for table by (intro stable_flash_rules)
    show "fl_safe env args (\<lambda>_. True) (pbind (load_rom_table env) (\<lambda>table. verify_rom env table d ov))
        (\<lambda>rom H. \<forall>x \<in> set rom. rom_item env x H)"
      by (rule fl.safe_bind [OF fl_load_rom_table [OF T]], rule fl.safe_weaken [OF fl_verify_rom [OF V]]) auto
  qed (simp add: fl.safe_ret)
  show ?thesis unfolding prepare_def
    by (rule fl.safe_bind_free [OF backup T] fl.safe_bind_free [OF planned T] fl.safe_bind [OF rom])+
      (simp add: fl.safe_ret)
qed

text \<open>An item that is going to be flashed, before the last look at the padded firmware.\<close>

definition flash_item :: "'w env \<Rightarrow> Args \<Rightarrow> string \<times> RomEntry \<Rightarrow> op set \<Rightarrow> bool" where
  "flash_item env args x H \<longleftrightarrow> firmware_saved env args (r_partition (snd x)) H \<and> (\<exists>table e0. pinned_table env table H
     \<and> (fst x, e0) \<in> set (rt_images table) \<and> fst x \<noteq> ANDROID_BOOT_IMAGE \<and> r_partition (snd x) = r_partition e0
     \<and> (if r_partition e0 \<in> set ANDROID_FIRMWARE_PARTITIONS
        then \<exists>n digest. r_flash (snd x) = Some (n, digest) \<and> padded env (r_sha256 e0) n digest H
        else \<exists>c. ReadFile (r_path (snd x)) (Inr c) \<in> H \<and> length c = r_bytes e0 \<and> sha256 env c = r_sha256 e0))"

lemma flash_item_stock:
  assumes "rom_item env (name, e) H" "name \<noteq> ANDROID_BOOT_IMAGE" "r_partition e \<notin> set ANDROID_FIRMWARE_PARTITIONS"
  shows "flash_item env args (name, e) H"
proof -
  obtain table e0 c where c: "pinned_table env table H" "(name, e0) \<in> set (rt_images table)" "r_partition e = r_partition e0"
    "ReadFile (r_path e) (Inr c) \<in> H \<and> length c = r_bytes e0 \<and> sha256 env c = r_sha256 e0"
    using assms(1,2) unfolding rom_item_def by auto
  show ?thesis unfolding flash_item_def fst_conv snd_conv
    by (intro conjI exI [of _ table] exI [of _ e0]) (use c assms(2,3) in \<open>auto simp: firmware_saved_def\<close>)
qed

lemma flash_item_firmware:
  assumes "rom_item env (name, e) H" "name \<noteq> ANDROID_BOOT_IMAGE" "r_partition e \<in> set ANDROID_FIRMWARE_PARTITIONS"
    "firmware_saved env args (r_partition e) H" "padded env (r_sha256 e) n digest H"
  shows "flash_item env args (name, e\<lparr>r_path := img, r_flash := Some (n, digest)\<rparr>) H"
proof -
  obtain table e0 where c: "pinned_table env table H" "(name, e0) \<in> set (rt_images table)" "r_partition e = r_partition e0"
    "r_sha256 e = r_sha256 e0"
    using assms(1,2) unfolding rom_item_def by auto
  show ?thesis unfolding flash_item_def fst_conv snd_conv
    by (intro conjI exI [of _ table] exI [of _ e0]) (use c assms(2-5) in auto)
qed

lemma stable_flash_item: "fl_stable (flash_item env args x)"
proof (rule fl.stableI)
  fix H H' :: "op set" assume "flash_item env args x H" "H \<subseteq> H'"
  then show "flash_item env args x H'"
    using flash_conditions_mono(2-4) [OF \<open>H \<subseteq> H'\<close>] unfolding flash_item_def by (auto split: if_splits) blast+
qed

lemma fl_firmware_size:
  assumes "fl_stable P" "\<not> a_no_backup args \<Longrightarrow> dir = backup_dir env args"
  shows "fl_safe env args P (if a_no_backup args then pbind (blockdev_size env b part) (\<lambda>n. ret (n, []))
      else pbind (backup_partition env b dir part) (\<lambda>digest.
        pbind (stat_size env (dir @ ''/'' @ part @ ''.img'')) (\<lambda>n. ret (n, [(part @ ''.img'', digest)]))))
    (\<lambda>_ H. P H \<and> firmware_saved env args part H)"
proof (rule fl.safe_if)
  assume nb: "a_no_backup args"
  have "fl_free env args (pbind (blockdev_size env b part) (\<lambda>n. ret (n, [])))"
    unfolding blockdev_size_def by (intro fl.free_rules fl.free_ops)
  from fl.safe_free [OF this assms(1)] show "fl_safe env args P (pbind (blockdev_size env b part) (\<lambda>n. ret (n, [])))
      (\<lambda>_ H. P H \<and> firmware_saved env args part H)"
    by (rule fl.safe_weaken) (simp_all add: firmware_saved_def nb)
next
  assume nb: "\<not> a_no_backup args"
  have R: "fl_stable (\<lambda>H. P H \<and> firmware_saved env args part H)" by (intro stable_flash_rules assms)
  have "fl_safe env args P (backup_partition env b dir part) (\<lambda>_ H. P H \<and> firmware_saved env args part H)"
    by (rule fl.safe_weaken [OF fl.safe_backup_partition [OF assms(1)]]) (simp_all add: firmware_saved_def assms(2) nb)
  then show "fl_safe env args P (pbind (backup_partition env b dir part) (\<lambda>digest.
        pbind (stat_size env (dir @ ''/'' @ part @ ''.img'')) (\<lambda>n. ret (n, [(part @ ''.img'', digest)]))))
      (\<lambda>_ H. P H \<and> firmware_saved env args part H)"
    by (rule fl.safe_bind) (intro fl.safe_free fl.free_bind fl.free_stat fl.free_ret R)
qed

lemma fl_prepare_firmware:
  assumes "fl_stable P" "\<not> a_no_backup args \<Longrightarrow> dir = backup_dir env args"
    "\<And>H. P H \<Longrightarrow> rom_item env x H" "fst x \<noteq> ANDROID_BOOT_IMAGE"
  shows "fl_safe env args P (prepare_firmware env b (a_no_backup args) dir x) (\<lambda>y H. P H \<and> flash_item env args (fst y) H)"
proof (cases x)
  case x: (Pair name e)
  have item: "P H \<Longrightarrow> rom_item env (name, e) H" "name \<noteq> ANDROID_BOOT_IMAGE" for H using assms(3,4) by (simp_all add: x)
  show ?thesis
  proof (cases "r_partition e \<in> set ANDROID_FIRMWARE_PARTITIONS")
    case False
    have "P H \<Longrightarrow> flash_item env args (name, e) H" for H
      by (rule flash_item_stock [OF item False])
    then show ?thesis using False by (simp add: x prepare_firmware_def fl.safe_ret Let_def)
  next
    case True
    let ?R = "\<lambda>H. P H \<and> firmware_saved env args (r_partition e) H"
    have R: "fl_stable ?R" by (intro stable_flash_rules assms(1))
    have item': "?R H \<and> padded env (r_sha256 e) n digest H \<Longrightarrow>
        flash_item env args (name, e\<lparr>r_path := img, r_flash := Some (n, digest)\<rparr>) H" for H n digest img
      using item True by (blast intro: flash_item_firmware)
    have rest: "fl_safe env args ?R (pseq (mkdir env d) (pbind (pad_boot_image env (r_path e) (r_sha256 e) n d') (\<lambda>(img, digest).
        ret ((name, e\<lparr>r_path := img, r_flash := Some (n, digest)\<rparr>), new))))
        (\<lambda>y H. P H \<and> flash_item env args (fst y) H)" for d n d' new
      by (rule fl.safe_seq_free [OF fl.free_files(3) R], rule fl.safe_bind [OF fl_pad_boot_image [OF R]],
          split prod.split, intro allI impI, rule fl.safe_ret) (simp add: item')
    show ?thesis using True unfolding x prepare_firmware_def prod.case Let_def
      by (simp only: not_True_eq_False if_False)
        (rule fl.safe_bind [OF fl_firmware_size [OF assms(1,2)]], assumption, split prod.split, intro allI impI, rule rest)
  qed
qed


lemma select_image_result: "result_of (select_image env b x) w = Inr ys \<Longrightarrow> set ys \<subseteq> {x}"
  unfolding select_image_def
  by (cases x) (auto simp: run_simps split: sum.splits if_splits option.splits)

lemma stock_images_result:
  "result_of (stock_images_to_flash env b images) w = Inr flashes \<Longrightarrow> set flashes \<subseteq> set images"
proof -
  have loop: "result_of (for_each (select_image env b) xs) w = Inr parts \<Longrightarrow> set (concat parts) \<subseteq> set xs" for xs parts w
  proof (induction xs arbitrary: w parts)
    case (Cons x xs)
    then obtain ys v zs where r: "result_of (select_image env b x) w = Inr ys"
        "result_of (for_each (select_image env b) xs) v = Inr zs" "parts = ys # zs"
      by (auto simp: run_simps split: sum.splits)
    show ?case using select_image_result [OF r(1)] Cons.IH [OF r(2)] r(3) by auto
  qed (simp add: run_simps)
  show "result_of (stock_images_to_flash env b images) w = Inr flashes \<Longrightarrow> set flashes \<subseteq> set images"
    unfolding stock_images_to_flash_def
    by (auto simp: run_simps sorted_items_def split: sum.splits dest!: loop)
qed

lemma fl_prepare_flashes:
  assumes P: "fl_stable P" and dir: "\<not> a_no_backup args \<Longrightarrow> dir = backup_dir env args"
    and rom: "\<And>H x. P H \<Longrightarrow> x \<in> set rom \<Longrightarrow> rom_item env x H"
  shows "fl_safe env args P (prepare_flashes env b args dir bs rom)
    (\<lambda>flashes H. P H \<and> (\<forall>x \<in> set flashes. flash_item env args x H))"
proof (cases "the_layout args = ''dual''")
  case False
  then show ?thesis by (simp add: prepare_flashes_def fl.safe_ret)
next
  case True
  let ?stock = "filter (\<lambda>(n, e). n \<noteq> ANDROID_BOOT_IMAGE) rom"
  let ?R = "\<lambda>ys H. P H \<and> (\<forall>y \<in> set ys. flash_item env args (fst y) H)"
  have R: "fl_stable (?R ys)" for ys
    by (intro stable_flash_rules stable_flash_item P)
  have chosen: "fl_safe env args P (stock_images_to_flash env b ?stock) (\<lambda>xs H. P H \<and> set xs \<subseteq> set ?stock)"
    by (rule fl.safe_free_result [OF fl.free_stock_images P stock_images_result])
  have loop: "fl_safe env args (\<lambda>H. P H \<and> set xs \<subseteq> set ?stock)
      (for_each (prepare_firmware env b (a_no_backup args) dir) xs) ?R" for xs
  proof (cases "set xs \<subseteq> set ?stock")
    case True
    have "fl_safe env args P (prepare_firmware env b (a_no_backup args) dir x) (\<lambda>y H. P H \<and> flash_item env args (fst y) H)"
      if "x \<in> set xs" for x
      using that True rom by (intro fl_prepare_firmware [OF P dir]) auto
    from fl.safe_for_each_results [OF this stable_flash_item P] show ?thesis by (rule fl.safe_weaken) simp_all
  qed (simp add: fl.safe_def)
  have rest: "fl_safe env args (?R ys) (pseq (if a_no_backup args then ret () else write_file env p d) (ret (map fst ys)))
      (\<lambda>flashes H. P H \<and> (\<forall>x \<in> set flashes. flash_item env args x H))" for ys p d
    by (rule fl.safe_seq_free [OF _ R], intro fl.free_rules fl.free_files, rule fl.safe_ret, fastforce)
  show ?thesis using True unfolding prepare_flashes_def
    by (simp only: not_True_eq_False if_False simp_thms)
      (rule fl.safe_bind [OF chosen] fl.safe_bind [OF loop] rest)+
qed

text \<open>The last look at the padded firmware makes an item a source to flash from.\<close>

lemma holds_paddedI:
  "ReadFile img (Inr c) \<in> H \<Longrightarrow> length c = n \<Longrightarrow> ReadFile img (Inr c') \<in> H \<Longrightarrow> sha256 env c' = digest \<Longrightarrow>
   padded env expected n digest H \<Longrightarrow> holds_padded env img expected n H"
  unfolding holds_padded_def by blast

lemma stock_source_firmware:
  "flash_item env args (name, e) H \<Longrightarrow> r_partition e \<in> set ANDROID_FIRMWARE_PARTITIONS \<Longrightarrow> r_flash e = Some (n, digest) \<Longrightarrow>
   ReadFile (r_path e) (Inr c) \<in> H \<Longrightarrow> length c = n \<Longrightarrow> ReadFile (r_path e) (Inr c') \<in> H \<Longrightarrow> sha256 env c' = digest \<Longrightarrow>
   stock_source env (r_partition e) (r_path e) H"
  unfolding flash_item_def stock_source_def fst_conv snd_conv
  by (elim conjE exE, rename_tac table e0, rule_tac x = table in exI, rule_tac x = name in exI, rule_tac x = e0 in exI)
    (auto intro: holds_paddedI)

lemma fl_check_flash:
  assumes "fl_stable P" "\<And>H. P H \<Longrightarrow> flash_item env args x H"
  shows "fl_safe env args P (check_flash env x) (\<lambda>_ H. P H \<and> stock_source env (r_partition (snd x)) (r_path (snd x)) H)"
proof (cases x)
  case x: (Pair name e)
  let ?Q = "\<lambda>_ H. P H \<and> stock_source env (r_partition e) (r_path e) H"
  have stop: "fl_safe env args S (runtime m) ?Q" for S m unfolding runtime_def by (rule fl.safe_raise)
  show ?thesis
  proof (cases "r_partition e \<in> set ANDROID_FIRMWARE_PARTITIONS")
    case False
    have "P H \<Longrightarrow> stock_source env (r_partition e) (r_path e) H" for H
      using assms(2) [of H] False by (auto simp: x flash_item_def stock_source_def) blast
    then show ?thesis using False by (simp add: x check_flash_def fl.safe_ret)
  next
    case fw: True
    show ?thesis
    proof (cases "r_flash e")
      case None
      then show ?thesis using fw by (simp add: x check_flash_def fl.safe_raise)
    next
      case (Some nd)
      obtain n digest where nd: "nd = (n, digest)" by (cases nd)
      let ?A = "\<lambda>H. P H \<and> (\<exists>c. ReadFile (r_path e) (Inr c) \<in> H \<and> length c = n)"
      have A: "fl_stable ?A" by (intro fl.stable_rules assms(1))
      have done': "?A H \<and> (\<exists>c. ReadFile (r_path e) (Inr c) \<in> H \<and> sha256 env c = digest) \<Longrightarrow> ?Q u H" for H u
        using stock_source_firmware [of env args name e H n digest] assms(2) [of H] fw Some by (auto simp: x nd)
      have same: "fl_safe env args (\<lambda>H. ?A H \<and> (\<exists>c. ReadFile (r_path e) (Inr c) \<in> H \<and> sha256 env c = h))
          (if h \<noteq> digest then runtime m else ret ()) ?Q" for h m
        using done' by (auto simp: stop intro!: fl.safe_ret)
      have len: "fl_safe env args (\<lambda>H. P H \<and> (\<exists>c. ReadFile (r_path e) (Inr c) \<in> H \<and> length c = k))
          (if k \<noteq> n then runtime m else pbind (sha env (r_path e)) (\<lambda>actual.
             if actual \<noteq> digest then runtime m else ret ())) ?Q" for k m
        using fl.safe_bind [OF fl.safe_sha [OF A] same] by (simp add: stop)
      show ?thesis using fw Some by (simp add: x nd check_flash_def fl.safe_bind [OF fl.safe_stat [OF assms(1)] len])
    qed
  qed
qed


subsection \<open>The flashes\<close>

lemma fl_flash:
  assumes "\<And>H. P H \<Longrightarrow> flash_allowed env args H s part img" "fl_stable P"
  shows "fl_safe env args P (flash env s part img) (\<lambda>out H. P H \<and> Fastboot [''-s'', s, ''flash'', part, img] (Inr out) \<in> H)"
  unfolding flash_def by (rule fl.safe_fastboot [OF _ assms(2)]) (use assms(1) in simp)

text \<open>The padded boot image as it was prepared, for the size and the digest that are looked at again.\<close>

definition boot_prepared :: "'w env \<Rightarrow> Args \<Rightarrow> string \<Rightarrow> nat \<Rightarrow> op set \<Rightarrow> bool" where
  "boot_prepared env args digest n H \<longleftrightarrow> boot_size env n H
     \<and> (\<exists>expected. boot_digest env args expected H \<and> padded env expected n digest H)"

lemma stable_boot_prepared: "fl_stable (boot_prepared env args digest n)"
  unfolding boot_prepared_def by (intro stable_flash_rules)

lemma firmware_saved_boot: "firmware_saved env args (''boot_'' @ slot) H"
  by (simp add: firmware_saved_def ANDROID_FIRMWARE_PARTITIONS_def)

lemma fl_finish:
  assumes s: "s = the (a_serial args)"
  shows "fl_safe env args (\<lambda>H. root_installed s H \<and> boot_prepared env args digest n H \<and> (\<forall>x \<in> set flashes. flash_item env args x H))
     (finish_in_fastboot env s (the_layout args) flashes img digest n) (\<lambda>_ _. True)"
proof -
  let ?P = "\<lambda>H. root_installed s H \<and> boot_prepared env args digest n H \<and> (\<forall>x \<in> set flashes. flash_item env args x H)"
  let ?S = "\<lambda>k H. ?P H \<and> (\<exists>c. ReadFile img (Inr c) \<in> H \<and> length c = k)"
  let ?B = "\<lambda>H. ?P H \<and> boot_source env args img H"
  let ?F = "\<lambda>H. ?B H \<and> (\<forall>x \<in> set flashes. stock_source env (r_partition (snd x)) (r_path (snd x)) H)"
  let ?Q = "\<lambda>H. ?F H \<and> (\<forall>slot \<in> set (boot_slots (the_layout args)). boot_flashed env args s slot H)"
  have P: "fl_stable ?P"
    by (intro stable_flash_rules stable_boot_prepared stable_flash_item)
  have S: "fl_stable (?S k)" for k by (intro stable_flash_rules P)
  have B: "fl_stable ?B" by (intro stable_flash_rules P)
  have F: "fl_stable ?F" by (intro stable_flash_rules B)
  have Q: "fl_stable ?Q" by (intro stable_flash_rules F)
  have B_I: "?S n H \<and> (\<exists>c. ReadFile img (Inr c) \<in> H \<and> sha256 env c = digest) \<Longrightarrow> ?B H" for H
    unfolding boot_prepared_def boot_source_def by (blast intro: holds_paddedI)
  have changed: "fl_safe env args (?S k) (if k \<noteq> n then ret True else pbind (sha env img) (\<lambda>d. ret (d \<noteq> digest)))
      (\<lambda>changed H. \<not> changed \<longrightarrow> ?B H)" for k
  proof (rule fl.safe_if)
    show "fl_safe env args (?S k) (ret True) (\<lambda>changed H. \<not> changed \<longrightarrow> ?B H)"
      by (rule fl.safe_ret) (simp only: not_True_eq_False simp_thms)
  next
    assume "\<not> k \<noteq> n"
    then have "(?S k H \<and> (\<exists>c. ReadFile img (Inr c) \<in> H \<and> sha256 env c = d)) \<Longrightarrow> \<not> d \<noteq> digest \<longrightarrow> ?B H" for d H
      using B_I [of H] by blast
    then show "fl_safe env args (?S k) (pbind (sha env img) (\<lambda>d. ret (d \<noteq> digest))) (\<lambda>changed H. \<not> changed \<longrightarrow> ?B H)"
      by (intro fl.safe_bind [OF fl.safe_sha [OF S]] fl.safe_ret)
  qed
  have checks: "fl_safe env args ?B (for_each (check_flash env) flashes) (\<lambda>_. ?F)"
    by (rule fl.safe_for_each_all [OF fl_check_flash [OF B] stable_flash(6) B]) blast
  have stock: "fl_safe env args ?F (for_each (\<lambda>(name, e). flash env s (r_partition e) (r_path e)) flashes) (\<lambda>_. ?F)"
  proof (rule fl.safe_for_each)
    fix x assume x: "x \<in> set flashes"
    have "?F H \<Longrightarrow> flash_allowed env args H s (r_partition (snd x)) (r_path (snd x))" for H
      using x s unfolding flash_allowed_def flash_item_def by blast
    from fl_flash [OF this F] show "fl_safe env args ?F (case x of (name, e) \<Rightarrow> flash env s (r_partition e) (r_path e)) (\<lambda>_. ?F)"
      unfolding split_beta by (rule fl.safe_weaken) blast+
  qed
  have slot: "fl_safe env args ?F (flash env s (''boot_'' @ slot) img) (\<lambda>_ H. ?F H \<and> boot_flashed env args s slot H)"
    if "slot \<in> set (boot_slots (the_layout args))" for slot
  proof -
    have "?F H \<Longrightarrow> flash_allowed env args H s (''boot_'' @ slot) img" for H
      using that s firmware_saved_boot unfolding flash_allowed_def by blast
    from fl_flash [OF this F] show ?thesis by (rule fl.safe_weaken) (unfold boot_flashed_def, blast+)
  qed
  have boot: "fl_safe env args ?F (for_each (\<lambda>slot. flash env s (''boot_'' @ slot) img) (boot_slots (the_layout args))) (\<lambda>_. ?Q)"
    by (rule fl.safe_for_each_all [OF slot stable_flash(10) F])
  have active: "fl_safe env args ?Q (pseq (fastboot env [''-s'', s, ''--set-active='' @ hd (boot_slots (the_layout args))]) m) (\<lambda>_ _. True)"
    if "fl_free env args m" for m
  proof -
    have "?Q H \<Longrightarrow> active_allowed env args H s (''--set-active='' @ hd (boot_slots (the_layout args)))" for H
      using s unfolding active_allowed_def by blast
    then have "?Q H \<Longrightarrow> flash_permits env args H (Fastboot [''-s'', s, ''--set-active='' @ hd (boot_slots (the_layout args))] r)" for H r
      by simp
    from fl.safe_fastboot [OF this Q]
    have set: "fl_safe env args ?Q (fastboot env [''-s'', s, ''--set-active='' @ hd (boot_slots (the_layout args))]) (\<lambda>_ _. True)"
      by (rule fl.safe_weaken) blast+
    show ?thesis by (rule fl.safe_seq [OF set]) (rule fl.safe_free [OF that fl.stable_const])
  qed
  have last: "fl_free env args (pseq (fastboot env [''-s'', s, ''reboot'']) (ret ()))"
    by (intro fl.free_seq fl.free_ret fl.free_fastboot) simp
  have stop: "fl_safe env args R (runtime m) (\<lambda>_ _. True)" for R m
    unfolding runtime_def by (rule fl.safe_raise)
  have rest: "fl_safe env args ?B (pseq (for_each (check_flash env) flashes)
       (pseq (for_each (\<lambda>(name, e). flash env s (r_partition e) (r_path e)) flashes)
       (pseq (for_each (\<lambda>slot. flash env s (''boot_'' @ slot) img) (boot_slots (the_layout args)))
       (pseq (fastboot env [''-s'', s, ''--set-active='' @ hd (boot_slots (the_layout args))])
       (pseq (fastboot env [''-s'', s, ''reboot'']) (ret ())))))) (\<lambda>_ _. True)"
    by (rule fl.safe_seq [OF checks] fl.safe_seq [OF stock] fl.safe_seq [OF boot] active last)+
  show ?thesis unfolding finish_in_fastboot_def
    apply (rule fl.safe_bind [OF fl.safe_stat [OF P]])
    apply (rule fl.safe_bind [OF changed])
    apply (rule fl.safe_if [OF stop])
    apply (rule fl.safe_weaken [OF rest])
     apply blast+
    done
qed


subsection \<open>The whole run\<close>

definition root_command :: "string list \<Rightarrow> bool" where
  "root_command install \<longleftrightarrow> take 2 install = [''sh'', ''/usr/lib/liuqin/install-root.sh'']"

lemma install_root_command_result:
  "result_of (install_root_command env b u bd mf r k m rom) w = Inr install \<Longrightarrow> root_command install"
  unfolding install_root_command_def Let_def root_command_def
  by (auto simp: run_simps split: sum.splits if_splits option.splits)

text \<open>The tablet confirmed the root.\<close>

definition root_confirmed :: "op set \<Rightarrow> bool" where
  "root_confirmed H \<longleftrightarrow> (\<exists>args reply. Shell (shlex_join (''sh'' # ''/usr/lib/liuqin/install-root.sh'' # args)) (Inr reply) \<in> H
     \<and> contains ''liuqin-install: ROOT_INSTALLED'' reply)"

lemma stable_root_confirmed: "fl_stable root_confirmed"
  unfolding root_confirmed_def by (intro stable_flash_rules)

lemma root_command_confirmed:
  assumes "root_command install" "Shell (shlex_join install) (Inr reply) \<in> H" "contains ''liuqin-install: ROOT_INSTALLED'' reply"
  shows "root_confirmed H"
proof -
  have "install = ''sh'' # ''/usr/lib/liuqin/install-root.sh'' # drop 2 install"
    by (subst append_take_drop_id [of 2 install, symmetric]) (simp add: assms(1) [unfolded root_command_def])
  then show ?thesis unfolding root_confirmed_def using assms(2,3) by metis
qed

lemma fl_wait_for_fastboot:
  assumes "fl_stable P" "\<And>H. P H \<Longrightarrow> root_confirmed H"
  shows "fl_safe env args P (wait_for_fastboot env s n) (\<lambda>_ H. P H \<and> root_installed s H)"
proof (induction n)
  case 0
  then show ?case by (simp add: runtime_def fl.safe_raise)
next
  case (Suc n)
  let ?Q = "\<lambda>out H. P H \<and> FastbootDevices (Inr out) \<in> H"
  have devices: "fl_safe env args P (attempt FastbootDevices f) ?Q" for f
    by (rule fl.safe_seen_free [OF _ assms(1)]) simp
  have seen: "?Q out H \<Longrightarrow> P H \<and> root_installed s H"
    if "\<exists>line \<in> set (splitlines out). split_ws line \<noteq> [] \<and> hd (split_ws line) = s" for out H
    using that assms(2) [of H] unfolding root_installed_def root_confirmed_def by blast
  have again: "fl_safe env args (?Q out) (pseq (perform Wait (total (wait_op env))) (wait_for_fastboot env s n))
      (\<lambda>_ H. P H \<and> root_installed s H)" for out
    by (rule fl.safe_weaken [OF fl.safe_seq_free [OF fl.free_wait assms(1) Suc.IH]]) blast+
  show ?case unfolding wait_for_fastboot.simps
    by (rule fl.safe_bind [OF devices], rule fl.safe_if, rule fl.safe_ret, erule (1) seen, rule again)
qed

lemma fl_install_ram:
  assumes s: "s = the (a_serial args)" and prep: "prepared_for env args prep"
  shows "fl_safe env args (\<lambda>H. (\<forall>x \<in> set (pr_rom prep). rom_item env x H) \<and> boot_prepared env args (snd pb) n H)
     (install_ram env args s bd mf prep n pb b) (\<lambda>_ _. True)"
proof -
  let ?P = "\<lambda>H. (\<forall>x \<in> set (pr_rom prep). rom_item env x H) \<and> boot_prepared env args (snd pb) n H"
  let ?F = "\<lambda>flashes H. ?P H \<and> (\<forall>x \<in> set flashes. flash_item env args x H)"
  let ?I = "\<lambda>flashes install H. ?F flashes H \<and> root_command install"
  let ?C = "\<lambda>flashes H. ?F flashes H \<and> root_confirmed H"
  have P: "fl_stable ?P" by (intro stable_flash_rules stable_rom_item stable_boot_prepared)
  have F: "fl_stable (?F xs)" for xs by (intro stable_flash_rules P stable_flash_item)
  have I: "fl_stable (?I xs i)" for xs i by (intro stable_flash_rules F)
  have C: "fl_stable (?C xs)" for xs by (intro stable_flash_rules F stable_root_confirmed)
  have flashes: "fl_safe env args ?P (prepare_flashes env b args (pr_backup prep) bs (pr_rom prep)) ?F" for bs
    by (rule fl_prepare_flashes [OF P]) (use prep in \<open>auto simp: prepared_for_def\<close>)
  have finish: "fl_safe env args (?C xs) (pseq (remote env b REBOOT) (pseq (wait_for_fastboot env s t)
          (finish_in_fastboot env s (the_layout args) xs (fst pb) (snd pb) n))) (\<lambda>_ _. True)" for xs t
  proof (rule fl.safe_seq_free [OF fl.free_remote C], rule fl.safe_seq [OF fl_wait_for_fastboot [OF C]])
    show "?C xs H \<Longrightarrow> root_confirmed H" for H by blast
    show "fl_safe env args (\<lambda>H. ?C xs H \<and> root_installed s H)
        (finish_in_fastboot env s (the_layout args) xs (fst pb) (snd pb) n) (\<lambda>_ _. True)"
      by (rule fl.safe_weaken [OF fl_finish [OF s]]) blast+
  qed
  have confirmed: "fl_safe env args (\<lambda>H. ?I xs install H \<and> Shell (shlex_join install) (Inr reply) \<in> H)
      (if \<not> contains ''liuqin-install: ROOT_INSTALLED'' reply then runtime msg
       else pseq (remote env b REBOOT) (pseq (wait_for_fastboot env s t)
          (finish_in_fastboot env s (the_layout args) xs (fst pb) (snd pb) n))) (\<lambda>_ _. True)" for xs install reply msg t
  proof (rule fl.safe_if)
    assume "\<not> \<not> contains ''liuqin-install: ROOT_INSTALLED'' reply"
    then have "?I xs install H \<and> Shell (shlex_join install) (Inr reply) \<in> H \<Longrightarrow> ?C xs H" for H
      using root_command_confirmed by blast
    then show "fl_safe env args (\<lambda>H. ?I xs install H \<and> Shell (shlex_join install) (Inr reply) \<in> H)
       (pseq (remote env b REBOOT) (pseq (wait_for_fastboot env s t)
          (finish_in_fastboot env s (the_layout args) xs (fst pb) (snd pb) n))) (\<lambda>_ _. True)"
      by (rule fl.safe_weaken [OF finish]) blast+
  qed (simp add: runtime_def fl.safe_raise)
  show ?thesis unfolding install_ram_def
    apply (rule fl.safe_seq_free [OF fl.free_lift P])
    apply (rule fl.safe_bind_free [OF fl.free_serve P])
    apply (split prod.split, intro allI impI)
    apply (rule fl.safe_bind_free [OF fl_take_backups P])
    apply (split prod.split, intro allI impI)
    apply (rule fl.safe_seq_free [OF fl_repartition P])
    apply (rule fl.safe_bind [OF flashes])
    apply (rule fl.safe_bind [OF fl.safe_free_result [OF fl.free_install_root F install_root_command_result]], assumption)
    apply (rule fl.safe_bind [OF fl.safe_remote [OF I]])
    apply (rule confirmed)
    done
qed

lemma fl_fastboot_checks:
  assumes "fl_stable P"
  shows "fl_safe env args P (fastboot_checks env args s d) (\<lambda>n H. P H \<and> boot_size env n H)"
proof -
  let ?T = "\<lambda>table H. P H \<and> pinned_table env table H"
  have T: "fl_stable (?T table)" for table by (intro stable_flash_rules assms)
  have confirm: "fl_free env args (confirm env args)"
    unfolding confirm_def by (intro fl.free_rules fl.free_stops fl.free_tty fl.free_ask)
  have last: "fl_safe env args (?T table) (ret n) (\<lambda>n H. P H \<and> boot_size env n H)"
    if "boot_partition_bytes table = Inr n" for table n
    by (rule fl.safe_ret) (use that in \<open>auto simp: boot_size_def\<close>)
  have stop: "fl_safe env args R (usage m) Q" for R Q m unfolding usage_def by (rule fl.safe_raise)
  show ?thesis unfolding fastboot_checks_def
    by (rule fl.safe_bind_free [OF fl.free_partition_size assms] fl.safe_bind [OF fl_load_rom_table [OF assms]]
        fl.safe_bind_lift fl.safe_seq_free [OF fl.free_for_each [OF fl.free_check_boot_slot] T]
        fl.safe_bind_free [OF fl.free_for_each [OF fl.free_stat] T] fl.safe_bind_free [OF fl.free_max_download T]
        fl.safe_seq_free [OF confirm T] last stop fl.safe_if | assumption)+
qed

text \<open>The manifest of the bundle, as \<^verbatim>\<open>main\<close> reads it.\<close>

definition bundle_manifest :: "'w env \<Rightarrow> Args \<Rightarrow> Manifest \<Rightarrow> op set \<Rightarrow> bool" where
  "bundle_manifest env args mf H \<longleftrightarrow> (\<exists>content.
     ReadFile (resolve env (a_bundle args) @ ''/bundle.json'') (Inr content) \<in> H \<and> load_manifest env content = Inr mf)"

lemma stable_bundle_manifest: "fl_stable (bundle_manifest env args mf)"
  unfolding bundle_manifest_def by (intro stable_flash_rules)

lemma bundle_digest: "bundle_manifest env args mf H \<Longrightarrow> file_digest mf ''boot.img'' = Inr d \<Longrightarrow> boot_digest env args d H"
  unfolding bundle_manifest_def boot_digest_def file_digest_def get_key_def by (auto split: option.splits)

lemma fl_check_bundle:
  "fl_safe env args (\<lambda>_. True) (check_bundle env (resolve env (a_bundle args))) (bundle_manifest env args)"
proof -
  have T: "fl_stable (\<lambda>_. True)" by (rule fl.stable_const)
  have files: "fl_free env args (for_each (\<lambda>name. pbind (sha env (d @ ''/'' @ name)) (\<lambda>digest.
         pbind (lift (file_digest mf name)) (\<lambda>expected. lift (reject (digest \<noteq> expected) (m name))))) xs)" for d mf m xs
    by (intro fl.free_rules fl.free_sha)
  show ?thesis unfolding check_bundle_def
  proof (rule fl.safe_bind [OF fl.safe_read [OF T]], rule fl.safe_bind_lift, rule fl.safe_seq_lift)
    fix content mf assume mf: "load_manifest env content = Inr mf"
    have R: "fl_stable (\<lambda>H. True \<and> ReadFile (resolve env (a_bundle args) @ ''/bundle.json'') (Inr content) \<in> H)"
      by (intro stable_flash_rules)
    show "fl_safe env args (\<lambda>H. True \<and> ReadFile (resolve env (a_bundle args) @ ''/bundle.json'') (Inr content) \<in> H)
        (pseq (for_each (\<lambda>name. pbind (sha env (resolve env (a_bundle args) @ ''/'' @ name)) (\<lambda>digest.
           pbind (lift (file_digest mf name)) (\<lambda>expected.
           lift (reject (digest \<noteq> expected) (''bundle checksum mismatch: '' @ name)))))
         [''boot.img'', ''installer.img'', ''rootfs.tar.gz'']) (ret mf)) (bundle_manifest env args)"
      by (rule fl.safe_seq_free [OF files R], rule fl.safe_ret) (use mf in \<open>auto simp: bundle_manifest_def\<close>)
  qed
qed

lemma fl_run_install:
  assumes s: "s = the (a_serial args)"
  shows "fl_safe env args (bundle_manifest env args mf) (run_install env args s bd mf) (\<lambda>_ _. True)"
proof -
  let ?M = "bundle_manifest env args mf"
  let ?R = "\<lambda>prep H. ((\<forall>x \<in> set (pr_rom prep). rom_item env x H) \<and> ?M H) \<and> prepared_for env args prep"
  let ?B = "\<lambda>prep n H. ?R prep H \<and> boot_size env n H"
  have T: "fl_stable (\<lambda>_. True)" by (rule fl.stable_const)
  have M: "fl_stable ?M" by (rule stable_bundle_manifest)
  have R: "fl_stable (?R prep)" and B: "fl_stable (?B prep n)" for prep n
    by (intro stable_flash_rules stable_rom_item M)+
  have prep: "fl_safe env args ?M (prepare env args bd) ?R"
  proof -
    have "fl_safe env args (\<lambda>H. True \<and> ?M H) (prepare env args bd) (\<lambda>prep H. (\<forall>x \<in> set (pr_rom prep). rom_item env x H) \<and> ?M H)"
      by (rule fl.safe_keep [OF fl_prepare]) (use M in \<open>auto simp: fl.stable_def\<close>)
    then show ?thesis using prepare_result [of env args bd] unfolding fl.safe_def by (simp only: simp_thms) meson
  qed
  have pad: "fl_safe env args (?B prep n) (pad_boot_image env p digest n d)
      (\<lambda>pb H. ?B prep n H \<and> padded env digest n (snd pb) H)" for prep n p digest d
    by (rule fl.safe_weaken [OF fl_pad_boot_image [OF B]]) auto
  have K: "fl_stable (\<lambda>H. ?B prep n H \<and> padded env digest n d H)" for prep n digest d
    by (intro stable_flash_rules B)
  have last: "fl_safe env args (\<lambda>H. ?B prep n H \<and> padded env digest n (snd pb) H)
      (install_ram env args s bd mf prep n pb b) (\<lambda>_ _. True)"
    if d: "file_digest mf ''boot.img'' = Inr digest" for prep n pb b digest
  proof (cases "prepared_for env args prep")
    case True
    have "boot_prepared env args (snd pb) n H" if "?B prep n H \<and> padded env digest n (snd pb) H" for H
      using that bundle_digest [OF _ d] unfolding boot_prepared_def by blast
    then show ?thesis by (intro fl.safe_weaken [OF fl_install_ram [OF s True]]) blast+
  qed (simp add: fl.safe_def)
  show ?thesis unfolding run_install_def
    by (rule fl.safe_bind [OF prep] fl.safe_seq_free [OF fl.free_check_addresses R]
        fl.safe_seq_free [OF fl.free_for_each [OF fl.free_check_var] R] fl.safe_bind [OF fl_fastboot_checks [OF R]]
        fl.safe_bind_lift fl.safe_bind [OF pad] fl.safe_bind_free [OF fl.free_boot_ram K] last | assumption)+
qed

lemma fl_main: "fl_safe env args (\<lambda>_. True) (main env args) (\<lambda>_ _. True)"
proof -
  have T: "fl_stable (\<lambda>_. True)" by (rule fl.stable_const)
  note M = stable_bundle_manifest
  have checked: "fl_free env args (pseq (validate_arguments env args True)
      (if given (a_layout args) then pseq (lift (reference_plan args)) (ret ()) else ret ()))"
    by (intro fl.free_rules fl.free_validate)
  have checked': "fl_safe env args (bundle_manifest env args mf) (pseq (validate_arguments env args True)
      (if given (a_layout args) then pseq (lift (reference_plan args)) (ret ()) else ret ())) (\<lambda>_ _. True)" for mf
    by (rule fl.safe_weaken [OF fl.safe_free [OF checked T]]) simp_all
  have restore: "fl_safe env args (bundle_manifest env args mf) (run_restore env args s bd mf dir) (\<lambda>_ _. True)" for s bd mf dir
    by (rule fl.safe_weaken [OF fl.safe_free [OF fl_run_restore T]]) simp_all
  have real: "fl_safe env args (bundle_manifest env args mf) (case a_restore args of
           Some dir \<Rightarrow> run_restore env args (the (a_serial args)) bd mf dir
         | None \<Rightarrow> pseq (lift (reject c msg)) (run_install env args (the (a_serial args)) bd mf)) (\<lambda>_ _. True)" for bd mf c msg
    by (cases "a_restore args")
      (simp_all add: fl.safe_seq_free [OF fl.free_lift M fl_run_install] restore)
  show ?thesis unfolding main_def Let_def
    by (rule fl.safe_bind [OF fl_check_bundle] fl.safe_if checked' fl.safe_seq_free [OF fl.free_validate M]
        fl.safe_seq_free [OF fl.free_lift M] real)+
qed

text \<open>The log of a run in which every write through Fastboot was due.\<close>

fun due_log :: "'w env \<Rightarrow> Args \<Rightarrow> op set \<Rightarrow> op list \<Rightarrow> bool" where
  "due_log env args H [] \<longleftrightarrow> True"
| "due_log env args H (e # t) \<longleftrightarrow> flash_permits env args H e \<and> due_log env args (insert e H) t"

lemma due_log_ok: "due_log env args H t \<longleftrightarrow> policy.ok_from (flash_permits env args) H t"
  by (induction t arbitrary: H) (simp_all add: fl.ok_from.simps)

text \<open>C2. The installer flashes nothing early and nothing unchecked, whatever the tablet and the host
  answer. In every run each \<^verbatim>\<open>fastboot flash\<close> is for the selected serial number and comes after the
  tablet answered \<^verbatim>\<open>ROOT_INSTALLED\<close> to install-root.sh and a listing of \<^verbatim>\<open>fastboot devices\<close> showed
  the serial number. The image flashed was read with the right bytes: either it is the image the pinned
  ROM table names for this partition (its length and SHA-256; for a firmware partition those bytes
  zero-filled), never the Android boot image, or it is the boot image of the bundle's manifest,
  zero-filled to the size the table gives the boot partition, and goes to a slot of
  \<^verbatim>\<open>boot_slots\<close>. A firmware partition is flashed only with its own verified backup unless
  backups were declined. \<^verbatim>\<open>--set-active\<close> names the booting slot of the layout and comes after the boot
  image was flashed, with success, to every slot.\<close>

theorem flashes_in_order: "due_log env args {} (trace_of (main env args) w)"
  unfolding due_log_ok by (rule fl.safe_log [OF fl_main TrueI])

end
