(* ===== verification/Cpio.thy ===== *)
theory Cpio
  imports PyRegex
begin

text \<open>
  The newc archive of a ramdisk, from \<^verbatim>\<open>tools/patch-android-boot-ksu.py\<close>: \<^verbatim>\<open>Cpio.load\<close>,
  \<^verbatim>\<open>Cpio.dump\<close> and the changes to its entries. A name is the UTF-8 encoding of the Python
  string, so that the order of names, equality and decoding errors are those of the code;
  \<^verbatim>\<open>len(name)\<close> counts the bytes that start a character. The entries are the association list of
  the dictionary in insertion order. A header field is whatever Python's \<^verbatim>\<open>int(text, 16)\<close> reads,
  which may be negative, so the loop of \<^verbatim>\<open>load\<close> need not end: not returning is None.
\<close>

subsection \<open>Errors\<close>

datatype ksu_error =
    PatchError string
  | BadValue \<comment> \<open>\<^verbatim>\<open>ValueError\<close>\<close>
  | MissingKey string \<comment> \<open>\<^verbatim>\<open>KeyError\<close>\<close>
  | StructError \<comment> \<open>\<^verbatim>\<open>struct.error\<close>\<close>
  | CodecError string \<comment> \<open>raised by \<^verbatim>\<open>zlib\<close> or \<^verbatim>\<open>lz4\<close>\<close>
  | ReadError string

subsection \<open>Rounding\<close>

definition align_to :: "int \<Rightarrow> int \<Rightarrow> int" where
  "align_to v alignment = (v + alignment - 1) div alignment * alignment"

interpretation word4: rounding "\<lambda>v. align_to v 4" 4
  by unfold_locales (simp_all add: align_to_def align_simps)

subsection \<open>Numbers of eight hexadecimal digits\<close>

text \<open>\<^verbatim>\<open>b'%08x' % value\<close>\<close>

fun to_hex :: "nat \<Rightarrow> string" where
  "to_hex n = (if n < 16 then [digit_char n] else to_hex (n div 16) @ [digit_char (n mod 16)])"

declare to_hex.simps [simp del]

definition hex8 :: "int \<Rightarrow> bytes" where
  "hex8 v =
     (let s = to_hex (nat \<bar>v\<bar>); sign = (if v < 0 then ''-'' else [])
      in sign @ replicate (8 - length sign - length s) (CHR ''0'') @ s)"

text \<open>\<^verbatim>\<open>int(data, 16)\<close> of a byte string: only the ASCII blanks are stripped.\<close>

definition is_blank :: "char \<Rightarrow> bool" where
  "is_blank c \<longleftrightarrow> (9 \<le> byte c \<and> byte c \<le> 13) \<or> byte c = 32"

definition int16 :: "bytes \<Rightarrow> int option" where
  "int16 s =
     (if list_all (\<lambda>c. is_space c \<longrightarrow> is_blank c) s then py_int 16 s else None)"

subsection \<open>UTF-8\<close>

definition is_cont :: "char \<Rightarrow> bool" where
  "is_cont c \<longleftrightarrow> 128 \<le> byte c \<and> byte c < 192"

text \<open>The second byte is restricted against overlong forms, surrogates and code points above 10FFFF.\<close>

definition lead2 :: "nat \<Rightarrow> nat \<Rightarrow> bool" where
  "lead2 n b \<longleftrightarrow> 194 \<le> n \<and> n < 224 \<and> 128 \<le> b \<and> b < 192"

definition lead3 :: "nat \<Rightarrow> nat \<Rightarrow> bool" where
  "lead3 n b \<longleftrightarrow> 224 \<le> n \<and> n < 240 \<and> (if n = 224 then 160 else 128) \<le> b \<and> b < (if n = 237 then 160 else 192)"

definition lead4 :: "nat \<Rightarrow> nat \<Rightarrow> bool" where
  "lead4 n b \<longleftrightarrow> 240 \<le> n \<and> n < 245 \<and> (if n = 240 then 144 else 128) \<le> b \<and> b < (if n = 244 then 144 else 192)"

fun utf8_valid :: "bytes \<Rightarrow> bool" where
  "utf8_valid [] \<longleftrightarrow> True"
| "utf8_valid [a] \<longleftrightarrow> byte a < 128"
| "utf8_valid [a, b] \<longleftrightarrow> (if byte a < 128 then utf8_valid [b] else lead2 (byte a) (byte b))"
| "utf8_valid [a, b, c] \<longleftrightarrow>
     (if byte a < 128 then utf8_valid [b, c]
      else if byte a < 224 then lead2 (byte a) (byte b) \<and> utf8_valid [c]
      else lead3 (byte a) (byte b) \<and> is_cont c)"
| "utf8_valid (a # b # c # d # s) \<longleftrightarrow>
     (if byte a < 128 then utf8_valid (b # c # d # s)
      else if byte a < 224 then lead2 (byte a) (byte b) \<and> utf8_valid (c # d # s)
      else if byte a < 240 then lead3 (byte a) (byte b) \<and> is_cont c \<and> utf8_valid (d # s)
      else lead4 (byte a) (byte b) \<and> is_cont c \<and> is_cont d \<and> utf8_valid s)"

definition py_len :: "bytes \<Rightarrow> nat" where
  "py_len name = length (filter (\<lambda>c. \<not> is_cont c) name)"

subsection \<open>The archive\<close>

definition CPIO_MAGIC :: bytes where "CPIO_MAGIC = ''070701''"
definition TYPE_REGULAR :: int where "TYPE_REGULAR = 32768"
definition TRAILER :: bytes where "TRAILER = ''TRAILER!!!''"
definition FIRST_INODE :: int where "FIRST_INODE = 300000"

record CpioEntry =
  c_mode :: int
  c_uid :: int
  c_gid :: int
  c_rdev_major :: int
  c_rdev_minor :: int
  c_data :: bytes

type_synonym archive = "(bytes \<times> CpioEntry) list"

text \<open>\<^verbatim>\<open>mode | TYPE_REGULAR\<close> sets bit 15.\<close>

definition regular :: "int \<Rightarrow> bytes \<Rightarrow> CpioEntry" where
  "regular mode d = \<lparr>c_mode = (if odd (mode div TYPE_REGULAR) then mode else mode + TYPE_REGULAR),
     c_uid = 0, c_gid = 0, c_rdev_major = 0, c_rdev_minor = 0, c_data = d\<rparr>"

fun split_on :: "char \<Rightarrow> string \<Rightarrow> string \<Rightarrow> string list" where
  "split_on sep cur [] = [rev cur]"
| "split_on sep cur (c # s) = (if c = sep then rev cur # split_on sep [] s else split_on sep (c # cur) s)"

definition norm_path :: "bytes \<Rightarrow> bytes" where
  "norm_path path = join_with ''/'' (filter (\<lambda>part. part \<noteq> []) (split_on (CHR ''/'') [] path))"

definition exists_entry :: "archive \<Rightarrow> bytes \<Rightarrow> bool" where
  "exists_entry a path \<longleftrightarrow> map_of a (norm_path path) \<noteq> None"

definition add_entry :: "bytes \<Rightarrow> CpioEntry \<Rightarrow> archive \<Rightarrow> archive" where
  "add_entry path e a = AList.update (norm_path path) e a"

definition move_entry :: "bytes \<Rightarrow> bytes \<Rightarrow> archive \<Rightarrow> ksu_error + archive" where
  "move_entry source target a =
     (case map_of a (norm_path source) of
        None \<Rightarrow> Inl (MissingKey source)
      | Some e \<Rightarrow> Inr (AList.update (norm_path target) e (AList.delete (norm_path source) a)))"

subsection \<open>Reading\<close>

definition find_from :: "bytes \<Rightarrow> bytes \<Rightarrow> int \<Rightarrow> nat option" where
  "find_from sub data start =
     find (\<lambda>i. take (length sub) (drop i data) = sub) [py_index (length data) start..<Suc (length data)]"

definition rstrip_nul :: "bytes \<Rightarrow> bytes" where
  "rstrip_nul s = rev (dropWhile (\<lambda>c. c = CHR 0x00) (rev s))"

definition header_field :: "bytes \<Rightarrow> int \<Rightarrow> int \<Rightarrow> ksu_error + int" where
  "header_field data offset i =
     (case int16 (py_slice data (offset + 6 + i * 8) (offset + 14 + i * 8)) of
        None \<Rightarrow> Inl BadValue | Some v \<Rightarrow> Inr v)"

text \<open>One round of the loop; None is the \<^verbatim>\<open>break\<close> after the last trailer.\<close>

definition load_step :: "bytes \<Rightarrow> int \<Rightarrow> archive \<Rightarrow> ksu_error + (int \<times> archive) option" where
  "load_step data offset entries =
     (if py_slice data offset (offset + 6) \<noteq> CPIO_MAGIC then Inl (PatchError ''unsupported cpio header'')
      else ebind (mapM (header_field data offset) [0, 1, 2, 3, 4, 5, 6, 7, 8, 9, 10, 11, 12]) (\<lambda>fields.
        let mode = fields ! 1; uid = fields ! 2; gid = fields ! 3; file_size = fields ! 6;
            rdev_major = fields ! 9; rdev_minor = fields ! 10; name_len = fields ! 11;
            raw = py_slice data (offset + 110) (offset + 110 + name_len)
        in if raw = [] \<or> last raw \<noteq> CHR 0x00 then Inl (PatchError ''cpio entry name was not NUL-terminated'')
           else let name = rstrip_nul raw; start = align_to (offset + 110 + name_len) 4
             in if \<not> utf8_valid name then Inl BadValue
                else if name = ''.'' \<or> name = ''..'' then Inr (Some (start, entries))
                else if name = TRAILER then
                  (case find_from CPIO_MAGIC data start of
                     None \<Rightarrow> Inr None | Some rest \<Rightarrow> Inr (Some (int rest, entries)))
                else Inr (Some (align_to (start + file_size) 4, AList.update name
                  \<lparr>c_mode = mode, c_uid = uid, c_gid = gid, c_rdev_major = rdev_major,
                   c_rdev_minor = rdev_minor, c_data = py_slice data start (start + file_size)\<rparr> entries))))"

partial_function (option) load_from :: "bytes \<Rightarrow> int \<Rightarrow> archive \<Rightarrow> (ksu_error + archive) option" where
  "load_from data offset entries =
     (if int (length data) \<le> offset then Some (Inr entries)
      else (case load_step data offset entries of
              Inl e \<Rightarrow> Some (Inl e)
            | Inr next \<Rightarrow> (case next of
                None \<Rightarrow> Some (Inr entries)
              | Some st \<Rightarrow> load_from data (fst st) (snd st))))"

definition cpio_load :: "bytes \<Rightarrow> (ksu_error + archive) option" where
  "cpio_load data = load_from data 0 []"

subsection \<open>Writing\<close>

definition pad4 :: "bytes \<Rightarrow> bytes" where
  "pad4 out = out @ zeros (nat (align_to (int (length out)) 4) - length out)"

definition cpio_header :: "int \<Rightarrow> CpioEntry \<Rightarrow> bytes \<Rightarrow> bytes" where
  "cpio_header inode e name =
     CPIO_MAGIC @ concat (map hex8 [inode, c_mode e, c_uid e, c_gid e, 1, 0, int (length (c_data e)), 0, 0,
       c_rdev_major e, c_rdev_minor e, int (py_len name) + 1, 0])"

definition dump_entry :: "int \<times> bytes \<Rightarrow> bytes \<times> CpioEntry \<Rightarrow> int \<times> bytes" where
  "dump_entry st item = (case st of (inode, out) \<Rightarrow> case item of (name, e) \<Rightarrow>
     (let out1 = pad4 (out @ cpio_header inode e name @ name @ [CHR 0x00])
      in (inode + 1, if c_data e \<noteq> [] then pad4 (out1 @ c_data e) else out1)))"

definition sorted_entries :: "archive \<Rightarrow> archive" where
  "sorted_entries a = sort_key fst a"

definition cpio_dump :: "archive \<Rightarrow> bytes" where
  "cpio_dump a =
     (case foldl dump_entry (FIRST_INODE, []) (sorted_entries a) of (inode, out) \<Rightarrow>
        pad4 (out @ cpio_header inode \<lparr>c_mode = 493, c_uid = 0, c_gid = 0, c_rdev_major = 0,
                       c_rdev_minor = 0, c_data = []\<rparr> TRAILER @ TRAILER @ [CHR 0x00]))"

subsection \<open>A header field reads back\<close>

definition hex_value :: "nat list \<Rightarrow> nat" where
  "hex_value ds = foldl (\<lambda>a d. a * 16 + d) 0 ds"

lemma hex_digit_facts:
  assumes "d < 16"
  shows "alnum_value (digit_char d) = Some d" "\<not> is_space (digit_char d)"
    "digit_char d \<notin> set ''+-_xX''"
proof -
  have "\<forall>j \<in> set [0..<16]. alnum_value (digit_char j) = Some j \<and> \<not> is_space (digit_char j)
      \<and> digit_char j \<notin> set ''+-_xX''" by code_simp
  then show "alnum_value (digit_char d) = Some d" "\<not> is_space (digit_char d)"
    "digit_char d \<notin> set ''+-_xX''"
    using assms by simp_all
qed

lemma to_hex_digits:
  "\<exists>ds. to_hex n = map digit_char ds \<and> ds \<noteq> [] \<and> list_all (\<lambda>d. d < 16) ds \<and> hex_value ds = n
     \<and> (\<forall>k. 0 < k \<longrightarrow> n < 16 ^ k \<longrightarrow> length ds \<le> k)"
proof (induction n rule: to_hex.induct)
  case (1 n)
  show ?case
  proof (cases "n < 16")
    case True
    then show ?thesis by (intro exI [of _ "[n]"]) (simp add: to_hex.simps [of n] hex_value_def Suc_le_eq)
  next
    case False
    from 1 [OF this] obtain ds where ds: "to_hex (n div 16) = map digit_char ds" "ds \<noteq> []"
      "list_all (\<lambda>d. d < 16) ds" "hex_value ds = n div 16"
      "\<forall>k. 0 < k \<longrightarrow> n div 16 < 16 ^ k \<longrightarrow> length ds \<le> k" by blast
    have short: "length ds < k" if "0 < k" "n < 16 ^ k" for k
    proof -
      from that False obtain j where j: "k = Suc j" "0 < j" by (cases k; cases "k = 1") auto
      then have "n div 16 < 16 ^ j" using that by (simp add: div_less_iff_less_mult mult.commute)
      then have "length ds \<le> j" using ds(5) j(2) by blast
      then show ?thesis using j by simp
    qed
    show ?thesis
      by (rule exI [of _ "ds @ [n mod 16]"])
        (use False ds short in \<open>simp add: to_hex.simps [of n] hex_value_def Suc_le_eq\<close>)
  qed
qed

lemma hex_value_leading: "hex_value (replicate k 0 @ ds) = hex_value ds"
  unfolding hex_value_def by (induction k) simp_all

lemma hex8_digits:
  assumes "0 \<le> v" "v < 2 ^ 32"
  obtains ds where "hex8 v = map digit_char ds" "length ds = 8" "list_all (\<lambda>d. d < 16) ds"
    "int (hex_value ds) = v"
proof -
  from to_hex_digits [of "nat v"] obtain ds where ds: "to_hex (nat v) = map digit_char ds"
    "list_all (\<lambda>d. d < 16) ds" "hex_value ds = nat v"
    "\<forall>k. 0 < k \<longrightarrow> nat v < 16 ^ k \<longrightarrow> length ds \<le> k" by blast
  from ds(4) assms have "length ds \<le> 8" by (auto dest: spec [of _ 8])
  then show ?thesis using assms ds
    by (intro that [of "replicate (8 - length ds) 0 @ ds"])
      (auto simp: hex8_def hex_value_leading list_all_iff map_replicate)
qed

lemma int_digits_hex:
  "list_all (\<lambda>d. d < 16) ds \<Longrightarrow> ds \<noteq> [] \<or> \<not> us \<Longrightarrow>
     int_digits 16 a us (map digit_char ds) = Some (foldl (\<lambda>a d. a * 16 + d) a ds)"
proof (induction ds arbitrary: a us)
  case (Cons d ds)
  have "digit_char d \<noteq> CHR ''_''" using Cons.prems hex_digit_facts(3) [of d] by auto
  then show ?case using Cons hex_digit_facts(1) [of d] by simp
qed simp

lemma strip_plain: "list_all (\<lambda>c. \<not> is_space c) s \<Longrightarrow> strip s = s"
proof -
  assume a: "list_all (\<lambda>c. \<not> is_space c) s"
  then have "dropWhile is_space s = s" by (cases s) simp_all
  moreover have "dropWhile is_space (rev s) = rev s"
    using a by (cases "rev s") (simp_all add: list_all_iff flip: set_rev [of s])
  ultimately show ?thesis by (simp add: strip_def)
qed

lemma int16_hex:
  assumes "list_all (\<lambda>d. d < 16) ds" "ds \<noteq> []"
  shows "int16 (map digit_char ds) = Some (int (hex_value ds))"
proof -
  let ?s = "map digit_char ds"
  have ns: "list_all (\<lambda>c. \<not> is_space c) ?s" using assms hex_digit_facts(2) by (auto simp: list_all_iff)
  have c: "c \<notin> set ''+-_xX''" if "c \<in> set ?s" for c
    using that assms(1) hex_digit_facts(3) by (auto simp: list_all_iff)
  have sign: "take 1 ?s \<noteq> ''-''" "take 1 ?s \<noteq> ''+''" using assms(2) c by (cases ?s; auto)+
  have pre: "take 2 ?s \<noteq> ''0x''" "take 2 ?s \<noteq> ''0X''"
  proof -
    have "set (take 2 ?s) \<subseteq> set ?s" by (rule set_take_subset)
    then show "take 2 ?s \<noteq> ''0x''" "take 2 ?s \<noteq> ''0X''" using c by force+
  qed
  show ?thesis unfolding int16_def py_int_def Let_def strip_plain [OF ns] int_body_def
    using ns sign pre int_digits_hex [OF assms(1), of True 0] assms(2)
    by (simp add: hex_value_def list_all_iff)
qed

lemma hex8_reads:
  assumes "0 \<le> v" "v < 2 ^ 32"
  shows "length (hex8 v) = 8" "int16 (hex8 v) = Some v"
  using hex8_digits [OF assms] int16_hex by (metis length_map, metis length_0_conv zero_neq_numeral)

definition in_field :: "int \<Rightarrow> bool" where
  "in_field v \<longleftrightarrow> 0 \<le> v \<and> v < 2 ^ 32"

lemma length_fields: "list_all in_field vs \<Longrightarrow> length (concat (map hex8 vs)) = 8 * length vs"
  by (induction vs) (simp_all add: in_field_def hex8_reads)

lemma header_field_reads:
  assumes "list_all in_field vs" "i < length vs"
  shows "header_field (P @ CPIO_MAGIC @ concat (map hex8 vs) @ R) (int (length P)) (int i) = Inr (vs ! i)"
proof -
  let ?a = "P @ CPIO_MAGIC @ concat (map hex8 (take i vs))"
  let ?b = "concat (map hex8 (drop (Suc i) vs)) @ R"
  have v: "0 \<le> vs ! i" "vs ! i < 2 ^ 32" using assms by (simp_all add: list_all_length in_field_def)
  have "vs = take i vs @ vs ! i # drop (Suc i) vs" by (rule id_take_nth_drop [OF assms(2)])
  then have split: "P @ CPIO_MAGIC @ concat (map hex8 vs) @ R = ?a @ hex8 (vs ! i) @ ?b"
    by (metis append.assoc concat.simps(2) concat_append list.simps(9) map_append)
  have "list_all in_field (take i vs)" using assms(1) by (auto simp: list_all_iff dest: in_set_takeD)
  then have "length ?a = length P + 6 + 8 * i"
    using assms(2) by (simp add: length_fields CPIO_MAGIC_def)
  then have "py_slice (?a @ hex8 (vs ! i) @ ?b) (int (length P) + 6 + int i * 8) (int (length P) + 14 + int i * 8)
      = hex8 (vs ! i)"
    by (intro py_slice_append) (simp_all only: hex8_reads(1) [OF v] of_nat_add of_nat_numeral of_nat_mult)
  then show ?thesis unfolding header_field_def split by (simp add: hex8_reads(2) [OF v])
qed

lemma mapM_upto:
  assumes "length ys = 13" "\<And>i. i < 13 \<Longrightarrow> f (int i) = Inr (ys ! i)"
  shows "mapM f [0, 1, 2, 3, 4, 5, 6, 7, 8, 9, 10, 11, 12] = Inr ys"
proof -
  have "[0, 1, 2, 3, 4, 5, 6, 7, 8, 9, 10, 11, 12] = map int [0..<13]" by code_simp
  then show ?thesis using assms by (simp add: mapM_Inr list_all2_conv_all_nth)
qed

subsection \<open>The archive as a sequence of blocks\<close>

lemma length_pad4: "int (length (pad4 s)) = align_to (int (length s)) 4"
  using word4.up_ge [of "int (length s)"] by (simp add: pad4_def)

lemma pad4_aligned: "4 dvd length (pad4 s)"
proof -
  have "4 dvd int (length (pad4 s))" unfolding length_pad4 by (rule word4.up_dvd)
  then show ?thesis by presburger
qed

lemma pad4_shift: "4 dvd length P \<Longrightarrow> pad4 (P @ s) = P @ pad4 s"
proof -
  assume "4 dvd length P"
  then have "(4 :: int) dvd int (length P)" by presburger
  then have "align_to (int (length s) + int (length P)) 4 = align_to (int (length s)) 4 + int (length P)"
    by (rule word4.up_shift)
  then have "nat (align_to (int (length (P @ s))) 4) - length (P @ s) = nat (align_to (int (length s)) 4) - length s"
    using word4.up_ge [of "int (length s)"] by (simp add: add.commute)
  then show ?thesis unfolding pad4_def by simp
qed

lemma pad4_split: "pad4 s = s @ zeros (length (pad4 s) - length s)"
  by (simp add: pad4_def)

lemma pad4_Nil [simp]: "pad4 [] = []"
  by (simp add: pad4_def align_to_def)

definition block :: "int \<Rightarrow> bytes \<times> CpioEntry \<Rightarrow> bytes" where
  "block inode item = (case item of (name, e) \<Rightarrow>
     pad4 (cpio_header inode e name @ name @ [CHR 0x00]) @ pad4 (c_data e))"

primrec blocks :: "int \<Rightarrow> archive \<Rightarrow> bytes" where
  "blocks inode [] = []"
| "blocks inode (x # xs) = block inode x @ blocks (inode + 1) xs"

lemma block_aligned: "4 dvd length (block inode x)"
  by (cases x) (simp add: block_def pad4_aligned)

lemma blocks_aligned: "4 dvd length (blocks inode xs)"
  by (induction xs arbitrary: inode) (simp_all add: block_aligned)

lemma dump_entry_block:
  assumes "4 dvd length out"
  shows "dump_entry (inode, out) x = (inode + 1, out @ block inode x)"
proof (cases x)
  case (Pair name e)
  have "4 dvd length (out @ pad4 (cpio_header inode e name @ name @ [CHR 0x00]))"
    using assms pad4_aligned by simp
  from pad4_shift [OF this] show ?thesis using assms unfolding Pair
    by (auto simp: dump_entry_def block_def Let_def pad4_shift)
qed

lemma foldl_dump_entry:
  "4 dvd length out \<Longrightarrow>
     foldl dump_entry (inode, out) xs = (inode + int (length xs), out @ blocks inode xs)"
  by (induction xs arbitrary: inode out) (simp_all add: dump_entry_block block_aligned)

definition trailer_block :: "int \<Rightarrow> bytes" where
  "trailer_block inode = pad4 (cpio_header inode \<lparr>c_mode = 493, c_uid = 0, c_gid = 0, c_rdev_major = 0,
     c_rdev_minor = 0, c_data = []\<rparr> TRAILER @ TRAILER @ [CHR 0x00])"

lemma cpio_dump_blocks:
  "cpio_dump a = blocks FIRST_INODE (sorted_entries a) @ trailer_block (FIRST_INODE + int (length a))"
  by (simp add: cpio_dump_def foldl_dump_entry trailer_block_def pad4_shift blocks_aligned sorted_entries_def)

subsection \<open>Reading a block\<close>

text \<open>Entries that newc can hold: a name \<^verbatim>\<open>load\<close> accepts and numbers of 32 bits.\<close>

definition entry_ok :: "bytes \<times> CpioEntry \<Rightarrow> bool" where
  "entry_ok item = (case item of (name, e) \<Rightarrow>
     utf8_valid name \<and> CHR 0x00 \<notin> set name \<and> name \<noteq> ''.'' \<and> name \<noteq> ''..'' \<and> name \<noteq> TRAILER
     \<and> in_field (int (py_len name) + 1) \<and> in_field (int (length (c_data e)))
     \<and> in_field (c_mode e) \<and> in_field (c_uid e) \<and> in_field (c_gid e)
     \<and> in_field (c_rdev_major e) \<and> in_field (c_rdev_minor e))"

lemma rstrip_nul_name: "CHR 0x00 \<notin> set name \<Longrightarrow> rstrip_nul (name @ [CHR 0x00]) = name"
proof -
  assume "CHR 0x00 \<notin> set name"
  then have "dropWhile (\<lambda>c. c = CHR 0x00) (rev name) = rev name"
    by (cases "rev name") (auto simp flip: set_rev [of name])
  then show ?thesis by (simp add: rstrip_nul_def)
qed

lemma header_fields_read:
  assumes "4 dvd length P" "list_all in_field vs" "length vs = 13"
  shows "mapM (header_field (P @ CPIO_MAGIC @ concat (map hex8 vs) @ R) (int (length P)))
      [0, 1, 2, 3, 4, 5, 6, 7, 8, 9, 10, 11, 12] = Inr vs"
    and "py_slice (P @ CPIO_MAGIC @ concat (map hex8 vs) @ R) (int (length P)) (int (length P) + 6) = CPIO_MAGIC"
    and "length (CPIO_MAGIC @ concat (map hex8 vs)) = 110"
proof -
  show "mapM (header_field (P @ CPIO_MAGIC @ concat (map hex8 vs) @ R) (int (length P)))
      [0, 1, 2, 3, 4, 5, 6, 7, 8, 9, 10, 11, 12] = Inr vs"
    by (intro mapM_upto header_field_reads assms) (simp add: assms(3))
  show "py_slice (P @ CPIO_MAGIC @ concat (map hex8 vs) @ R) (int (length P)) (int (length P) + 6) = CPIO_MAGIC"
    by (rule py_slice_append) (simp_all add: CPIO_MAGIC_def)
  show "length (CPIO_MAGIC @ concat (map hex8 vs)) = 110"
    using assms(2,3) by (simp add: length_fields) (simp add: CPIO_MAGIC_def)
qed

lemma pad_end:
  assumes "4 dvd length P"
  shows "align_to (int (length P + length s)) 4 = int (length (P @ pad4 s))"
proof -
  have "4 dvd int (length P)" using assms by presburger
  then have "align_to (int (length s) + int (length P)) 4 = align_to (int (length s)) 4 + int (length P)"
    by (rule word4.up_shift)
  then show ?thesis by (simp add: length_pad4 add.commute)
qed

lemma load_step_name:
  assumes al: "4 dvd length P" and vs: "list_all in_field vs" "length vs = 13"
    and hdr: "hdr = CPIO_MAGIC @ concat (map hex8 vs)"
    and name: "vs ! 11 = int (length name) + 1" "CHR 0x00 \<notin> set name" "utf8_valid name"
    and data: "data = P @ pad4 (hdr @ name @ [CHR 0x00]) @ R"
    and start: "start = length P + length (pad4 (hdr @ name @ [CHR 0x00]))"
  shows "load_step data (int (length P)) entries =
    (if name = ''.'' \<or> name = ''..'' then Inr (Some (int start, entries))
     else if name = TRAILER then
       (case find_from CPIO_MAGIC data (int start) of None \<Rightarrow> Inr None | Some rest \<Rightarrow> Inr (Some (int rest, entries)))
     else Inr (Some (align_to (int start + vs ! 6) 4, AList.update name
       \<lparr>c_mode = vs ! 1, c_uid = vs ! 2, c_gid = vs ! 3, c_rdev_major = vs ! 9, c_rdev_minor = vs ! 10,
        c_data = py_slice data (int start) (int start + vs ! 6)\<rparr> entries)))"
proof -
  obtain Z where Z: "pad4 (hdr @ name @ [CHR 0x00]) = hdr @ name @ [CHR 0x00] @ Z"
    using pad4_split [of "hdr @ name @ [CHR 0x00]"] by simp
  note h = header_fields_read(1,2) [OF al vs, of "name @ [CHR 0x00] @ Z @ R"] header_fields_read(3) [OF al vs]
  have d: "data = P @ CPIO_MAGIC @ concat (map hex8 vs) @ name @ [CHR 0x00] @ Z @ R"
    unfolding data Z by (simp add: hdr)
  have d2: "data = (P @ hdr) @ (name @ [CHR 0x00]) @ Z @ R" unfolding data Z by simp
  have raw: "py_slice data (int (length P) + 110) (int (length P) + 110 + (int (length name) + 1)) = name @ [CHR 0x00]"
    unfolding d2 by (rule py_slice_append) (use h(3) hdr in simp_all)
  have end_name: "align_to (int (length P) + 110 + (int (length name) + 1)) 4 = int start"
  proof -
    have "int (length P) + 110 + (int (length name) + 1) = int (length P + length (hdr @ name @ [CHR 0x00]))"
      using h(3) hdr by simp
    then show ?thesis unfolding start using pad_end [OF al, of "hdr @ name @ [CHR 0x00]"] by (simp add: add_ac)
  qed
  have fields: "mapM (header_field data (int (length P))) [0, 1, 2, 3, 4, 5, 6, 7, 8, 9, 10, 11, 12] = Inr vs"
    and magic: "py_slice data (int (length P)) (int (length P) + 6) = CPIO_MAGIC"
    unfolding d by (rule h)+
  show ?thesis unfolding load_step_def fields magic
    using raw end_name name by (simp add: Let_def rstrip_nul_name)
qed

definition header_values :: "int \<Rightarrow> CpioEntry \<Rightarrow> bytes \<Rightarrow> int list" where
  "header_values inode e name = [inode, c_mode e, c_uid e, c_gid e, 1, 0, int (length (c_data e)), 0, 0,
     c_rdev_major e, c_rdev_minor e, int (py_len name) + 1, 0]"

lemma header_values_simps [simp]:
  "length (header_values i e n) = 13" "header_values i e n ! 1 = c_mode e" "header_values i e n ! Suc 0 = c_mode e" "header_values i e n ! 2 = c_uid e"
  "header_values i e n ! 3 = c_gid e" "header_values i e n ! 6 = int (length (c_data e))"
  "header_values i e n ! 9 = c_rdev_major e" "header_values i e n ! 10 = c_rdev_minor e"
  "header_values i e n ! 11 = int (py_len n) + 1"
  by (simp_all add: header_values_def)

lemma cpio_header_values: "cpio_header i e n = CPIO_MAGIC @ concat (map hex8 (header_values i e n))"
  by (simp add: cpio_header_def header_values_def)

lemma header_values_ok: "entry_ok (n, e) \<Longrightarrow> in_field i \<Longrightarrow> list_all in_field (header_values i e n)"
  by (simp add: entry_ok_def header_values_def) (simp add: in_field_def)

lemma lead_cont:
  "lead2 n b \<Longrightarrow> 128 \<le> n \<and> 128 \<le> b \<and> b < 192" "lead3 n b \<Longrightarrow> 128 \<le> n \<and> 128 \<le> b \<and> b < 192"
  "lead4 n b \<Longrightarrow> 128 \<le> n \<and> 128 \<le> b \<and> b < 192"
  by (auto simp: lead2_def lead3_def lead4_def split: if_splits)

lemma utf8_py_len: "utf8_valid s \<Longrightarrow> (py_len s = length s \<longleftrightarrow> ascii s) \<and> py_len s \<le> length s"
proof -
  have le: "py_len s \<le> length s" by (simp add: py_len_def)
  have "ascii s \<Longrightarrow> py_len s = length s"
    by (auto simp: py_len_def ascii_def is_cont_def list_all_iff intro!: arg_cong [where f = length] filter_True)
  moreover have "utf8_valid s \<Longrightarrow> \<not> ascii s \<Longrightarrow> \<exists>c \<in> set s. is_cont c"
  proof (induction s rule: utf8_valid.induct)
    case (4 a b c)
    then show ?case by (cases "byte a < 128"; cases "byte a < 224") (auto simp: is_cont_def dest: lead_cont)
  next
    case (5 a b c d s)
    then show ?case
      by (cases "byte a < 128"; cases "byte a < 224"; cases "byte a < 240") (auto simp: is_cont_def dest: lead_cont)
  qed (auto simp: is_cont_def dest: lead_cont split: if_splits)
  then have "utf8_valid s \<Longrightarrow> \<not> ascii s \<Longrightarrow> py_len s < length s"
    unfolding py_len_def by (meson length_filter_less)
  ultimately show "utf8_valid s \<Longrightarrow> (py_len s = length s \<longleftrightarrow> ascii s) \<and> py_len s \<le> length s"
    using le by (cases "ascii s") auto
qed

lemma load_step_block:
  assumes al: "4 dvd length P" and ok: "entry_ok (name, e)" and inode: "in_field inode" and asc: "ascii name"
  shows "load_step (P @ block inode (name, e) @ R) (int (length P)) entries
    = Inr (Some (int (length (P @ block inode (name, e))), AList.update name e entries))"
proof -
  let ?h = "pad4 (cpio_header inode e name @ name @ [CHR 0x00])"
  let ?data = "P @ block inode (name, e) @ R"
  obtain Z where Z: "pad4 (c_data e) = c_data e @ Z" using pad4_split by blast
  have data: "?data = P @ ?h @ pad4 (c_data e) @ R" by (simp add: block_def)
  have d2: "?data = (P @ ?h) @ c_data e @ Z @ R" by (simp add: block_def Z)
  have content: "py_slice ?data (int (length P + length ?h)) (int (length P + length ?h) + int (length (c_data e)))
      = c_data e"
    unfolding d2 by (rule py_slice_append) simp_all
  have al2: "4 dvd length (P @ ?h)" using al pad4_aligned by simp
  have stop: "align_to (int (length P + length ?h) + int (length (c_data e))) 4
      = int (length (P @ block inode (name, e)))"
    using pad_end [OF al2, of "c_data e"] by (simp add: block_def)
  have len: "header_values inode e name ! 11 = int (length name) + 1"
    using ok asc utf8_py_len by (simp add: entry_ok_def)
  have same: "\<lparr>c_mode = c_mode e, c_uid = c_uid e, c_gid = c_gid e, c_rdev_major = c_rdev_major e,
      c_rdev_minor = c_rdev_minor e, c_data = c_data e\<rparr> = e" by simp
  show ?thesis
    using load_step_name [OF al header_values_ok [OF ok inode] _ cpio_header_values len _ _ data refl, of entries]
      ok content stop by (simp add: entry_ok_def same)
qed

lemma load_step_non_ascii:
  assumes al: "4 dvd length P" and ok: "entry_ok (name, e)" and inode: "in_field inode" and asc: "\<not> ascii name"
  shows "load_step (P @ block inode (name, e) @ R) (int (length P)) entries
    = Inl (PatchError ''cpio entry name was not NUL-terminated'')"
proof -
  let ?vs = "header_values inode e name"
  let ?data = "P @ block inode (name, e) @ R"
  have short: "Suc (py_len name) \<le> length name"
    using ok asc utf8_py_len [of name] by (auto simp: entry_ok_def)
  obtain Z where Z: "pad4 (cpio_header inode e name @ name @ [CHR 0x00])
      = cpio_header inode e name @ name @ [CHR 0x00] @ Z"
    using pad4_split [of "cpio_header inode e name @ name @ [CHR 0x00]"] by simp
  define a b where "a = take (Suc (py_len name)) name" and "b = drop (Suc (py_len name)) name"
  have ab: "name = a @ b" "length a = Suc (py_len name)" using short by (simp_all add: a_def b_def)
  define R' where "R' = name @ [CHR 0x00] @ Z @ pad4 (c_data e) @ R"
  have "?data = P @ cpio_header inode e name @ R'" unfolding block_def R'_def by (simp add: Z)
  then have R': "?data = P @ CPIO_MAGIC @ concat (map hex8 ?vs) @ R'" by (simp add: cpio_header_values)
  note h = header_fields_read [OF al header_values_ok [OF ok inode]]
  have "?data = (P @ cpio_header inode e name) @ a @ b @ [CHR 0x00] @ Z @ pad4 (c_data e) @ R"
    using \<open>?data = P @ cpio_header inode e name @ R'\<close> ab(1) by (simp add: R'_def)
  then have raw: "py_slice ?data (int (length P) + 110) (int (length P) + 110 + (int (py_len name) + 1)) = a"
    using h(3) ab(2) by (simp only:) (rule py_slice_append, simp_all add: cpio_header_values)
  have "a \<noteq> []" "set a \<subseteq> set name" using ab by auto
  then have "last a \<noteq> CHR 0x00" using ok by (auto simp: entry_ok_def dest: last_in_set)
  moreover have fields: "mapM (header_field ?data (int (length P))) [0, 1, 2, 3, 4, 5, 6, 7, 8, 9, 10, 11, 12] = Inr ?vs"
    and magic: "py_slice ?data (int (length P)) (int (length P) + 6) = CPIO_MAGIC"
    unfolding R' by (rule h; simp)+
  ultimately show ?thesis unfolding load_step_def fields magic
    using raw \<open>a \<noteq> []\<close> by (simp add: Let_def)
qed

lemma trailer_ok:
  "utf8_valid TRAILER" "CHR 0x00 \<notin> set TRAILER" "int (py_len TRAILER) = int (length TRAILER)"
  by code_simp+

text \<open>After the trailer nothing is left to find, so the loop stops.\<close>

lemma load_step_trailer:
  assumes al: "4 dvd length P" and inode: "in_field inode"
  shows "load_step (P @ trailer_block inode) (int (length P)) entries = Inr None"
proof -
  define e where "e = \<lparr>c_mode = 493, c_uid = 0, c_gid = 0, c_rdev_major = 0, c_rdev_minor = 0, c_data = []\<rparr>"
  have vs: "list_all in_field (header_values inode e TRAILER)"
    using inode by (simp add: header_values_def e_def trailer_ok) (simp add: in_field_def TRAILER_def)
  have data: "P @ trailer_block inode = P @ pad4 (cpio_header inode e TRAILER @ TRAILER @ [CHR 0x00]) @ []"
    by (simp add: trailer_block_def e_def)
  have none: "find_from CPIO_MAGIC (P @ trailer_block inode) (int (length (P @ trailer_block inode))) = None"
    by (simp add: find_from_def py_index_def CPIO_MAGIC_def)
  have start: "length (P @ trailer_block inode) = length P + length (pad4 (cpio_header inode e TRAILER @ TRAILER @ [CHR 0x00]))"
    unfolding data by simp
  have "header_values inode e TRAILER ! 11 = int (length TRAILER) + 1" by (simp add: trailer_ok)
  from load_step_name [OF al vs _ cpio_header_values this trailer_ok(2,1) data start, of entries] none
  show ?thesis by (simp add: TRAILER_def)
qed

lemma load_blocks:
  assumes "4 dvd length P" "list_all entry_ok xs" "list_all (\<lambda>x. ascii (fst x)) xs"
    "0 \<le> inode" "inode + int (length xs) < 2 ^ 32"
  shows "load_from (P @ blocks inode xs @ R) (int (length P)) entries
    = load_from (P @ blocks inode xs @ R) (int (length (P @ blocks inode xs)))
        (foldl (\<lambda>es x. AList.update (fst x) (snd x) es) entries xs)"
  using assms
proof (induction xs arbitrary: P inode entries)
  case (Cons x xs)
  obtain name e where x: "x = (name, e)" by (cases x)
  have al: "4 dvd length (P @ block inode x)" using Cons.prems(1) block_aligned by simp
  have step: "load_step (P @ blocks inode (x # xs) @ R) (int (length P)) entries
      = Inr (Some (int (length (P @ block inode x)), AList.update name e entries))"
    using load_step_block [OF Cons.prems(1), of name e inode "blocks (inode + 1) xs @ R"] Cons.prems
    by (simp add: x in_field_def)
  have "0 < length (pad4 (cpio_header inode e name @ name @ [CHR 0x00]))" by (simp add: pad4_def)
  then have "0 < length (block inode x)" by (simp add: x block_def)
  then have "\<not> int (length (P @ blocks inode (x # xs) @ R)) \<le> int (length P)"
    unfolding length_append blocks.simps of_nat_add by linarith
  then have "load_from (P @ blocks inode (x # xs) @ R) (int (length P)) entries
      = load_from ((P @ block inode x) @ blocks (inode + 1) xs @ R) (int (length (P @ block inode x)))
          (AList.update name e entries)"
    using step by (subst load_from.simps) simp
  also have "\<dots> = load_from ((P @ block inode x) @ blocks (inode + 1) xs @ R)
      (int (length ((P @ block inode x) @ blocks (inode + 1) xs)))
      (foldl (\<lambda>es x. AList.update (fst x) (snd x) es) (AList.update name e entries) xs)"
    by (rule Cons.IH [OF al]) (use Cons.prems in simp_all)
  finally show ?case by (simp add: x)
qed simp

lemma foldl_update_distinct:
  "distinct (map fst (ys @ xs)) \<Longrightarrow> foldl (\<lambda>es x. AList.update (fst x) (snd x) es) ys xs = ys @ xs"
proof (induction xs arbitrary: ys)
  case (Cons x xs)
  have "AList.update k v ys = ys @ [(k, v)]" if "k \<notin> fst ` set ys" for k and v :: 'b
    using that by (induction ys) auto
  then show ?case using Cons.prems Cons.IH [of "ys @ [x]"] by auto
qed simp

lemma sorted_entries_props:
  "set (sorted_entries a) = set a" "length (sorted_entries a) = length a"
  "distinct (map fst a) \<Longrightarrow> distinct (map fst (sorted_entries a))"
  by (auto simp: sorted_entries_def distinct_map)

lemma dump_load:
  assumes "list_all entry_ok a" "distinct (map fst a)" "length a < 4000000000"
  shows "cpio_load (cpio_dump a) =
    Some (if list_all (\<lambda>x. ascii (fst x)) a then Inr (sorted_entries a)
          else Inl (PatchError ''cpio entry name was not NUL-terminated''))"
proof -
  let ?xs = "sorted_entries a" and ?asc = "\<lambda>x :: bytes \<times> CpioEntry. ascii (fst x)"
  let ?T = "trailer_block (FIRST_INODE + int (length a))"
  have ok: "list_all entry_ok ?xs" using assms(1) by (simp add: list_all_iff sorted_entries_props)
  have len: "FIRST_INODE + int (length a) < 2 ^ 32" using assms(3) by (simp add: FIRST_INODE_def)
  have split: "?xs = takeWhile ?asc ?xs @ dropWhile ?asc ?xs" by simp
  show ?thesis
  proof (cases "list_all ?asc a")
    case True
    then have asc: "list_all ?asc ?xs" by (simp add: list_all_iff sorted_entries_props)
    have "load_from ([] @ blocks FIRST_INODE ?xs @ ?T) (int (length ([] :: bytes))) []
        = load_from ([] @ blocks FIRST_INODE ?xs @ ?T) (int (length ([] @ blocks FIRST_INODE ?xs)))
            (foldl (\<lambda>es x. AList.update (fst x) (snd x) es) [] ?xs)"
      by (rule load_blocks) (use ok asc len in \<open>simp_all add: sorted_entries_props FIRST_INODE_def\<close>)
    also have "foldl (\<lambda>es x. AList.update (fst x) (snd x) es) [] ?xs = ?xs"
      using foldl_update_distinct [of "[]" ?xs] sorted_entries_props(3) [OF assms(2)] by simp
    also have "load_from ([] @ blocks FIRST_INODE ?xs @ ?T) (int (length ([] @ blocks FIRST_INODE ?xs))) ?xs
        = Some (Inr ?xs)"
    proof -
      have "in_field (FIRST_INODE + int (length a))" using len by (simp add: in_field_def FIRST_INODE_def)
      from load_step_trailer [OF blocks_aligned this, of FIRST_INODE ?xs ?xs]
      show ?thesis by (subst load_from.simps) simp
    qed
    finally show ?thesis using True by (simp add: cpio_load_def cpio_dump_blocks)
  next
    case False
    define pre where "pre = takeWhile ?asc ?xs"
    have "\<exists>x \<in> set ?xs. \<not> ?asc x" using False by (auto simp: list_all_iff sorted_entries_props)
    then obtain y post where post: "dropWhile ?asc ?xs = y # post" "\<not> ?asc y"
      by (metis dropWhile_eq_Nil_conv hd_dropWhile list.exhaust_sel)
    have xs: "?xs = pre @ y # post" unfolding pre_def using split post(1) by simp
    obtain name e where y: "y = (name, e)" by (cases y)
    have app: "blocks i (us @ vs) = blocks i us @ blocks (i + int (length us)) vs" for i us vs
      by (induction us arbitrary: i) (simp_all add: add.assoc)
    let ?B = "blocks FIRST_INODE pre" and ?i = "FIRST_INODE + int (length pre)"
    define R where "R = blocks (?i + 1) post @ ?T"
    have dump: "cpio_dump a = ?B @ block ?i y @ R"
      by (simp add: cpio_dump_blocks xs app R_def)
    have pl: "length pre < length a" using xs sorted_entries_props(2) [of a] by simp
    have "load_from ([] @ blocks FIRST_INODE pre @ block ?i y @ R) (int (length ([] :: bytes))) []
        = load_from ([] @ blocks FIRST_INODE pre @ block ?i y @ R) (int (length ([] @ ?B)))
            (foldl (\<lambda>es x. AList.update (fst x) (snd x) es) [] pre)"
    proof (rule load_blocks)
      show "list_all entry_ok pre" using ok xs by simp
      show "list_all ?asc pre" by (auto simp: pre_def list_all_iff dest: set_takeWhileD)
    qed (use pl len in \<open>simp_all add: FIRST_INODE_def\<close>)
    moreover have "load_step (?B @ block ?i y @ R) (int (length ?B)) es
        = Inl (PatchError ''cpio entry name was not NUL-terminated'')" for es
      using load_step_non_ascii [OF blocks_aligned, of name e ?i] ok xs y post(2) pl len
      by (simp add: in_field_def FIRST_INODE_def)
    moreover have "0 < length (pad4 (cpio_header ?i e name @ name @ [CHR 0x00]))" by (simp add: pad4_def)
    then have "0 < length (block ?i y)" by (simp add: y block_def)
    then have "\<not> int (length (?B @ block ?i y @ R)) \<le> int (length ?B)"
      unfolding length_append of_nat_add by linarith
    ultimately show ?thesis using False unfolding cpio_load_def dump
      by (simp add: load_from.simps [of _ "int (length ?B)"])
  qed
qed

text \<open>C33. Writing an archive and reading it back: \<^verbatim>\<open>Cpio.load\<close> of what \<^verbatim>\<open>dump\<close> writes returns
  the same entries in the order of their names, whatever their modes, owners, device numbers and
  contents, as long as every name is ASCII. With any other name the archive cannot be read: the header
  counts the characters of the name where newc counts its bytes.\<close>

theorem cpio_dump_load:
  assumes "list_all entry_ok a" "distinct (map fst a)" "length a < 4000000000"
  shows "cpio_load (cpio_dump a) =
    Some (if list_all (\<lambda>x. ascii (fst x)) a then Inr (sorted_entries a)
          else Inl (PatchError ''cpio entry name was not NUL-terminated''))"
  by (rule dump_load [OF assms])

theorem cpio_dump_load_witness:
  "cpio_load (cpio_dump [(''init'', regular 493 ''x''), (''dev'', regular 493 [])])
     = Some (Inr [(''dev'', regular 493 []), (''init'', regular 493 ''x'')])
   \<and> cpio_load (cpio_dump [([CHR 0xC3, CHR 0xA9], regular 420 [])])
     = Some (Inl (PatchError ''cpio entry name was not NUL-terminated''))"
proof -
  let ?a = "[(''init'', regular 493 ''x''), (''dev'', regular 493 [])]"
  let ?b = "[([CHR 0xC3, CHR 0xA9], regular 420 [])]"
  have "list_all entry_ok ?a" "list_all entry_ok ?b" "\<not> ascii [CHR 0xC3, CHR 0xA9]" "ascii ''init''" "ascii ''dev''"
    "sorted_entries ?a = [(''dev'', regular 493 []), (''init'', regular 493 ''x'')]" by code_simp+
  then show ?thesis using cpio_dump_load [of ?a] cpio_dump_load [of ?b] by simp
qed

end
