(* ===== verification/CpioLoop.thy ===== *)
theory CpioLoop
  imports Cpio
begin

text \<open>
  When \<^verbatim>\<open>Cpio.load\<close> returns: always, if no header in the archive has a size field with a minus sign;
  with one, \<^verbatim>\<open>offset\<close> can go back and the loop runs forever.
\<close>

definition size_field_ok :: "bytes \<Rightarrow> int \<Rightarrow> int \<Rightarrow> bool" where
  "size_field_ok data offset i = (case header_field data offset i of Inl _ \<Rightarrow> True | Inr v \<Rightarrow> 0 \<le> v)"

definition unsigned_sizes :: "bytes \<Rightarrow> bool" where
  "unsigned_sizes data =
     list_all (\<lambda>n. if py_slice data (int n) (int n + 6) = CPIO_MAGIC
       then size_field_ok data (int n) 6 \<and> size_field_ok data (int n) 11 else True) [0..<length data]"

lemma find_from_bounds:
  assumes "find_from sub data start = Some i" "sub \<noteq> []" "0 \<le> start"
  shows "start \<le> int i" "i < length data"
proof -
  let ?is = "[py_index (length data) start..<Suc (length data)]"
  have f: "i \<in> set ?is" "take (length sub) (drop i data) = sub"
    using assms(1) unfolding find_from_def find_Some_iff by (metis nth_mem)+
  have "drop i data \<noteq> []" using f(2) assms(2) by auto
  then show "i < length data" by simp
  then show "start \<le> int i" using f(1) assms(3) by (auto simp: py_index_def min_def split: if_splits)
qed

lemma mapM_nth: "mapM f xs = Inr ys \<Longrightarrow> i < length xs \<Longrightarrow> f (xs ! i) = Inr (ys ! i)"
  by (auto simp: mapM_Inr list_all2_conv_all_nth)

lemma load_step_advances:
  assumes un: "unsigned_sizes data" and o: "0 \<le> offset" "offset < int (length data)"
    and step: "load_step data offset entries = Inr (Some (next, entries'))"
  shows "offset < next"
proof -
  let ?is = "[0, 1, 2, 3, 4, 5, 6, 7, 8, 9, 10, 11, 12] :: int list"
  from step have magic: "py_slice data offset (offset + 6) = CPIO_MAGIC"
    by (auto simp: load_step_def split: if_splits)
  then obtain fields where fields: "mapM (header_field data offset) ?is = Inr fields"
    using step by (auto simp: load_step_def err_simps simp del: mapM.simps split: if_splits)
  have fs: "header_field data offset 6 = Inr (fields ! 6)" "header_field data offset 11 = Inr (fields ! 11)"
    using mapM_nth [OF fields, of 6] mapM_nth [OF fields, of 11] by simp_all
  have "nat offset \<in> set [0..<length data]" using o by simp
  then have "size_field_ok data offset 6" "size_field_ok data offset 11"
    using un magic o by (auto simp: unsigned_sizes_def list_all_iff simp del: set_upt dest!: bspec)
  then have pos: "0 \<le> fields ! 6" "0 \<le> fields ! 11" using fs by (simp_all add: size_field_ok_def)
  define start where "start = align_to (offset + 110 + fields ! 11) 4"
  have s: "offset < start" using word4.up_ge [of "offset + 110 + fields ! 11"] pos by (simp add: start_def)
  have f: "start + fields ! 6 \<le> align_to (start + fields ! 6) 4" by (rule word4.up_ge)
  have "next = start \<or> next = align_to (start + fields ! 6) 4
      \<or> (\<exists>rest. find_from CPIO_MAGIC data start = Some rest \<and> next = int rest)"
    using step magic fields unfolding load_step_def
    by (auto simp: Let_def start_def simp del: mapM.simps split: if_splits option.splits)
  moreover have "start \<le> int rest" if "find_from CPIO_MAGIC data start = Some rest" for rest
    using find_from_bounds(1) [OF that] s o by (simp add: CPIO_MAGIC_def)
  ultimately show ?thesis using s f pos by auto
qed

lemma load_from_returns:
  assumes "unsigned_sizes data" "0 \<le> offset"
  shows "\<exists>r. load_from data offset entries = Some r"
  using assms(2)
proof (induction "nat (int (length data) - offset)" arbitrary: offset entries rule: less_induct)
  case less
  show ?case
  proof (cases "int (length data) \<le> offset")
    case True
    then show ?thesis by (subst load_from.simps) simp
  next
    case False
    show ?thesis
    proof (cases "load_step data offset entries")
      case (Inl e)
      then show ?thesis using False by (subst load_from.simps) simp
    next
      case (Inr st)
      show ?thesis
      proof (cases st)
        case None
        then show ?thesis using False Inr by (subst load_from.simps) simp
      next
        case (Some st')
        have "offset < fst st'"
          by (rule load_step_advances [OF assms(1), of _ entries _ "snd st'"]) (use less.prems False Inr Some in auto)
        then have "\<exists>r. load_from data (fst st') (snd st') = Some r"
          using less.prems False by (intro less.hyps) auto
        then show ?thesis using False Inr Some by (subst load_from.simps) simp
      qed
    qed
  qed
qed

text \<open>C34. \<^verbatim>\<open>Cpio.load\<close> returns, with entries or with an error, on every byte string in which no
  \<^verbatim>\<open>070701\<close> header has a negative \<^verbatim>\<open>filesize\<close> or \<^verbatim>\<open>namesize\<close>.\<close>

theorem cpio_load_returns:
  assumes "unsigned_sizes data"
  shows "\<exists>r. cpio_load data = Some r"
  unfolding cpio_load_def by (rule load_from_returns [OF assms]) simp

definition field0 :: bytes where "field0 = ''00000000''"

definition empty_archive :: bytes where
  "empty_archive = CPIO_MAGIC @ concat (replicate 11 field0) @ ''0000000b'' @ field0 @ TRAILER @ zeros 3"

theorem cpio_load_returns_witness: "\<exists>r. cpio_load empty_archive = Some r"
proof -
  have "unsigned_sizes empty_archive" by code_simp
  then show ?thesis by (rule cpio_load_returns)
qed

subsection \<open>An archive that is never read to its end\<close>

text \<open>A name of one NUL byte and a file size of -112: the next header is this one again.\<close>

definition looping_archive :: bytes where
  "looping_archive = CPIO_MAGIC @ concat (replicate 6 field0) @ ''-0000070'' @ concat (replicate 4 field0)
     @ ''00000001'' @ field0 @ zeros 2"

definition nameless :: CpioEntry where
  "nameless = \<lparr>c_mode = 0, c_uid = 0, c_gid = 0, c_rdev_major = 0, c_rdev_minor = 0, c_data = []\<rparr>"

lemma looping_steps:
  "load_step looping_archive 0 [] = Inr (Some (0, [([], nameless)]))"
  "load_step looping_archive 0 [([], nameless)] = Inr (Some (0, [([], nameless)]))"
  "\<not> int (length looping_archive) \<le> 0"
  by code_simp+

lemma looping_never_returns:
  assumes "load_from data offset entries = Some r"
  shows "\<not> (data = looping_archive \<and> offset = 0 \<and> entries \<in> {[], [([], nameless)]})"
proof (rule load_from.raw_induct [OF _ assms], goal_cases)
  case (1 load data offset entries r)
  show ?case
  proof
    assume a: "data = looping_archive \<and> offset = 0 \<and> entries \<in> {[], [([], nameless)]}"
    then have "load_step data offset entries = Inr (Some (0, [([], nameless)]))" using looping_steps by auto
    then have "load data 0 [([], nameless)] = Some r" using 1(2) a looping_steps(3) by simp
    from 1(1) [OF this] show False using a by simp
  qed
qed

text \<open>C35. The size fields are read by \<^verbatim>\<open>int(text, 16)\<close>, which accepts a sign, and nothing checks that the
  offset grows: on a 112-byte archive whose only header has \<^verbatim>\<open>filesize\<close> \<^verbatim>\<open>-0000070\<close>,
  \<^verbatim>\<open>Cpio.load\<close> never returns.\<close>

theorem cpio_load_may_loop: "cpio_load looping_archive = None"
proof (cases "cpio_load looping_archive")
  case (Some r)
  then show ?thesis using looping_never_returns [of looping_archive 0 "[]" r] by (simp add: cpio_load_def)
qed

end
