(* ===== verification/BootImage.thy ===== *)
theory BootImage
  imports Cpio
begin

text \<open>
  The boot image of \<^verbatim>\<open>tools/patch-android-boot-ksu.py\<close>: \<^verbatim>\<open>BootImage.__init__\<close>,
  \<^verbatim>\<open>header_fields\<close>, \<^verbatim>\<open>_read_avb\<close> and \<^verbatim>\<open>rebuild\<close>, on byte strings. Integers in the image
  are unsigned; \<^verbatim>\<open>struct\<close> raises when the buffer is too short or a number too large.
\<close>

definition PAGE_SIZE :: nat where "PAGE_SIZE = 4096"
definition BOOT_MAGIC :: bytes where "BOOT_MAGIC = ''ANDROID!''"
definition AVB_FOOTER_MAGIC :: bytes where "AVB_FOOTER_MAGIC = ''AVBf''"
definition AVB_FOOTER_SIZE :: nat where "AVB_FOOTER_SIZE = 64"
definition AVB_MAGIC :: bytes where "AVB_MAGIC = ''AVB0''"

subsection \<open>\<^verbatim>\<open>struct\<close> and slices\<close>

definition sub_bytes :: "bytes \<Rightarrow> nat \<Rightarrow> nat \<Rightarrow> bytes" where
  "sub_bytes s offset n = take n (drop offset s)"

definition get_le32 :: "bytes \<Rightarrow> nat \<Rightarrow> ksu_error + nat" where
  "get_le32 s offset = (if length s < offset + 4 then Inl StructError else Inr (le_value (sub_bytes s offset 4)))"

definition get_be64 :: "bytes \<Rightarrow> nat \<Rightarrow> ksu_error + nat" where
  "get_be64 s offset =
     (if length s < offset + 8 then Inl StructError else Inr (le_value (rev (sub_bytes s offset 8))))"

definition put_bytes :: "bytes \<Rightarrow> nat \<Rightarrow> bytes \<Rightarrow> ksu_error + bytes" where
  "put_bytes s offset b =
     (if length s < offset + length b then Inl StructError
      else Inr (take offset s @ b @ drop (offset + length b) s))"

definition le32 :: "nat \<Rightarrow> ksu_error + bytes" where
  "le32 v = (if 2 ^ 32 \<le> v then Inl StructError else Inr (le_bytes 4 v))"

definition be64 :: "nat \<Rightarrow> ksu_error + bytes" where
  "be64 v = (if 2 ^ 64 \<le> v then Inl StructError else Inr (rev (le_bytes 8 v)))"

subsection \<open>Reading an image\<close>

definition page_up :: "nat \<Rightarrow> nat" where
  "page_up n = nat (align_to (int n) (int PAGE_SIZE))"

record Avb =
  av_footer :: bytes
  av_header :: bytes
  av_tail :: bytes

record Image =
  im_data :: bytes
  im_header_version :: nat
  im_kernel_size :: nat
  im_ramdisk_size :: nat
  im_os_version :: nat
  im_header_size :: nat
  im_cmdline :: bytes
  im_signature_size :: nat
  im_kernel :: bytes
  im_ramdisk_offset :: nat
  im_ramdisk :: bytes
  im_signature :: bytes
  im_payload_end :: nat
  im_avb :: "Avb option"

definition read_avb :: "bytes \<Rightarrow> nat \<Rightarrow> ksu_error + Avb option" where
  "read_avb s payload_end =
     (let footer = drop (length s - AVB_FOOTER_SIZE) s
      in if length s < AVB_FOOTER_SIZE \<or> \<not> starts_with AVB_FOOTER_MAGIC footer then Inr None
         else
           ebind (get_be64 footer 12) (\<lambda>original_size.
           ebind (get_be64 footer 20) (\<lambda>vbmeta_offset.
           ebind (get_be64 footer 28) (\<lambda>vbmeta_size.
           let header = sub_bytes s vbmeta_offset vbmeta_size
           in if \<not> starts_with AVB_MAGIC header
              then Inl (PatchError ''the AVB footer does not point at a vbmeta block'')
              else if original_size < payload_end
              then Inl (PatchError ''the AVB footer claims an image shorter than the boot payload'')
              else Inr (Some \<lparr>av_footer = footer, av_header = header,
                     av_tail = sub_bytes s payload_end (original_size - payload_end)\<rparr>)))))"

definition read_image :: "bytes \<Rightarrow> ksu_error + Image" where
  "read_image s =
     (if \<not> starts_with BOOT_MAGIC s then Inl (PatchError ''not an Android boot image: the ANDROID! magic is missing'')
      else
        ebind (get_le32 s 40) (\<lambda>version.
        if version \<notin> {3, 4} then Inl (PatchError ''only boot header versions 3 and 4 are supported'')
        else
          ebind (get_le32 s 8) (\<lambda>kernel_size.
          ebind (get_le32 s 12) (\<lambda>ramdisk_size.
          ebind (get_le32 s 16) (\<lambda>os_version.
          ebind (get_le32 s 20) (\<lambda>header_size.
          ebind (if 4 \<le> version then get_le32 s 1580 else Inr 0) (\<lambda>signature_size.
          let ramdisk_offset = PAGE_SIZE + page_up kernel_size;
              signature_offset = ramdisk_offset + page_up ramdisk_size;
              payload_end = signature_offset + page_up signature_size
          in ebind (read_avb s payload_end) (\<lambda>avb.
             Inr \<lparr>im_data = s, im_header_version = version, im_kernel_size = kernel_size,
               im_ramdisk_size = ramdisk_size, im_os_version = os_version, im_header_size = header_size,
               im_cmdline = sub_bytes s 44 1536, im_signature_size = signature_size,
               im_kernel = sub_bytes s PAGE_SIZE kernel_size, im_ramdisk_offset = ramdisk_offset,
               im_ramdisk = sub_bytes s ramdisk_offset ramdisk_size,
               im_signature = sub_bytes s signature_offset signature_size,
               im_payload_end = payload_end, im_avb = avb\<rparr>))))))))"

definition FIELDS :: "(string \<times> nat) list" where
  "FIELDS = [(''kernel_size'', 8), (''ramdisk_size'', 12), (''os_version'', 16), (''header_size'', 20),
     (''header_version'', 40), (''signature_size'', 1580)]"

definition header_fields :: "Image \<Rightarrow> ksu_error + (string \<times> nat) list" where
  "header_fields im =
     mapM (\<lambda>(name, offset). ebind (get_le32 (im_data im) offset) (\<lambda>v. Inr (name, v)))
       (filter (\<lambda>(name, offset). \<not> (offset = 1580 \<and> im_header_version im < 4)) FIELDS)"

subsection \<open>Writing an image\<close>

definition pad_page :: "bytes \<Rightarrow> bytes" where
  "pad_page out = out @ zeros (page_up (length out) - length out)"

definition payload :: "Image \<Rightarrow> bytes \<Rightarrow> bytes" where
  "payload im ramdisk =
     pad_page (pad_page (pad_page (take PAGE_SIZE (im_data im) @ im_kernel im) @ ramdisk) @ im_signature im)"

text \<open>The block sizes in the header.\<close>

definition put_sizes :: "Image \<Rightarrow> bytes \<Rightarrow> bytes \<Rightarrow> ksu_error + bytes" where
  "put_sizes im ramdisk out =
     ebind (le32 (length (im_kernel im))) (\<lambda>k.
     ebind (le32 (length ramdisk)) (\<lambda>r.
     ebind (put_bytes out 8 (k @ r)) (\<lambda>out1.
     if 4 \<le> im_header_version im
     then ebind (le32 (length (im_signature im))) (\<lambda>g. put_bytes out1 1580 g)
     else Inr out1)))"

text \<open>The blocks behind the payload.\<close>

definition put_avb :: "nat \<Rightarrow> Avb option \<Rightarrow> bytes \<Rightarrow> ksu_error + bytes" where
  "put_avb total_size avb out =
     (case avb of
        None \<Rightarrow>
          if total_size < length out then Inl (PatchError ''the patched image is larger than the stock image'')
          else Inr (out @ zeros (total_size - length out))
      | Some a \<Rightarrow>
          (let out1 = pad_page (out @ av_tail a);
               original_size = length out1;
               vbmeta_offset = page_up original_size;
               out2 = out1 @ zeros (vbmeta_offset - length out1) @ av_header a
           in if total_size < length out2 + AVB_FOOTER_SIZE
              then Inl (PatchError ''no room left for the AVB structures'')
              else
                let out3 = out2 @ zeros (total_size - AVB_FOOTER_SIZE - length out2)
                in ebind (be64 original_size) (\<lambda>o1.
                   ebind (be64 vbmeta_offset) (\<lambda>o2.
                   ebind (put_bytes (av_footer a) 12 (o1 @ o2)) (\<lambda>footer.
                   Inr (out3 @ footer))))))"

definition rebuild :: "Image \<Rightarrow> bytes \<Rightarrow> ksu_error + bytes" where
  "rebuild im ramdisk =
     ebind (put_sizes im ramdisk (payload im ramdisk)) (\<lambda>out.
     put_avb (length (im_data im)) (im_avb im) out)"

subsection \<open>Lemmas on slices and pages\<close>

interpretation page: rounding "\<lambda>v. align_to v 4096" 4096
  by unfold_locales (simp_all add: align_to_def align_simps)

lemma page_up_eq: "int (page_up n) = align_to (int n) 4096"
  using page.up_ge [of "int n"] by (simp add: page_up_def PAGE_SIZE_def)

lemma page_up_ge: "n \<le> page_up n"
  using page.up_ge [of "int n"] by (simp add: page_up_def PAGE_SIZE_def)

lemma page_up_dvd: "4096 dvd page_up n"
proof -
  have "4096 dvd int (page_up n)" unfolding page_up_eq by (rule page.up_dvd)
  then show ?thesis by presburger
qed

lemma page_up_fixed: "4096 dvd n \<Longrightarrow> page_up n = n"
proof -
  assume "4096 dvd n"
  then have "(4096 :: int) dvd int n" by presburger
  then show ?thesis using page.up_fixed [of "int n"] by (simp add: page_up_def PAGE_SIZE_def)
qed

lemma length_pad_page [simp]: "length (pad_page s) = page_up (length s)"
  using page_up_ge [of "length s"] by (simp add: pad_page_def)

lemma pad_page_shift: "4096 dvd length P \<Longrightarrow> pad_page (P @ s) = P @ pad_page s"
proof -
  assume "4096 dvd length P"
  then have "(4096 :: int) dvd int (length P)" by presburger
  then have "align_to (int (length s) + int (length P)) 4096 = align_to (int (length s)) 4096 + int (length P)"
    by (rule page.up_shift)
  then have "int (page_up (length P + length s)) = int (length P + page_up (length s))"
    by (simp add: page_up_eq add.commute)
  then have "page_up (length P + length s) = length P + page_up (length s)" by linarith
  then show ?thesis by (simp add: pad_page_def)
qed

lemma sub_bytes_append_left: "o' + n \<le> length a \<Longrightarrow> sub_bytes (a @ b) o' n = sub_bytes a o' n"
  by (simp add: sub_bytes_def)

lemma sub_bytes_at: "o' = length a \<Longrightarrow> n = length b \<Longrightarrow> sub_bytes (a @ b @ c) o' n = b"
  by (simp add: sub_bytes_def)

lemma sub_bytes_pad: "o' = length a \<Longrightarrow> n = length b \<Longrightarrow> sub_bytes (a @ pad_page b @ c) o' n = b"
  by (simp add: sub_bytes_def pad_page_def)

lemma put_bytes_append:
  "put_bytes s o' b = Inr s' \<Longrightarrow> put_bytes (s @ z) o' b = Inr (s' @ z)"
  by (auto simp: put_bytes_def split: if_splits)

lemma put_bytes_length: "put_bytes s o' b = Inr s' \<Longrightarrow> length s' = length s"
  by (auto simp: put_bytes_def split: if_splits)

lemma put_bytes_same: "put_bytes s o' b = Inr s' \<Longrightarrow> n = length b \<Longrightarrow> sub_bytes s' o' n = b"
  by (auto simp: put_bytes_def sub_bytes_def split: if_splits)

lemma sub_bytes_nth: "i < n \<Longrightarrow> o' + i < length s \<Longrightarrow> sub_bytes s o' n ! i = s ! (o' + i)"
  by (simp add: sub_bytes_def)

lemma length_sub_bytes: "length (sub_bytes s o' n) = min n (length s - o')"
  by (simp add: sub_bytes_def)

lemma put_bytes_nth:
  "put_bytes s o' b = Inr s' \<Longrightarrow> i < length s \<Longrightarrow> i < o' \<or> o' + length b \<le> i \<Longrightarrow> s' ! i = s ! i"
  by (auto simp: put_bytes_def nth_append min_def split: if_splits)

lemma put_bytes_other:
  assumes "put_bytes s o' b = Inr s'" "p + n \<le> o' \<or> o' + length b \<le> p"
  shows "sub_bytes s' p n = sub_bytes s p n"
  by (rule nth_equalityI)
    (use assms(2) in \<open>auto simp: length_sub_bytes put_bytes_length [OF assms(1)] sub_bytes_nth put_bytes_nth [OF assms(1)]\<close>)

lemma sub_sub_bytes: "i + n \<le> m \<Longrightarrow> sub_bytes (sub_bytes s o' m) i n = sub_bytes s (o' + i) n"
  by (simp add: sub_bytes_def take_drop min_def add.commute add.left_commute)

lemma get_le32_Inr: "get_le32 s i = Inr v \<longleftrightarrow> i + 4 \<le> length s \<and> v = le_value (sub_bytes s i 4)"
  by (auto simp: get_le32_def)

lemma get_be64_Inr: "get_be64 s i = Inr v \<longleftrightarrow> i + 8 \<le> length s \<and> v = le_value (rev (sub_bytes s i 8))"
  by (auto simp: get_be64_def)

lemma le32_Inr: "le32 v = Inr b \<longleftrightarrow> v < 2 ^ 32 \<and> b = le_bytes 4 v"
  by (auto simp: le32_def)

lemma be64_Inr: "be64 v = Inr b \<longleftrightarrow> v < 2 ^ 64 \<and> b = rev (le_bytes 8 v)"
  by (auto simp: be64_def)

lemma le32_value: "v < 2 ^ 32 \<Longrightarrow> le_value (le_bytes 4 v) = v"
  by (rule le_value_le_bytes) simp

lemma be64_value: "v < 2 ^ 64 \<Longrightarrow> le_value (le_bytes 8 v) = v"
  by (rule le_value_le_bytes) simp

subsection \<open>The shape of what \<^verbatim>\<open>rebuild\<close> writes\<close>

lemma put_avb_Some:
  assumes "put_avb n (Some a) out = Inr out'"
  obtains out1 footer where "out1 = pad_page (out @ av_tail a)"
    "out' = out1 @ av_header a @ zeros (n - (AVB_FOOTER_SIZE + (length out1 + length (av_header a)))) @ footer"
    "put_bytes (av_footer a) 12 (rev (le_bytes 8 (length out1)) @ rev (le_bytes 8 (length out1))) = Inr footer"
    "length out1 + length (av_header a) + AVB_FOOTER_SIZE \<le> n" "length out1 < 2 ^ 64"
proof -
  define out1 where "out1 = pad_page (out @ av_tail a)"
  have "page_up (length out1) = length out1" by (simp add: out1_def page_up_fixed page_up_dvd)
  with assms show ?thesis unfolding put_avb_def option.case Let_def out1_def [symmetric]
    by (auto simp: err_simps be64_Inr not_less intro!: that [OF out1_def] split: if_splits)
qed

lemma length_put_avb:
  assumes "put_avb n avb out = Inr out'" "case avb of None \<Rightarrow> True | Some a \<Rightarrow> length (av_footer a) = AVB_FOOTER_SIZE"
  shows "length out' = n"
proof (cases avb)
  case None
  then show ?thesis using assms by (auto simp: put_avb_def split: if_splits)
next
  case (Some a)
  from put_avb_Some [OF assms(1) [unfolded Some]] show ?thesis
    using assms(2) Some put_bytes_length by fastforce
qed

lemma read_image_Inr:
  assumes "read_image s = Inr im"
  shows "im_data im = s" "starts_with BOOT_MAGIC s" "get_le32 s 40 = Inr (im_header_version im)"
    "im_header_version im \<in> {3, 4}" "get_le32 s 8 = Inr (im_kernel_size im)" "get_le32 s 12 = Inr (im_ramdisk_size im)"
    "get_le32 s 16 = Inr (im_os_version im)" "get_le32 s 20 = Inr (im_header_size im)"
    "(if 4 \<le> im_header_version im then get_le32 s 1580 else Inr 0) = Inr (im_signature_size im)"
    "im_kernel im = sub_bytes s PAGE_SIZE (im_kernel_size im)"
    "im_ramdisk_offset im = PAGE_SIZE + page_up (im_kernel_size im)"
    "im_ramdisk im = sub_bytes s (im_ramdisk_offset im) (im_ramdisk_size im)"
    "im_signature im = sub_bytes s (im_ramdisk_offset im + page_up (im_ramdisk_size im)) (im_signature_size im)"
    "im_payload_end im = im_ramdisk_offset im + page_up (im_ramdisk_size im) + page_up (im_signature_size im)"
    "im_cmdline im = sub_bytes s 44 1536" "read_avb s (im_payload_end im) = Inr (im_avb im)"
proof -
  obtain v k r ov hs g avb where *: "starts_with BOOT_MAGIC s" "get_le32 s 40 = Inr v" "v \<in> {3, 4}"
    "get_le32 s 8 = Inr k" "get_le32 s 12 = Inr r" "get_le32 s 16 = Inr ov" "get_le32 s 20 = Inr hs"
    "(if 4 \<le> v then get_le32 s 1580 else Inr 0) = Inr g"
    "read_avb s (PAGE_SIZE + page_up k + page_up r + page_up g) = Inr avb"
    "im = \<lparr>im_data = s, im_header_version = v, im_kernel_size = k, im_ramdisk_size = r, im_os_version = ov,
        im_header_size = hs, im_cmdline = sub_bytes s 44 1536, im_signature_size = g,
        im_kernel = sub_bytes s PAGE_SIZE k, im_ramdisk_offset = PAGE_SIZE + page_up k,
        im_ramdisk = sub_bytes s (PAGE_SIZE + page_up k) r,
        im_signature = sub_bytes s (PAGE_SIZE + page_up k + page_up r) g,
        im_payload_end = PAGE_SIZE + page_up k + page_up r + page_up g, im_avb = avb\<rparr>"
  proof -
    have magic: "starts_with BOOT_MAGIC s" by (rule ccontr) (use assms in \<open>simp add: read_image_def\<close>)
    obtain v where v: "get_le32 s 40 = Inr v" using assms magic by (auto simp: read_image_def err_simps)
    have version: "v \<in> {3, 4}" by (rule ccontr) (use assms magic v in \<open>simp add: read_image_def\<close>)
    then have nv: "(v \<noteq> 3 \<and> v \<noteq> 4) = False" by auto
    note known = magic v
    obtain k where k: "get_le32 s 8 = Inr k" by (cases "get_le32 s 8") (use assms known in \<open>simp_all add: nv read_image_def\<close>)
    obtain r where r: "get_le32 s 12 = Inr r" by (cases "get_le32 s 12") (use assms known k in \<open>simp_all add: nv read_image_def\<close>)
    obtain ov where ov: "get_le32 s 16 = Inr ov" by (cases "get_le32 s 16") (use assms known k r in \<open>simp_all add: nv read_image_def\<close>)
    obtain hs where hs: "get_le32 s 20 = Inr hs"
      by (cases "get_le32 s 20") (use assms known k r ov in \<open>simp_all add: nv read_image_def\<close>)
    obtain g where g: "(if 4 \<le> v then get_le32 s 1580 else Inr 0) = Inr g"
      by (cases "if 4 \<le> v then get_le32 s 1580 else Inr 0") (use assms known k r ov hs in \<open>simp_all add: nv read_image_def\<close>)
    obtain avb where avb: "read_avb s (PAGE_SIZE + page_up k + page_up r + page_up g) = Inr avb"
      by (cases "read_avb s (PAGE_SIZE + page_up k + page_up r + page_up g)")
        (use assms known k r ov hs g in \<open>simp_all add: nv read_image_def Let_def\<close>)
    show thesis by (rule that [OF magic v version k r ov hs g avb])
        (use assms known k r ov hs g avb in \<open>simp add: nv read_image_def Let_def\<close>)
  qed
  then show "im_data im = s" "starts_with BOOT_MAGIC s" "get_le32 s 40 = Inr (im_header_version im)"
    "im_header_version im \<in> {3, 4}" "get_le32 s 8 = Inr (im_kernel_size im)" "get_le32 s 12 = Inr (im_ramdisk_size im)"
    "get_le32 s 16 = Inr (im_os_version im)" "get_le32 s 20 = Inr (im_header_size im)"
    "(if 4 \<le> im_header_version im then get_le32 s 1580 else Inr 0) = Inr (im_signature_size im)"
    "im_kernel im = sub_bytes s PAGE_SIZE (im_kernel_size im)"
    "im_ramdisk_offset im = PAGE_SIZE + page_up (im_kernel_size im)"
    "im_ramdisk im = sub_bytes s (im_ramdisk_offset im) (im_ramdisk_size im)"
    "im_signature im = sub_bytes s (im_ramdisk_offset im + page_up (im_ramdisk_size im)) (im_signature_size im)"
    "im_payload_end im = im_ramdisk_offset im + page_up (im_ramdisk_size im) + page_up (im_signature_size im)"
    "im_cmdline im = sub_bytes s 44 1536" "read_avb s (im_payload_end im) = Inr (im_avb im)"
    by simp_all
qed

lemma read_avb_Some:
  assumes "read_avb s p = Inr (Some a)"
  obtains original vo vs where
    "AVB_FOOTER_SIZE \<le> length s" "av_footer a = drop (length s - AVB_FOOTER_SIZE) s"
    "starts_with AVB_FOOTER_MAGIC (av_footer a)" "get_be64 (av_footer a) 12 = Inr original"
    "get_be64 (av_footer a) 20 = Inr vo" "get_be64 (av_footer a) 28 = Inr vs"
    "av_header a = sub_bytes s vo vs" "starts_with AVB_MAGIC (av_header a)" "p \<le> original"
    "av_tail a = sub_bytes s p (original - p)"
  using assms that unfolding read_avb_def Let_def
  by (auto simp: err_simps not_less split: if_splits)

lemma rebuild_length:
  assumes "read_image s = Inr im" "rebuild im r = Inr out"
  shows "length out = length s"
proof -
  note im = read_image_Inr [OF assms(1)]
  have "case im_avb im of None \<Rightarrow> True | Some a \<Rightarrow> length (av_footer a) = AVB_FOOTER_SIZE"
    using im(16) by (auto split: option.splits elim!: read_avb_Some)
  moreover obtain mid where "put_avb (length s) (im_avb im) mid = Inr out"
    using assms(2) by (auto simp: rebuild_def err_simps im(1))
  ultimately show ?thesis using length_put_avb by blast
qed

text \<open>The header after the sizes were put in: only its size fields can differ.\<close>

definition same_outside_sizes :: "nat \<Rightarrow> bytes \<Rightarrow> bytes \<Rightarrow> bool" where
  "same_outside_sizes version a b \<longleftrightarrow>
     (\<forall>p n. p + n \<le> 8 \<or> 16 \<le> p \<and> (p + n \<le> 1580 \<or> 1584 \<le> p \<or> version < 4) \<longrightarrow> sub_bytes a p n = sub_bytes b p n)"

lemma put_sizes_shape:
  assumes put: "put_sizes im r (H @ Z) = Inr out" and len: "length H = 4096"
  obtains H' where "out = H' @ Z" "length H' = 4096"
    "sub_bytes H' 8 4 = le_bytes 4 (length (im_kernel im))" "sub_bytes H' 12 4 = le_bytes 4 (length r)"
    "4 \<le> im_header_version im \<Longrightarrow> sub_bytes H' 1580 4 = le_bytes 4 (length (im_signature im))
       \<and> length (im_signature im) < 2 ^ 32"
    "same_outside_sizes (im_header_version im) H' H" "length (im_kernel im) < 2 ^ 32" "length r < 2 ^ 32"
proof -
  let ?b = "le_bytes 4 (length (im_kernel im)) @ le_bytes 4 (length r)"
  let ?g = "le_bytes 4 (length (im_signature im))"
  from put obtain out1 where small: "length (im_kernel im) < 2 ^ 32" "length r < 2 ^ 32"
    and one: "put_bytes (H @ Z) 8 ?b = Inr out1"
    and two: "if 4 \<le> im_header_version im then length (im_signature im) < 2 ^ 32 \<and> put_bytes out1 1580 ?g = Inr out
      else out = out1"
    by (auto simp: put_sizes_def err_simps le32_Inr split: if_splits)
  obtain H1 where H1: "put_bytes H 8 ?b = Inr H1" using len by (simp add: put_bytes_def)
  then have out1: "out1 = H1 @ Z" using put_bytes_append [OF H1, of Z] one by simp
  have len1: "length H1 = 4096" using put_bytes_length [OF H1] len by simp
  have kr: "sub_bytes H1 8 4 = le_bytes 4 (length (im_kernel im))" "sub_bytes H1 12 4 = le_bytes 4 (length r)"
  proof -
    have b: "sub_bytes H1 8 8 = ?b" by (rule put_bytes_same [OF H1]) simp
    show "sub_bytes H1 8 4 = le_bytes 4 (length (im_kernel im))"
      using sub_sub_bytes [of 0 4 8 H1 8, unfolded b] by (simp add: sub_bytes_def [of "_ @ _"])
    show "sub_bytes H1 12 4 = le_bytes 4 (length r)"
      using sub_sub_bytes [of 4 4 8 H1 8, unfolded b] by (simp add: sub_bytes_def [of "_ @ _"])
  qed
  show ?thesis
  proof (cases "4 \<le> im_header_version im")
    case True
    obtain H2 where H2: "put_bytes H1 1580 ?g = Inr H2" using len1 by (simp add: put_bytes_def)
    have out: "out = H2 @ Z" using put_bytes_append [OF H2, of Z] two True out1 by simp
    have "same_outside_sizes (im_header_version im) H2 H" unfolding same_outside_sizes_def
    proof (intro allI impI)
      fix p n :: nat assume c: "p + n \<le> 8 \<or> 16 \<le> p \<and> (p + n \<le> 1580 \<or> 1584 \<le> p \<or> im_header_version im < 4)"
      have "sub_bytes H2 p n = sub_bytes H1 p n" by (rule put_bytes_other [OF H2]) (use c True in auto)
      also have "\<dots> = sub_bytes H p n" by (rule put_bytes_other [OF H1]) (use c in auto)
      finally show "sub_bytes H2 p n = sub_bytes H p n" .
    qed
    moreover have "sub_bytes H2 8 4 = sub_bytes H1 8 4" "sub_bytes H2 12 4 = sub_bytes H1 12 4"
      by (rule put_bytes_other [OF H2], simp)+
    ultimately show ?thesis
      using kr small put_bytes_same [OF H2, of 4] put_bytes_length [OF H2] len1 two True by (intro that [OF out]) simp_all
  next
    case False
    have "same_outside_sizes (im_header_version im) H1 H" unfolding same_outside_sizes_def
    proof (intro allI impI)
      fix p n :: nat assume c: "p + n \<le> 8 \<or> 16 \<le> p \<and> (p + n \<le> 1580 \<or> 1584 \<le> p \<or> im_header_version im < 4)"
      show "sub_bytes H1 p n = sub_bytes H p n" by (rule put_bytes_other [OF H1]) (use c in auto)
    qed
    then show ?thesis using kr small len1 two False out1 by (intro that [of H1]) simp_all
  qed
qed

lemma payload_blocks:
  assumes "PAGE_SIZE \<le> length (im_data im)"
  shows "payload im r = take PAGE_SIZE (im_data im) @ pad_page (im_kernel im) @ pad_page r @ pad_page (im_signature im)"
proof -
  let ?H = "take PAGE_SIZE (im_data im)"
  have H: "4096 dvd length ?H" using assms by (simp add: PAGE_SIZE_def)
  have K: "4096 dvd length (?H @ pad_page (im_kernel im))" using H page_up_dvd by simp
  have R: "4096 dvd length (?H @ pad_page (im_kernel im) @ pad_page r)" 
    using K by (metis append.assoc dvd_add length_append length_pad_page page_up_dvd)
  show ?thesis unfolding payload_def pad_page_shift [OF H]
    using pad_page_shift [OF R] pad_page_shift [OF K, of r] by simp
qed

lemma put_avb_prefix: "put_avb n avb out = Inr out' \<Longrightarrow> \<exists>T. out' = out @ T"
  by (cases avb) (auto simp: put_avb_def pad_page_def Let_def err_simps split: if_splits)

subsection \<open>Reading back what \<^verbatim>\<open>rebuild\<close> wrote\<close>

lemma put_sizes_length: "put_sizes im r s = Inr s' \<Longrightarrow> length s' = length s"
  by (auto simp: put_sizes_def err_simps split: if_splits dest!: put_bytes_length)

lemma rebuild_big:
  assumes "read_image s = Inr im" "rebuild im r = Inr out"
  shows "PAGE_SIZE \<le> length s"
proof -
  note im = read_image_Inr [OF assms(1)]
  obtain mid where mid: "put_sizes im r (payload im r) = Inr mid" "put_avb (length s) (im_avb im) mid = Inr out"
    using assms(2) by (auto simp: rebuild_def err_simps im(1))
  have "44 \<le> length s" using im(3) by (simp add: get_le32_Inr)
  then have "0 < length (payload im r)"
    using page_up_ge [of "length (take PAGE_SIZE (im_data im) @ im_kernel im)"]
      page_up_ge [of "length (pad_page (take PAGE_SIZE (im_data im) @ im_kernel im) @ r)"]
      page_up_ge [of "length (pad_page (pad_page (take PAGE_SIZE (im_data im) @ im_kernel im) @ r) @ im_signature im)"]
    by (simp add: payload_def im(1) PAGE_SIZE_def)
  moreover have "4096 dvd length (payload im r)" using page_up_dvd by (simp add: payload_def)
  ultimately have "4096 \<le> length (payload im r)" by (intro dvd_imp_le)
  moreover have "length mid = length (payload im r)" by (rule put_sizes_length [OF mid(1)])
  moreover have "length mid \<le> length out" using put_avb_prefix [OF mid(2)] by auto
  ultimately show ?thesis using rebuild_length [OF assms] by (simp add: PAGE_SIZE_def)
qed

lemma rebuild_shape:
  assumes "read_image s = Inr im" "rebuild im r = Inr out"
  obtains H' T where
    "out = H' @ pad_page (im_kernel im) @ pad_page r @ pad_page (im_signature im) @ T" "length H' = 4096"
    "sub_bytes H' 8 4 = le_bytes 4 (length (im_kernel im))" "sub_bytes H' 12 4 = le_bytes 4 (length r)"
    "4 \<le> im_header_version im \<Longrightarrow> sub_bytes H' 1580 4 = le_bytes 4 (length (im_signature im))
       \<and> length (im_signature im) < 2 ^ 32"
    "same_outside_sizes (im_header_version im) H' (take 4096 s)" "length (im_kernel im) < 2 ^ 32" "length r < 2 ^ 32"
    "put_avb (length s) (im_avb im)
      (H' @ pad_page (im_kernel im) @ pad_page r @ pad_page (im_signature im)) = Inr out"
proof -
  note im = read_image_Inr [OF assms(1)]
  note big = rebuild_big [OF assms]
  obtain mid where mid: "put_sizes im r (payload im r) = Inr mid" "put_avb (length s) (im_avb im) mid = Inr out"
    using assms(2) by (auto simp: rebuild_def err_simps im(1))
  have H: "length (take PAGE_SIZE s) = 4096" using big by (simp add: PAGE_SIZE_def)
  have "put_sizes im r (take PAGE_SIZE s @ pad_page (im_kernel im) @ pad_page r @ pad_page (im_signature im)) = Inr mid"
    using mid(1) payload_blocks [of im r] big by (simp add: im(1))
  from put_sizes_shape [OF this H] obtain H' where H':
    "mid = H' @ pad_page (im_kernel im) @ pad_page r @ pad_page (im_signature im)" "length H' = 4096"
    "sub_bytes H' 8 4 = le_bytes 4 (length (im_kernel im))" "sub_bytes H' 12 4 = le_bytes 4 (length r)"
    "4 \<le> im_header_version im \<Longrightarrow> sub_bytes H' 1580 4 = le_bytes 4 (length (im_signature im))
       \<and> length (im_signature im) < 2 ^ 32"
    "same_outside_sizes (im_header_version im) H' (take 4096 s)" "length (im_kernel im) < 2 ^ 32" "length r < 2 ^ 32"
    by (metis PAGE_SIZE_def)
  obtain T where "out = mid @ T" using put_avb_prefix [OF mid(2)] by blast
  with H' mid(2) show ?thesis by (intro that [of H' T]) simp_all
qed

text \<open>When the unpatched round trip reproduces the image, every size in it is the length of its block.\<close>

lemma round_trip_sizes:
  assumes read: "read_image s = Inr im" and rt: "rebuild im (im_ramdisk im) = Inr s"
  shows "im_kernel_size im = length (im_kernel im)" "im_ramdisk_size im = length (im_ramdisk im)"
    "im_signature_size im = length (im_signature im)"
proof -
  note im = read_image_Inr [OF read]
  obtain H' T where s: "s = H' @ pad_page (im_kernel im) @ pad_page (im_ramdisk im) @ pad_page (im_signature im) @ T"
    and H': "length H' = 4096" "sub_bytes H' 8 4 = le_bytes 4 (length (im_kernel im))"
      "sub_bytes H' 12 4 = le_bytes 4 (length (im_ramdisk im))"
      "4 \<le> im_header_version im \<Longrightarrow> sub_bytes H' 1580 4 = le_bytes 4 (length (im_signature im))
        \<and> length (im_signature im) < 2 ^ 32"
      "length (im_kernel im) < 2 ^ 32" "length (im_ramdisk im) < 2 ^ 32"
    by (rule rebuild_shape [OF read rt]) blast
  have at: "sub_bytes s p 4 = sub_bytes H' p 4" if "p + 4 \<le> 4096" for p
    using that H'(1) sub_bytes_append_left [of p 4 H'] s by metis
  show "im_kernel_size im = length (im_kernel im)" "im_ramdisk_size im = length (im_ramdisk im)"
    using im(5,6) H' by (simp_all add: get_le32_Inr at le32_value)
  show "im_signature_size im = length (im_signature im)"
  proof (cases "4 \<le> im_header_version im")
    case True
    then show ?thesis using im(9) H'(4) by (simp add: get_le32_Inr at le32_value)
  next
    case False
    then show ?thesis using im(9,13) by (simp add: sub_bytes_def)
  qed
qed

lemma round_trip_vbmeta:
  assumes read: "read_image s = Inr im" and rt: "rebuild im (im_ramdisk im) = Inr s" and a: "im_avb im = Some a"
    and vs: "get_be64 (av_footer a) 28 = Inr vs"
  shows "vs = length (av_header a)"
proof -
  note im = read_image_Inr [OF read]
  from im(16) [unfolded a] obtain vo original where old: "AVB_FOOTER_SIZE \<le> length s"
      "av_footer a = drop (length s - AVB_FOOTER_SIZE) s" "get_be64 (av_footer a) 12 = Inr original"
      "get_be64 (av_footer a) 20 = Inr vo" "av_header a = sub_bytes s vo vs"
    using vs by (elim read_avb_Some) simp
  obtain mid where put: "put_avb (length s) (Some a) mid = Inr s"
    using rebuild_shape [OF read rt] unfolding a by blast
  from put_avb_Some [OF put] obtain out1 footer where new:
    "s = out1 @ av_header a @ zeros (length s - (AVB_FOOTER_SIZE + (length out1 + length (av_header a)))) @ footer"
    "put_bytes (av_footer a) 12 (rev (le_bytes 8 (length out1)) @ rev (le_bytes 8 (length out1))) = Inr footer"
    "length out1 + length (av_header a) + AVB_FOOTER_SIZE \<le> length s" "length out1 < 2 ^ 64" by metis
  have lf: "length footer = AVB_FOOTER_SIZE" using put_bytes_length [OF new(2)] old by simp
  have "drop (length s - AVB_FOOTER_SIZE) s = footer"
    by (subst (2) new(1)) (use new(3) lf in \<open>simp add: zeros_def\<close>)
  then have same: "av_footer a = footer" using old by simp
  have "sub_bytes footer 20 8 = rev (le_bytes 8 (length out1))"
  proof -
    have "sub_bytes footer 12 16 = rev (le_bytes 8 (length out1)) @ rev (le_bytes 8 (length out1))"
      by (rule put_bytes_same [OF new(2)]) simp
    then show ?thesis using sub_sub_bytes [of 8 8 16 footer 12] by (simp add: sub_bytes_def [of "_ @ _"])
  qed
  then have vo: "vo = length out1" using old(4) same be64_value [OF new(4)] by (simp add: get_be64_Inr)
  have "length (av_header a) = min vs (length s - vo)" unfolding old(5) by (simp add: length_sub_bytes)
  then show ?thesis using new(3) vo by (simp add: AVB_FOOTER_SIZE_def min_def split: if_splits)
qed

lemma reread_avb:
  assumes put: "put_avb n (Some a) mid = Inr out"
    and a: "length (av_footer a) = AVB_FOOTER_SIZE" "starts_with AVB_FOOTER_MAGIC (av_footer a)"
      "starts_with AVB_MAGIC (av_header a)" "get_be64 (av_footer a) 28 = Inr (length (av_header a))"
  obtains a' where "read_avb out (length mid) = Inr (Some a')" "av_header a' = av_header a"
    "\<exists>m. av_tail a' = av_tail a @ zeros m"
proof -
  from put_avb_Some [OF put] obtain out1 footer where new: "out1 = pad_page (mid @ av_tail a)"
    "out = out1 @ av_header a @ zeros (n - (AVB_FOOTER_SIZE + (length out1 + length (av_header a)))) @ footer"
    "put_bytes (av_footer a) 12 (rev (le_bytes 8 (length out1)) @ rev (le_bytes 8 (length out1))) = Inr footer"
    "length out1 < 2 ^ 64" by metis
  let ?L = "rev (le_bytes 8 (length out1))"
  have lf: "length footer = AVB_FOOTER_SIZE" using put_bytes_length [OF new(3)] a by simp
  have f: "drop (length out - AVB_FOOTER_SIZE) out = footer" "AVB_FOOTER_SIZE \<le> length out"
    using lf by (simp_all add: new(2))
  have "sub_bytes footer 12 16 = ?L @ ?L" by (rule put_bytes_same [OF new(3)]) simp
  note b = this
  have "sub_bytes footer 12 8 = ?L"
    using sub_sub_bytes [of 0 8 16 footer 12, unfolded b] by (simp add: sub_bytes_def [of "_ @ _"])
  moreover have "sub_bytes footer 20 8 = ?L"
    using sub_sub_bytes [of 8 8 16 footer 12, unfolded b] by (simp add: sub_bytes_def [of "_ @ _"])
  ultimately have L: "get_be64 footer 12 = Inr (length out1)" "get_be64 footer 20 = Inr (length out1)"
    using lf be64_value [OF new(4)] by (simp_all add: get_be64_Inr AVB_FOOTER_SIZE_def)
  have "sub_bytes footer 28 8 = sub_bytes (av_footer a) 28 8" by (rule put_bytes_other [OF new(3)]) simp
  then have vs: "get_be64 footer 28 = Inr (length (av_header a))"
    using a(1,4) lf by (simp add: get_be64_Inr)
  have "length AVB_FOOTER_MAGIC = 4" by (simp add: AVB_FOOTER_MAGIC_def)
  have "sub_bytes footer 0 4 = sub_bytes (av_footer a) 0 4" by (rule put_bytes_other [OF new(3)]) simp
  with \<open>length AVB_FOOTER_MAGIC = 4\<close> have magic: "starts_with AVB_FOOTER_MAGIC footer"
    using a(2) by (simp add: starts_with_def sub_bytes_def)
  have header: "sub_bytes out (length out1) (length (av_header a)) = av_header a"
    unfolding new(2) by (rule sub_bytes_at) simp_all
  obtain m where m: "out1 = mid @ av_tail a @ zeros m" using new(1) by (simp add: pad_page_def)
  then have tail: "sub_bytes out (length mid) (length out1 - length mid) = av_tail a @ zeros m"
    by (simp add: new(2) sub_bytes_def)
  have "read_avb out (length mid) = Inr (Some \<lparr>av_footer = footer, av_header = av_header a, av_tail = av_tail a @ zeros m\<rparr>)"
    unfolding read_avb_def f Let_def using f(2) magic L vs header tail a(3) m by simp
  then show ?thesis by (rule that) auto
qed

lemma rebuild_image:
  assumes read: "read_image s = Inr im" and rt: "rebuild im (im_ramdisk im) = Inr s"
    and a: "im_avb im = Some a" and new: "rebuild im r = Inr out"
  shows "length out = length s \<and> (\<exists>im' a' m. read_image out = Inr im' \<and> im_ramdisk im' = r
    \<and> im_kernel im' = im_kernel im \<and> im_signature im' = im_signature im \<and> im_cmdline im' = im_cmdline im
    \<and> im_header_version im' = im_header_version im
    \<and> im_kernel_size im' = im_kernel_size im \<and> im_signature_size im' = im_signature_size im \<and> im_os_version im' = im_os_version im
    \<and> im_header_size im' = im_header_size im \<and> im_avb im' = Some a'
    \<and> av_header a' = av_header a \<and> av_tail a' = av_tail a @ zeros m)"
proof -
  note im = read_image_Inr [OF read] and len = round_trip_sizes [OF read rt]
  let ?K = "im_kernel im" and ?G = "im_signature im" and ?v = "im_header_version im"
  obtain H T where out: "out = H @ pad_page ?K @ pad_page r @ pad_page ?G @ T"
    and H: "length H = 4096" "sub_bytes H 8 4 = le_bytes 4 (length ?K)" "sub_bytes H 12 4 = le_bytes 4 (length r)"
      "4 \<le> ?v \<Longrightarrow> sub_bytes H 1580 4 = le_bytes 4 (length ?G) \<and> length ?G < 2 ^ 32"
      "same_outside_sizes ?v H (take 4096 s)" "length ?K < 2 ^ 32" "length r < 2 ^ 32"
    and put: "put_avb (length s) (Some a) (H @ pad_page ?K @ pad_page r @ pad_page ?G) = Inr out"
    using rebuild_shape [OF read new] unfolding a by blast
  have big: "4096 \<le> length s" using rebuild_big [OF read new] by (simp add: PAGE_SIZE_def)
  have lo: "length out = length s" by (rule rebuild_length [OF read new])
  have inH: "sub_bytes out p n = sub_bytes H p n" if "p + n \<le> 4096" for p n
    using that H(1) by (simp add: out sub_bytes_def)
  have same: "sub_bytes out p n = sub_bytes s p n"
    if "p + n \<le> 4096" "p + n \<le> 8 \<or> 16 \<le> p \<and> (p + n \<le> 1580 \<or> 1584 \<le> p \<or> ?v < 4)" for p n
    using that H(5) big unfolding same_outside_sizes_def inH [OF that(1)]
    by (auto simp: sub_bytes_def take_drop min_def)
  have word: "get_le32 out p = get_le32 s p" if "p + 4 \<le> 1580" "16 \<le> p" for p
    using that same [of p 4] lo by (simp add: get_le32_def)
  have "length BOOT_MAGIC = 8" by (simp add: BOOT_MAGIC_def)
  then have magic: "starts_with BOOT_MAGIC out"
    using im(2) same [of 0 8] by (simp add: starts_with_def sub_bytes_def)
  have sizes: "get_le32 out 8 = Inr (length ?K)" "get_le32 out 12 = Inr (length r)"
    using H lo big by (simp_all add: get_le32_Inr inH le32_value)
  have sig: "(if 4 \<le> ?v then get_le32 out 1580 else Inr 0) = Inr (length ?G)"
    using H(4) lo big len(3) im(9) by (auto simp: get_le32_Inr inH le32_value)
  let ?pe = "PAGE_SIZE + page_up (length ?K) + page_up (length r) + page_up (length ?G)"
  from im(16) [unfolded a] obtain original vo vs where f: "AVB_FOOTER_SIZE \<le> length s"
      "av_footer a = drop (length s - AVB_FOOTER_SIZE) s" "starts_with AVB_FOOTER_MAGIC (av_footer a)"
      "get_be64 (av_footer a) 28 = Inr vs" "starts_with AVB_MAGIC (av_header a)"
    by (elim read_avb_Some) blast
  have "length (av_footer a) = AVB_FOOTER_SIZE" using f(1,2) by simp
  moreover have "get_be64 (av_footer a) 28 = Inr (length (av_header a))"
    using f(4) round_trip_vbmeta [OF read rt a] by simp
  moreover have "length (H @ pad_page ?K @ pad_page r @ pad_page ?G) = ?pe"
    by (simp add: H(1) PAGE_SIZE_def)
  ultimately obtain a' m where a': "read_avb out ?pe = Inr (Some a')" "av_header a' = av_header a"
      "av_tail a' = av_tail a @ zeros m"
    using reread_avb [OF put _ f(3,5)] by metis
  have kernel: "sub_bytes out PAGE_SIZE (length ?K) = ?K"
    unfolding out by (rule sub_bytes_pad) (simp_all add: H(1) PAGE_SIZE_def)
  have ramdisk: "sub_bytes out (PAGE_SIZE + page_up (length ?K)) (length r) = r"
    using sub_bytes_pad [of _ "H @ pad_page ?K" _ r "pad_page ?G @ T"] by (simp add: out H(1) PAGE_SIZE_def)
  have signature: "sub_bytes out (PAGE_SIZE + page_up (length ?K) + page_up (length r)) (length ?G) = ?G"
    using sub_bytes_pad [of _ "H @ pad_page ?K @ pad_page r" _ ?G T] by (simp add: out H(1) PAGE_SIZE_def add.assoc)
  have cmdline: "sub_bytes out 44 1536 = sub_bytes s 44 1536" by (rule same) simp_all
  have v: "(?v \<noteq> 3 \<and> ?v \<noteq> 4) = False" using im(4) by auto
  have "read_image out = Inr \<lparr>im_data = out, im_header_version = ?v, im_kernel_size = length ?K,
      im_ramdisk_size = length r, im_os_version = im_os_version im, im_header_size = im_header_size im,
      im_cmdline = sub_bytes s 44 1536, im_signature_size = length ?G, im_kernel = ?K,
      im_ramdisk_offset = PAGE_SIZE + page_up (length ?K), im_ramdisk = r, im_signature = ?G,
      im_payload_end = ?pe, im_avb = Some a'\<rparr>"
    unfolding read_image_def
    using magic word [of 40] word [of 16] word [of 20] im(3,7,8) sizes sig a'(1) kernel ramdisk signature cmdline v
    by (simp add: Let_def)
  then show ?thesis using lo len im(15) a'(2,3) by simp (rule exI, rule refl)
qed

text \<open>C32. What the round-trip check of \<^verbatim>\<open>patch\<close> buys: once repacking an image with its own ramdisk
  reproduces it byte for byte, repacking it with any other ramdisk gives an image of the same length
  that reads back with exactly that ramdisk and with the stock kernel, boot signature, command line,
  remaining header fields and vbmeta block; only padding is added to the gap before vbmeta.\<close>

theorem rebuild_reads_back:
  assumes read: "read_image s = Inr im" and rt: "rebuild im (im_ramdisk im) = Inr s"
    and a: "im_avb im = Some a" and new: "rebuild im r = Inr out"
  shows "length out = length s \<and> (\<exists>im' a' m. read_image out = Inr im' \<and> im_ramdisk im' = r
    \<and> im_kernel im' = im_kernel im \<and> im_signature im' = im_signature im \<and> im_cmdline im' = im_cmdline im
    \<and> im_header_version im' = im_header_version im \<and> im_os_version im' = im_os_version im
    \<and> im_header_size im' = im_header_size im \<and> im_avb im' = Some a'
    \<and> av_header a' = av_header a \<and> av_tail a' = av_tail a @ zeros m)"
  using rebuild_image [OF assms] by blast

end
