(* ===== verification/KsuPatch.thy ===== *)
theory KsuPatch
  imports BootImage
begin

text \<open>
  The patch itself, from \<^verbatim>\<open>tools/patch-android-boot-ksu.py\<close>: the two containers of a compressed
  ramdisk, the check of the KernelSU assets, and \<^verbatim>\<open>patch\<close> with its self-verification. The
  compressors of \<^verbatim>\<open>zlib\<close> and \<^verbatim>\<open>lz4\<close>, SHA-256 and the files are the parameter \<open>kit\<close>; the
  report lines are left out. A result is None when \<^verbatim>\<open>Cpio.load\<close> does not return.
\<close>

record kit =
  inflate :: "bytes \<Rightarrow> ksu_error + bytes" \<comment> \<open>\<^verbatim>\<open>zlib.decompress\<close> of a gzip stream\<close>
  deflate :: "bytes \<Rightarrow> bytes"
  crc32 :: "bytes \<Rightarrow> nat"
  lz4_read :: "bytes \<Rightarrow> ksu_error + bytes" \<comment> \<open>of one block, of at most \<^verbatim>\<open>LZ4_BLOCK_SIZE\<close> bytes\<close>
  lz4_write :: "bytes \<Rightarrow> bytes"
  digest :: "bytes \<Rightarrow> string"
  read_bytes :: "string \<Rightarrow> ksu_error + bytes"

definition LZ4_LEGACY_MAGIC :: bytes where
  "LZ4_LEGACY_MAGIC = [CHR 0x02, CHR 0x21, CHR 0x4C, CHR 0x18]"

definition LZ4_BLOCK_SIZE :: nat where
  "LZ4_BLOCK_SIZE = 8388608"

definition GZIP_MAGICS :: "bytes list" where
  "GZIP_MAGICS = [[CHR 0x1F, CHR 0x8B], [CHR 0x1F, CHR 0x9E]]"

datatype container = Lz4Legacy | Gzip

definition detect_format :: "bytes \<Rightarrow> ksu_error + container" where
  "detect_format s =
     (if starts_with LZ4_LEGACY_MAGIC s then Inr Lz4Legacy
      else if list_ex (\<lambda>m. starts_with m s) GZIP_MAGICS then Inr Gzip
      else Inl (PatchError ''unsupported ramdisk compression''))"

text \<open>The blocks of the lz4-legacy container; \<open>out\<close> is what was decompressed so far.\<close>

function lz4_blocks :: "kit \<Rightarrow> bytes \<Rightarrow> nat \<Rightarrow> bytes \<Rightarrow> ksu_error + bytes" where
  "lz4_blocks k s offset out =
     (if length s < offset + 4 then Inr out
      else let block = le_value (sub_bytes s offset 4); start = offset + 4
        in if block = 0 \<or> length s < start + block then Inr out
           else (case lz4_read k (sub_bytes s start block) of
                   Inl e \<Rightarrow> Inl e
                 | Inr part \<Rightarrow> lz4_blocks k s (start + block) (out @ part)))"
  by pat_completeness auto
termination by (relation "measure (\<lambda>(k, s, offset, out). length s - offset)") auto

declare lz4_blocks.simps [simp del]

definition decompress :: "kit \<Rightarrow> bytes \<Rightarrow> container \<Rightarrow> ksu_error + bytes" where
  "decompress k s fmt =
     (case fmt of
        Gzip \<Rightarrow> inflate k s
      | Lz4Legacy \<Rightarrow>
          ebind (lz4_blocks k s (length LZ4_LEGACY_MAGIC) []) (\<lambda>out.
          if out = [] then Inl (PatchError ''the lz4-legacy ramdisk decompressed to nothing'') else Inr out))"

text \<open>\<^verbatim>\<open>struct.pack('<I', len(block)) + block\<close>\<close>

definition lz4_block :: "kit \<Rightarrow> bytes \<Rightarrow> ksu_error + bytes" where
  "lz4_block k chunk = (let block = lz4_write k chunk in ebind (le32 (length block)) (\<lambda>n. Inr (n @ block)))"

definition compress :: "kit \<Rightarrow> bytes \<Rightarrow> container \<Rightarrow> ksu_error + bytes" where
  "compress k s fmt =
     (case fmt of
        Gzip \<Rightarrow> Inr ([CHR 0x1F, CHR 0x8B, CHR 0x08, CHR 0x00] @ le_bytes 4 0 @ [CHR 0x02, CHR 0x03] @ deflate k s
          @ le_bytes 4 (crc32 k s mod 2 ^ 32) @ le_bytes 4 (length s mod 2 ^ 32))
      | Lz4Legacy \<Rightarrow>
          ebind (mapM (lz4_block k) (chunks LZ4_BLOCK_SIZE s)) (\<lambda>blocks.
          Inr (LZ4_LEGACY_MAGIC @ concat blocks)))"

subsection \<open>The KernelSU assets\<close>

record Asset =
  as_bytes :: nat
  as_sha256 :: string

definition verify_asset :: "kit \<Rightarrow> (string \<rightharpoonup> Asset) \<Rightarrow> string \<Rightarrow> string \<Rightarrow> ksu_error + bytes" where
  "verify_asset k assets role path =
     (case assets role of
        None \<Rightarrow> Inl (MissingKey role)
      | Some entry \<Rightarrow>
          ebind (read_bytes k path) (\<lambda>data.
          if length data \<noteq> as_bytes entry \<or> digest k data \<noteq> as_sha256 entry
          then Inl (PatchError ''not the pinned KernelSU asset'') else Inr data))"

subsection \<open>The patch\<close>

definition and_then :: "('e + 'a) option \<Rightarrow> ('a \<Rightarrow> ('e + 'b) option) \<Rightarrow> ('e + 'b) option" where
  "and_then m f = (case m of None \<Rightarrow> None | Some (Inl e) \<Rightarrow> Some (Inl e) | Some (Inr x) \<Rightarrow> f x)"

definition entry_of :: "archive \<Rightarrow> bytes \<Rightarrow> ksu_error + CpioEntry" where
  "entry_of a name = (case map_of a name of None \<Rightarrow> Inl (MissingKey name) | Some e \<Rightarrow> Inr e)"

text \<open>The three changes to the ramdisk.\<close>

definition add_kernelsu :: "archive \<Rightarrow> bytes \<Rightarrow> bytes \<Rightarrow> ksu_error + archive" where
  "add_kernelsu a ksuinit lkm =
     ebind (if exists_entry a ''init'' then move_entry ''init'' ''init.real'' a else Inr a) (\<lambda>a1.
     Inr (add_entry ''kernelsu.ko'' (regular 493 lkm) (add_entry ''init'' (regular 493 ksuinit) a1)))"

definition changed_fields :: "(string \<times> nat) list \<Rightarrow> (string \<times> nat) list \<Rightarrow> ksu_error + string list" where
  "changed_fields before after =
     ebind (mapM (\<lambda>(name, v). case map_of after name of
              None \<Rightarrow> Inl (MissingKey name) | Some v' \<Rightarrow> Inr (if v \<noteq> v' then [name] else [])) before)
       (\<lambda>parts. Inr (concat parts))"

text \<open>What is looked up in the patched archive while the report is printed, and the final test.\<close>

definition verify_patched ::
  "kit \<Rightarrow> Image \<Rightarrow> Image \<Rightarrow> archive \<Rightarrow> archive \<Rightarrow> bytes \<Rightarrow> bytes \<Rightarrow> string list \<Rightarrow> bytes \<Rightarrow> bytes
     \<Rightarrow> ksu_error + unit" where
  "verify_patched k img result cpio patched_cpio ksuinit lkm changed stock out =
     ebind (entry_of patched_cpio ''init'') (\<lambda>init.
     ebind (entry_of patched_cpio ''init.real'') (\<lambda>_.
     ebind (entry_of cpio ''init.real'') (\<lambda>_.
     ebind (entry_of patched_cpio ''kernelsu.ko'') (\<lambda>ko.
     require (\<not> (list_ex (\<lambda>name. name \<noteq> ''ramdisk_size'') changed
         \<or> digest k (im_kernel result) \<noteq> digest k (im_kernel img)
         \<or> im_cmdline result \<noteq> im_cmdline img \<or> length out \<noteq> length stock
         \<or> c_data init \<noteq> ksuinit \<or> c_data ko \<noteq> lkm))
       (PatchError ''the patched image failed its own verification; nothing was written'')))))"

text \<open>After the ramdisk was unpacked: from the check for an earlier patch to the verified image.\<close>

definition patch_ramdisk ::
  "kit \<Rightarrow> bytes \<Rightarrow> Image \<Rightarrow> container \<Rightarrow> archive \<Rightarrow> bytes \<Rightarrow> bytes \<Rightarrow> (ksu_error + bytes) option" where
  "patch_ramdisk k stock img fmt cpio ksuinit lkm =
     and_then (Some (require (\<not> exists_entry cpio ''kernelsu.ko'')
       (PatchError ''this boot image already carries kernelsu.ko''))) (\<lambda>_.
     and_then (Some (add_kernelsu cpio ksuinit lkm)) (\<lambda>patched.
     and_then (Some (compress k (cpio_dump patched) fmt)) (\<lambda>ramdisk.
     and_then (Some (rebuild img ramdisk)) (\<lambda>out.
     and_then (Some (read_image out)) (\<lambda>result.
     and_then (Some (header_fields img)) (\<lambda>before.
     and_then (Some (header_fields result)) (\<lambda>after.
     and_then (Some (changed_fields before after)) (\<lambda>changed.
     and_then (Some (detect_format (im_ramdisk result))) (\<lambda>fmt'.
     and_then (Some (decompress k (im_ramdisk result) fmt')) (\<lambda>plain.
     and_then (cpio_load plain) (\<lambda>patched_cpio.
     and_then (Some (verify_patched k img result patched patched_cpio ksuinit lkm changed stock out)) (\<lambda>_.
     Some (Inr out)))))))))))))"

definition patch ::
  "kit \<Rightarrow> (string \<rightharpoonup> Asset) \<Rightarrow> string \<Rightarrow> string \<Rightarrow> string \<Rightarrow> (ksu_error + bytes) option" where
  "patch k assets boot_path ksuinit_path lkm_path =
     and_then (Some (read_bytes k boot_path)) (\<lambda>stock.
     and_then (Some (verify_asset k assets ''ksuinit'' ksuinit_path)) (\<lambda>ksuinit.
     and_then (Some (verify_asset k assets ''lkm'' lkm_path)) (\<lambda>lkm.
     and_then (Some (read_image stock)) (\<lambda>img.
     and_then (Some (header_fields img)) (\<lambda>_.
     and_then (Some (rebuild img (im_ramdisk img))) (\<lambda>roundtrip.
     and_then (Some (require (roundtrip = stock)
       (PatchError ''the unpatched round trip is not byte-identical to the stock image''))) (\<lambda>_.
     and_then (Some (detect_format (im_ramdisk img))) (\<lambda>fmt.
     and_then (Some (decompress k (im_ramdisk img) fmt)) (\<lambda>plain.
     and_then (cpio_load plain) (\<lambda>cpio.
     patch_ramdisk k stock img fmt cpio ksuinit lkm))))))))))"

subsection \<open>The lz4-legacy container\<close>

text \<open>What \<^verbatim>\<open>lz4.block\<close> promises for a block of at most the size it is told.\<close>

definition lz4_ok :: "kit \<Rightarrow> bool" where
  "lz4_ok k \<longleftrightarrow> (\<forall>x. x \<noteq> [] \<and> length x \<le> LZ4_BLOCK_SIZE \<longrightarrow>
     lz4_write k x \<noteq> [] \<and> lz4_read k (lz4_write k x) = Inr x)"

lemma lz4_block_Inr: "lz4_block k x = Inr b \<longleftrightarrow> length (lz4_write k x) < 2 ^ 32
    \<and> b = le_bytes 4 (length (lz4_write k x)) @ lz4_write k x"
  by (auto simp: lz4_block_def Let_def err_simps le32_Inr)

lemma lz4_blocks_read:
  assumes "lz4_ok k" "mapM (lz4_block k) xs = Inr parts" "\<forall>x \<in> set xs. x \<noteq> [] \<and> length x \<le> LZ4_BLOCK_SIZE"
  shows "lz4_blocks k (pre @ concat parts) (length pre) out = Inr (out @ concat xs)"
  using assms(2,3)
proof (induction xs arbitrary: parts pre out)
  case Nil
  then show ?case by (subst lz4_blocks.simps) simp
next
  case (Cons x xs)
  let ?w = "lz4_write k x"
  from Cons.prems(1) obtain bs where bs: "parts = (le_bytes 4 (length ?w) @ ?w) # bs"
      "mapM (lz4_block k) xs = Inr bs" "length ?w < 2 ^ 32"
    by (auto simp: err_simps lz4_block_Inr)
  have w: "?w \<noteq> []" "lz4_read k ?w = Inr x" using assms(1) Cons.prems(2) by (auto simp: lz4_ok_def)
  let ?s = "pre @ concat parts"
  have s: "?s = (pre @ le_bytes 4 (length ?w)) @ ?w @ concat bs" by (simp add: bs(1))
  have "sub_bytes ?s (length pre) 4 = le_bytes 4 (length ?w)"
    unfolding bs(1) using sub_bytes_at [of _ pre 4 "le_bytes 4 (length ?w)" "?w @ concat bs"] by simp
  then have n: "le_value (sub_bytes ?s (length pre) 4) = length ?w" by (simp add: le32_value [OF bs(3)])
  have block: "sub_bytes ?s (length pre + 4) (length ?w) = ?w" unfolding s by (rule sub_bytes_at) simp_all
  have "lz4_blocks k ?s (length pre) out = lz4_blocks k ?s (length pre + 4 + length ?w) (out @ x)"
    by (subst lz4_blocks.simps) (use n block w in \<open>simp add: Let_def bs(1)\<close>)
  also have "\<dots> = lz4_blocks k ((pre @ le_bytes 4 (length ?w) @ ?w) @ concat bs)
      (length (pre @ le_bytes 4 (length ?w) @ ?w)) (out @ x)" by (simp add: s add.assoc)
  also have "\<dots> = Inr ((out @ x) @ concat xs)" by (rule Cons.IH [OF bs(2)]) (use Cons.prems(2) in simp)
  finally show ?case by simp
qed

lemma lz4_container:
  assumes "lz4_ok k" "s \<noteq> []" "compress k s Lz4Legacy = Inr c"
  shows "detect_format c = Inr Lz4Legacy" "decompress k c Lz4Legacy = Inr s"
proof -
  let ?xs = "chunks LZ4_BLOCK_SIZE s"
  obtain parts where b: "mapM (lz4_block k) ?xs = Inr parts" "c = LZ4_LEGACY_MAGIC @ concat parts"
    using assms(3) by (auto simp: compress_def err_simps)
  show "detect_format c = Inr Lz4Legacy" by (simp add: detect_format_def starts_with_def b(2))
  have "lz4_blocks k (LZ4_LEGACY_MAGIC @ concat parts) (length LZ4_LEGACY_MAGIC) [] = Inr ([] @ concat ?xs)"
    by (rule lz4_blocks_read [OF assms(1) b(1)]) (use chunks_bounded in blast)
  then show "decompress k c Lz4Legacy = Inr s"
    using assms(2) by (simp add: decompress_def b(2) concat_chunks LZ4_BLOCK_SIZE_def)
qed

text \<open>C36. The lz4-legacy container loses nothing: whatever \<^verbatim>\<open>compress\<close> wrote is recognised by its
  magic, and \<^verbatim>\<open>decompress\<close> puts the blocks of 8 MiB back together, if the library decompresses what
  it compressed.\<close>

theorem lz4_legacy_round_trip:
  assumes "lz4_ok k" "s \<noteq> []" "compress k s Lz4Legacy = Inr c"
  shows "detect_format c = Inr Lz4Legacy \<and> decompress k c Lz4Legacy = Inr s"
  using lz4_container [OF assms] by blast

text \<open>A compressor that stores its input, as lz4 does with a block of literals, and a digest that is the
  text itself.\<close>

definition stored_kit :: kit where
  "stored_kit = \<lparr>inflate = Inr, deflate = (\<lambda>x. x), crc32 = length, lz4_read = (\<lambda>x. Inr (tl x)),
     lz4_write = (\<lambda>x. CHR ''L'' # x), digest = (\<lambda>x. x), read_bytes = (\<lambda>p. Inr p)\<rparr>"

lemma stored_kit_ok: "lz4_ok stored_kit"
  by (simp add: lz4_ok_def stored_kit_def)

theorem lz4_legacy_round_trip_witness:
  "\<exists>c. compress stored_kit ''ramdisk'' Lz4Legacy = Inr c \<and> decompress stored_kit c Lz4Legacy = Inr ''ramdisk''"
proof -
  have "chunks LZ4_BLOCK_SIZE ''ramdisk'' = [''ramdisk'']"
    by (simp add: chunks.simps LZ4_BLOCK_SIZE_def)
  then obtain c where c: "compress stored_kit ''ramdisk'' Lz4Legacy = Inr c"
    by (simp add: compress_def lz4_block_def stored_kit_def le32_def Let_def)
  from lz4_legacy_round_trip [OF stored_kit_ok _ c] c show ?thesis by blast
qed

subsection \<open>The patched archive\<close>

lemma norm_names: "norm_path ''init'' = ''init''" "norm_path ''init.real'' = ''init.real''"
  "norm_path ''kernelsu.ko'' = ''kernelsu.ko''"
  by code_simp+

lemma set_update: "set (AList.update k v al) \<subseteq> insert (k, v) (set al)"
  by (induction al) auto

lemma set_delete: "set (AList.delete k al) \<subseteq> set al"
  by (auto simp: AList.delete_eq)

lemma upd_after_delete: "a \<noteq> b \<Longrightarrow> ((m(a := None))(b \<mapsto> v))(a \<mapsto> w) = m(b \<mapsto> v, a \<mapsto> w)"
  by (auto simp: fun_upd_def)

lemma length_update: "length (AList.update k v al) \<le> Suc (length al)"
  by (induction al) auto

lemma add_kernelsu_entries:
  assumes init: "map_of a ''init'' = Some old" and a: "distinct (map fst a)" "list_all entry_ok a" "list_all (\<lambda>x. ascii (fst x)) a"
    and sizes: "length ksuinit < 2 ^ 32" "length lkm < 2 ^ 32"
  obtains a' where "add_kernelsu a ksuinit lkm = Inr a'" "distinct (map fst a')" "list_all entry_ok a'"
    "list_all (\<lambda>x. ascii (fst x)) a'" "length a' \<le> length a + 3"
    "map_of a' = (map_of a)(''init.real'' \<mapsto> old, ''init'' \<mapsto> regular 493 ksuinit, ''kernelsu.ko'' \<mapsto> regular 493 lkm)"
proof -
  define a' where "a' = AList.update ''kernelsu.ko'' (regular 493 lkm) (AList.update ''init'' (regular 493 ksuinit)
    (AList.update ''init.real'' old (AList.delete ''init'' a)))"
  have names: "utf8_valid ''init'' \<and> utf8_valid ''init.real'' \<and> utf8_valid ''kernelsu.ko''"
    "in_field (int (py_len ''init'') + 1) \<and> in_field (int (py_len ''init.real'') + 1) \<and> in_field (int (py_len ''kernelsu.ko'') + 1)"
    "ascii ''init'' \<and> ascii ''init.real'' \<and> ascii ''kernelsu.ko''"
    "''init'' \<noteq> TRAILER \<and> ''init.real'' \<noteq> TRAILER \<and> ''kernelsu.ko'' \<noteq> TRAILER" by code_simp+
  have old: "entry_ok (''init'', old)" using map_of_SomeD [OF init] a(2) by (auto simp: list_all_iff)
  have new: "entry_ok (''kernelsu.ko'', regular 493 lkm)" "entry_ok (''init'', regular 493 ksuinit)" "entry_ok (''init.real'', old)"
    using names sizes old by (simp_all add: entry_ok_def regular_def TYPE_REGULAR_def) (simp_all add: in_field_def)
  have sub: "set a' \<subseteq> {(''kernelsu.ko'', regular 493 lkm), (''init'', regular 493 ksuinit), (''init.real'', old)} \<union> set a"
    unfolding a'_def by (auto dest!: subsetD [OF set_update] subsetD [OF set_delete])
  show ?thesis
  proof (rule that)
    show "add_kernelsu a ksuinit lkm = Inr a'"
      by (simp add: add_kernelsu_def exists_entry_def move_entry_def add_entry_def norm_names init a'_def)
    show "distinct (map fst a')"
      unfolding a'_def by (intro AList.distinct_update AList.distinct_delete a(1))
    show "list_all entry_ok a'" using sub new a(2) by (auto simp: list_all_iff)
    show "list_all (\<lambda>x. ascii (fst x)) a'" using sub names a(3) by (auto simp: list_all_iff)
    have "length (AList.delete ''init'' a) \<le> length a" by (simp add: AList.delete_eq)
    then show "length a' \<le> length a + 3"
      unfolding a'_def
      using length_update [of "''init.real''" old "AList.delete ''init'' a"]
        length_update [of "''init''" "regular 493 ksuinit" "AList.update ''init.real'' old (AList.delete ''init'' a)"]
        length_update [of "''kernelsu.ko''" "regular 493 lkm" "AList.update ''init'' (regular 493 ksuinit)
          (AList.update ''init.real'' old (AList.delete ''init'' a))"] by linarith
    show "map_of a' = (map_of a)(''init.real'' \<mapsto> old, ''init'' \<mapsto> regular 493 ksuinit, ''kernelsu.ko'' \<mapsto> regular 493 lkm)"
      unfolding a'_def AList.update_conv' AList.delete_conv'
      by (subst upd_after_delete) simp_all
  qed
qed

lemma map_of_sorted: "distinct (map fst a) \<Longrightarrow> map_of (sorted_entries a) = map_of a"
  by (rule map_of_inject_set [THEN iffD2]) (simp_all add: sorted_entries_props)

lemma patch_ramdisk_result:
  assumes read: "read_image stock = Inr img" and rt: "rebuild img (im_ramdisk img) = Inr stock"
    and avb: "im_avb img = Some a" and lz4: "lz4_ok k"
    and cpio: "distinct (map fst cpio)" "list_all entry_ok cpio" "list_all (\<lambda>x. ascii (fst x)) cpio" "length cpio < 2 ^ 31"
    and init: "map_of cpio ''init'' = Some old" and fresh: "map_of cpio ''kernelsu.ko'' = None"
    and files: "length ksuinit < 2 ^ 32" "length lkm < 2 ^ 32"
    and room: "ebind (add_kernelsu cpio ksuinit lkm) (\<lambda>patched.
      ebind (compress k (cpio_dump patched) Lz4Legacy) (rebuild img)) = Inr out"
  shows "patch_ramdisk k stock img Lz4Legacy cpio ksuinit lkm = Some (Inr out)
    \<and> (\<exists>im' plain entries. read_image out = Inr im' \<and> decompress k (im_ramdisk im') Lz4Legacy = Inr plain
        \<and> cpio_load plain = Some (Inr entries)
        \<and> map_of entries = (map_of cpio)(''init.real'' \<mapsto> old, ''init'' \<mapsto> regular 493 ksuinit, ''kernelsu.ko'' \<mapsto> regular 493 lkm))"
proof -
  from add_kernelsu_entries [OF init cpio(1-3) files] obtain p where p: "add_kernelsu cpio ksuinit lkm = Inr p"
    "distinct (map fst p)" "list_all entry_ok p" "list_all (\<lambda>x. ascii (fst x)) p" "length p \<le> length cpio + 3"
    "map_of p = (map_of cpio)(''init.real'' \<mapsto> old, ''init'' \<mapsto> regular 493 ksuinit, ''kernelsu.ko'' \<mapsto> regular 493 lkm)"
    by metis
  from room p(1) obtain r where r: "compress k (cpio_dump p) Lz4Legacy = Inr r" "rebuild img r = Inr out"
    by (auto simp: err_simps)
  have ne: "cpio_dump p \<noteq> []" by (simp add: cpio_dump_blocks trailer_block_def pad4_def)
  note lz = lz4_container [OF lz4 ne r(1)]
  have load: "cpio_load (cpio_dump p) = Some (Inr (sorted_entries p))"
    using dump_load [OF p(3,2)] p(4,5) cpio(4) by simp
  have found: "map_of (sorted_entries p) = map_of p" by (rule map_of_sorted [OF p(2)])
  from rebuild_image [OF read rt avb r(2)] obtain im' where im': "read_image out = Inr im'" "length out = length stock"
    "im_ramdisk im' = r" "im_kernel im' = im_kernel img" "im_cmdline im' = im_cmdline img"
    "im_header_version im' = im_header_version img" "im_os_version im' = im_os_version img"
    "im_header_size im' = im_header_size img" "im_kernel_size im' = im_kernel_size img"
    "im_signature_size im' = im_signature_size img" by blast
  note f = read_image_Inr [OF read] and f' = read_image_Inr [OF im'(1)]
  have fields: "header_fields i = Inr ([(''kernel_size'', im_kernel_size i), (''ramdisk_size'', im_ramdisk_size i),
      (''os_version'', im_os_version i), (''header_size'', im_header_size i), (''header_version'', im_header_version i)]
      @ (if im_header_version i < 4 then [] else [(''signature_size'', im_signature_size i)]))"
    if "read_image s = Inr i" for s i
    using read_image_Inr(1,3-9) [OF that] by (auto simp: header_fields_def FIELDS_def split: if_splits)
  obtain before after names where ba: "header_fields img = Inr before" "header_fields im' = Inr after"
      "changed_fields before after = Inr names" "list_all (\<lambda>name. name = ''ramdisk_size'') names"
    using fields [OF read] fields [OF im'(1)] im'(6-10) by (simp add: changed_fields_def split: if_splits)
  have look: "entry_of (sorted_entries p) ''init'' = Inr (regular 493 ksuinit)"
    "entry_of (sorted_entries p) ''kernelsu.ko'' = Inr (regular 493 lkm)"
    "entry_of (sorted_entries p) ''init.real'' = Inr old" "entry_of p ''init.real'' = Inr old"
    by (simp_all add: entry_of_def found p(6))
  have "c_data (regular 493 x) = x" for x by (simp add: regular_def)
  with look ba(4) have "verify_patched k img im' p (sorted_entries p) ksuinit lkm names stock out = Inr ()"
    by (auto simp: verify_patched_def im'(2,4,5) list_ex_iff list_all_iff)
  then have "patch_ramdisk k stock img Lz4Legacy cpio ksuinit lkm = Some (Inr out)"
    using ba(1-3) by (simp add: patch_ramdisk_def and_then_def exists_entry_def norm_names fresh p(1) r im'(1,3) lz load)
  moreover have "decompress k (im_ramdisk im') Lz4Legacy = Inr (cpio_dump p)" using lz(2) im'(3) by simp
  ultimately show ?thesis using im'(1) load found p(6) by auto
qed

text \<open>C3. Patching a stock image works: given the round-trip check, an \<^verbatim>\<open>init\<close> and no
  \<^verbatim>\<open>kernelsu.ko\<close> in the ramdisk, and room for the new ramdisk, \<^verbatim>\<open>patch\<close>'s own verification
  cannot fail. The image it returns carries the stock ramdisk with \<^verbatim>\<open>init\<close> renamed to
  \<^verbatim>\<open>init.real\<close> and the two KernelSU files added with mode 0755; every other entry is unchanged.\<close>

theorem patch_installs_kernelsu:
  assumes stock: "read_bytes k boot_path = Inr stock"
    and assets: "verify_asset k assets ''ksuinit'' ksuinit_path = Inr ksuinit" "verify_asset k assets ''lkm'' lkm_path = Inr lkm"
    and img: "read_image stock = Inr img" "rebuild img (im_ramdisk img) = Inr stock" "im_avb img = Some a"
    and lz4: "lz4_ok k" "detect_format (im_ramdisk img) = Inr Lz4Legacy" "decompress k (im_ramdisk img) Lz4Legacy = Inr plain"
    and cpio: "cpio_load plain = Some (Inr cpio)" "distinct (map fst cpio)" "list_all entry_ok cpio"
      "list_all (\<lambda>x. ascii (fst x)) cpio" "length cpio < 2 ^ 31"
    and init: "map_of cpio ''init'' = Some old" "map_of cpio ''kernelsu.ko'' = None"
    and files: "length ksuinit < 2 ^ 32" "length lkm < 2 ^ 32"
    and room: "ebind (add_kernelsu cpio ksuinit lkm) (\<lambda>patched.
      ebind (compress k (cpio_dump patched) Lz4Legacy) (rebuild img)) = Inr out"
  shows "patch k assets boot_path ksuinit_path lkm_path = Some (Inr out)
    \<and> (\<exists>im' plain entries. read_image out = Inr im' \<and> decompress k (im_ramdisk im') Lz4Legacy = Inr plain
        \<and> cpio_load plain = Some (Inr entries)
        \<and> map_of entries = (map_of cpio)(''init.real'' \<mapsto> old, ''init'' \<mapsto> regular 493 ksuinit, ''kernelsu.ko'' \<mapsto> regular 493 lkm))"
proof -
  note inner = patch_ramdisk_result [OF img lz4(1) cpio(2-5) init files room]
  obtain hf where "header_fields img = Inr hf"
  proof -
    have "\<exists>hf. header_fields img = Inr hf"
      using read_image_Inr(1,3-9) [OF img(1)] by (auto simp: header_fields_def FIELDS_def split: if_splits)
    then show ?thesis using that by blast
  qed
  then have "patch k assets boot_path ksuinit_path lkm_path = patch_ramdisk k stock img Lz4Legacy cpio ksuinit lkm"
    using stock assets img lz4 cpio(1) by (simp add: patch_def and_then_def)
  then show ?thesis using inner by simp
qed

lemma and_then_Inr: "and_then m f = Some (Inr y) \<longleftrightarrow> (\<exists>x. m = Some (Inr x) \<and> f x = Some (Inr y))"
  by (auto simp: and_then_def split: option.splits sum.splits)



end
