(* ===== verification/TinyImage.thy ===== *)
theory TinyImage
  imports KsuPatch
begin

text \<open>
  A boot image of four pages that meets the conditions of \<open>rebuild_reads_back\<close>: one page of header,
  one of kernel, one of ramdisk, no gap, a vbmeta block and the footer.
\<close>

lemma take_zeros: "take n (zeros m) = zeros (min n m)" and drop_zeros: "drop n (zeros m) = zeros (m - n)"
  by (simp_all add: zeros_def)

definition tiny_header :: "nat \<Rightarrow> bytes" where
  "tiny_header n = BOOT_MAGIC @ [CHR 0x02] @ zeros 3 @ le_bytes 4 n @ zeros 4 @ [CHR 0x2C, CHR 0x06] @ zeros 18
     @ [CHR 0x03] @ zeros 3 @ zeros 4052"

definition tiny_footer :: bytes where
  "tiny_footer = AVB_FOOTER_MAGIC @ zeros 8 @ zeros 6 @ [CHR 0x30] @ zeros 1 @ zeros 6 @ [CHR 0x30] @ zeros 1
     @ zeros 7 @ [CHR 0x04] @ zeros 28"

definition tiny_image :: "bytes \<Rightarrow> bytes" where
  "tiny_image r = tiny_header (length r) @ ''kk'' @ zeros 4094 @ r @ zeros (4096 - length r) @ AVB_MAGIC
     @ zeros 4028 @ tiny_footer"

definition tiny :: "bytes \<Rightarrow> Image" where
  "tiny r = \<lparr>im_data = tiny_image r, im_header_version = 3, im_kernel_size = 2, im_ramdisk_size = length r,
     im_os_version = 0, im_header_size = 1580, im_cmdline = zeros 1536, im_signature_size = 0, im_kernel = ''kk'',
     im_ramdisk_offset = 8192, im_ramdisk = r, im_signature = [], im_payload_end = 12288,
     im_avb = Some \<lparr>av_footer = tiny_footer, av_header = AVB_MAGIC, av_tail = []\<rparr>\<rparr>"

lemma tiny_pages: "page_up 2 = 4096" "page_up (Suc (Suc 0)) = 4096" "page_up 0 = 0" "page_up 12288 = 12288"
  by (simp_all add: page_up_def PAGE_SIZE_def align_to_def)

lemma one_page: "0 < n \<and> n \<le> 4096 \<Longrightarrow> page_up n = 4096"
proof -
  assume n: "0 < n \<and> n \<le> 4096"
  have "4096 dvd page_up n" by (rule page_up_dvd)
  moreover have "page_up n < n + 4096" using page.up_less [of "int n"] by (simp flip: page_up_eq)
  moreover have "0 < page_up n" using page_up_ge [of n] n by linarith
  ultimately show ?thesis using n by (auto elim!: dvdE)
qed

lemma tiny_lengths [simp]: "length BOOT_MAGIC = 8" "length AVB_FOOTER_MAGIC = 4" "length AVB_MAGIC = 4"
  "length tiny_footer = 64" "length (tiny_header n) = 4096"
  by (simp_all add: BOOT_MAGIC_def AVB_FOOTER_MAGIC_def AVB_MAGIC_def tiny_footer_def tiny_header_def)

lemmas tiny_simps = sub_bytes_def take_zeros drop_zeros tiny_pages PAGE_SIZE_def AVB_FOOTER_SIZE_def starts_with_def

lemma le_value_zeros: "le_value (zeros n @ s) = 256 ^ n * le_value s" "le_value (zeros n) = 0"
  unfolding zeros_def by (induction n) simp_all

lemma le_value_append: "le_value (a @ b) = le_value a + 256 ^ length a * le_value b"
  by (induction a) simp_all

lemma rev_zeros: "rev (zeros n) = zeros n"
  by (simp add: zeros_def)

lemma tiny_footer_fields:
  "get_be64 tiny_footer 12 = Inr 12288" "get_be64 tiny_footer 20 = Inr 12288" "get_be64 tiny_footer 28 = Inr 4"
  "starts_with AVB_FOOTER_MAGIC tiny_footer"
  by (simp_all add: get_be64_Inr sub_bytes_def starts_with_def tiny_footer_def le_value_zeros le_value_append rev_zeros
     take_zeros drop_zeros)

lemma tiny_image_length: "length r \<le> 4096 \<Longrightarrow> length (tiny_image r) = 16384"
  by (simp add: tiny_image_def)

lemma tiny_header_fields:
  "sub_bytes (tiny_header c) 8 4 = CHR 0x02 # zeros 3" "sub_bytes (tiny_header c) 12 4 = le_bytes 4 c"
  "sub_bytes (tiny_header c) 16 4 = zeros 4" "sub_bytes (tiny_header c) 20 4 = [CHR 0x2C, CHR 0x06] @ zeros 2"
  "sub_bytes (tiny_header c) 40 4 = CHR 0x03 # zeros 3" "sub_bytes (tiny_header c) 44 1536 = zeros 1536"
  "starts_with BOOT_MAGIC (tiny_header c @ s)"
  by (simp_all add: sub_bytes_def starts_with_def tiny_header_def take_zeros drop_zeros zeros_def [of 4] flip: zeros_add)

lemma tiny_words:
  assumes "0 < length r \<and> length r \<le> 4096"
  shows "get_le32 (tiny_image r) 8 = Inr 2" "get_le32 (tiny_image r) 12 = Inr (length r)"
    "get_le32 (tiny_image r) 16 = Inr 0" "get_le32 (tiny_image r) 20 = Inr 1580" "get_le32 (tiny_image r) 40 = Inr 3"
  using assms
  by (auto simp: get_le32_Inr tiny_image_def sub_bytes_append_left tiny_header_fields le_value_zeros le_value_append le32_value)

lemma tiny_avb:
  assumes "0 < length r \<and> length r \<le> 4096"
  shows "read_avb (tiny_image r) 12288 = Inr (Some \<lparr>av_footer = tiny_footer, av_header = AVB_MAGIC, av_tail = []\<rparr>)"
proof -
  have l: "length (tiny_image r) = 16384" using assms by (auto simp: tiny_image_length)
  have f: "drop (16384 - 64) (tiny_image r) = tiny_footer" using assms by (auto simp: tiny_image_def drop_zeros)
  have h: "sub_bytes (tiny_image r) 12288 4 = AVB_MAGIC"
    using assms by (auto simp: tiny_image_def sub_bytes_def drop_zeros)
  show ?thesis unfolding read_avb_def l AVB_FOOTER_SIZE_def f Let_def
    using tiny_footer_fields h by (simp add: starts_with_def sub_bytes_def)
qed

lemma tiny_read:
  assumes "0 < length r \<and> length r \<le> 4096"
  shows "read_image (tiny_image r) = Inr (tiny r)"
proof -
  have p: "page_up (length r) = 4096" using assms by (rule one_page)
  have m: "starts_with BOOT_MAGIC (tiny_image r)" unfolding tiny_image_def by (rule tiny_header_fields)
  have b: "sub_bytes (tiny_image r) 44 1536 = zeros 1536" "sub_bytes (tiny_image r) 4096 2 = ''kk''"
    "sub_bytes (tiny_image r) 8192 (length r) = r" "sub_bytes (tiny_image r) 12288 0 = []"
    using assms by (auto simp: tiny_image_def sub_bytes_append_left tiny_header_fields)
      (auto simp: sub_bytes_def drop_zeros)
  show ?thesis unfolding read_image_def
    by (simp add: m tiny_words [OF assms] Let_def PAGE_SIZE_def tiny_pages p b tiny_avb [OF assms] tiny_def)
qed

lemma tiny_sizes:
  "le_bytes 4 (Suc (Suc 0)) = CHR 0x02 # zeros 3" "rev (le_bytes 8 12288) = zeros 6 @ [CHR 0x30] @ zeros 1"
  using le_bytes_le_value [of "CHR 0x02 # zeros 3"] le_bytes_le_value [of "rev (zeros 6 @ [CHR 0x30] @ zeros 1)"]
  by (auto simp: le_value_zeros le_value_append rev_zeros)

lemma tiny_put:
  assumes "0 < length r \<and> length r \<le> 4096" "0 < length r' \<and> length r' \<le> 4096"
  shows "put_sizes (tiny r) r' (tiny_header c @ z) = Inr (tiny_header (length r') @ z)"
proof -
  have b: "le32 (Suc (Suc 0)) = Inr (CHR 0x02 # zeros 3)" "le32 (length r') = Inr (le_bytes 4 (length r'))"
    using assms tiny_sizes(1) by (auto simp: le32_Inr)
  have "put_bytes (tiny_header c) 8 ((CHR 0x02 # zeros 3) @ le_bytes 4 (length r')) = Inr (tiny_header (length r'))"
    by (simp add: put_bytes_def) (simp add: tiny_header_def take_zeros drop_zeros)
  then show ?thesis using b by (simp add: put_sizes_def tiny_def put_bytes_append)
qed

lemma tiny_put_footer:
  "put_bytes tiny_footer 12 (rev (le_bytes 8 12288) @ rev (le_bytes 8 12288)) = Inr tiny_footer"
  unfolding tiny_sizes by (simp add: put_bytes_def) (simp add: tiny_footer_def take_zeros drop_zeros)

lemma tiny_rebuild:
  assumes "0 < length r \<and> length r \<le> 4096" "0 < length r' \<and> length r' \<le> 4096"
  shows "rebuild (tiny r) r' = Inr (tiny_image r')"
proof -
  have l: "length (tiny_image r) = 16384" using assms by (auto simp: tiny_image_length)
  have p: "page_up (length r') = 4096" using assms(2) by (rule one_page)
  have t: "take 4096 (tiny_image r) = tiny_header (length r)" by (simp add: tiny_image_def)
  let ?z = "''kk'' @ zeros 4094 @ r' @ zeros (4096 - length r')"
  have pay: "payload (tiny r) r' = tiny_header (length r) @ ?z"
    using payload_blocks [of "tiny r" r'] l by (simp add: tiny_def PAGE_SIZE_def t pad_page_def tiny_pages p)
  have len: "length (tiny_header (length r') @ ?z) = 12288" using assms by auto
  have "put_avb 16384 (Some \<lparr>av_footer = tiny_footer, av_header = AVB_MAGIC, av_tail = []\<rparr>)
      (tiny_header (length r') @ ?z) = Inr (tiny_image r')"
  proof -
    have "pad_page (tiny_header (length r') @ ?z) = tiny_header (length r') @ ?z"
      unfolding pad_page_def len by (simp add: tiny_pages)
    moreover have "be64 12288 = Inr (rev (le_bytes 8 12288))" by (simp add: be64_Inr)
    ultimately show ?thesis unfolding put_avb_def using len tiny_put_footer assms
      by (simp add: Let_def tiny_pages AVB_FOOTER_SIZE_def) (auto simp: tiny_image_def)
  qed
  then show ?thesis using tiny_put [OF assms] l
    by (simp add: rebuild_def pay) (simp add: tiny_def)
qed

theorem rebuild_reads_back_witness:
  "length (tiny_image ''rrrr'') = length (tiny_image ''rrr'')
    \<and> (\<exists>im'. read_image (tiny_image ''rrrr'') = Inr im' \<and> im_ramdisk im' = ''rrrr'' \<and> im_kernel im' = im_kernel (tiny ''rrr''))"
proof -
  have a: "im_avb (tiny ''rrr'') = Some \<lparr>av_footer = tiny_footer, av_header = AVB_MAGIC, av_tail = []\<rparr>"
    and r: "im_ramdisk (tiny ''rrr'') = ''rrr''" by (simp_all add: tiny_def)
  from rebuild_reads_back [OF tiny_read _ a tiny_rebuild, of "''rrrr''"] tiny_rebuild [of "''rrr''" "''rrr''"] r
  show ?thesis by auto
qed

subsection \<open>A stock image to patch\<close>

lemma length_pad4_le: "length (pad4 s) \<le> length s + 3"
proof -
  have "int (length (pad4 s)) < int (length s) + 4" unfolding length_pad4 by (rule word4.up_less)
  then show ?thesis by linarith
qed

lemma length_block_le:
  assumes "entry_ok (n, e)" "in_field i"
  shows "length (block i (n, e)) \<le> 120 + length n + length (c_data e)"
proof -
  have "length (cpio_header i e n) = 110"
    using header_fields_read(3) [of "[]" "header_values i e n"] header_values_ok [OF assms]
    by (simp add: cpio_header_values)
  then show ?thesis
    using length_pad4_le [of "cpio_header i e n @ n @ [CHR 0x00]"] length_pad4_le [of "c_data e"]
    by (simp add: block_def)
qed

lemma length_trailer_le: "in_field i \<Longrightarrow> length (trailer_block i) \<le> 131"
proof -
  assume i: "in_field i"
  define e where "e = \<lparr>c_mode = 493, c_uid = 0, c_gid = 0, c_rdev_major = 0, c_rdev_minor = 0, c_data = []\<rparr>"
  have "list_all in_field (header_values i e TRAILER)"
    using i by (simp add: header_values_def e_def trailer_ok) (simp add: in_field_def TRAILER_def)
  then have "length (cpio_header i e TRAILER) = 110"
    using header_fields_read(3) [of "[]" "header_values i e TRAILER"] by (simp add: cpio_header_values)
  then show ?thesis using length_pad4_le [of "cpio_header i e TRAILER @ TRAILER @ [CHR 0x00]"]
    by (simp add: trailer_block_def e_def) (simp add: TRAILER_def)
qed

lemma stored_compress:
  assumes "s \<noteq> []" "length s \<le> 4000"
  shows "compress stored_kit s Lz4Legacy = Inr (LZ4_LEGACY_MAGIC @ le_bytes 4 (Suc (length s)) @ CHR ''L'' # s)"
proof -
  have "chunks LZ4_BLOCK_SIZE s = [s]"
    using assms by (simp add: chunks.simps [of _ s] chunks.simps [of _ "[]"] LZ4_BLOCK_SIZE_def)
  moreover have "lz4_block stored_kit s = Inr (le_bytes 4 (Suc (length s)) @ CHR ''L'' # s)"
    using assms by (simp add: lz4_block_Inr stored_kit_def)
  ultimately show ?thesis by (simp add: compress_def)
qed

definition demo_cpio :: archive where
  "demo_cpio = [(''init'', regular 493 ''i'')]"

definition demo_assets :: "string \<rightharpoonup> Asset" where
  "demo_assets = [''ksuinit'' \<mapsto> \<lparr>as_bytes = 1, as_sha256 = ''k''\<rparr>, ''lkm'' \<mapsto> \<lparr>as_bytes = 1, as_sha256 = ''m''\<rparr>]"

definition demo_patched :: archive where
  "demo_patched = [(''init.real'', regular 493 ''i''), (''init'', regular 493 ''k''), (''kernelsu.ko'', regular 493 ''m'')]"

lemma demo_facts:
  "list_all entry_ok demo_cpio" "list_all entry_ok demo_patched" "list_all (\<lambda>x. ascii (fst x)) demo_cpio"
  "sorted_entries demo_cpio = demo_cpio" "distinct (map fst demo_cpio)"
  "sorted_entries demo_patched = [(''init'', regular 493 ''k''), (''init.real'', regular 493 ''i''), (''kernelsu.ko'', regular 493 ''m'')]"
  by code_simp+

lemma demo_length: "length demo_cpio < 2 ^ 31"
  by (simp add: demo_cpio_def)

lemma demo_sizes: "length (cpio_dump demo_cpio) \<le> 300" "length (cpio_dump demo_patched) \<le> 600"
proof -
  have f: "in_field 300000" "in_field 300001" "in_field 300002" "in_field 300003" by (simp_all add: in_field_def)
  have e: "entry_ok (''init'', regular 493 ''i'')" using demo_facts(1) by (simp add: demo_cpio_def)
  show "length (cpio_dump demo_cpio) \<le> 300"
    using length_block_le [OF e f(1)] length_trailer_le [OF f(2)]
    by (simp add: cpio_dump_blocks demo_facts(4)) (simp add: demo_cpio_def FIRST_INODE_def regular_def)
  have p: "entry_ok (''init'', regular 493 ''k'')" "entry_ok (''init.real'', regular 493 ''i'')" "entry_ok (''kernelsu.ko'', regular 493 ''m'')"
    using demo_facts(2) by (simp_all add: demo_patched_def)
  show "length (cpio_dump demo_patched) \<le> 600"
    using length_block_le [OF p(1) f(1)] length_block_le [OF p(2) f(2)] length_block_le [OF p(3) f(3)] length_trailer_le [OF f(4)]
    by (simp add: cpio_dump_blocks demo_facts(6)) (simp add: demo_patched_def FIRST_INODE_def regular_def)
qed

lemma dump_not_Nil: "cpio_dump a \<noteq> []"
  by (simp add: cpio_dump_blocks trailer_block_def pad4_def)

theorem patch_installs_kernelsu_witness:
  "\<exists>stock out. patch stored_kit demo_assets stock ''k'' ''m'' = Some (Inr out)
     \<and> (\<exists>im' plain entries. read_image out = Inr im' \<and> decompress stored_kit (im_ramdisk im') Lz4Legacy = Inr plain
         \<and> cpio_load plain = Some (Inr entries) \<and> map_of entries ''kernelsu.ko'' = Some (regular 493 ''m''))"
proof -
  obtain r where r: "compress stored_kit (cpio_dump demo_cpio) Lz4Legacy = Inr r" "0 < length r \<and> length r \<le> 4096"
    using stored_compress [OF dump_not_Nil, of demo_cpio] demo_sizes(1) by (simp add: LZ4_LEGACY_MAGIC_def)
  obtain r' where r': "compress stored_kit (cpio_dump demo_patched) Lz4Legacy = Inr r'" "0 < length r' \<and> length r' \<le> 4096"
    using stored_compress [OF dump_not_Nil, of demo_patched] demo_sizes(2) by (simp add: LZ4_LEGACY_MAGIC_def)
  let ?s = "tiny_image r"
  have avb: "im_avb (tiny r) = Some \<lparr>av_footer = tiny_footer, av_header = AVB_MAGIC, av_tail = []\<rparr>"
    and ram: "im_ramdisk (tiny r) = r" by (simp_all add: tiny_def)
  note lz = lz4_container [OF stored_kit_ok dump_not_Nil r(1)]
  have load: "cpio_load (cpio_dump demo_cpio) = Some (Inr demo_cpio)"
    using dump_load [OF demo_facts(1,5)] demo_facts(3,4) by (simp add: demo_cpio_def)
  have add: "add_kernelsu demo_cpio ''k'' ''m'' = Inr demo_patched"
    by (simp add: add_kernelsu_def exists_entry_def move_entry_def add_entry_def norm_names demo_cpio_def demo_patched_def)
  have room: "ebind (add_kernelsu demo_cpio ''k'' ''m'') (\<lambda>patched.
      ebind (compress stored_kit (cpio_dump patched) Lz4Legacy) (rebuild (tiny r))) = Inr (tiny_image r')"
    using add r'(1) tiny_rebuild [OF r(2) r'(2)] by simp
  have assets: "read_bytes stored_kit ?s = Inr ?s" "verify_asset stored_kit demo_assets ''ksuinit'' ''k'' = Inr ''k''"
    "verify_asset stored_kit demo_assets ''lkm'' ''m'' = Inr ''m''"
    by (simp_all add: stored_kit_def verify_asset_def demo_assets_def)
  have init: "map_of demo_cpio ''init'' = Some (regular 493 ''i'')" "map_of demo_cpio ''kernelsu.ko'' = None"
    by (simp_all add: demo_cpio_def)
  have "rebuild (tiny r) (im_ramdisk (tiny r)) = Inr ?s" using tiny_rebuild [OF r(2) r(2)] ram by simp
  from patch_installs_kernelsu [OF assets tiny_read [OF r(2)] this avb stored_kit_ok _ _ load demo_facts(5,1,3) demo_length init _ _ room]
    lz ram show ?thesis by fastforce
qed

end
