(* ===== verification/RootContract.thy ===== *)
theory RootContract
  imports PyRegexRules "HOL-Library.Multiset"
begin

text \<open>
  The stage-1 admission contract of a root file system, from \<^verbatim>\<open>tools/lib/build-root-contract.py\<close>:
  the pin lists of the two profiles, \<^verbatim>\<open>check_pin_list\<close>, and the contract \<^verbatim>\<open>main\<close> writes from
  a manifest of hashes. The options that name the files are the arguments of the model.
\<close>

subsection \<open>The pin lists\<close>

definition PINNED_PATHS :: "string list" where
  "PINNED_PATHS =
    [''/etc/liuqin-gnome-root'',
     ''/etc/dconf/db/local.d/locks/00-liuqin-power'',
     ''/etc/systemd/system/liuqin-gnome-storage-guard.service'',
     ''/etc/systemd/system/liuqin-gnome-usb-rescue.service'',
     ''/etc/systemd/system/liuqin-power-keyd.service'',
     ''/etc/systemd/system/liuqin-power-keyd.service.d/20-liuqin-session-runtime.conf'',
     ''/etc/systemd/system/liuqin-snap-root-admission.service'',
     ''/etc/systemd/system/bluetooth.service.d/20-liuqin-public-address.conf'',
     ''/etc/systemd/system/liuqin-bt-preconfigure.service'',
     ''/etc/systemd/system/liuqin-hexagonrpcd-sdsp.service'',
     ''/etc/systemd/system/liuqin-ssc-sample-gate.service'',
     ''/etc/systemd/system/liuqin-sensor-stack.target'',
     ''/etc/systemd/system/liuqin-wlan-mac.service'',
     ''/etc/systemd/system/NetworkManager.service.d/20-liuqin-wlan-mac.conf'',
     ''/etc/udev/rules.d/80-liuqin-fastrpc.rules'',
     ''/usr/lib/firmware/novatek/liuqin/novatek_nt36532_m81_fw_csot.bin'',
     ''/usr/lib/firmware/novatek/liuqin/novatek_nt36532_m81_fw_tm.bin'',
     ''/usr/lib/firmware/qcom/sm8450/Xiaomi-Pad-6-Pro-tplg.bin'',
     ''/usr/bin/hexagonrpcd'',
     ''/usr/bin/ssccli'',
     ''/usr/share/qcom/sm8450/Xiaomi/liuqin/sensors/sns_reg_version'',
     ''/usr/share/liuqin/kernel.release'',
     ''/usr/share/liuqin/kernel-modules.manifest'',
     ''/usr/local/bin/busybox'',
     ''/usr/local/bin/liuqin-shell'',
     ''/usr/local/libexec/liuqin-iio-sensor-proxy'',
     ''/usr/local/libexec/liuqin-power-keyd'',
     ''/usr/local/libexec/liuqin-power-key-action'',
     ''/usr/local/libexec/liuqin-power-menu'',
     ''/usr/share/liuqin/power/io.github.liuqin.power.gschema.xml'',
     ''/usr/share/liuqin/power/gschemas.compiled'',
     ''/usr/local/libexec/liuqin-uinput-automation'',
     ''/usr/local/libexec/liuqin-audio-hwparams-probe'',
     ''/usr/local/sbin/liuqin-gnome-storage-guard'',
     ''/usr/local/sbin/liuqin-gnome-usb-rescue'',
     ''/usr/local/sbin/liuqin-snap-root-admission'',
     ''/usr/local/sbin/liuqin-bt-public-addr'',
     ''/usr/local/sbin/liuqin-wlan-mac'',
     ''/usr/libexec/liuqin-ssc-sample-gate'']"

definition NATIVE_PINNED_PATHS :: "string list" where
  "NATIVE_PINNED_PATHS =
    [''/etc/liuqin-native-root'',
     ''/etc/systemd/system/liuqin-slpi.service'',
     ''/usr/local/sbin/liuqin-slpi'',
     ''/etc/dconf/db/local.d/locks/00-liuqin-power'',
     ''/etc/systemd/system/NetworkManager.service.d/20-liuqin-wlan-mac.conf'',
     ''/etc/systemd/system/bluetooth.service.d/20-liuqin-public-address.conf'',
     ''/etc/systemd/system/liuqin-backlight-default.service'',
     ''/etc/systemd/system/liuqin-bt-preconfigure.service'',
     ''/etc/systemd/system/liuqin-gnome-storage-guard.service'',
     ''/etc/systemd/system/liuqin-gnome-usb-rescue.service'',
     ''/etc/systemd/system/liuqin-hexagonrpcd-sdsp.service'',
     ''/etc/systemd/system/liuqin-power-keyd.service'',
     ''/etc/systemd/system/liuqin-power-keyd.service.d/20-liuqin-session-runtime.conf'',
     ''/etc/systemd/system/liuqin-sensor-stack.target'',
     ''/etc/systemd/system/liuqin-snap-root-admission.service'',
     ''/etc/systemd/system/liuqin-ssc-sample-gate.service'',
     ''/etc/systemd/system/liuqin-wlan-mac.service'',
     ''/etc/udev/rules.d/80-liuqin-fastrpc.rules'',
     ''/usr/lib/firmware/novatek/liuqin/novatek_nt36532_m81_fw_csot.bin'',
     ''/usr/lib/firmware/novatek/liuqin/novatek_nt36532_m81_fw_tm.bin'',
     ''/usr/lib/firmware/qcom/sm8450/Xiaomi-Pad-6-Pro-tplg.bin'',
     ''/usr/lib/firmware/updates/qcom/a730_sqe.fw'',
     ''/usr/lib/firmware/updates/qcom/gmu_gen70000.bin'',
     ''/usr/bin/hexagonrpcd'',
     ''/usr/libexec/iio-sensor-proxy'',
     ''/usr/libexec/liuqin-ssc-sample-gate'',
     ''/usr/local/bin/busybox'',
     ''/usr/local/bin/liuqin-shell'',
     ''/usr/local/libexec/liuqin-power-key-action'',
     ''/usr/local/libexec/liuqin-power-keyd'',
     ''/usr/local/libexec/liuqin-power-menu'',
     ''/usr/local/sbin/liuqin-bt-public-addr'',
     ''/usr/local/sbin/liuqin-gnome-storage-guard'',
     ''/usr/local/sbin/liuqin-gnome-usb-rescue'',
     ''/usr/local/sbin/liuqin-snap-root-admission'',
     ''/usr/local/sbin/liuqin-wlan-mac'',
     ''/usr/share/liuqin/kernel-modules.manifest'',
     ''/usr/share/liuqin/kernel.release'',
     ''/usr/share/liuqin/power/gschemas.compiled'',
     ''/usr/share/liuqin/power/io.github.liuqin.power.gschema.xml'',
     ''/usr/share/qcom/sm8450/Xiaomi/liuqin/sensors/sns_reg_version'']"

definition DISTRO_OWNED_PREFIXES :: "string list" where
  "DISTRO_OWNED_PREFIXES =
    [''/usr/lib/aarch64-linux-gnu/'',
     ''/usr/lib/systemd/'',
     ''/usr/bin/'',
     ''/usr/sbin/'',
     ''/bin/'',
     ''/sbin/'',
     ''/lib/'',
     ''/etc/dconf/'',
     ''/etc/gdm3/'']"

definition PROJECT_OWNED_PREFIXES :: "string list" where
  "PROJECT_OWNED_PREFIXES =
    [''/etc/liuqin-'',
     ''/etc/systemd/system/liuqin-'',
     ''/usr/local/bin/'',
     ''/usr/local/libexec/'',
     ''/usr/local/sbin/'',
     ''/usr/lib/firmware/novatek/liuqin/'',
     ''/usr/lib/firmware/updates/'',
     ''/usr/share/liuqin/'']"

definition PROJECT_OWNED_EXACT_PATHS :: "string list" where
  "PROJECT_OWNED_EXACT_PATHS =
    [''/etc/dconf/db/local.d/locks/00-liuqin-power'',
     ''/etc/systemd/system/bluetooth.service.d/20-liuqin-public-address.conf'',
     ''/etc/systemd/system/NetworkManager.service.d/20-liuqin-wlan-mac.conf'',
     ''/etc/udev/rules.d/80-liuqin-fastrpc.rules'',
     ''/usr/libexec/liuqin-ssc-sample-gate'',
     ''/usr/libexec/iio-sensor-proxy'',
     ''/usr/bin/hexagonrpcd'',
     ''/usr/bin/ssccli'',
     ''/usr/share/qcom/sm8450/Xiaomi/liuqin/sensors/sns_reg_version'',
     ''/usr/lib/firmware/qcom/sm8450/Xiaomi-Pad-6-Pro-tplg.bin'']"

definition PROFILE_PINS :: "string \<Rightarrow> (string list \<times> string) option" where
  "PROFILE_PINS profile = map_of
    [(''gnome'', (PINNED_PATHS, ''LIUQIN_GNOME_ROOT_CONTRACT_V1'')),
     (''native'', (NATIVE_PINNED_PATHS, ''LIUQIN_NATIVE_ROOT_CONTRACT_V1''))] profile"

subsection \<open>Checking a pin list\<close>

datatype contract_error =
    Repeated
  | NotPlain string
  | DistroOwned string string
  | NotOwned string
  | NoManifest
  | NotCarried string
  | LineCount
  | OutOfBounds
  | NoProfile

definition plain_absolute :: "string \<Rightarrow> bool" where
  "plain_absolute rel \<longleftrightarrow> starts_with ''/'' rel \<and> \<not> contains ''/../'' rel \<and> \<not> starts_with (rev ''/..'') (rev rel)"

definition check_distro :: "string \<Rightarrow> bool \<Rightarrow> string \<Rightarrow> contract_error + unit" where
  "check_distro rel exact prefix = require (\<not> (starts_with prefix rel \<and> \<not> exact)) (DistroOwned rel prefix)"

definition check_pin :: "string \<Rightarrow> contract_error + unit" where
  "check_pin rel =
     (if \<not> plain_absolute rel then Inl (NotPlain rel)
      else let exact = rel \<in> set PROJECT_OWNED_EXACT_PATHS in
        ebind (each (check_distro rel exact) DISTRO_OWNED_PREFIXES) (\<lambda>_.
        require (\<not> (\<not> exact \<and> \<not> list_ex (\<lambda>prefix. starts_with prefix rel) PROJECT_OWNED_PREFIXES)) (NotOwned rel)))"

definition check_pin_list :: "string list \<Rightarrow> contract_error + unit" where
  "check_pin_list paths =
     (if length (remdups paths) \<noteq> length paths then Inl Repeated else each check_pin paths)"

subsection \<open>Writing the contract\<close>

text \<open>The hashes of the manifest: the first double space of a line separates the digest from the path.\<close>

definition manifest_entry :: "string \<Rightarrow> (string \<times> string) option" where
  "manifest_entry line =
     (case split_once ''  '' [] line of
        None \<Rightarrow> None
      | Some (digest, rel) \<Rightarrow> if rel = [] then None else Some (rel, digest))"

definition layer_hashes :: "string \<Rightarrow> (string \<rightharpoonup> string)" where
  "layer_hashes text = map_of (rev (List.map_filter manifest_entry (splitlines text)))"

definition contract_lines :: "string \<Rightarrow> (string \<rightharpoonup> string) \<Rightarrow> string list \<Rightarrow> string list" where
  "contract_lines header hashes pins = header # map (\<lambda>rel. the (hashes rel) @ ''  '' @ rel) (sort pins)"

definition root_contract :: "string \<Rightarrow> string option \<Rightarrow> contract_error + bytes" where
  "root_contract profile manifest =
     (case PROFILE_PINS profile of
        None \<Rightarrow> Inl NoProfile
      | Some (pins, header) \<Rightarrow>
          ebind (check_pin_list pins) (\<lambda>_.
          case manifest of
            None \<Rightarrow> Inl NoManifest
          | Some text \<Rightarrow>
              (let hashes = layer_hashes text in
               ebind (each (\<lambda>rel. require (hashes rel \<noteq> None) (NotCarried rel)) pins) (\<lambda>_.
               let lines = contract_lines header hashes pins; data = join_with [newline] lines @ [newline]
               in if length lines \<noteq> length pins + 1 then Inl LineCount
                  else if \<not> (10 \<le> length lines \<and> length lines \<le> 128)
                       \<or> \<not> (256 \<le> length data \<and> length data \<le> 16384) then Inl OutOfBounds
                  else Inr data))))"

subsection \<open>What an accepted pin list contains\<close>

definition distro_owned :: "string \<Rightarrow> bool" where
  "distro_owned rel \<longleftrightarrow> list_ex (\<lambda>prefix. starts_with prefix rel) DISTRO_OWNED_PREFIXES"

definition project_owned :: "string \<Rightarrow> bool" where
  "project_owned rel \<longleftrightarrow> list_ex (\<lambda>prefix. starts_with prefix rel) PROJECT_OWNED_PREFIXES"

definition pin_ok :: "string \<Rightarrow> bool" where
  "pin_ok rel \<longleftrightarrow> plain_absolute rel
     \<and> (rel \<in> set PROJECT_OWNED_EXACT_PATHS \<or> project_owned rel \<and> \<not> distro_owned rel)"

lemma check_pin_list_iff: "check_pin_list paths = Inr () \<longleftrightarrow> distinct paths \<and> list_all pin_ok paths"
proof -
  have "check_pin rel = Inr () \<longleftrightarrow> pin_ok rel" for rel
    by (auto simp: check_pin_def check_distro_def pin_ok_def project_owned_def distro_owned_def Let_def err_simps list_ex_iff)
  then show ?thesis
    by (auto simp: check_pin_list_def err_simps list_all_iff length_remdups_card_conv card_distinct distinct_card)
qed

lemma pins_distinct: "distinct PINNED_PATHS" "distinct NATIVE_PINNED_PATHS"
  by (simp_all add: PINNED_PATHS_def NATIVE_PINNED_PATHS_def)

lemma pins_ok: "list_all pin_ok PINNED_PATHS" "list_all pin_ok NATIVE_PINNED_PATHS"
  by code_simp+

lemma pins_accepted: "check_pin_list PINNED_PATHS = Inr ()" "check_pin_list NATIVE_PINNED_PATHS = Inr ()"
  using pins_distinct pins_ok by (simp_all add: check_pin_list_iff)


subsection \<open>The contract reads back\<close>

lemma splitlines_join:
  "list_all no_breaks ls \<Longrightarrow> ls \<noteq> [] \<Longrightarrow> splitlines (join_with [newline] ls @ [newline]) = ls"
  by (simp add: join_with_unlines splitlines_unlines)

definition no_space :: "string \<Rightarrow> bool" where
  "no_space s \<longleftrightarrow> list_all (\<lambda>c. \<not> is_space c) s"

lemma split_double_space:
  "no_space d \<Longrightarrow> split_once ''  '' cur (d @ ''  '' @ rel) = Some (rev cur @ d, rel)"
proof (induction d arbitrary: cur)
  case Nil
  then show ?case by (subst split_once.simps) simp
next
  case (Cons c d)
  have "is_space (CHR '' '')" by code_simp
  then have "c \<noteq> CHR '' ''" using Cons.prems by (auto simp: no_space_def)
  then show ?case using Cons by (subst split_once.simps) (simp add: no_space_def)
qed

lemma split_no_space: "no_space s \<Longrightarrow> split_once ''  '' cur s = None"
proof (induction s arbitrary: cur)
  case (Cons c s)
  have "is_space (CHR '' '')" by code_simp
  then have "c \<noteq> CHR '' ''" using Cons.prems by (auto simp: no_space_def)
  then show ?case using Cons by (subst split_once.simps) (simp add: no_space_def)
qed (subst split_once.simps; simp)

lemma linebreak_space: "is_linebreak c \<Longrightarrow> is_space c"
  by (simp add: is_linebreak_def is_space_def Let_def) presburger

text \<open>A digest as \<^verbatim>\<open>sha256sum\<close> prints it.\<close>

definition digest_ok :: "string \<Rightarrow> bool" where
  "digest_ok d \<longleftrightarrow> length d = 64 \<and> no_space d"

lemma length_join: "ls \<noteq> [] \<Longrightarrow> length (join_with [newline] ls @ [newline]) = sum_list (map (\<lambda>l. length l + 1) ls)"
  by (induction ls rule: induct_list012) simp_all

lemma plain_chars:
  "is_space (CHR ''-'') = False" "is_space (CHR ''.'') = False" "is_space (CHR ''/'') = False"
  "is_space (CHR ''0'') = False" "is_space (CHR ''1'') = False" "is_space (CHR ''2'') = False"
  "is_space (CHR ''3'') = False" "is_space (CHR ''4'') = False" "is_space (CHR ''5'') = False"
  "is_space (CHR ''6'') = False" "is_space (CHR ''7'') = False" "is_space (CHR ''8'') = False"
  "is_space (CHR ''A'') = False" "is_space (CHR ''C'') = False" "is_space (CHR ''E'') = False"
  "is_space (CHR ''G'') = False" "is_space (CHR ''I'') = False" "is_space (CHR ''L'') = False"
  "is_space (CHR ''M'') = False" "is_space (CHR ''N'') = False" "is_space (CHR ''O'') = False"
  "is_space (CHR ''P'') = False" "is_space (CHR ''Q'') = False" "is_space (CHR ''R'') = False"
  "is_space (CHR ''T'') = False" "is_space (CHR ''U'') = False" "is_space (CHR ''V'') = False"
  "is_space (CHR ''X'') = False" "is_space (CHR ''_'') = False" "is_space (CHR ''a'') = False"
  "is_space (CHR ''b'') = False" "is_space (CHR ''c'') = False" "is_space (CHR ''d'') = False"
  "is_space (CHR ''e'') = False" "is_space (CHR ''f'') = False" "is_space (CHR ''g'') = False"
  "is_space (CHR ''h'') = False" "is_space (CHR ''i'') = False" "is_space (CHR ''k'') = False"
  "is_space (CHR ''l'') = False" "is_space (CHR ''m'') = False" "is_space (CHR ''n'') = False"
  "is_space (CHR ''o'') = False" "is_space (CHR ''p'') = False" "is_space (CHR ''q'') = False"
  "is_space (CHR ''r'') = False" "is_space (CHR ''s'') = False" "is_space (CHR ''t'') = False"
  "is_space (CHR ''u'') = False" "is_space (CHR ''v'') = False" "is_space (CHR ''w'') = False"
  "is_space (CHR ''x'') = False" "is_space (CHR ''y'') = False"
  by code_simp+

definition profile_ok :: "string list \<Rightarrow> string \<Rightarrow> bool" where
  "profile_ok pins header \<longleftrightarrow> list_all no_space (header # pins) \<and> list_all (\<lambda>rel. rel \<noteq> []) pins
     \<and> check_pin_list pins = Inr ()"

lemma pins_no_space: "list_all no_space (''LIUQIN_GNOME_ROOT_CONTRACT_V1'' # PINNED_PATHS)"
  "list_all no_space (''LIUQIN_NATIVE_ROOT_CONTRACT_V1'' # NATIVE_PINNED_PATHS)"
  by (simp_all add: PINNED_PATHS_def NATIVE_PINNED_PATHS_def no_space_def plain_chars)

lemma pins_not_empty: "list_all (\<lambda>rel. rel \<noteq> []) PINNED_PATHS" "list_all (\<lambda>rel. rel \<noteq> []) NATIVE_PINNED_PATHS"
  by (simp_all add: PINNED_PATHS_def NATIVE_PINNED_PATHS_def)

lemma profiles_ok: "profile_ok PINNED_PATHS ''LIUQIN_GNOME_ROOT_CONTRACT_V1''"
  "profile_ok NATIVE_PINNED_PATHS ''LIUQIN_NATIVE_ROOT_CONTRACT_V1''"
  unfolding profile_ok_def using pins_no_space pins_accepted pins_not_empty by blast+

definition profile_sizes :: "string list \<Rightarrow> bool" where
  "profile_sizes pins \<longleftrightarrow> 9 \<le> length pins \<and> length pins \<le> 127 \<and> sum_list (map length pins) \<le> 5000"

lemma profiles_sizes: "profile_sizes PINNED_PATHS" "profile_sizes NATIVE_PINNED_PATHS"
  by (simp_all add: profile_sizes_def PINNED_PATHS_def NATIVE_PINNED_PATHS_def)

lemma contract_length:
  assumes "\<And>rel. rel \<in> set pins \<Longrightarrow> \<exists>d. hashes rel = Some d \<and> digest_ok d"
  shows "length (join_with [newline] (contract_lines header hashes pins) @ [newline])
    = length header + 1 + 67 * length pins + sum_list (map length pins)"
proof -
  have ne: "contract_lines header hashes pins \<noteq> []" by (simp add: contract_lines_def)
  have "length (the (hashes rel) @ ''  '' @ rel) = 66 + length rel" if "rel \<in> set pins" for rel
    using assms [OF that] by (auto simp: digest_ok_def)
  then have "sum_list (map (\<lambda>rel. length (the (hashes rel) @ ''  '' @ rel) + 1) (sort pins))
      = sum_list (map (\<lambda>rel. 67 + length rel) (sort pins))"
    by (intro arg_cong [where f = sum_list] map_cong) auto
  also have "\<dots> = 67 * length pins + sum_list (map length (sort pins))"
    by (simp add: sum_list_addf sum_list_triv)
  also have "sum_list (map length (sort pins)) = sum_list (map length pins)"
  proof -
    have "mset (map length (sort pins)) = mset (map length pins)" by simp
    then show ?thesis by (metis sum_mset_sum_list)
  qed
  finally show ?thesis unfolding length_join [OF ne] by (simp add: contract_lines_def o_def)
qed

lemma contract_splits:
  assumes "\<And>rel. rel \<in> set pins \<Longrightarrow> \<exists>d. hashes rel = Some d \<and> digest_ok d" "profile_ok pins header"
  shows "splitlines (join_with [newline] (contract_lines header hashes pins) @ [newline])
      = contract_lines header hashes pins"
proof -
  have "\<not> is_linebreak (CHR '' '')" by code_simp
  then have "no_breaks (the (hashes rel) @ ''  '' @ rel)" if "rel \<in> set pins" for rel
    using assms(1) [OF that] assms(2) that
    by (auto simp: no_breaks_def digest_ok_def no_space_def profile_ok_def list_all_iff dest: linebreak_space)
  moreover have "no_breaks header"
    using assms(2) by (auto simp: profile_ok_def no_space_def no_breaks_def list_all_iff dest: linebreak_space)
  ultimately show ?thesis by (intro splitlines_join) (auto simp: contract_lines_def list_all_iff)
qed

lemma contract_entries:
  assumes "\<And>rel. rel \<in> set pins \<Longrightarrow> \<exists>d. hashes rel = Some d \<and> digest_ok d" "profile_ok pins header"
  shows "layer_hashes (join_with [newline] (contract_lines header hashes pins) @ [newline]) = hashes |` set pins"
proof -
  have sp: "rel \<noteq> []" if "rel \<in> set pins" for rel
    using assms(2) that by (auto simp: profile_ok_def list_all_iff)
  have entry: "manifest_entry (the (hashes rel) @ ''  '' @ rel) = Some (rel, the (hashes rel))" if "rel \<in> set pins" for rel
    using assms(1) [OF that] sp [OF that] split_double_space [of "the (hashes rel)" "[]" rel]
    by (auto simp: manifest_entry_def digest_ok_def)
  have "manifest_entry header = None"
    using assms(2) by (simp add: manifest_entry_def profile_ok_def split_no_space)
  then have entries: "List.map_filter manifest_entry (contract_lines header hashes pins)
      = map (\<lambda>rel. (rel, the (hashes rel))) (sort pins)"
  proof -
    have "List.map_filter manifest_entry (map (\<lambda>rel. the (hashes rel) @ ''  '' @ rel) xs)
        = map (\<lambda>rel. (rel, the (hashes rel))) xs" if "set xs \<subseteq> set pins" for xs
      using that by (induction xs) (simp_all add: map_filter_simps entry [simplified])
    from this [of "sort pins"] \<open>manifest_entry header = None\<close> show ?thesis
      by (simp add: contract_lines_def map_filter_simps)
  qed
  have "map_of (rev (map (\<lambda>rel. (rel, the (hashes rel))) xs)) rel = (if rel \<in> set xs then Some (the (hashes rel)) else None)"
    for xs rel by (induction xs) (auto simp: map_add_def split: option.splits)
  note found = this
  have split: "splitlines (join_with [newline] (contract_lines header hashes pins) @ [newline])
      = contract_lines header hashes pins" by (rule contract_splits) (use assms in auto)
  show ?thesis unfolding layer_hashes_def split entries
    by (rule ext) (use assms(1) in \<open>fastforce simp: found restrict_map_def\<close>)
qed

text \<open>C39. The contract of either profile is written whenever the manifest carries every pinned path
  with a digest of 64 characters: stage 1's bounds on its lines and bytes can then not be missed. Read
  with the reader of the manifest, the contract pins exactly the paths of the profile, each to the
  digest the manifest gives it.\<close>

theorem root_contract_pins:
  assumes profile: "PROFILE_PINS profile = Some (pins, header)"
    and carried: "list_all (\<lambda>rel. case layer_hashes text rel of None \<Rightarrow> False | Some d \<Rightarrow> digest_ok d) pins"
  shows "\<exists>data. root_contract profile (Some text) = Inr data \<and> layer_hashes data = layer_hashes text |` set pins
    \<and> length (splitlines data) = length pins + 1"
proof -
  have "(pins, header) \<in> {(PINNED_PATHS, ''LIUQIN_GNOME_ROOT_CONTRACT_V1''),
      (NATIVE_PINNED_PATHS, ''LIUQIN_NATIVE_ROOT_CONTRACT_V1'')}"
    using profile by (auto simp: PROFILE_PINS_def split: if_splits)
  then have ok: "profile_ok pins header" "profile_sizes pins" "length header \<le> 50"
    using profiles_ok profiles_sizes by auto
  have h: "\<exists>d. layer_hashes text rel = Some d \<and> digest_ok d" if "rel \<in> set pins" for rel
    using carried that by (auto simp: list_all_iff split: option.splits)
  let ?lines = "contract_lines header (layer_hashes text) pins"
  let ?data = "join_with [newline] ?lines @ [newline]"
  have len: "length ?lines = length pins + 1" by (simp add: contract_lines_def)
  have "length ?data = length header + 1 + 67 * length pins + sum_list (map length pins)"
    by (rule contract_length) (rule h)
  then have bounds: "256 \<le> length ?data" "length ?data \<le> 16384" "10 \<le> length ?lines" "length ?lines \<le> 128"
    using ok(2,3) len by (simp_all add: profile_sizes_def)
  have all: "each (\<lambda>rel. require (layer_hashes text rel \<noteq> None) (NotCarried rel)) pins = Inr ()"
    using h by (fastforce simp: err_simps)
  have "root_contract profile (Some text) = Inr ?data"
    using ok(1) bounds len all by (simp add: root_contract_def profile profile_ok_def Let_def del: One_nat_def)
  moreover have "layer_hashes ?data = layer_hashes text |` set pins" by (rule contract_entries [OF h ok(1)])
  moreover have "splitlines ?data = ?lines" by (rule contract_splits [OF h ok(1)])
  ultimately show ?thesis using len by auto
qed

definition sample_manifest :: string where
  "sample_manifest = join_with [newline]
     (contract_lines ''LIUQIN_NATIVE_ROOT_CONTRACT_V1'' (\<lambda>_. Some (replicate 64 (CHR ''0''))) NATIVE_PINNED_PATHS) @ [newline]"

theorem root_contract_pins_witness:
  "\<exists>data. root_contract ''native'' (Some sample_manifest) = Inr data
     \<and> layer_hashes data ''/etc/liuqin-native-root'' = Some (replicate 64 (CHR ''0''))"
proof -
  have d: "digest_ok (replicate 64 (CHR ''0''))" by (simp add: digest_ok_def no_space_def list_all_iff plain_chars)
  have h: "layer_hashes sample_manifest = (\<lambda>_. Some (replicate 64 (CHR ''0''))) |` set NATIVE_PINNED_PATHS"
    unfolding sample_manifest_def by (rule contract_entries) (use d profiles_ok in auto)
  have p: "PROFILE_PINS ''native'' = Some (NATIVE_PINNED_PATHS, ''LIUQIN_NATIVE_ROOT_CONTRACT_V1'')"
    by (simp add: PROFILE_PINS_def)
  have "''/etc/liuqin-native-root'' \<in> set NATIVE_PINNED_PATHS" by (simp add: NATIVE_PINNED_PATHS_def)
  moreover have "list_all (\<lambda>rel. case layer_hashes sample_manifest rel of None \<Rightarrow> False | Some d \<Rightarrow> digest_ok d) NATIVE_PINNED_PATHS"
    using d by (simp add: h list_all_iff)
  from root_contract_pins [OF p this] obtain data where "root_contract ''native'' (Some sample_manifest) = Inr data"
    "layer_hashes data = layer_hashes sample_manifest |` set NATIVE_PINNED_PATHS" by blast
  ultimately show ?thesis using h by simp
qed

end
