(* ===== verification/DeviceTree.thy ===== *)
theory DeviceTree
  imports Effects PyRegexRules
begin

text \<open>
  What \<^verbatim>\<open>tools/lib/abl-dtb-ids.py\<close> and \<^verbatim>\<open>tools/lib/abl-symbols.py\<close> share: the host they
  run on, the calls of \<^verbatim>\<open>dtc\<close>, and searches in device tree source text. The device tree
  compiler is not part of the program: \<open>h_run\<close> is whatever it does to the world, and every call is
  recorded with what it returned.
\<close>

record dtc_run =
  returncode :: int
  stdout :: string
  stderr :: string

record 'w host =
  h_exists :: "string \<Rightarrow> 'w \<Rightarrow> bool"
  h_is_file :: "string \<Rightarrow> 'w \<Rightarrow> bool"
  h_is_dir :: "string \<Rightarrow> 'w \<Rightarrow> bool"
  h_iterdir :: "string \<Rightarrow> 'w \<Rightarrow> string list" \<comment> \<open>the names of the children\<close>
  h_resolve :: "string \<Rightarrow> 'w \<Rightarrow> string"
  h_run :: "string list \<Rightarrow> 'w \<Rightarrow> dtc_run \<times> 'w"
  h_write_text :: "string \<Rightarrow> string \<Rightarrow> 'w \<Rightarrow> unit \<times> 'w"

datatype dt_event =
    Dtc "string list" dtc_run
  | WriteText string string

datatype dt_error =
    Unavailable string
  | DtcFailed "string list" string
  | NoRootNode
  | NoMatch \<comment> \<open>\<^verbatim>\<open>AttributeError\<close> of \<^verbatim>\<open>None.group\<close>\<close>
  | SubstringNotFound \<comment> \<open>\<^verbatim>\<open>ValueError\<close> of \<^verbatim>\<open>str.index\<close>\<close>
  | UnclassifiedStock "string list"
  | NoIdentity
  | UnclassifiedBoot string
  | NotMirrored string
  | StillCarries string
  | StructuralChanged string
  | UnexpectedProps "string list"
  | SurgeryLeaked
  | NoNode string string
  | EmptyNode string string
  | NoOverlays
  | NoEntries string
  | WrongUnion nat
  | AlreadySymbols
  | NoEndOfRoot
  | BadRename string
  | RenameCount string nat
  | SymbolsMissing "string list"
  | SymbolsExtra "string list"
  | Mistargeted "string list"
  | NodeSurvived string
  | NodeAbsent string
  | NoSink
  | SinkCount nat
  | SinkLostPhandle
  | SinkGainedPhandle

definition run_dtc :: "'w host \<Rightarrow> string \<Rightarrow> string list \<Rightarrow> ('w, dt_event, dt_error, string) prog" where
  "run_dtc h dtc args =
     pbind (observe (Dtc args) (h_run h (dtc # args)))
       (\<lambda>p. if returncode p \<noteq> 0 then raise (DtcFailed args (strip (stderr p))) else ret (stdout p))"

definition decode_args :: "string \<Rightarrow> string list" where
  "decode_args path = [''-I'', ''dtb'', ''-O'', ''dts'', ''-@'', path]"

definition decode :: "'w host \<Rightarrow> string \<Rightarrow> string \<Rightarrow> ('w, dt_event, dt_error, string) prog" where
  "decode h dtc path = run_dtc h dtc (decode_args path)"

definition compile_args :: "string \<Rightarrow> string \<Rightarrow> string list" where
  "compile_args out dts = [''-I'', ''dts'', ''-O'', ''dtb'', ''-@'', ''-o'', out, dts]"

definition require_exists :: "'w host \<Rightarrow> string list \<Rightarrow> ('w, dt_event, dt_error, unit) prog" where
  "require_exists h paths =
     pseq (for_each (\<lambda>path. pbind (look (h_exists h path)) (\<lambda>b. check b (Unavailable path))) paths) (ret ())"

definition write_text :: "'w host \<Rightarrow> string \<Rightarrow> string \<Rightarrow> ('w, dt_event, dt_error, unit) prog" where
  "write_text h path text = observe (\<lambda>_. WriteText path text) (h_write_text h path text)"

text \<open>A printed tree: a call of \<^verbatim>\<open>dtc\<close> that succeeded and what it printed.\<close>

definition printed :: "string \<Rightarrow> string \<Rightarrow> dt_event \<Rightarrow> bool" where
  "printed path text ev \<longleftrightarrow>
     (\<exists>p. ev = Dtc (decode_args path) p \<and> returncode p = 0 \<and> stdout p = text)"

lemma runs_run_dtc [runs_simps]:
  "runs (run_dtc h dtc args) w t w' text \<longleftrightarrow>
     (\<exists>p. h_run h (dtc # args) w = (p, w') \<and> t = [Dtc args p] \<and> returncode p = 0 \<and> text = stdout p)"
  by (auto simp: run_dtc_def runs_simps)

lemma runs_decode:
  "runs (decode h dtc path) w t w' text \<Longrightarrow> \<exists>ev. t = [ev] \<and> printed path text ev"
  by (auto simp: decode_def runs_simps printed_def)

lemma runs_write_text [runs_simps]:
  "runs (write_text h path text) w t w' u \<longleftrightarrow> h_write_text h path text w = ((), w') \<and> t = [WriteText path text]"
  by (auto simp: write_text_def runs_simps)

lemma require_exists_quiet [run_simps]: "trace_of (require_exists h paths) w = []"
proof -
  have "trace_of (for_each (\<lambda>path. pbind (look (h_exists h path)) (\<lambda>b. check b (Unavailable path))) paths) w = []"
    by (induction paths arbitrary: w) (simp_all add: run_simps split: sum.splits)
  then show ?thesis by (auto simp: require_exists_def run_simps split: sum.splits)
qed

lemma runs_require_exists: "runs (require_exists h paths) w t w' u \<Longrightarrow> t = [] \<and> w' = w"
  unfolding require_exists_def
  by (auto simp: runs_simps dest!: runs_for_each_quiet)

subsection \<open>Searching text\<close>

text \<open>\<^verbatim>\<open>t.find(sub, pos)\<close> and \<^verbatim>\<open>t.rfind(sub)\<close>.\<close>

definition str_find :: "string \<Rightarrow> string \<Rightarrow> nat \<Rightarrow> nat option" where
  "str_find t sub pos = find (\<lambda>i. starts_with sub (drop i t)) [pos..<Suc (length t)]"

definition str_rfind :: "string \<Rightarrow> string \<Rightarrow> nat option" where
  "str_rfind t sub = find (\<lambda>i. starts_with sub (drop i t)) (rev [0..<Suc (length t)])"

definition tab :: char where
  "tab = CHR 0x09"

text \<open>\<^verbatim>\<open>[A-Za-z0-9_,.+-]\<close>, which both tools take property names from.\<close>

definition is_prop_char :: "char \<Rightarrow> bool" where
  "is_prop_char c \<longleftrightarrow> is_word c \<or> c = CHR '','' \<or> c = CHR ''.'' \<or> c = CHR ''+'' \<or> c = CHR ''-''"

end
