(* ===== verification/DtbIds.thy ===== *)
theory DtbIds
  imports DeviceTree
begin

text \<open>
  \<^verbatim>\<open>tools/lib/abl-dtb-ids.py\<close>: the root identity properties of a device tree that the boot
  loader accepts are copied onto the boot device tree. The definitions follow \<^verbatim>\<open>main\<close>: the stock
  tree's properties are read and classified, the boot tree's root properties are replaced in its
  text, \<^verbatim>\<open>dtc\<close> compiles it, and what \<^verbatim>\<open>dtc\<close> prints of the result is verified.
\<close>

definition MIRROR_PROPS :: "string list" where
  "MIRROR_PROPS = [''model'', ''compatible'', ''qcom,msm-id'', ''qcom,board-id'', ''qcom,pmic-id'',
     ''qcom,rtic-id'', ''xiaomi,miboard-id'']"

definition DELETE_PROPS :: "string list" where
  "DELETE_PROPS = [''chassis-type'']"

definition KEEP_PROPS :: "string list" where
  "KEEP_PROPS = [''interrupt-parent'', ''#address-cells'', ''#size-cells'', ''phandle'']"

subsection \<open>The root node's properties\<close>

definition root_re :: re where
  "root_re = rs [Bol, lit (''/ {'' @ [newline])]"

definition child_re :: re where
  "child_re = rs [Bol, lit [tab], Chr (\<lambda>c. c \<noteq> tab \<and> c \<noteq> newline), star (Chr (\<lambda>c. c \<noteq> newline)),
     lit ''{'', star space, Eol]"

definition root_region :: "string \<Rightarrow> dt_error + nat \<times> nat" where
  "root_region text =
     (case re_search_from root_re text 0 of
        None \<Rightarrow> Inl NoRootNode
      | Some (_, start, _) \<Rightarrow>
          (case re_search_from child_re text start of
             Some (first, _, _) \<Rightarrow> Inr (start, first)
           | None \<Rightarrow>
               (case str_find text (newline # ''};'') start of
                  None \<Rightarrow> Inl SubstringNotFound
                | Some stop \<Rightarrow> Inr (start, stop))))"

definition is_name_char :: "char \<Rightarrow> bool" where
  "is_name_char c \<longleftrightarrow> is_prop_char c \<or> c = CHR ''#''"

definition name_re :: re where
  "name_re = rs [lit [tab], Group 1 (plus (Chr is_name_char))]"

definition prop_re :: re where
  "prop_re = rs [lit [tab], Group 1 (plus (Chr is_name_char)),
     opt (rs [star space, lit ''='', star space, star dot]), lit '';'', star space, Eos]"

type_synonym props = "(string \<times> string) list"

definition parse_line :: "props \<Rightarrow> string \<Rightarrow> props" where
  "parse_line ps l =
     (case re_match prop_re l of None \<Rightarrow> ps | Some g \<Rightarrow> AList.update (the (g 1)) l ps)"

definition parse_props :: "string \<Rightarrow> props" where
  "parse_props region = foldl parse_line [] (splitlines region)"

definition region_of :: "string \<Rightarrow> nat \<times> nat \<Rightarrow> string" where
  "region_of text r = take (snd r - fst r) (drop (fst r) text)"

subsection \<open>\<^verbatim>\<open>main\<close>\<close>

definition stock_identity :: "string \<Rightarrow> dt_error + props" where
  "stock_identity stock =
     ebind (root_region stock) (\<lambda>r.
       let stock_props = parse_props (region_of stock r);
           unclassified = filter (\<lambda>n. n \<notin> set MIRROR_PROPS \<and> n \<notin> set KEEP_PROPS) (map fst stock_props)
       in ebind (require (unclassified = []) (UnclassifiedStock unclassified)) (\<lambda>_.
          ebind (require (''qcom,msm-id'' \<in> set (map fst stock_props)
                        \<and> ''qcom,board-id'' \<in> set (map fst stock_props)) NoIdentity) (\<lambda>_.
          Inr stock_props)))"

fun classify_props :: "props \<Rightarrow> props \<Rightarrow> string list \<Rightarrow> string list \<Rightarrow> dt_error + string list \<times> string list" where
  "classify_props stock_props [] kept deleted = Inr (kept, deleted)"
| "classify_props stock_props ((name, l) # ps) kept deleted =
     (if name \<in> set KEEP_PROPS then classify_props stock_props ps (kept @ [l]) deleted
      else if name \<in> set MIRROR_PROPS then
        (if name \<notin> set (map fst stock_props) then classify_props stock_props ps kept (deleted @ [name])
         else classify_props stock_props ps kept deleted)
      else if name \<in> set DELETE_PROPS then classify_props stock_props ps kept (deleted @ [name])
      else Inl (UnclassifiedBoot name))"

definition mirrored_lines :: "props \<Rightarrow> string list" where
  "mirrored_lines stock_props =
     map (\<lambda>n. the (map_of stock_props n)) (filter (\<lambda>n. n \<in> set (map fst stock_props)) MIRROR_PROPS)"

text \<open>The patched text, the kept lines, the deleted names and where the root's children start.\<close>

definition surgery :: "props \<Rightarrow> string \<Rightarrow> dt_error + string \<times> string list \<times> string list \<times> nat" where
  "surgery stock_props source =
     ebind (root_region source) (\<lambda>(start, stop).
       let boot_props = parse_props (region_of source (start, stop))
       in ebind (classify_props stock_props boot_props [] []) (\<lambda>(kept, deleted).
          Inr (take start source @ join_with [newline] (mirrored_lines stock_props @ kept) @ [newline]
                 @ drop stop source, kept, deleted, stop)))"

definition line_name :: "string \<Rightarrow> dt_error + string" where
  "line_name l = (case re_match name_re l of None \<Rightarrow> Inl NoMatch | Some g \<Rightarrow> Inr (the (g 1)))"

definition verify_mirrored :: "props \<Rightarrow> props \<Rightarrow> string \<Rightarrow> dt_error + unit" where
  "verify_mirrored stock_props out_props name =
     (if name \<in> set (map fst stock_props)
      then require (map_of out_props name = map_of stock_props name) (NotMirrored name)
      else require (name \<notin> set (map fst out_props)) (StillCarries name))"

definition verify_kept :: "props \<Rightarrow> string \<Rightarrow> dt_error + unit" where
  "verify_kept out_props l =
     ebind (line_name l) (\<lambda>name. require (map_of out_props name = Some l) (StructuralChanged name))"

definition verify_surgery :: "props \<Rightarrow> string list \<Rightarrow> string \<Rightarrow> string \<Rightarrow> dt_error + unit" where
  "verify_surgery stock_props kept below out =
     ebind (root_region out) (\<lambda>(out_start, out_end).
       let out_props = parse_props (region_of out (out_start, out_end))
       in ebind (each (verify_mirrored stock_props out_props) MIRROR_PROPS) (\<lambda>_.
          ebind (each (\<lambda>n. require (n \<notin> set (map fst out_props)) (StillCarries n)) DELETE_PROPS) (\<lambda>_.
          ebind (each (verify_kept out_props) kept) (\<lambda>_.
          ebind (mapM line_name kept) (\<lambda>kept_names.
          let extra = filter (\<lambda>n. n \<notin> set (map fst stock_props) \<and> n \<notin> set kept_names) (map fst out_props)
          in ebind (require (extra = []) (UnexpectedProps (sort extra))) (\<lambda>_.
             require (drop out_end out = below) SurgeryLeaked))))))"

record ids_args =
  boot_dtb :: string
  stock_dtb :: string
  ids_output :: string
  ids_dtc :: string

definition ids_main :: "'w host \<Rightarrow> string \<Rightarrow> ids_args \<Rightarrow> ('w, dt_event, dt_error, string list \<times> string list \<times> nat) prog" where
  "ids_main h tmp a =
     pseq (require_exists h [ids_dtc a, boot_dtb a, stock_dtb a])
     (pbind (decode h (ids_dtc a) (stock_dtb a)) (\<lambda>stock.
      pbind (lift (stock_identity stock)) (\<lambda>stock_props.
      pbind (decode h (ids_dtc a) (boot_dtb a)) (\<lambda>source.
      pbind (lift (surgery stock_props source)) (\<lambda>(patched, kept, deleted, stop).
      let dts_path = tmp @ ''/boot-with-stock-ids.dts''
      in pseq (write_text h dts_path patched)
        (pseq (run_dtc h (ids_dtc a) (compile_args (ids_output a) dts_path))
        (pbind (decode h (ids_dtc a) (ids_output a)) (\<lambda>out.
         pseq (lift (verify_surgery stock_props kept (drop stop source) out))
         (ret (filter (\<lambda>n. n \<in> set (map fst stock_props)) MIRROR_PROPS, sort deleted, length kept)))))))))) "

subsection \<open>Property lines\<close>

lemma name_char_not [simp]:
  "is_space c \<Longrightarrow> \<not> is_name_char c" "\<not> is_name_char (CHR '';'')" "\<not> is_name_char (CHR ''='')"
proof -
  show "\<not> is_name_char c" if "is_space c"
    using that by (auto simp: is_space_def Let_def is_name_char_def is_prop_char_def is_word_def is_digit_def less_eq_char_def)
  show "\<not> is_name_char (CHR '';'')" "\<not> is_name_char (CHR ''='')" by code_simp+
qed

lemma value_re_ends:
  assumes "(b, d) \<in> set (matches (opt (rs [star space, lit ''='', star space, star dot])) l a c)"
  shows "d = c \<and> a \<le> b \<and> (b = a \<or> a < length l \<and> (is_space (l ! a) \<or> l ! a = CHR ''=''))"
proof (cases "b = a \<and> d = c")
  case False
  then have "(b, d) \<in> set (matches (rs [star space, lit ''='', star space, star dot]) l a c)"
    using assms by (auto simp: opt_def simp del: matches_rs)
  then obtain k e where k: "(k, e) \<in> set (matches (star space) l a c)" "k < length l" "l ! k = CHR ''=''"
      "(b, d) \<in> set (matches (rs [star space, star dot]) l (Suc k) e)"
    by (auto simp: in_matches_rs matches_lit_take starts_with_single simp del: matches_rs split: if_splits)
  then have "a \<le> k" "a = k \<or> is_space (l ! a)" "e = c" by (auto simp: in_matches_spaces)
  moreover have "Suc k \<le> b" "d = e" using matches_ge [OF k(4)] matches_caps [OF k(4)] by simp_all
  ultimately show ?thesis using k(2,3) by auto
qed simp

lemma spaces_to_end:
  assumes "(j, d) \<in> set (matches (rs [star space, Eos]) l b c)"
  shows "d = c \<and> (\<forall>i. b \<le> i \<and> i < length l \<longrightarrow> is_space (l ! i))"
proof -
  have nl: "is_space newline" by code_simp
  from assms have "d = c" "b \<le> j" "b = j \<or> j \<le> length l \<and> (\<forall>i. b \<le> i \<and> i < j \<longrightarrow> is_space (l ! i))"
    "j = length l \<or> (Suc j = length l \<and> l ! j = newline)"
    by (auto simp: in_matches simp del: matches_rs split: if_splits)
  then show ?thesis using nl by (metis less_Suc_eq linorder_not_less)
qed

lemma prop_re_ends:
  assumes "(j, c) \<in> set (matches prop_re l 0 [])"
  shows "\<exists>k m. 1 < k \<and> k \<le> m \<and> m < length l \<and> l ! 0 = tab \<and> (\<forall>i. 1 \<le> i \<and> i < k \<longrightarrow> is_name_char (l ! i))
    \<and> \<not> is_name_char (l ! k) \<and> c = [(1, take (k - 1) (drop 1 l))]
    \<and> l ! m = CHR '';'' \<and> (\<forall>i. m < i \<and> i < length l \<longrightarrow> is_space (l ! i))"
proof -
  let ?c = "\<lambda>k. [(1, take (k - 1) (drop 1 l))]"
  from assms obtain k m d where name: "l ! 0 = tab" "1 < k" "k \<le> length l" "\<forall>i. 1 \<le> i \<and> i < k \<longrightarrow> is_name_char (l ! i)"
    and val: "(m, d) \<in> set (matches (opt (rs [star space, lit ''='', star space, star dot])) l k (?c k))"
    and semi: "m < length l" "l ! m = CHR '';''"
    and fin: "(j, c) \<in> set (matches (rs [star space, Eos]) l (Suc m) d)"
    unfolding prop_re_def in_matches_rs(2) [where r = "lit [tab]"] in_matches_rs(2) [where r = "Group 1 X" for X]
      in_matches_rs(2) [where r = "opt X" for X] in_matches_rs(2) [where r = "lit '';''"]
    by (auto simp: in_matches_Group in_matches_plus matches_lit_take starts_with_single starts_with_single_0
        simp del: matches_rs matches_lit split: if_splits)
  have "d = ?c k" "k \<le> m" "m = k \<or> k < length l \<and> (is_space (l ! k) \<or> l ! k = CHR ''='')"
    using value_re_ends [OF val] by auto
  moreover have "c = d" "\<forall>i. Suc m \<le> i \<and> i < length l \<longrightarrow> is_space (l ! i)"
    using spaces_to_end [OF fin] by auto
  ultimately show ?thesis using name semi
    by (intro exI [of _ k] exI [of _ m]) (auto simp: Suc_le_eq)
qed

definition prop_line :: "string \<Rightarrow> string \<Rightarrow> bool" where
  "prop_line n l \<longleftrightarrow> n \<noteq> [] \<and> list_all is_name_char n
     \<and> (\<exists>v. l = tab # n @ v \<and> v \<noteq> [] \<and> stops is_name_char v \<and> (\<exists>x s. v = x @ CHR '';'' # s \<and> list_all is_space s))"

lemma prop_line_shape:
  assumes "1 < k" "k \<le> m" "m < length l" "l ! 0 = tab" "\<forall>i. 1 \<le> i \<and> i < k \<longrightarrow> is_name_char (l ! i)"
    "\<not> is_name_char (l ! k)" "l ! m = CHR '';''" "\<forall>i. m < i \<and> i < length l \<longrightarrow> is_space (l ! i)"
  shows "prop_line (take (k - 1) (drop 1 l)) l"
proof -
  let ?n = "take (k - 1) (drop 1 l)" and ?v = "drop k l"
  have "l = tab # ?n @ ?v"
    using assms(1-4) by (cases l) (auto simp: drop_Cons' )
  moreover have "list_all is_name_char ?n" using assms(1-3,5) by (auto simp: list_all_length)
  moreover have "?n \<noteq> []" using assms(1-3) by auto
  moreover have "?v = l ! k # drop (Suc k) l" using assms(2,3) by (simp add: Cons_nth_drop_Suc)
  moreover have "?v = take (m - k) ?v @ CHR '';'' # drop (Suc m) l"
    using assms(2,3,7) id_take_nth_drop [of "m - k" ?v] by simp
  moreover have "list_all is_space (drop (Suc m) l)" using assms(8) by (auto simp: list_all_length)
  ultimately show ?thesis using assms(6) unfolding prop_line_def
    by (metis list.distinct(1) stops_simps(2))
qed

lemma prop_match:
  assumes "re_match prop_re l = Some g"
  shows "\<exists>n. prop_line n l \<and> g = [1 \<mapsto> n]"
proof -
  obtain j c where "(j, c) \<in> set (matches prop_re l 0 [])" "g = map_of c"
    using assms by (cases "matches prop_re l 0 []") (auto simp: re_match_def first_match_def)
  moreover from prop_re_ends [OF calculation(1)] obtain k m where km: "1 < k" "k \<le> m" "m < length l" "l ! 0 = tab"
      "\<forall>i. 1 \<le> i \<and> i < k \<longrightarrow> is_name_char (l ! i)" "\<not> is_name_char (l ! k)" "c = [(1, take (k - 1) (drop 1 l))]"
      "l ! m = CHR '';''" "\<forall>i. m < i \<and> i < length l \<longrightarrow> is_space (l ! i)"
    by blast
  ultimately show ?thesis using prop_line_shape [OF km(1-6,8,9)] by auto
qed

lemma line_name_prop:
  assumes "prop_line n l"
  shows "line_name l = Inr n"
proof -
  obtain v where v: "l = tab # n @ v" "stops is_name_char v" "n \<noteq> []" "list_all is_name_char n"
    using assms by (auto simp: prop_line_def)
  have "consumes (plus (Chr is_name_char)) [tab] v [] n []"
    using v by (intro consumes_plus)
  then have "consumes (Group 1 (plus (Chr is_name_char))) [tab] ([] @ v) [] n (AList.update 1 n [])"
    by (intro consumes_Group) simp
  from consumes_Cons [OF this consumes_Nil]
  have "consumes (rs [Group 1 (plus (Chr is_name_char))]) ([] @ [tab]) v [] (n @ []) (AList.update 1 n [])" by simp
  from consumes_Cons [OF consumes_lit this]
  have "consumes name_re [] v [] ([tab] @ n @ []) (AList.update 1 n [])" by (simp add: name_re_def)
  from re_match_consumes [OF this] show ?thesis using v(1) by (simp add: line_name_def)
qed

lemma prop_line_unique: "prop_line n l \<Longrightarrow> prop_line m l \<Longrightarrow> m = n"
  using line_name_prop [of n l] line_name_prop [of m l] by simp

text \<open>What \<^verbatim>\<open>parse_props\<close> returns: every line with the name it starts with.\<close>

definition props_ok :: "props \<Rightarrow> bool" where
  "props_ok ps \<longleftrightarrow> distinct (map fst ps) \<and> (\<forall>(n, l) \<in> set ps. prop_line n l \<and> re_match prop_re l = Some [1 \<mapsto> n])"

lemma props_ok_line: "props_ok ps \<Longrightarrow> (n, l) \<in> set ps \<Longrightarrow> prop_line n l \<and> re_match prop_re l = Some [1 \<mapsto> n]"
  by (auto simp: props_ok_def)

lemma props_ok_parse: "props_ok (parse_props region)"
proof -
  have "props_ok (foldl parse_line ps ls)" if "props_ok ps" for ps ls
    using that
  proof (induction ls arbitrary: ps)
    case (Cons l ls)
    have "props_ok (parse_line ps l)"
    proof (cases "re_match prop_re l")
      case (Some g)
      then obtain n where n: "prop_line n l" "g = [1 \<mapsto> n]" using prop_match by blast
      have "set (AList.update n l ps) \<subseteq> insert (n, l) (set ps)"
        by (induction ps) auto
      then show ?thesis using Cons.prems Some n
        by (auto simp: props_ok_def parse_line_def distinct_update)
    qed (simp add: parse_line_def Cons.prems)
    then show ?case using Cons.IH by simp
  qed simp
  moreover have "props_ok []" by (simp add: props_ok_def)
  ultimately show ?thesis by (simp add: parse_props_def)
qed

subsection \<open>What a successful run has verified\<close>

definition root_props :: "string \<Rightarrow> (string \<Rightarrow> string option) option" where
  "root_props text = (case root_region text of Inl _ \<Rightarrow> None | Inr r \<Rightarrow> Some (map_of (parse_props (region_of text r))))"

definition below_root :: "string \<Rightarrow> string option" where
  "below_root text = (case root_region text of Inl _ \<Rightarrow> None | Inr r \<Rightarrow> Some (drop (snd r) text))"

text \<open>
  The output tree presents the stock tree's identity on top of the boot tree: \<open>s\<close>, \<open>b\<close> and \<open>p\<close> are
  the root properties of the stock tree, the boot tree and the output.
\<close>

definition identity_of :: "(string \<Rightarrow> string option) \<Rightarrow> (string \<Rightarrow> string option) \<Rightarrow> (string \<Rightarrow> string option) \<Rightarrow> bool" where
  "identity_of s b p \<longleftrightarrow>
     (\<forall>n \<in> set MIRROR_PROPS. p n = s n) \<and> (\<forall>n \<in> set DELETE_PROPS. p n = None)
     \<and> (\<forall>n \<in> set KEEP_PROPS. b n \<noteq> None \<longrightarrow> p n = b n)
     \<and> dom p \<subseteq> dom s \<union> (dom b \<inter> set KEEP_PROPS)"

definition same_identity :: "string \<Rightarrow> string \<Rightarrow> string \<Rightarrow> bool" where
  "same_identity stock source out \<longleftrightarrow>
     (case (root_props stock, root_props source, root_props out) of
        (Some s, Some b, Some p) \<Rightarrow> identity_of s b p \<and> below_root out = below_root source
      | _ \<Rightarrow> False)"

lemma classify_props_Inr:
  assumes "classify_props sp ps kept deleted = Inr (kept', deleted')"
  shows "kept' = kept @ map snd (filter (\<lambda>(n, l). n \<in> set KEEP_PROPS) ps)"
    and "fst ` set ps \<subseteq> set KEEP_PROPS \<union> set MIRROR_PROPS \<union> set DELETE_PROPS"
  using assms by (induction sp ps kept deleted rule: classify_props.induct) (auto split: if_splits)

lemma stock_identity_Inr:
  assumes "stock_identity stock = Inr sp"
  shows "\<exists>r. root_region stock = Inr r \<and> sp = parse_props (region_of stock r)"
    "set (map fst sp) \<subseteq> set MIRROR_PROPS \<union> set KEEP_PROPS"
    "''qcom,msm-id'' \<in> set (map fst sp)" "''qcom,board-id'' \<in> set (map fst sp)"
  using assms by (auto simp: stock_identity_def err_simps Let_def filter_empty_conv)

lemma surgery_Inr:
  assumes "surgery sp source = Inr (patched, kept, deleted, stop)"
  shows "\<exists>start bp. root_region source = Inr (start, stop) \<and> bp = parse_props (region_of source (start, stop))
    \<and> classify_props sp bp [] [] = Inr (kept, deleted)
    \<and> patched = take start source @ join_with [newline] (mirrored_lines sp @ kept) @ [newline] @ drop stop source"
  using assms by (auto simp: surgery_def err_simps Let_def split: prod.splits)

lemma kept_line:
  assumes "props_ok bp" "l \<in> set (map snd (filter (\<lambda>(n, l). n \<in> set KEEP_PROPS) bp))"
  shows "\<exists>n. prop_line n l \<and> n \<in> set KEEP_PROPS \<and> map_of bp n = Some l"
proof -
  obtain n where "(n, l) \<in> set bp" "n \<in> set KEEP_PROPS" using assms(2) by auto
  then show ?thesis using assms(1) props_ok_line [OF assms(1)]
    by (auto simp: props_ok_def)
qed

lemma verify_surgery_identity:
  assumes v: "verify_surgery sp kept below out = Inr ()"
    and kept: "kept = map snd (filter (\<lambda>(n, l). n \<in> set KEEP_PROPS) bp)" and ok: "props_ok bp"
  shows "\<exists>r. root_region out = Inr r \<and> identity_of (map_of sp) (map_of bp) (map_of (parse_props (region_of out r)))
    \<and> drop (snd r) out = below"
proof -
  from v obtain a b where r: "root_region out = Inr (a, b)"
    and rest: "drop b out = below"
      "each (verify_mirrored sp (parse_props (region_of out (a, b)))) MIRROR_PROPS = Inr ()"
      "each (\<lambda>n. require (n \<notin> set (map fst (parse_props (region_of out (a, b))))) (StillCarries n)) DELETE_PROPS = Inr ()"
      "each (verify_kept (parse_props (region_of out (a, b)))) kept = Inr ()"
    and names: "\<exists>ns. mapM line_name kept = Inr ns
      \<and> filter (\<lambda>n. n \<notin> set (map fst sp) \<and> n \<notin> set ns) (map fst (parse_props (region_of out (a, b)))) = []"
    by (auto simp: verify_surgery_def err_simps Let_def)
  let ?p = "parse_props (region_of out (a, b))"
  have m: "map_of ?p n = map_of sp n" if "n \<in> set MIRROR_PROPS" for n
  proof -
    have "verify_mirrored sp ?p n = Inr ()" using rest(2) that by (simp add: each_Inr)
    then show ?thesis by (cases "n \<in> set (map fst sp)")
      (simp_all add: verify_mirrored_def require_Inr map_of_eq_None_iff [THEN iffD2])
  qed
  have d: "map_of ?p n = None" if "n \<in> set DELETE_PROPS" for n
    using rest(3) that unfolding each_Inr require_Inr by (simp add: map_of_eq_None_iff)
  have k: "map_of ?p n = map_of bp n" if "n \<in> set KEEP_PROPS" "map_of bp n = Some l" for n l
  proof -
    have l: "(n, l) \<in> set bp" using that(2) by (rule map_of_SomeD)
    then have "l \<in> set kept" using that(1) kept by (force simp: image_iff)
    then have "verify_kept ?p l = Inr ()" using rest(4) by (simp add: each_Inr)
    then show ?thesis using line_name_prop [of n l] props_ok_line [OF ok l] that(2)
      by (simp add: verify_kept_def require_Inr)
  qed
  have "dom (map_of ?p) \<subseteq> dom (map_of sp) \<union> (dom (map_of bp) \<inter> set KEEP_PROPS)"
  proof
    fix n assume n: "n \<in> dom (map_of ?p)"
    obtain ns where ns1: "list_all2 (\<lambda>l n. line_name l = Inr n) kept ns"
      and all: "filter (\<lambda>n. n \<notin> set (map fst sp) \<and> n \<notin> set ns) (map fst ?p) = []"
      using names by (auto simp: mapM_Inr)
    have "n \<in> set (map fst ?p)" using n by (simp add: dom_map_of_conv_image_fst)
    then have ns: "n \<in> set (map fst sp) \<or> n \<in> set ns" using all unfolding filter_empty_conv by blast
    show "n \<in> dom (map_of sp) \<union> (dom (map_of bp) \<inter> set KEEP_PROPS)"
    proof (cases "n \<in> set (map fst sp)")
      case True
      then show ?thesis by (simp add: dom_map_of_conv_image_fst)
    next
      case False
      then obtain i where i: "i < length kept" "line_name (kept ! i) = Inr n"
        using ns1 ns by (auto simp: list_all2_conv_all_nth in_set_conv_nth)
      then obtain n' where "prop_line n' (kept ! i)" "n' \<in> set KEEP_PROPS" "map_of bp n' = Some (kept ! i)"
        using kept_line [OF ok, of "kept ! i"] kept by (metis nth_mem)
      then show ?thesis using i(2) line_name_prop [of n'] by auto
    qed
  qed
  then show ?thesis using r rest(1) m d k unfolding identity_of_def by fastforce
qed


lemma ids_main_verified:
  assumes "result_of (ids_main h tmp a) w = Inr report"
  shows "\<exists>stock source patched out e1 e2 p e3.
    trace_of (ids_main h tmp a) w = [e1, e2, WriteText (tmp @ ''/boot-with-stock-ids.dts'') patched,
       Dtc (compile_args (ids_output a) (tmp @ ''/boot-with-stock-ids.dts'')) p, e3]
    \<and> printed (stock_dtb a) stock e1 \<and> printed (boot_dtb a) source e2 \<and> returncode p = 0
    \<and> printed (ids_output a) out e3 \<and> same_identity stock source out"
proof -
  have id: "same_identity stock source out"
    if st: "stock_identity stock = Inr sp" and su: "surgery sp source = Inr (patched, kept, deleted, stop)"
      and v: "verify_surgery sp kept (drop stop source) out = Inr ()"
    for stock source out sp patched kept deleted stop
  proof -
    obtain r where r: "root_region stock = Inr r" "sp = parse_props (region_of stock r)"
      using stock_identity_Inr(1) [OF st] by blast
    obtain start bp where b: "root_region source = Inr (start, stop)" "bp = parse_props (region_of source (start, stop))"
        "classify_props sp bp [] [] = Inr (kept, deleted)"
      using surgery_Inr [OF su] by blast
    have "kept = map snd (filter (\<lambda>(n, l). n \<in> set KEEP_PROPS) bp)" using classify_props_Inr(1) [OF b(3)] by simp
    from verify_surgery_identity [OF v this] b(2) props_ok_parse
    obtain ro where "root_region out = Inr ro" "drop (snd ro) out = drop stop source"
        "identity_of (map_of sp) (map_of bp) (map_of (parse_props (region_of out ro)))" by blast
    then show ?thesis using r b by (simp add: same_identity_def root_props_def below_root_def)
  qed
  from runsI [OF assms] show ?thesis
    unfolding ids_main_def Let_def
    by (auto simp: runs_simps split: prod.splits dest!: runs_decode runs_require_exists)
      (blast intro: id)
qed

subsection \<open>The patched text is read back\<close>

text \<open>A property line is never the line of a child node.\<close>

lemma child_re_line:
  assumes l: "prop_line n l" "newline \<notin> set l"
  shows "matches child_re (u @ l @ newline # z) (length u) [] = []"
proof (rule ccontr)
  let ?t = "u @ l @ newline # z" and ?u = "length u"
  assume "matches child_re ?t ?u [] \<noteq> []"
  then obtain j c where "(j, c) \<in> set (matches child_re ?t ?u [])" using matches_not_Nil by blast
  then obtain k q d e where
      c1: "(k, d) \<in> set (matches (star (Chr (\<lambda>c. c \<noteq> newline))) ?t (Suc (Suc ?u)) [])"
    and c2: "?t ! k = CHR ''{''" "(q, e) \<in> set (matches (star space) ?t (Suc k) d)"
    and c3: "q = length ?t \<or> (q < length ?t \<and> ?t ! q = newline)"
    unfolding child_re_def
    by (simp add: in_chain del: matches_rs matches_lit matches.simps) blast
  from l(1) obtain v x s where v: "n \<noteq> []" "l = tab # n @ x @ CHR '';'' # s" "list_all is_space s"
    by (auto simp: prop_line_def)
  let ?m = "?u + (1 + length n + length x)"
  have m: "?t ! ?m = CHR '';''" using v(2) by (simp add: nth_append)
  have inl: "?t ! i = l ! (i - ?u)" if "?u \<le> i" "i < ?u + length l" for i
  proof -
    have "i - ?u < length l" using that by linarith
    then show ?thesis using that by (simp add: nth_append)
  qed
  have after: "is_space (?t ! i)" if "?m < i" "i < ?u + length l" for i
  proof -
    from less_imp_Suc_add [OF that(1)] obtain j where "i = Suc (?m + j)" by blast
    then have j: "i = length (u @ tab # n @ x @ [CHR '';'']) + j" by simp
    have "?t = (u @ tab # n @ x @ [CHR '';'']) @ s @ newline # z" using v(2) by simp
    then have "?t ! i = (s @ newline # z) ! j" unfolding j by (metis nth_append_length_plus)
    moreover have "j < length s" using that(2) j v(2) by simp
    ultimately show ?thesis using v(3) by (simp add: nth_append list_all_length)
  qed
  have line: "?t ! i \<noteq> newline" if "?u \<le> i" "i < ?u + length l" for i
  proof -
    have "i - ?u < length l" using that by linarith
    then show ?thesis using l(2) inl [OF that] nth_mem by metis
  qed
  have nl: "?t ! (?u + length l) = newline" by (simp add: nth_append)
  have atoms: "CHR ''{'' \<noteq> newline" "\<not> is_space (CHR ''{'')" "\<not> is_space (CHR '';'')"
    by code_simp+
  have k: "Suc (Suc ?u) \<le> k" "\<forall>i. Suc (Suc ?u) \<le> i \<and> i < k \<longrightarrow> ?t ! i \<noteq> newline"
    using c1 by (auto simp: in_matches_star)
  have "k < ?u + length l"
  proof (rule ccontr)
    assume "\<not> k < ?u + length l"
    then have "?u + length l = k \<or> Suc (Suc ?u) \<le> ?u + length l \<and> ?u + length l < k" using v(1,2) by (cases n) auto
    then show False using nl c2(1) atoms(1) k(2) by metis
  qed
  have q: "Suc k \<le> q" "\<forall>i. Suc k \<le> i \<and> i < q \<longrightarrow> is_space (?t ! i)"
    using c2(2) by (auto simp: in_matches_spaces)
  consider "k < ?m" | "k = ?m" | "?m < k" by linarith
  then show False
  proof cases
    case 1
    then show ?thesis
      using q line [of q] c3 k(1) m atoms(3) v(2) by (cases "q \<le> ?m") (auto simp: Suc_le_eq)
  next
    case 3
    then show ?thesis using after [of k] \<open>k < ?u + length l\<close> c2(1) atoms(2) by simp
  qed (use m c2(1) in simp)
qed


lemma child_re_inside:
  assumes "newline \<notin> set l" "0 < k" "k \<le> length l"
  shows "matches child_re (u @ l @ newline # z) (length u + k) [] = []"
proof -
  have "(u @ l @ newline # z) ! (length u + k - 1) = l ! (k - 1)"
    using assms(2,3) by (cases k) (simp_all add: nth_append)
  moreover have "l ! (k - 1) \<noteq> newline" using assms nth_mem [of "k - 1" l] by (metis Suc_le_lessD Suc_pred' diff_Suc_1)
  ultimately have "matches Bol (u @ l @ newline # z) (length u + k) [] = []" using assms(2) by simp
  then show ?thesis unfolding child_re_def matches_rs(2) by simp
qed

lemma child_re_lines:
  assumes "\<forall>l \<in> set ls. newline \<notin> set l \<and> (\<exists>n. prop_line n l)"
  shows "k < length (unlines ls) \<Longrightarrow> matches child_re (u @ unlines ls @ z) (length u + k) [] = []"
  using assms
proof (induction ls arbitrary: u k)
  case (Cons l ls)
  have t: "u @ unlines (l # ls) @ z = u @ l @ newline # unlines ls @ z"
    "u @ unlines (l # ls) @ z = (u @ l @ [newline]) @ unlines ls @ z"
    by (simp_all add: unlines_def)
  consider "k = 0" | "0 < k" "k \<le> length l" | k' where "k = length (l @ [newline]) + k'"
    by (metis add.commute le_Suc_ex length_append_singleton neq0_conv not_less_eq_eq)
  then show ?case
  proof cases
    case 1
    then show ?thesis using Cons.prems child_re_line [of _ l u "unlines ls @ z"] unfolding t(1) by auto
  next
    case 2
    then show ?thesis using Cons.prems child_re_inside [of l k u] unfolding t(1) by simp
  next
    case 3
    then have "k' < length (unlines ls)" using Cons.prems(1) by (simp add: unlines_def)
    from Cons.IH [OF this, of "u @ l @ [newline]"] show ?thesis
      using Cons.prems(2) 3 unfolding t(2) by (simp add: add.assoc)
  qed
qed (simp add: unlines_def)

lemma find_lines:
  assumes "\<forall>l \<in> set ls. \<exists>n. prop_line n l" "list_all (\<lambda>l. newline \<notin> set l) ls"
  shows "k < length (unlines ls) \<Longrightarrow> z = [] \<or> hd z \<noteq> CHR ''}'' \<Longrightarrow>
    \<not> starts_with (newline # ''};'') (drop (length u + k) (u @ unlines ls @ z))"
  using assms
proof (induction ls arbitrary: u k)
  case (Cons l ls)
  consider "k < length l" | "k = length l" | k' where "k = length (l @ [newline]) + k'"
    by (metis add.commute le_Suc_ex length_append_singleton linorder_neqE_nat Suc_leI)
  then show ?case
  proof cases
    case 1
    then have "l ! k \<noteq> newline" using Cons.prems(4) nth_mem [of k l] by (metis list.pred_inject(2))
    moreover have "drop (length u + k) (u @ unlines (l # ls) @ z) = l ! k # drop (Suc k) l @ newline # unlines ls @ z"
      using 1 by (simp add: unlines_def Cons_nth_drop_Suc)
    ultimately show ?thesis by (simp add: starts_with_def)
  next
    case 2
    have d: "drop (length u + k) (u @ unlines (l # ls) @ z) = newline # unlines ls @ z"
      using 2 by (simp add: unlines_def)
    have "\<exists>c y. unlines ls @ z = c # y \<and> c \<noteq> CHR ''}'' \<or> unlines ls @ z = []"
    proof (cases ls)
      case Nil
      then show ?thesis using Cons.prems(2) by (cases z) (simp_all add: unlines_def)
    next
      case (Cons l' ls')
      have "tab \<noteq> CHR ''}''" by code_simp
      then show ?thesis using Cons.prems(3) Cons by (auto simp: prop_line_def unlines_def)
    qed
    then have "\<not> starts_with (newline # ''};'') (newline # unlines ls @ z)"
      by (elim exE disjE conjE) (simp_all only: starts_with_def, simp_all)
    then show ?thesis by (simp only: d not_False_eq_True)
  next
    case 3
    then have "k' < length (unlines ls)" using Cons.prems(1) by (simp add: unlines_def)
    from Cons.IH [OF this Cons.prems(2), of "u @ l @ [newline]"] show ?thesis
      using Cons.prems(3,4) 3 by (simp add: unlines_def)
  qed
qed (simp add: unlines_def)

lemma matches_root_re:
  "matches root_re t i [] = (if (i = 0 \<or> (i \<le> length t \<and> t ! (i - 1) = newline)) \<and> starts_with (''/ {'' @ [newline]) (drop i t)
     then [(i + 4, [])] else [])"
  unfolding root_re_def by (auto simp: matches_lit_take simp del: matches_lit)

lemma child_re_context:
  assumes "matches child_re t i [] \<noteq> []"
  shows "ends_line (take i t)" "i < length t" "t ! i = tab"
proof -
  have bol: "i = 0 \<or> t ! (i - 1) = newline" and i: "i < length t" and tab: "t ! i = tab"
    using matches_not_Nil [OF assms] unfolding child_re_def
    by (auto simp: in_chain simp del: matches_rs matches_lit)
  have "last (take i t) = t ! (i - 1)" if "0 < i"
    using that i by (subst last_conv_nth) auto
  then show "ends_line (take i t)" "i < length t" "t ! i = tab" using bol i tab by (auto simp: ends_line_def)
qed

lemma root_region_Inr:
  assumes "root_region t = Inr (start, stop)"
  shows "\<exists>i. start = i + 4 \<and> re_search_from root_re t 0 = Some (i, start, Map.empty)" "start \<le> stop" "stop \<le> length t"
    "matches child_re t stop [] \<noteq> [] \<and> (\<forall>k. start \<le> k \<and> k < stop \<longrightarrow> matches child_re t k [] = []) \<or>
     (\<forall>k. start \<le> k \<and> k \<le> length t \<longrightarrow> matches child_re t k [] = [])
       \<and> starts_with (newline # ''};'') (drop stop t)"
proof -
  from assms obtain i g where r: "re_search_from root_re t 0 = Some (i, start, g)"
    by (auto simp: root_region_def split: option.splits prod.splits)
  then show "\<exists>i. start = i + 4 \<and> re_search_from root_re t 0 = Some (i, start, Map.empty)"
    by (auto simp: search_from_Some matches_root_re split: if_splits)
  show "start \<le> stop" "stop \<le> length t"
    "matches child_re t stop [] \<noteq> [] \<and> (\<forall>k. start \<le> k \<and> k < stop \<longrightarrow> matches child_re t k [] = []) \<or>
     (\<forall>k. start \<le> k \<and> k \<le> length t \<longrightarrow> matches child_re t k [] = [])
       \<and> starts_with (newline # ''};'') (drop stop t)"
    using assms r
    by (auto simp: root_region_def search_from_Some search_from_None str_find_def find_upt simp del: upt_Suc split: option.splits)
qed

lemma root_search_edit:
  assumes "re_search_from root_re t 0 = Some (i, start, Map.empty)" "start = i + 4"
    and same: "take start p = take start t" and len: "start \<le> length p" "start \<le> length t"
  shows "re_search_from root_re p 0 = Some (i, start, Map.empty)"
proof -
  have m: "matches root_re p k [] = matches root_re t k []" if "k \<le> i" for k
  proof -
    have "starts_with (''/ {'' @ [newline]) (drop k p) \<longleftrightarrow> starts_with (''/ {'' @ [newline]) (drop k t)"
      using that assms(2) same by (intro starts_with_take) simp_all
    moreover have "k = 0 \<or> p ! (k - 1) = t ! (k - 1)"
    proof (cases k)
      case (Suc m)
      then have "m < start" using that assms(2) by simp
      then show ?thesis using nth_take [of m start p] nth_take [of m start t] same Suc by simp
    qed simp
    moreover have "k \<le> length p" "k \<le> length t" using that assms(2) len by simp_all
    ultimately show ?thesis unfolding matches_root_re by auto
  qed
  have "i \<le> length p" using assms(2) len by simp
  with assms(1) m show ?thesis unfolding search_from_Some by auto
qed

lemma root_line_ends:
  assumes "re_search_from root_re t 0 = Some (i, start, Map.empty)" "start = i + 4"
  shows "ends_line (take start t @ unlines ls)"
proof (cases ls)
  case Nil
  have "matches root_re t i [] \<noteq> []" using assms(1) by (auto simp: search_from_Some)
  then have "take 4 (drop i t) = ''/ {'' @ [newline]"
    by (simp add: matches_root_re starts_with_def eval_nat_numeral split: if_splits)
  moreover have "take start t = take i t @ take 4 (drop i t)" unfolding assms(2) by (rule take_add)
  ultimately show ?thesis using Nil by (simp add: unlines_def ends_line_def)
next
  case (Cons l ls')
  have "unlines xs = [] \<or> last (unlines xs) = newline" for xs
    by (induction xs rule: rev_induct) (simp_all add: unlines_def)
  moreover have "unlines ls \<noteq> []" using Cons by (simp add: unlines_def)
  ultimately show ?thesis by (auto simp: ends_line_def)
qed

lemma child_re_shift:
  "ends_line v \<Longrightarrow> matches child_re (v @ s) (length v + k) [] = [] \<longleftrightarrow> matches child_re s k [] = []"
  using matches_prepend [of v child_re s k "[]"] by (simp add: child_re_def)

text \<open>New lines before the first child: the search still finds the child, or still finds none.\<close>

lemma child_search_edit:
  assumes ends: "ends_line (u @ unlines ls)" and ls: "\<forall>l \<in> set ls. newline \<notin> set l \<and> (\<exists>n. prop_line n l)"
    and t: "t = take stop t @ z" "stop \<le> length t" and child: "matches child_re t stop [] \<noteq> []"
  shows "\<exists>j g. re_search_from child_re (u @ unlines ls @ z) (length u) = Some (length u + length (unlines ls), j, g)"
proof -
  let ?p = "u @ unlines ls @ z" and ?k = "length u + length (unlines ls)"
  have "ends_line (take stop t)" using child_re_context [OF child] by simp
  from child_re_shift [OF this, of z 0] have "matches child_re z 0 [] \<noteq> []" using child t by simp
  with child_re_shift [OF ends, of z 0] have "matches child_re ?p ?k [] \<noteq> []" by simp
  moreover have "matches child_re ?p k [] = []" if "length u \<le> k" "k < ?k" for k
    using child_re_lines [OF ls, of "k - length u" u z] that by simp
  moreover have "?k \<le> length ?p" by simp
  ultimately show ?thesis by (cases "matches child_re ?p ?k []") (auto simp: search_from_Some)
qed

lemma child_search_edit_none:
  assumes ls: "\<forall>l \<in> set ls. newline \<notin> set l \<and> (\<exists>n. prop_line n l)"
    and t: "t = take stop t @ newline # y" "start \<le> stop" "stop \<le> length t"
    and none: "\<forall>k. start \<le> k \<and> k \<le> length t \<longrightarrow> matches child_re t k [] = []"
  shows "re_search_from child_re (u @ unlines ls @ newline # y) (length u) = None"
proof -
  let ?p = "u @ unlines ls @ newline # y" and ?k = "length u + length (unlines ls)"
  have "matches child_re ?p k [] = []" if "?k < k" "k \<le> length ?p" for k
  proof -
    from less_imp_Suc_add [OF that(1)] obtain m where "k = Suc (?k + m)" by blast
    then have m: "k = length (u @ unlines ls @ [newline]) + m" by simp
    have ty: "t = (take stop t @ [newline]) @ y" using t(1) by simp
    have "length t = stop + 1 + length y" using arg_cong [OF ty, of length] t(3) by simp
    then have "matches child_re t (stop + 1 + m) [] = []" using none t(2) that(2) m by simp
    moreover have "length (take stop t @ [newline]) = stop + 1" using t(3) by simp
    ultimately have "matches child_re y m [] = []"
      using child_re_shift [of "take stop t @ [newline]" y m] ty by (simp add: ends_line_def)
    then show ?thesis using child_re_shift [of "u @ unlines ls @ [newline]" y m] m by (simp add: ends_line_def)
  qed
  moreover have "?p ! ?k \<noteq> tab" by (simp add: nth_append newline_def tab_def)
  then have "matches child_re ?p ?k [] = []" using child_re_context(3) by blast
  moreover have "matches child_re ?p k [] = []" if "length u \<le> k" "k < ?k" for k
    using child_re_lines [OF ls, of "k - length u" u "newline # y"] that by simp
  ultimately show ?thesis unfolding search_from_None by (metis linorder_neqE_nat)
qed

lemma find_edit:
  assumes "\<forall>l \<in> set ls. newline \<notin> set l \<and> (\<exists>n. prop_line n l)" "starts_with (newline # ''};'') z"
  shows "str_find (u @ unlines ls @ z) (newline # ''};'') (length u) = Some (length u + length (unlines ls))"
  unfolding str_find_def find_upt
proof (intro conjI allI impI)
  show "starts_with (newline # ''};'') (drop (length u + length (unlines ls)) (u @ unlines ls @ z))"
    using assms(2) by simp
  fix k assume k: "length u \<le> k \<and> k < length u + length (unlines ls)"
  have hd: "hd z \<noteq> CHR ''}''" using assms(2) by (cases z) (auto simp: starts_with_def newline_def)
  have lines: "\<forall>l \<in> set ls. \<exists>n. prop_line n l" "list_all (\<lambda>l. newline \<notin> set l) ls"
    using assms(1) by (auto simp: list_all_iff)
  show "\<not> starts_with (newline # ''};'') (drop k (u @ unlines ls @ z))"
    using find_lines [OF lines, of "k - length u" z u] hd k by (simp add: less_diff_conv2)
qed simp_all

text \<open>Replacing the root's property lines by others leaves the region around exactly those lines.\<close>

lemma root_region_edit:
  assumes r: "root_region t = Inr (start, stop)"
    and ls: "\<forall>l \<in> set ls. newline \<notin> set l \<and> (\<exists>n. prop_line n l)"
  shows "root_region (take start t @ unlines ls @ drop stop t) = Inr (start, start + length (unlines ls))"
proof -
  note R = root_region_Inr [OF r]
  have len: "length (take start t) = start" using R(2,3) by simp
  obtain i where i: "start = i + 4" "re_search_from root_re t 0 = Some (i, start, Map.empty)"
    using R(1) by blast
  let ?p = "take start t @ unlines ls @ drop stop t"
  have root: "re_search_from root_re ?p 0 = Some (i, start, Map.empty)"
    using R(2,3) by (intro root_search_edit [OF i(2,1)]) simp_all
  from R(4) consider
      "matches child_re t stop [] \<noteq> []"
    | "\<forall>k. start \<le> k \<and> k \<le> length t \<longrightarrow> matches child_re t k [] = []" "starts_with (newline # ''};'') (drop stop t)"
    by blast
  then show ?thesis
  proof cases
    case 1
    from child_search_edit [OF root_line_ends [OF i(2,1)] ls _ R(3) 1, of "drop stop t"] len root
    show ?thesis by (auto simp: root_region_def)
  next
    case 2
    then obtain y where y: "drop stop t = newline # y" by (cases "drop stop t") (auto simp: starts_with_def)
    then have "t = take stop t @ newline # y" by (metis append_take_drop_id)
    from child_search_edit_none [OF ls this R(2,3) 2(1), of "take start t"] find_edit [OF ls 2(2), of "take start t"]
    show ?thesis using root len y by (simp add: root_region_def)
  qed
qed

lemma parse_lines:
  assumes "\<forall>(n, l) \<in> set ps. re_match prop_re l = Some [1 \<mapsto> n]" "distinct (map fst ps)" "list_all no_breaks (map snd ps)"
  shows "parse_props (unlines (map snd ps)) = ps"
proof -
  have "foldl parse_line qs (map snd ps) = qs @ ps"
    if "distinct (map fst (qs @ ps))" "\<forall>(n, l) \<in> set ps. re_match prop_re l = Some [1 \<mapsto> n]" for qs
    using that
  proof (induction ps arbitrary: qs)
    case (Cons p ps)
    obtain n l where p: "p = (n, l)" by (cases p)
    have "n \<notin> fst ` set qs" using Cons.prems(1) p by auto
    then have "AList.update n l qs = qs @ [(n, l)]" by (induction qs) auto
    then show ?case using Cons.IH [of "qs @ [p]"] Cons.prems p by (simp add: parse_line_def)
  qed simp
  from this [of "[]"] show ?thesis
    using assms splitlines_unlines [of "map snd ps"] by (simp add: parse_props_def)
qed

lemma parse_props_no_breaks: "(n, l) \<in> set (parse_props region) \<Longrightarrow> no_breaks l"
proof -
  have "\<forall>(n, l) \<in> set (foldl parse_line ps ls). no_breaks l" if "list_all no_breaks ls" "\<forall>(n, l) \<in> set ps. no_breaks l" for ps ls
    using that
  proof (induction ls arbitrary: ps)
    case (Cons l ls)
    have "set (AList.update k l ps) \<subseteq> insert (k, l) (set ps)" for k
      by (induction ps) auto
    then have "\<forall>(n, l) \<in> set (parse_line ps l). no_breaks l"
      using Cons.prems by (fastforce simp: parse_line_def split: option.splits)
    then show ?case using Cons by simp
  qed simp
  from this [of "splitlines region" "[]"] show "(n, l) \<in> set (parse_props region) \<Longrightarrow> no_breaks l"
    by (auto simp: splitlines_no_breaks parse_props_def)
qed

text \<open>The root properties that the surgery writes, by name and line.\<close>

definition entries :: "props \<Rightarrow> props \<Rightarrow> props" where
  "entries sp bp = map (\<lambda>n. (n, the (map_of sp n))) (filter (\<lambda>n. n \<in> set (map fst sp)) MIRROR_PROPS)
     @ filter (\<lambda>(n, l). n \<in> set KEEP_PROPS) bp"

lemma entries_lines:
  "map snd (entries sp bp) = mirrored_lines sp @ map snd (filter (\<lambda>(n, l). n \<in> set KEEP_PROPS) bp)"
  by (simp add: entries_def mirrored_lines_def)

lemma mirror_keep_disjoint: "distinct MIRROR_PROPS" "set MIRROR_PROPS \<inter> set KEEP_PROPS = {}"
  "set DELETE_PROPS \<inter> (set MIRROR_PROPS \<union> set KEEP_PROPS) = {}"
  by (simp_all add: MIRROR_PROPS_def KEEP_PROPS_def DELETE_PROPS_def)

lemma entries_origin: "(n, l) \<in> set (entries sp bp) \<Longrightarrow> (n, l) \<in> set sp \<or> (n, l) \<in> set bp"
  unfolding entries_def
  by (auto split: prod.splits) (metis map_of_SomeD option.sel weak_map_of_SomeI)

lemma entries_distinct: "distinct (map fst bp) \<Longrightarrow> distinct (map fst (entries sp bp))"
  using mirror_keep_disjoint
  by (auto simp: entries_def comp_def distinct_map inj_on_def intro: inj_on_subset)

lemma map_of_entries:
  assumes "distinct (map fst bp)"
  shows "map_of (entries sp bp) =
    (\<lambda>n. if n \<in> set MIRROR_PROPS then map_of sp n else if n \<in> set KEEP_PROPS then map_of bp n else None)"
proof
  fix n
  have "map_of (filter (\<lambda>(n, l). n \<in> set KEEP_PROPS) bp) n = (if n \<in> set KEEP_PROPS then map_of bp n else None)"
    by (induction bp) auto
  moreover have "(n \<in> set (map fst sp)) = (map_of sp n \<noteq> None)" by (simp add: map_of_eq_None_iff)
  ultimately show "map_of (entries sp bp) n =
      (if n \<in> set MIRROR_PROPS then map_of sp n else if n \<in> set KEEP_PROPS then map_of bp n else None)"
    using mirror_keep_disjoint(2)
    by (auto simp: entries_def map_add_def map_of_map_restrict restrict_map_def split: option.split)
qed

lemma identity_of_entries:
  assumes "dom s \<subseteq> set MIRROR_PROPS \<union> set KEEP_PROPS"
  shows "identity_of s b (\<lambda>n. if n \<in> set MIRROR_PROPS then s n else if n \<in> set KEEP_PROPS then b n else None)"
  using mirror_keep_disjoint(2,3) by (auto simp: identity_of_def split: if_splits)

lemma surgery_patch:
  assumes "stock_identity stock = Inr sp" "surgery sp source = Inr (patched, kept, deleted, stop)"
  shows "\<exists>start bp. root_region source = Inr (start, stop) \<and> bp = parse_props (region_of source (start, stop))
    \<and> kept = map snd (filter (\<lambda>(n, l). n \<in> set KEEP_PROPS) bp)
    \<and> root_region patched = Inr (start, start + length (unlines (map snd (entries sp bp))))
    \<and> parse_props (region_of patched (start, start + length (unlines (map snd (entries sp bp))))) = entries sp bp
    \<and> drop (start + length (unlines (map snd (entries sp bp)))) patched = drop stop source"
proof -
  obtain start bp where b: "root_region source = Inr (start, stop)" "bp = parse_props (region_of source (start, stop))"
      "classify_props sp bp [] [] = Inr (kept, deleted)"
      "patched = take start source @ join_with [newline] (mirrored_lines sp @ kept) @ [newline] @ drop stop source"
    using surgery_Inr [OF assms(2)] by blast
  let ?e = "entries sp bp"
  have kept: "kept = map snd (filter (\<lambda>(n, l). n \<in> set KEEP_PROPS) bp)" using classify_props_Inr(1) [OF b(3)] by simp
  have ok: "props_ok sp" "props_ok bp"
    using stock_identity_Inr(1) [OF assms(1)] b(2) props_ok_parse by auto
  have line: "prop_line n l \<and> re_match prop_re l = Some [1 \<mapsto> n] \<and> no_breaks l" if "(n, l) \<in> set ?e" for n l
    using entries_origin [OF that] props_ok_line ok parse_props_no_breaks b(2) stock_identity_Inr(1) [OF assms(1)]
    by blast
  have "mirrored_lines sp \<noteq> []"
    using stock_identity_Inr(3) [OF assms(1)] by (simp add: mirrored_lines_def MIRROR_PROPS_def)
  then have p: "patched = take start source @ unlines (map snd ?e) @ drop stop source"
    using b(4) join_with_unlines [of "mirrored_lines sp @ kept"] by (simp add: entries_lines kept)
  have "root_region patched = Inr (start, start + length (unlines (map snd ?e)))"
    unfolding p
  proof (rule root_region_edit [OF b(1)], rule ballI)
    fix l assume "l \<in> set (map snd ?e)"
    then obtain n where "(n, l) \<in> set ?e" by auto
    from line [OF this] show "newline \<notin> set l \<and> (\<exists>n. prop_line n l)" by (auto dest: no_breaks_newline)
  qed
  moreover have "start \<le> length source" using root_region_Inr(2,3) [OF b(1)] by simp
  then have "region_of patched (start, start + length (unlines (map snd ?e))) = unlines (map snd ?e)"
    "drop (start + length (unlines (map snd ?e))) patched = drop stop source"
    by (simp_all add: p region_of_def)
  moreover have "parse_props (unlines (map snd ?e)) = ?e"
    using line ok(2) by (intro parse_lines entries_distinct) (auto simp: props_ok_def list_all_iff)
  ultimately show ?thesis using b(1,2) kept by auto
qed

lemma surgery_accepted:
  assumes st: "stock_identity stock = Inr sp" and su: "surgery sp source = Inr (patched, kept, deleted, stop)"
  shows "verify_surgery sp kept (drop stop source) patched = Inr ()"
proof -
  obtain start bp where p: "bp = parse_props (region_of source (start, stop))"
      "kept = map snd (filter (\<lambda>(n, l). n \<in> set KEEP_PROPS) bp)"
      "root_region patched = Inr (start, start + length (unlines (map snd (entries sp bp))))"
      "parse_props (region_of patched (start, start + length (unlines (map snd (entries sp bp))))) = entries sp bp"
      "drop (start + length (unlines (map snd (entries sp bp)))) patched = drop stop source"
    using surgery_patch [OF st su] by blast
  have ok: "props_ok bp" using p(1) props_ok_parse by simp
  have e: "map_of (entries sp bp) =
      (\<lambda>n. if n \<in> set MIRROR_PROPS then map_of sp n else if n \<in> set KEEP_PROPS then map_of bp n else None)"
    using ok by (intro map_of_entries) (simp add: props_ok_def)
  have none: "n \<notin> set (map fst ps) \<longleftrightarrow> map_of ps n = None" for n and ps :: props
    by (simp add: map_of_eq_None_iff)
  have "verify_mirrored sp (entries sp bp) n = Inr ()" if "n \<in> set MIRROR_PROPS" for n
    using that none [of n sp] none [of n "entries sp bp"] by (auto simp: verify_mirrored_def e require_Inr)
  then have "each (verify_mirrored sp (entries sp bp)) MIRROR_PROPS = Inr ()" by (simp add: each_Inr)
  moreover have "n \<notin> set (map fst (entries sp bp))" if "n \<in> set DELETE_PROPS" for n
    unfolding none e using that mirror_keep_disjoint(3) by auto
  then have "each (\<lambda>n. require (n \<notin> set (map fst (entries sp bp))) (StillCarries n)) DELETE_PROPS = Inr ()"
    unfolding each_Inr require_Inr by blast
  moreover have kl: "\<exists>n. line_name l = Inr n \<and> n \<in> set KEEP_PROPS \<and> map_of (entries sp bp) n = Some l" if "l \<in> set kept" for l
    using kept_line [OF ok, of l] that p(2) mirror_keep_disjoint(2) by (auto simp: e line_name_prop)
  moreover have "verify_kept (entries sp bp) l = Inr ()" if "l \<in> set kept" for l
    using kl [OF that] by (auto simp: verify_kept_def require_Inr)
  then have "each (verify_kept (entries sp bp)) kept = Inr ()" by (simp add: each_Inr)
  moreover obtain ns where ns: "mapM line_name kept = Inr ns" "list_all2 (\<lambda>l n. line_name l = Inr n) kept ns"
  proof -
    have "list_all2 (\<lambda>l n. line_name l = Inr n) kept (map (\<lambda>l. projr (line_name l)) kept)"
      by (auto simp: list_all2_conv_all_nth dest!: nth_mem kl)
    then show thesis by (intro that) (simp_all add: mapM_Inr)
  qed
  moreover have "filter (\<lambda>n. n \<notin> set (map fst sp) \<and> n \<notin> set ns) (map fst (entries sp bp)) = []"
  proof -
    have "n \<in> set ns" if nl: "(n, l) \<in> set bp" "n \<in> set KEEP_PROPS" for n l
    proof -
      have "l \<in> set kept" using nl p(2) by force
      then obtain i where i: "i < length kept" "kept ! i = l" by (auto simp: in_set_conv_nth)
      then have "Inr (ns ! i) = (Inr n :: dt_error + string)"
        using ns(2) line_name_prop props_ok_line [OF ok nl(1)] by (auto simp: list_all2_conv_all_nth)
      then show ?thesis using i ns(2) by (auto dest: list_all2_lengthD)
    qed
    then show ?thesis by (auto simp: filter_empty_conv entries_def split: prod.splits)
  qed
  ultimately show ?thesis
    using p(3,4,5) ns(1) by (simp add: verify_surgery_def Let_def)
qed

subsection \<open>Properties\<close>

text \<open>C16. When \<^verbatim>\<open>abl-dtb-ids.py\<close> ends without an error, it has printed the stock tree and the boot
  tree, written and compiled one patched text, and printed the compiled output; in that print every
  mirrored root property is the stock tree's (absent when the stock tree lacks it), the deleted ones
  are gone, the structural ones are the boot tree's, no other root property appears, and everything
  from the root's first child on is the boot tree's text. Nothing is assumed of \<^verbatim>\<open>dtc\<close>.\<close>

theorem ids_output_identity:
  assumes "result_of (ids_main h tmp a) w = Inr report"
  shows "\<exists>stock source patched out e1 e2 p e3.
    trace_of (ids_main h tmp a) w = [e1, e2, WriteText (tmp @ ''/boot-with-stock-ids.dts'') patched,
       Dtc (compile_args (ids_output a) (tmp @ ''/boot-with-stock-ids.dts'')) p, e3]
    \<and> printed (stock_dtb a) stock e1 \<and> printed (boot_dtb a) source e2 \<and> returncode p = 0
    \<and> printed (ids_output a) out e3 \<and> same_identity stock source out"
  using assms by (rule ids_main_verified)

text \<open>C17. The text the tool writes passes the tool's own verification, so with a \<^verbatim>\<open>dtc\<close> that prints
  back what it compiled a run does not stop at a check: read back, the root properties of the patched
  text are the stock tree's mirrored ones and the boot tree's structural ones, exactly, and what is
  below the root is unchanged.\<close>

theorem ids_surgery_accepted:
  assumes "stock_identity stock = Inr sp" "surgery sp source = Inr (patched, kept, deleted, stop)"
  shows "verify_surgery sp kept (drop stop source) patched = Inr ()
    \<and> (\<exists>s b. root_props stock = Some s \<and> root_props source = Some b \<and> root_props patched =
          Some (\<lambda>n. if n \<in> set MIRROR_PROPS then s n else if n \<in> set KEEP_PROPS then b n else None))
    \<and> below_root patched = below_root source"
proof -
  obtain r where r: "root_region stock = Inr r" "sp = parse_props (region_of stock r)"
    using stock_identity_Inr(1) [OF assms(1)] by blast
  obtain start bp where b: "root_region source = Inr (start, stop)" "bp = parse_props (region_of source (start, stop))"
      "root_region patched = Inr (start, start + length (unlines (map snd (entries sp bp))))"
      "parse_props (region_of patched (start, start + length (unlines (map snd (entries sp bp))))) = entries sp bp"
      "drop (start + length (unlines (map snd (entries sp bp)))) patched = drop stop source"
    using surgery_patch [OF assms] by blast
  have "distinct (map fst bp)" using props_ok_parse b(2) by (simp add: props_ok_def)
  from map_of_entries [OF this, of sp] surgery_accepted [OF assms] show ?thesis
    using r(1) r(2) [symmetric] b(1) b(2) [symmetric] b(3-5) by (simp add: root_props_def below_root_def)
qed

end
