(* ===== verification/AblSymbols.thy ===== *)
theory AblSymbols
  imports DeviceTree "HOL-Library.Sublist"
begin

text \<open>
  \<^verbatim>\<open>tools/lib/abl-symbols.py\<close>: the labels that the boot loader's overlays need are exported from the
  boot device tree, every one of them pointing at an inert sink node. The definitions follow the
  script from top to bottom; \<open>symbols_main\<close> is \<^verbatim>\<open>main\<close> after the command line is parsed.
\<close>

definition SINK_NODE_NAME :: string where
  "SINK_NODE_NAME = ''liuqin-abl-overlay-sink''"

definition SINK_PATH :: string where
  "SINK_PATH = ''/'' @ SINK_NODE_NAME"

definition entry_re :: re where
  "entry_re = rs [Bos, lit ''entry.'', Group 1 (plus digit), Eos]"

subsection \<open>Blocks and their properties\<close>

definition node_re :: "string \<Rightarrow> re" where
  "node_re name = rs [Bol, star space, lit name, star space, lit ''{'', star space, Eol]"

text \<open>The scan for the closing brace: the text that the loop has stepped over.\<close>

fun scan_block :: "nat \<Rightarrow> string \<Rightarrow> string" where
  "scan_block depth [] = []"
| "scan_block depth (c # s) =
     (let depth' = (if c = CHR ''{'' then depth + 1 else if c = CHR ''}'' then depth - 1 else depth)
      in c # (if depth' = 0 then [] else scan_block depth' s))"

definition extract_block :: "string \<Rightarrow> string \<Rightarrow> string option" where
  "extract_block text node_name =
     (case re_search_from (node_re node_name) text 0 of
        None \<Rightarrow> None
      | Some (_, start, _) \<Rightarrow>
          let index = start + length (scan_block 1 (drop start text))
          in Some (py_slice text (int start) (int index - 1)))"

definition value_re :: re where
  "value_re = rs [star space, Group 1 (plus (Chr is_prop_char)), star space, lit ''='', star space,
     Group 2 (Star False dot), lit '';'', star space, Eos]"

definition block_line :: "(string \<times> string) list \<Rightarrow> string \<Rightarrow> (string \<times> string) list" where
  "block_line ps l =
     (case re_match value_re l of None \<Rightarrow> ps | Some g \<Rightarrow> AList.update (the (g 1)) (the (g 2)) ps)"

definition block_properties :: "string \<Rightarrow> (string \<times> string) list" where
  "block_properties body = foldl block_line [] (splitlines body)"

subsection \<open>The labels to export\<close>

definition node_symbols :: "'w host \<Rightarrow> string \<Rightarrow> string \<Rightarrow> string \<Rightarrow> ('w, dt_event, dt_error, string list) prog" where
  "node_symbols h dtc node dtb =
     pbind (decode h dtc dtb) (\<lambda>text.
       case extract_block text node of
         None \<Rightarrow> raise (NoNode node dtb)
       | Some body \<Rightarrow>
           let names = map fst (block_properties body)
           in if names = [] then raise (EmptyNode node dtb) else ret names)"

definition overlay_symbols :: "'w host \<Rightarrow> string \<Rightarrow> string \<Rightarrow> ('w, dt_event, dt_error, string list) prog" where
  "overlay_symbols h dtc overlay_dtb = node_symbols h dtc ''__fixups__'' overlay_dtb"

definition base_dtb_symbols :: "'w host \<Rightarrow> string \<Rightarrow> string \<Rightarrow> ('w, dt_event, dt_error, string list) prog" where
  "base_dtb_symbols h dtc base_dtb = node_symbols h dtc ''__symbols__'' base_dtb"

text \<open>The \<^verbatim>\<open>entry.<N>\<close> files of a directory with their numbers, in the directory's order.\<close>

definition entry_number :: "string \<Rightarrow> nat option" where
  "entry_number name = (case re_match entry_re name of None \<Rightarrow> None | Some g \<Rightarrow> Some (dec_value (the (g 1))))"

definition entries_of :: "'w host \<Rightarrow> string \<Rightarrow> ('w, dt_event, dt_error, string list) prog" where
  "entries_of h dir =
     pbind (look (h_is_dir h dir)) (\<lambda>d.
     pseq (check d (Unavailable dir))
     (pbind (look (h_iterdir h dir)) (\<lambda>names.
      pbind (look (\<lambda>w. filter (\<lambda>name. entry_number name \<noteq> None \<and> h_is_file h (dir @ ''/'' @ name) w) names)) (\<lambda>found.
      pseq (check (found \<noteq> []) (NoEntries dir))
      (ret (map (\<lambda>name. dir @ ''/'' @ name) (sort_key (\<lambda>name. the (entry_number name)) found)))))))"

fun dedup :: "(string \<Rightarrow> string) \<Rightarrow> string set \<Rightarrow> string list \<Rightarrow> string list" where
  "dedup key seen [] = []"
| "dedup key seen (path # paths) =
     (if key path \<in> seen then dedup key seen paths else path # dedup key (insert (key path) seen) paths)"

definition collect_overlays :: "'w host \<Rightarrow> string list \<Rightarrow> string list \<Rightarrow> ('w, dt_event, dt_error, string list) prog" where
  "collect_overlays h overlay_dtbs overlay_dirs =
     pbind (for_each (\<lambda>path. pbind (look (h_is_file h path)) (\<lambda>f. pseq (check f (Unavailable path)) (ret path)))
              overlay_dtbs) (\<lambda>named.
     pbind (for_each (entries_of h) overlay_dirs) (\<lambda>found.
     look (\<lambda>w. dedup (\<lambda>p. h_resolve h p w) {} (named @ concat found))))"

text \<open>\<^verbatim>\<open>re.findall\<close> of the two ways a phandle may be printed.\<close>

definition phandle_hex_re :: re where
  "phandle_hex_re = rs [lit ''phandle = <0x'', Group 1 (plus hex), lit ''>'']"

definition phandle_dec_re :: re where
  "phandle_dec_re = rs [lit ''phandle = <'', Group 1 (plus digit), lit ''>'']"

definition parse_hex :: "string \<Rightarrow> nat" where
  "parse_hex s = foldl (\<lambda>n c. 16 * n + the (alnum_value c)) 0 s"

definition max_phandle :: "string \<Rightarrow> nat" where
  "max_phandle text =
     (let values = map (\<lambda>(i, j, g). parse_hex (the (g 1))) (re_finditer phandle_hex_re text)
                 @ map (\<lambda>(i, j, g). dec_value (the (g 1))) (re_finditer phandle_dec_re text)
      in if values = [] then 0 else Max (set values))"

subsection \<open>The patched text\<close>

text \<open>\<^verbatim>\<open>f'{n:#x}'\<close>.\<close>

fun hex_digits :: "nat \<Rightarrow> string" where
  "hex_digits n = (if n < 16 then [digit_char n] else hex_digits (n div 16) @ [digit_char (n mod 16)])"

declare hex_digits.simps [simp del]

definition sink_line :: "nat \<Rightarrow> string" where
  "sink_line n = ''phandle = <0x'' @ hex_digits n @ ''>;''"

definition symbol_line :: "string \<Rightarrow> string" where
  "symbol_line name = [tab, tab] @ name @ '' = '' @ [CHR 0x22] @ SINK_PATH @ [CHR 0x22] @ '';''"

definition addition :: "bool \<Rightarrow> nat \<Rightarrow> string list \<Rightarrow> string" where
  "addition with_phandle n symbols = join_with [newline]
     ([tab # SINK_NODE_NAME @ '' {''] @ (if with_phandle then [[tab, tab] @ sink_line n] else [])
      @ [tab # ''};'', []] @ [tab # ''__symbols__ {''] @ map symbol_line symbols @ [tab # ''};'']) @ [newline]"

definition rstrip :: "string \<Rightarrow> string" where
  "rstrip s = rev (dropWhile is_space (rev s))"

definition insert_addition :: "string \<Rightarrow> string \<Rightarrow> dt_error + string" where
  "insert_addition source text =
     (case str_rfind (rstrip source) (newline # ''};'') of
        None \<Rightarrow> Inl NoEndOfRoot
      | Some closing \<Rightarrow> Inr (take (closing + 1) source @ text @ drop (closing + 1) source))"

text \<open>The renames, one after the other.\<close>

definition rename_re :: "string \<Rightarrow> re" where
  "rename_re name = rs [Bol, Group 1 (star space), lit name,
     opt (Group 2 (rs [lit ''@'', plus hex])), lit '' {'', Eol]"

definition parse_rename :: "string \<Rightarrow> dt_error + string \<times> string" where
  "parse_rename spec =
     (case split_once ''='' [] spec of
        None \<Rightarrow> Inl (BadRename spec)
      | Some (old, new) \<Rightarrow> if old = [] \<or> new = [] then Inl (BadRename spec) else Inr (old, new))"

definition rename_with :: "string \<Rightarrow> groups \<Rightarrow> string" where
  "rename_with new g = the (g 1) @ new @ (case g 2 of None \<Rightarrow> [] | Some u \<Rightarrow> u) @ '' {''"

definition rename_node :: "string \<Rightarrow> string \<times> string \<Rightarrow> dt_error + string" where
  "rename_node patched r =
     (case r of (old, new) \<Rightarrow>
        let n = length (re_finditer (rename_re old) patched)
        in if n \<noteq> 1 then Inl (RenameCount old n) else Inr (re_sub (rename_re old) (rename_with new) patched))"

fun rename_all :: "string list \<Rightarrow> string \<Rightarrow> dt_error + string \<times> (string \<times> string) list" where
  "rename_all [] patched = Inr (patched, [])"
| "rename_all (spec # specs) patched =
     ebind (parse_rename spec) (\<lambda>r.
     ebind (rename_node patched r) (\<lambda>patched'.
     ebind (rename_all specs patched') (\<lambda>(final, renames). Inr (final, r # renames))))"

subsection \<open>Verification of the result\<close>

definition search_rename :: "string \<Rightarrow> string \<Rightarrow> bool" where
  "search_rename name t \<longleftrightarrow> re_search (rename_re name) t \<noteq> None"

definition verify_exported :: "string list \<Rightarrow> string \<Rightarrow> dt_error + unit" where
  "verify_exported symbols res =
     (case extract_block res ''__symbols__'' of
        None \<Rightarrow> Inl (NoNode ''__symbols__'' [])
      | Some produced \<Rightarrow>
          let exported = block_properties produced;
              missing = sort (filter (\<lambda>n. n \<notin> set (map fst exported)) symbols);
              extra = sort (filter (\<lambda>n. n \<notin> set symbols) (map fst exported));
              mistargeted = sort (map fst (filter (\<lambda>(n, v). v \<noteq> [CHR 0x22] @ SINK_PATH @ [CHR 0x22]) exported))
          in ebind (require (missing = []) (SymbolsMissing missing)) (\<lambda>_.
             ebind (require (extra = []) (SymbolsExtra extra)) (\<lambda>_.
             require (mistargeted = []) (Mistargeted mistargeted))))"

definition verify_rename :: "string \<Rightarrow> string \<times> string \<Rightarrow> dt_error + unit" where
  "verify_rename res r =
     (case r of (old, new) \<Rightarrow>
        ebind (require (\<not> search_rename old res) (NodeSurvived old)) (\<lambda>_.
        require (search_rename new res) (NodeAbsent new)))"

text \<open>\<^verbatim>\<open>t.count(sub)\<close>: occurrences that do not overlap; the fuel is the length of the text.\<close>

primrec count_from :: "nat \<Rightarrow> string \<Rightarrow> string \<Rightarrow> nat" where
  "count_from 0 sub t = 0"
| "count_from (Suc n) sub t =
     (case split_once sub [] t of None \<Rightarrow> 0 | Some (_, rest) \<Rightarrow> Suc (count_from n sub rest))"

definition str_count :: "string \<Rightarrow> string \<Rightarrow> nat" where
  "str_count sub t = count_from (length t) sub t"

definition verify_sink :: "bool \<Rightarrow> nat \<Rightarrow> string \<Rightarrow> dt_error + unit" where
  "verify_sink with_phandle n res =
     (case extract_block res SINK_NODE_NAME of
        None \<Rightarrow> Inl NoSink
      | Some sink_body \<Rightarrow>
          if with_phandle then
            ebind (require (str_count (sink_line n) res = 1) (SinkCount (str_count (sink_line n) res))) (\<lambda>_.
            require (contains (sink_line n) sink_body) SinkLostPhandle)
          else require (\<not> contains ''phandle'' sink_body) SinkGainedPhandle)"

subsection \<open>\<^verbatim>\<open>main\<close>\<close>

record symbols_args =
  sym_boot_dtb :: string
  overlay_dtb :: "string list"
  overlay_dir :: "string list"
  symbols_from_dtb :: "string list"
  rename_nodes :: "string list"
  sym_output :: string
  sym_dtc :: string
  expect_symbols :: int
  sink_phandle :: bool

definition symbol_union :: "'w host \<Rightarrow> symbols_args \<Rightarrow> ('w, dt_event, dt_error, string list) prog" where
  "symbol_union h a =
     pbind (collect_overlays h (overlay_dtb a) (overlay_dir a)) (\<lambda>overlays.
     pbind (for_each (overlay_symbols h (sym_dtc a)) overlays) (\<lambda>per_overlay.
     pbind (for_each (\<lambda>base. pbind (look (h_is_file h base)) (\<lambda>f.
              pseq (check f (Unavailable base)) (base_dtb_symbols h (sym_dtc a) base))) (symbols_from_dtb a)) (\<lambda>per_base.
     ret (sort (remdups (concat per_overlay @ concat per_base))))))"

definition patch_text :: "symbols_args \<Rightarrow> string list \<Rightarrow> string \<Rightarrow> dt_error + string \<times> (string \<times> string) list \<times> nat" where
  "patch_text a symbols source =
     ebind (require (extract_block source ''__symbols__'' = None) AlreadySymbols) (\<lambda>_.
       let n = max_phandle source + 1
       in ebind (insert_addition source (addition (sink_phandle a) n symbols)) (\<lambda>patched.
          ebind (rename_all (rename_nodes a) patched) (\<lambda>(final, renames). Inr (final, renames, n))))"

definition verify_result :: "symbols_args \<Rightarrow> string list \<Rightarrow> (string \<times> string) list \<Rightarrow> nat \<Rightarrow> string \<Rightarrow> dt_error + unit" where
  "verify_result a symbols renames n res =
     ebind (verify_exported symbols res) (\<lambda>_.
     ebind (each (verify_rename res) renames) (\<lambda>_.
     verify_sink (sink_phandle a) n res))"

definition symbols_main :: "'w host \<Rightarrow> string \<Rightarrow> symbols_args \<Rightarrow> ('w, dt_event, dt_error, string list) prog" where
  "symbols_main h tmp a =
     pseq (require_exists h [sym_dtc a, sym_boot_dtb a])
     (pseq (check (overlay_dtb a \<noteq> [] \<or> overlay_dir a \<noteq> [] \<or> symbols_from_dtb a \<noteq> []) NoOverlays)
     (pbind (symbol_union h a) (\<lambda>symbols.
      pseq (check (expect_symbols a = 0 \<or> int (length symbols) = expect_symbols a) (WrongUnion (length symbols)))
      (pbind (decode h (sym_dtc a) (sym_boot_dtb a)) (\<lambda>source.
       pbind (lift (patch_text a symbols source)) (\<lambda>(patched, renames, n).
       let dts_path = tmp @ ''/boot-with-symbols.dts''
       in pseq (write_text h dts_path patched)
         (pseq (run_dtc h (sym_dtc a) (compile_args (sym_output a) dts_path))
         (pbind (decode h (sym_dtc a) (sym_output a)) (\<lambda>res.
          pseq (lift (verify_result a symbols renames n res)) (ret symbols))))))))))"

subsection \<open>What a successful run has verified\<close>

definition names_in :: "string \<Rightarrow> string \<Rightarrow> string set" where
  "names_in node text = (case extract_block text node of None \<Rightarrow> {} | Some b \<Rightarrow> set (map fst (block_properties b)))"

lemma runs_node_symbols:
  assumes "runs (node_symbols h dtc node dtb) w t w' ns"
  shows "\<exists>p. t = [Dtc (decode_args dtb) p] \<and> set ns = names_in node (stdout p)"
proof -
  from assms obtain p t2 w1 where p: "t = Dtc (decode_args dtb) p # t2"
      "runs (case extract_block (stdout p) node of None \<Rightarrow> raise (NoNode node dtb)
        | Some body \<Rightarrow> let names = map fst (block_properties body)
            in if names = [] then raise (EmptyNode node dtb) else ret names) w1 t2 w' ns"
    by (auto simp: node_symbols_def decode_def runs_bind runs_run_dtc)
  then show ?thesis
    by (cases "extract_block (stdout p) node") (auto simp: runs_simps names_in_def Let_def split: if_splits)
qed

lemma runs_each_symbols:
  assumes "runs (for_each f dtbs) w t w' nss"
    and "\<And>d v s v' ns. runs (f d) v s v' ns \<Longrightarrow> \<exists>p. s = [Dtc (decode_args d) p] \<and> set ns = names_in node (stdout p)"
  shows "\<exists>ps. length ps = length dtbs \<and> t = map2 (\<lambda>d p. Dtc (decode_args d) p) dtbs ps
    \<and> set (concat nss) = (\<Union>p \<in> set ps. names_in node (stdout p))"
proof -
  obtain ts where ts: "length ts = length dtbs" "length nss = length dtbs" "t = concat ts"
    "\<forall>i < length dtbs. \<exists>w1 w2. runs (f (dtbs ! i)) w1 (ts ! i) w2 (nss ! i)"
    using runs_for_each [OF assms(1)] by blast
  then have "\<forall>i < length dtbs. \<exists>p. ts ! i = [Dtc (decode_args (dtbs ! i)) p] \<and> set (nss ! i) = names_in node (stdout p)"
    using assms(2) by blast
  then obtain P where P: "\<forall>i < length dtbs. ts ! i = [Dtc (decode_args (dtbs ! i)) (P i)] \<and> set (nss ! i) = names_in node (stdout (P i))"
    by metis
  let ?ps = "map P [0..<length dtbs]"
  have "ts = map2 (\<lambda>d p. [Dtc (decode_args d) p]) dtbs ?ps"
    using ts(1) P by (intro nth_equalityI) simp_all
  then have "t = map2 (\<lambda>d p. Dtc (decode_args d) p) dtbs ?ps"
    unfolding ts(3) by (simp add: concat_map_singleton case_prod_unfold)
  moreover have "set (concat nss) = (\<Union>p \<in> set ?ps. names_in node (stdout p))"
    using P ts(2) by (fastforce simp: in_set_conv_nth)
  ultimately show ?thesis by (intro exI [of _ ?ps]) simp
qed

lemma runs_entries_of: "runs (entries_of h dir) w t w' ps \<Longrightarrow> t = [] \<and> w' = w"
  by (auto simp: entries_of_def runs_simps)

lemma runs_collect:
  assumes "runs (collect_overlays h files dirs) w t w' ps"
  shows "t = [] \<and> w' = w"
proof -
  let ?file = "\<lambda>path. pbind (look (h_is_file h path)) (\<lambda>f. pseq (check f (Unavailable path)) (ret path))"
  obtain t1 w1 named t2 w2 found where r: "runs (for_each ?file files) w t1 w1 named"
      "runs (for_each (entries_of h) dirs) w1 t2 w2 found" "t = t1 @ t2" "w' = w2"
    using assms unfolding collect_overlays_def by (auto simp: runs_bind runs_basic(4))
  have "runs (?file x) v s v' y \<Longrightarrow> s = [] \<and> v' = v" for x v s v' y by (auto simp: runs_simps)
  from runs_for_each_quiet [OF r(1) this] runs_for_each_quiet [OF r(2) runs_entries_of] r(3,4) show ?thesis by simp
qed

lemma symbol_union_sources:
  assumes "runs (symbol_union h a) w t w' symbols"
  shows "\<exists>overlays os bs. result_of (collect_overlays h (overlay_dtb a) (overlay_dir a)) w = Inr overlays
    \<and> length os = length overlays \<and> length bs = length (symbols_from_dtb a)
    \<and> t = map2 (\<lambda>d p. Dtc (decode_args d) p) (overlays @ symbols_from_dtb a) (os @ bs)
    \<and> sorted symbols \<and> distinct symbols
    \<and> set symbols = (\<Union>p \<in> set os. names_in ''__fixups__'' (stdout p)) \<union> (\<Union>p \<in> set bs. names_in ''__symbols__'' (stdout p))"
proof -
  let ?base = "\<lambda>base. pbind (look (h_is_file h base)) (\<lambda>f.
     pseq (check f (Unavailable base)) (base_dtb_symbols h (sym_dtc a) base))"
  obtain overlays w1 t2 w2 per_overlay t3 per_base where r:
      "runs (collect_overlays h (overlay_dtb a) (overlay_dir a)) w [] w1 overlays"
      "runs (for_each (overlay_symbols h (sym_dtc a)) overlays) w1 t2 w2 per_overlay"
      "runs (for_each ?base (symbols_from_dtb a)) w2 t3 w' per_base"
      "t = t2 @ t3" "symbols = sort (remdups (concat per_overlay @ concat per_base))"
  proof -
    from assms obtain t1 w1 overlays t2 w2 per_overlay t3 per_base where r:
      "runs (collect_overlays h (overlay_dtb a) (overlay_dir a)) w t1 w1 overlays"
      "runs (for_each (overlay_symbols h (sym_dtc a)) overlays) w1 t2 w2 per_overlay"
      "runs (for_each ?base (symbols_from_dtb a)) w2 t3 w' per_base"
      "t = t1 @ t2 @ t3" "symbols = sort (remdups (concat per_overlay @ concat per_base))"
      unfolding symbol_union_def runs_bind [where m = "collect_overlays X Y Z" for X Y Z]
        runs_bind [where m = "for_each F xs" for F xs] runs_basic(1) by auto
    then show thesis using that runs_collect [OF r(1)] by simp
  qed
  have "\<exists>bs. length bs = length (symbols_from_dtb a)
      \<and> t3 = map2 (\<lambda>d p. Dtc (decode_args d) p) (symbols_from_dtb a) bs
      \<and> set (concat per_base) = (\<Union>p \<in> set bs. names_in ''__symbols__'' (stdout p))"
    by (rule runs_each_symbols [OF r(3)])
      (auto simp: runs_simps base_dtb_symbols_def dest: runs_node_symbols)
  then obtain bs where bs: "length bs = length (symbols_from_dtb a)"
      "t3 = map2 (\<lambda>d p. Dtc (decode_args d) p) (symbols_from_dtb a) bs"
      "set (concat per_base) = (\<Union>p \<in> set bs. names_in ''__symbols__'' (stdout p))" by blast
  have "\<exists>os. length os = length overlays \<and> t2 = map2 (\<lambda>d p. Dtc (decode_args d) p) overlays os
      \<and> set (concat per_overlay) = (\<Union>p \<in> set os. names_in ''__fixups__'' (stdout p))"
    by (rule runs_each_symbols [OF r(2)]) (auto simp: overlay_symbols_def dest: runs_node_symbols)
  then obtain os where os: "length os = length overlays"
      "t2 = map2 (\<lambda>d p. Dtc (decode_args d) p) overlays os"
      "set (concat per_overlay) = (\<Union>p \<in> set os. names_in ''__fixups__'' (stdout p))" by blast
  show ?thesis using runs_result [OF r(1)] r(4,5) os bs
    by (intro exI [of _ overlays] exI [of _ os] exI [of _ bs]) auto
qed

lemma sort_key_Nil: "sort_key f xs = [] \<longleftrightarrow> xs = []"
  by (metis length_0_conv length_sort)

definition exports_exactly :: "string set \<Rightarrow> string \<Rightarrow> bool" where
  "exports_exactly names out \<longleftrightarrow>
     (\<exists>body. extract_block out ''__symbols__'' = Some body \<and> fst ` set (block_properties body) = names
        \<and> (\<forall>v \<in> snd ` set (block_properties body). v = [CHR 0x22] @ SINK_PATH @ [CHR 0x22]))"

lemma verify_exported_Inr:
  assumes "verify_exported symbols out = Inr ()"
  shows "exports_exactly (set symbols) out"
proof -
  obtain body where b: "extract_block out ''__symbols__'' = Some body"
    using assms by (auto simp: verify_exported_def split: option.splits)
  show ?thesis using assms b unfolding exports_exactly_def
    by (fastforce simp: verify_exported_def Let_def err_simps sort_key_Nil filter_empty_conv)
qed

text \<open>What the run promises of the output's source text.\<close>

definition overlay_ready :: "symbols_args \<Rightarrow> string list \<Rightarrow> (string \<times> string) list \<Rightarrow> string \<Rightarrow> bool" where
  "overlay_ready a symbols renames out \<longleftrightarrow>
     exports_exactly (set symbols) out
     \<and> (\<forall>(old, new) \<in> set renames. \<not> search_rename old out \<and> search_rename new out)
     \<and> (\<exists>sink. extract_block out SINK_NODE_NAME = Some sink \<and> contains ''phandle'' sink = sink_phandle a)"

lemma contains_prefix: "contains (u @ v) s \<Longrightarrow> contains u s"
proof -
  assume "contains (u @ v) s"
  then obtain i where "i \<in> set [0..<Suc (length s)]" "take (length (u @ v)) (drop i s) = u @ v"
    unfolding contains_def by blast
  moreover from this have "take (length u) (drop i s) = u"
    by (metis append_eq_conv_conj length_append min.absorb1 le_add1 take_take)
  ultimately show ?thesis unfolding contains_def by blast
qed

lemma verify_result_Inr:
  assumes "verify_result a symbols renames n out = Inr ()"
  shows "overlay_ready a symbols renames out"
proof -
  have v: "verify_exported symbols out = Inr ()" "each (verify_rename out) renames = Inr ()"
    "verify_sink (sink_phandle a) n out = Inr ()"
    using assms by (simp_all add: verify_result_def err_simps)
  have "\<not> search_rename old out \<and> search_rename new out" if "(old, new) \<in> set renames" for old new
    using v(2) that by (fastforce simp: each_Inr verify_rename_def err_simps)
  moreover have "\<exists>sink. extract_block out SINK_NODE_NAME = Some sink \<and> contains ''phandle'' sink = sink_phandle a"
  proof -
    obtain sink where s: "extract_block out SINK_NODE_NAME = Some sink"
      using v(3) by (auto simp: verify_sink_def split: option.splits)
    moreover have "contains ''phandle'' sink = sink_phandle a"
      using v(3) s contains_prefix [of "''phandle''" "'' = <0x'' @ hex_digits n @ ''>;''" sink]
      by (auto simp: verify_sink_def sink_line_def err_simps split: if_splits)
    ultimately show ?thesis by blast
  qed
  ultimately show ?thesis using verify_exported_Inr [OF v(1)] by (auto simp: overlay_ready_def)
qed

lemma symbols_main_verified:
  assumes "result_of (symbols_main h tmp a) w = Inr symbols"
  shows "\<exists>overlays os bs source patched renames n e1 p out e2.
    result_of (collect_overlays h (overlay_dtb a) (overlay_dir a)) w = Inr overlays
    \<and> length os = length overlays \<and> length bs = length (symbols_from_dtb a)
    \<and> trace_of (symbols_main h tmp a) w = map2 (\<lambda>d p. Dtc (decode_args d) p) (overlays @ symbols_from_dtb a) (os @ bs)
        @ [e1, WriteText (tmp @ ''/boot-with-symbols.dts'') patched,
           Dtc (compile_args (sym_output a) (tmp @ ''/boot-with-symbols.dts'')) p, e2]
    \<and> sorted symbols \<and> distinct symbols
    \<and> set symbols = (\<Union>p \<in> set os. names_in ''__fixups__'' (stdout p)) \<union> (\<Union>p \<in> set bs. names_in ''__symbols__'' (stdout p))
    \<and> printed (sym_boot_dtb a) source e1 \<and> patch_text a symbols source = Inr (patched, renames, n)
    \<and> returncode p = 0 \<and> printed (sym_output a) out e2 \<and> overlay_ready a symbols renames out"
proof -
  from runsI [OF assms] obtain t1 w1 e1 source patched renames n p e2 out where r:
      "runs (symbol_union h a) w t1 w1 symbols"
      "trace_of (symbols_main h tmp a) w = t1 @ [e1, WriteText (tmp @ ''/boot-with-symbols.dts'') patched,
         Dtc (compile_args (sym_output a) (tmp @ ''/boot-with-symbols.dts'')) p, e2]"
      "printed (sym_boot_dtb a) source e1" "patch_text a symbols source = Inr (patched, renames, n)"
      "returncode p = 0" "printed (sym_output a) out e2" "verify_result a symbols renames n out = Inr ()"
    unfolding symbols_main_def [of h tmp a] Let_def
    by (fastforce simp: runs_simps split: prod.splits dest!: runs_decode runs_require_exists)
  from symbol_union_sources [OF r(1)] obtain overlays os bs where u:
      "result_of (collect_overlays h (overlay_dtb a) (overlay_dir a)) w = Inr overlays"
      "length os = length overlays" "length bs = length (symbols_from_dtb a)"
      "t1 = map2 (\<lambda>d p. Dtc (decode_args d) p) (overlays @ symbols_from_dtb a) (os @ bs)"
      "sorted symbols" "distinct symbols"
      "set symbols = (\<Union>p \<in> set os. names_in ''__fixups__'' (stdout p)) \<union> (\<Union>p \<in> set bs. names_in ''__symbols__'' (stdout p))"
    by blast
  show ?thesis using u(1-3,5-7) verify_result_Inr [OF r(7)] r(3-6) r(2) [unfolded u(4)] by blast
qed

subsection \<open>The overlays\<close>

text \<open>The files the options name, with repetitions: the named ones, then each directory's entries by
  number.\<close>

definition listed_entries :: "'w host \<Rightarrow> 'w \<Rightarrow> string \<Rightarrow> string list" where
  "listed_entries h w dir = map (\<lambda>name. dir @ ''/'' @ name)
     (sort_key (\<lambda>name. the (entry_number name))
       (filter (\<lambda>name. entry_number name \<noteq> None \<and> h_is_file h (dir @ ''/'' @ name) w) (h_iterdir h dir w)))"

lemma dedup_props:
  "subseq (dedup key seen ps) ps" "distinct (map key (dedup key seen ps))"
  "key ` set (dedup key seen ps) = key ` set ps - seen"
proof -
  show "subseq (dedup key seen ps) ps" by (induction key seen ps rule: dedup.induct) auto
  have s: "key ` set (dedup key seen ps) = key ` set ps - seen" for seen ps
    by (induction key seen ps rule: dedup.induct) auto
  then show "key ` set (dedup key seen ps) = key ` set ps - seen" .
  show "distinct (map key (dedup key seen ps))"
  proof (induction ps arbitrary: seen)
    case (Cons p ps)
    have "key p \<notin> key ` set (dedup key (insert (key p) seen) ps)" unfolding s by simp
    then show ?case using Cons.IH by simp
  qed simp
qed

lemma runs_entries_listed:
  "runs (entries_of h dir) w t w' ps \<Longrightarrow> w' = w \<and> ps = listed_entries h w dir \<and> h_is_dir h dir w \<and> ps \<noteq> []"
  by (auto simp: entries_of_def listed_entries_def runs_simps sort_key_Nil)

lemma collect_overlays_listed:
  fixes h :: "'w host"
  assumes "result_of (collect_overlays h files dirs) w = Inr overlays"
  shows "overlays = dedup (\<lambda>p. h_resolve h p w) {} (files @ concat (map (listed_entries h w) dirs))"
    and "\<forall>f \<in> set files. h_is_file h f w" and "\<forall>d \<in> set dirs. h_is_dir h d w \<and> listed_entries h w d \<noteq> []"
proof -
  let ?file = "\<lambda>path. pbind (look (h_is_file h path)) (\<lambda>f. pseq (check f (Unavailable path)) (ret path)) :: ('w, dt_event, dt_error, string) prog"
  have files: "runs (for_each ?file fs) v t v' ys \<Longrightarrow> v' = v \<and> ys = fs \<and> (\<forall>f \<in> set fs. h_is_file h f v)" for fs v t v' ys
    by (induction fs arbitrary: t ys) (auto simp: runs_simps)
  have dirs: "runs (for_each (entries_of h) ds) v t v' ys \<Longrightarrow>
      v' = v \<and> ys = map (listed_entries h v) ds \<and> (\<forall>d \<in> set ds. h_is_dir h d v \<and> listed_entries h v d \<noteq> [])" for ds v t v' ys
  proof (induction ds arbitrary: t ys)
    case (Cons d ds)
    then show ?case by (auto simp: runs_bind runs_basic(1) dest!: runs_entries_listed)
  qed (simp add: runs_simps)
  obtain t v where "runs (collect_overlays h files dirs) w t v overlays" using runsI [OF assms] by blast
  then obtain t1 w1 named t2 w2 found where r: "runs (for_each ?file files) w t1 w1 named"
      "runs (for_each (entries_of h) dirs) w1 t2 w2 found"
      "overlays = dedup (\<lambda>p. h_resolve h p w2) {} (named @ concat found)"
    unfolding collect_overlays_def runs_bind runs_basic(4)
    by blast
  from files [OF r(1)] dirs [OF r(2)] r(3)
  show "overlays = dedup (\<lambda>p. h_resolve h p w) {} (files @ concat (map (listed_entries h w) dirs))"
    and "\<forall>f \<in> set files. h_is_file h f w" and "\<forall>d \<in> set dirs. h_is_dir h d w \<and> listed_entries h w d \<noteq> []"
    by simp_all
qed

subsection \<open>Properties\<close>

text \<open>C18. When \<^verbatim>\<open>abl-symbols.py\<close> ends without an error, it has printed every collected overlay and
  every named base tree and then the boot tree, written and compiled one patched text, and printed the
  compiled output. The exported symbols are the sorted union of the names in the overlays'
  \<^verbatim>\<open>__fixups__\<close> and the bases' \<^verbatim>\<open>__symbols__\<close>; the output's
  \<^verbatim>\<open>__symbols__\<close> node holds exactly them, all pointing at the sink, every renamed node is found
  under its new name only, and the sink has a phandle exactly when one was asked for. Nothing is assumed
  of \<^verbatim>\<open>dtc\<close>.\<close>

theorem symbols_output_ready:
  assumes "result_of (symbols_main h tmp a) w = Inr symbols"
  shows "\<exists>overlays os bs source patched renames n e1 p out e2.
    result_of (collect_overlays h (overlay_dtb a) (overlay_dir a)) w = Inr overlays
    \<and> length os = length overlays \<and> length bs = length (symbols_from_dtb a)
    \<and> trace_of (symbols_main h tmp a) w = map2 (\<lambda>d p. Dtc (decode_args d) p) (overlays @ symbols_from_dtb a) (os @ bs)
        @ [e1, WriteText (tmp @ ''/boot-with-symbols.dts'') patched,
           Dtc (compile_args (sym_output a) (tmp @ ''/boot-with-symbols.dts'')) p, e2]
    \<and> sorted symbols \<and> distinct symbols
    \<and> set symbols = (\<Union>p \<in> set os. names_in ''__fixups__'' (stdout p)) \<union> (\<Union>p \<in> set bs. names_in ''__symbols__'' (stdout p))
    \<and> printed (sym_boot_dtb a) source e1 \<and> patch_text a symbols source = Inr (patched, renames, n)
    \<and> returncode p = 0 \<and> printed (sym_output a) out e2 \<and> overlay_ready a symbols renames out"
  using assms by (rule symbols_main_verified)

text \<open>C40. The overlays that \<^verbatim>\<open>collect_overlays\<close> returns: no file twice (by its resolved path), every
  named file and every numbered entry of the directories present under its resolved path, in the order
  of the options and, within a directory, of the numbers; every named file exists and every directory
  has at least one entry.\<close>

theorem overlays_collected:
  assumes "result_of (collect_overlays h files dirs) w = Inr overlays"
  shows "distinct (map (\<lambda>p. h_resolve h p w) overlays)
    \<and> (\<lambda>p. h_resolve h p w) ` set overlays = (\<lambda>p. h_resolve h p w) ` (set files \<union> (\<Union>d \<in> set dirs. set (listed_entries h w d)))
    \<and> subseq overlays (files @ concat (map (listed_entries h w) dirs))
    \<and> (\<forall>f \<in> set files. h_is_file h f w) \<and> (\<forall>d \<in> set dirs. h_is_dir h d w \<and> listed_entries h w d \<noteq> [])"
  using collect_overlays_listed(2,3) [OF assms]
  unfolding collect_overlays_listed(1) [OF assms] by (simp add: dedup_props image_Un)

end
