(* ===== verification/TreeDemo.thy ===== *)
theory TreeDemo
  imports DtbIds AblSymbols
begin

text \<open>
  Runs of both device tree tools on a small tree, with a \<^verbatim>\<open>dtc\<close> that stores and prints source text:
  the world maps paths to texts, and a tree blob is its own source.
\<close>

definition file_dtc :: "string list \<Rightarrow> (string \<rightharpoonup> string) \<Rightarrow> dtc_run \<times> (string \<rightharpoonup> string)" where
  "file_dtc args w =
     (let ok = (\<lambda>s. \<lparr>returncode = 0, stdout = s, stderr = []\<rparr>);
          failed = \<lparr>returncode = 1, stdout = [], stderr = ''no input''\<rparr>
      in if length args = 7 then
           (case w (args ! 6) of None \<Rightarrow> (failed, w) | Some t \<Rightarrow> (ok t, w))
         else
           (case w (args ! 8) of None \<Rightarrow> (failed, w) | Some t \<Rightarrow> (ok [], w(args ! 7 \<mapsto> t))))"

definition file_host :: "(string \<rightharpoonup> string) host" where
  "file_host = \<lparr>h_exists = (\<lambda>p w. w p \<noteq> None), h_is_file = (\<lambda>p w. w p \<noteq> None), h_is_dir = (\<lambda>p w. p = ''ov''),
     h_iterdir = (\<lambda>p w. [''entry.10'', ''readme'', ''entry.2'']), h_resolve = (\<lambda>p w. p),
     h_run = file_dtc, h_write_text = (\<lambda>p t w. ((), w(p \<mapsto> t)))\<rparr>"

definition demo_stock :: string where
  "demo_stock = unlines [''/dts-v1/;'', [], ''/ {'', tab # ''qcom,msm-id = <0x1>;'',
     tab # ''qcom,board-id = <0x2>;'', ''};'']"

definition demo_boot :: string where
  "demo_boot = unlines [''/ {'', tab # ''model = m;'', tab # ''phandle = <1>;'', tab # ''soc {'',
     [tab, tab] @ ''x;'', tab # ''};'', ''};'']"

definition demo_fixups :: "string \<Rightarrow> string" where
  "demo_fixups name = unlines [''/ {'', tab # ''__fixups__ {'', [tab, tab] @ name @ '' = v;'', tab # ''};'', ''};'']"

definition demo_base :: string where
  "demo_base = unlines [''/ {'', tab # ''__symbols__ {'', [tab, tab] @ ''b = v;'', tab # ''};'', ''};'']"

definition demo_files :: "string \<rightharpoonup> string" where
  "demo_files = [''dtc'' \<mapsto> [], ''stock'' \<mapsto> demo_stock, ''boot'' \<mapsto> demo_boot, ''base'' \<mapsto> demo_base,
     ''ov/entry.2'' \<mapsto> demo_fixups ''c'', ''ov/entry.10'' \<mapsto> demo_fixups ''a'']"

definition demo_ids :: ids_args where
  "demo_ids = \<lparr>boot_dtb = ''boot'', stock_dtb = ''stock'', ids_output = ''out'', ids_dtc = ''dtc''\<rparr>"

definition demo_symbols :: symbols_args where
  "demo_symbols = \<lparr>sym_boot_dtb = ''boot'', overlay_dtb = [''ov/entry.2''], overlay_dir = [''ov''],
     symbols_from_dtb = [''base''], rename_nodes = [], sym_output = ''out'', sym_dtc = ''dtc'',
     expect_symbols = 3, sink_phandle = True\<rparr>"

lemma ids_demo:
  "result_of (ids_main file_host ''tmp'' demo_ids) demo_files = Inr ([''qcom,msm-id'', ''qcom,board-id''], [''model''], 1)"
  by code_simp

lemma surgery_demo:
  "case stock_identity demo_stock of Inl _ \<Rightarrow> False
     | Inr sp \<Rightarrow> (case surgery sp demo_boot of Inl _ \<Rightarrow> False | Inr (patched, kept, deleted, stop) \<Rightarrow> deleted = [''model''])"
  by code_simp

lemma symbols_demo:
  "result_of (symbols_main file_host ''tmp'' demo_symbols) demo_files = Inr [''a'', ''b'', ''c'']"
  by code_simp

lemma overlays_demo:
  "result_of (collect_overlays file_host [''ov/entry.2''] [''ov'']) demo_files = Inr [''ov/entry.2'', ''ov/entry.10'']"
  by code_simp

theorem ids_output_identity_witness:
  "\<exists>stock source out e1 e2 e3 a b. trace_of (ids_main file_host ''tmp'' demo_ids) demo_files = [e1, e2, a, b, e3]
     \<and> printed ''out'' out e3 \<and> same_identity stock source out"
proof -
  have "ids_output demo_ids = ''out''" by (simp add: demo_ids_def)
  with ids_output_identity [OF ids_demo] show ?thesis by metis
qed

theorem ids_surgery_accepted_witness:
  "\<exists>sp patched kept deleted stop. surgery sp demo_boot = Inr (patched, kept, deleted, stop)
     \<and> verify_surgery sp kept (drop stop demo_boot) patched = Inr () \<and> below_root patched = below_root demo_boot"
proof -
  obtain sp patched kept deleted stop where "stock_identity demo_stock = Inr sp"
      "surgery sp demo_boot = Inr (patched, kept, deleted, stop)"
    using surgery_demo by (auto split: sum.splits prod.splits)
  with ids_surgery_accepted [OF this] show ?thesis by blast
qed

theorem symbols_output_ready_witness:
  "\<exists>renames out e. e \<in> set (trace_of (symbols_main file_host ''tmp'' demo_symbols) demo_files)
     \<and> printed ''out'' out e \<and> overlay_ready demo_symbols [''a'', ''b'', ''c''] renames out"
proof -
  have out: "sym_output demo_symbols = ''out''" by (simp add: demo_symbols_def)
  from symbols_output_ready [OF symbols_demo] obtain overlays os bs patched renames e1 p out e2 where t:
      "trace_of (symbols_main file_host ''tmp'' demo_symbols) demo_files =
        map2 (\<lambda>d p. Dtc (decode_args d) p) (overlays @ symbols_from_dtb demo_symbols) (os @ bs)
        @ [e1, WriteText (''tmp'' @ ''/boot-with-symbols.dts'') patched,
           Dtc (compile_args (sym_output demo_symbols) (''tmp'' @ ''/boot-with-symbols.dts'')) p, e2]"
      "printed (sym_output demo_symbols) out e2" "overlay_ready demo_symbols [''a'', ''b'', ''c''] renames out"
    by (elim exE conjE) (rule that; assumption)
  have "e2 \<in> set (trace_of (symbols_main file_host ''tmp'' demo_symbols) demo_files)"
    unfolding t(1) by simp
  then show ?thesis using t(2,3) unfolding out by blast
qed

theorem overlays_collected_witness:
  "distinct (map (\<lambda>p. h_resolve file_host p demo_files) [''ov/entry.2'', ''ov/entry.10''])
   \<and> h_is_dir file_host ''ov'' demo_files"
  using overlays_collected [OF overlays_demo] by simp

end
