(* ===== verification/Storage.thy ===== *)
theory Storage
  imports Effects
begin

text \<open>
  The private storage that the fingerprint tools keep their state in, and the system calls they make
  on it. A file system maps paths to nodes; a node remembers whether its content was flushed
  (\<^verbatim>\<open>fsync\<close> of the file) and whether it is durable (its directory was synchronised after
  that). The kernel is a parameter: which calls fail and how much a failing write has written, when a
  signal arrives, which names \<^verbatim>\<open>mkstemp\<close> invents. Every call is logged with the file system it
  leaves, so that a property of the log is a property of every moment at which the process may die.
\<close>

type_synonym path = "string list"

datatype kind = Regular | Directory | Symlink | Special

record node =
  n_kind :: kind
  n_uid :: int
  n_gid :: int
  n_mode :: int
  n_data :: bytes
  n_flushed :: bool
  n_durable :: bool

type_synonym fs = "path \<rightharpoonup> node"

text \<open>The exceptions the tools distinguish; the other subclasses of \<^verbatim>\<open>OSError\<close> are
  \<open>OSError\<close>.\<close>

datatype exn = OSError | BlockingIOError | ValueError | KeyError | TypeError

datatype sys_op =
    Mkdir path
  | OpenAt path
  | CreateExcl path
  | WriteAt path bytes
  | Flush path
  | SyncDir path
  | Link path path
  | Unlink path
  | Replace path path
  | Chmod path
  | Lock path
  | Spawn "string list"
  | MakeInput bytes \<comment> \<open>a sealed anonymous file\<close>
  | RmTree path
  | KeyOp string int \<comment> \<open>a call on a key of the kernel\<close>
  | Ran "string list" int "string list" \<comment> \<open>a child process that ended, its status and its output\<close>
  | Print string

record 'o kernel =
  k_fault :: "sys_op \<Rightarrow> 'o \<Rightarrow> nat option \<times> 'o" \<comment> \<open>a failing call, and the bytes it wrote\<close>
  k_busy :: "path \<Rightarrow> 'o \<Rightarrow> bool \<times> 'o"
  k_signal :: "'o \<Rightarrow> bool \<times> 'o"
  k_suffix :: "'o \<Rightarrow> string \<times> 'o"

record ('l, 'o) process =
  fs :: fs
  cancelled :: bool
  locals :: 'l
  choices :: 'o

type_synonym ('l, 'o, 'a) sysprog = "(('l, 'o) process, sys_op \<times> fs, exn, 'a) prog"

subsection \<open>System calls\<close>

definition syscall :: "'o kernel \<Rightarrow> sys_op \<Rightarrow> (nat \<Rightarrow> fs \<Rightarrow> fs) \<Rightarrow> (fs \<Rightarrow> (exn + 'a) \<times> fs) \<Rightarrow> ('l, 'o, 'a) sysprog" where
  "syscall K op failing f = (\<lambda>w. case k_fault K op (choices w) of (bad, o') \<Rightarrow>
     let (r, s) = (case bad of Some k \<Rightarrow> (Inl OSError, failing k (fs w)) | None \<Rightarrow> f (fs w))
     in ([(op, s)], w\<lparr>fs := s, choices := o'\<rparr>, r))"

text \<open>\<^verbatim>\<open>0o600\<close> and \<^verbatim>\<open>0o700\<close>.\<close>

definition FILE_MODE :: int where
  "FILE_MODE = 384"

definition DIR_MODE :: int where
  "DIR_MODE = 448"

definition new_file :: node where
  "new_file = \<lparr>n_kind = Regular, n_uid = 0, n_gid = 0, n_mode = FILE_MODE, n_data = [],
     n_flushed = False, n_durable = False\<rparr>"

definition new_dir :: node where
  "new_dir = \<lparr>n_kind = Directory, n_uid = 0, n_gid = 0, n_mode = DIR_MODE, n_data = [],
     n_flushed = True, n_durable = False\<rparr>"

definition unchanged :: "nat \<Rightarrow> fs \<Rightarrow> fs" where
  "unchanged k s = s"

definition lexists :: "path \<Rightarrow> fs \<Rightarrow> bool" where
  "lexists p s \<longleftrightarrow> s p \<noteq> None"

text \<open>\<^verbatim>\<open>path.mkdir(mode=0o700, parents=True, exist_ok=True)\<close> under the umask
  \<^verbatim>\<open>0o077\<close>: the missing directories on the way are made from the top, so a failing call may
  have made some of them; something else than a directory in the way is an error.\<close>

definition make_dirs :: "path \<Rightarrow> fs \<Rightarrow> fs" where
  "make_dirs p s = (\<lambda>q. if q \<noteq> [] \<and> take (length q) p = q \<and> s q = None then Some new_dir else s q)"

definition sys_mkdir :: "'o kernel \<Rightarrow> path \<Rightarrow> ('l, 'o, unit) sysprog" where
  "sys_mkdir K p = syscall K (Mkdir p) (\<lambda>k s. if s p = None then make_dirs (take k p) s else s) (\<lambda>s. case s p of
       None \<Rightarrow> (Inr (), make_dirs p s)
     | Some n \<Rightarrow> (if n_kind n \<in> {Directory, Symlink} then Inr () else Inl OSError, s))"

text \<open>\<^verbatim>\<open>lstat\<close>, and \<^verbatim>\<open>os.open\<close> of an existing file without following links, which
  gives the node.\<close>

definition sys_lstat :: "path \<Rightarrow> ('l, 'o, node) sysprog" where
  "sys_lstat p = pbind (look (\<lambda>w. fs w p)) (\<lambda>r. case r of None \<Rightarrow> raise OSError | Some n \<Rightarrow> ret n)"

definition sys_open :: "'o kernel \<Rightarrow> path \<Rightarrow> ('l, 'o, node) sysprog" where
  "sys_open K p = syscall K (OpenAt p) unchanged (\<lambda>s. case s p of
       None \<Rightarrow> (Inl OSError, s)
     | Some n \<Rightarrow> (if n_kind n = Symlink then Inl OSError else Inr n, s))"

text \<open>\<^verbatim>\<open>os.open\<close> with \<^verbatim>\<open>O_CREAT\<close>, and with \<^verbatim>\<open>O_CREAT | O_EXCL\<close>.\<close>

definition sys_create :: "'o kernel \<Rightarrow> path \<Rightarrow> ('l, 'o, unit) sysprog" where
  "sys_create K p = syscall K (OpenAt p) unchanged (\<lambda>s. case s p of
       None \<Rightarrow> (Inr (), s(p \<mapsto> new_file))
     | Some n \<Rightarrow> (if n_kind n \<in> {Symlink, Directory} then Inl OSError else Inr (), s))"

definition sys_create_excl :: "'o kernel \<Rightarrow> path \<Rightarrow> ('l, 'o, unit) sysprog" where
  "sys_create_excl K p = syscall K (CreateExcl p) unchanged (\<lambda>s. case s p of
       None \<Rightarrow> (Inr (), s(p \<mapsto> new_file))
     | Some n \<Rightarrow> (Inl OSError, s))"

text \<open>Writing the whole content of a file that was just created; a failing write may have written a
  part of it.\<close>

definition put :: "path \<Rightarrow> bytes \<Rightarrow> fs \<Rightarrow> fs" where
  "put p data s = (case s p of None \<Rightarrow> s
     | Some n \<Rightarrow> s(p \<mapsto> n\<lparr>n_data := data, n_flushed := False, n_durable := False\<rparr>))"

definition sys_write :: "'o kernel \<Rightarrow> path \<Rightarrow> bytes \<Rightarrow> ('l, 'o, unit) sysprog" where
  "sys_write K p data = syscall K (WriteAt p data) (\<lambda>k. put p (take k data)) (\<lambda>s. (Inr (), put p data s))"

definition flush :: "path \<Rightarrow> fs \<Rightarrow> fs" where
  "flush p s = (case s p of None \<Rightarrow> s | Some n \<Rightarrow> s(p \<mapsto> n\<lparr>n_flushed := True\<rparr>))"

definition sys_fsync :: "'o kernel \<Rightarrow> path \<Rightarrow> ('l, 'o, unit) sysprog" where
  "sys_fsync K p = syscall K (Flush p) unchanged (\<lambda>s. (Inr (), flush p s))"

definition settle :: "path \<Rightarrow> fs \<Rightarrow> fs" where
  "settle d s = (\<lambda>p. case s p of None \<Rightarrow> None
     | Some n \<Rightarrow> Some (if p \<noteq> [] \<and> butlast p = d \<and> n_flushed n then n\<lparr>n_durable := True\<rparr> else n))"

definition sys_sync_dir :: "'o kernel \<Rightarrow> path \<Rightarrow> ('l, 'o, unit) sysprog" where
  "sys_sync_dir K d = syscall K (SyncDir d) unchanged (\<lambda>s. (Inr (), settle d s))"

text \<open>A new name for a file is durable only after its directory is synchronised again.\<close>

definition sys_link :: "'o kernel \<Rightarrow> path \<Rightarrow> path \<Rightarrow> ('l, 'o, unit) sysprog" where
  "sys_link K p q = syscall K (Link p q) unchanged (\<lambda>s. case (s p, s q) of
       (Some n, None) \<Rightarrow> (Inr (), s(q \<mapsto> n\<lparr>n_durable := False\<rparr>))
     | _ \<Rightarrow> (Inl OSError, s))"

definition sys_unlink :: "'o kernel \<Rightarrow> path \<Rightarrow> ('l, 'o, unit) sysprog" where
  "sys_unlink K p = syscall K (Unlink p) unchanged (\<lambda>s.
     if s p = None then (Inl OSError, s) else (Inr (), s(p := None)))"

definition sys_replace :: "'o kernel \<Rightarrow> path \<Rightarrow> path \<Rightarrow> ('l, 'o, unit) sysprog" where
  "sys_replace K p q = syscall K (Replace p q) unchanged (\<lambda>s. case s p of
       None \<Rightarrow> (Inl OSError, s)
     | Some n \<Rightarrow> (Inr (), s(p := None, q \<mapsto> n\<lparr>n_durable := False\<rparr>)))"

text \<open>\<^verbatim>\<open>os.fchmod(fd, 0o600)\<close> of a file opened under this name.\<close>

definition sys_chmod :: "'o kernel \<Rightarrow> path \<Rightarrow> ('l, 'o, unit) sysprog" where
  "sys_chmod K p = syscall K (Chmod p) unchanged (\<lambda>s. (Inr (), case s p of None \<Rightarrow> s
     | Some n \<Rightarrow> s(p \<mapsto> n\<lparr>n_mode := FILE_MODE\<rparr>)))"

text \<open>\<^verbatim>\<open>tempfile.mkstemp(prefix=..., dir=...)\<close>.\<close>

definition sys_mkstemp :: "'o kernel \<Rightarrow> path \<Rightarrow> string \<Rightarrow> ('l, 'o, path) sysprog" where
  "sys_mkstemp K d prefix = (\<lambda>w. case k_suffix K (choices w) of (suffix, o') \<Rightarrow>
     let p = d @ [prefix @ suffix] in pseq (sys_create_excl K p) (ret p) (w\<lparr>choices := o'\<rparr>))"

text \<open>\<^verbatim>\<open>flock(LOCK_EX | LOCK_NB)\<close> and a line of output.\<close>

definition sys_lock :: "'o kernel \<Rightarrow> path \<Rightarrow> ('l, 'o, unit) sysprog" where
  "sys_lock K p = (\<lambda>w. case k_busy K p (choices w) of (busy, o') \<Rightarrow>
     syscall K (Lock p) unchanged (\<lambda>s. (if busy then Inl BlockingIOError else Inr (), s)) (w\<lparr>choices := o'\<rparr>))"

definition sys_print :: "'o kernel \<Rightarrow> string \<Rightarrow> ('l, 'o, unit) sysprog" where
  "sys_print K l = syscall K (Print l) unchanged (\<lambda>s. (Inr (), s))"

text \<open>A signal sets \<^verbatim>\<open>cancelled\<close>, which nothing resets; this is what the program sees when it
  looks at it.\<close>

definition is_cancelled :: "'o kernel \<Rightarrow> ('l, 'o, bool) sysprog" where
  "is_cancelled K = (\<lambda>w. case k_signal K (choices w) of (signal, o') \<Rightarrow>
     let c = cancelled w \<or> signal in ([], w\<lparr>cancelled := c, choices := o'\<rparr>, Inr c))"

definition get_local :: "('l \<Rightarrow> 'a) \<Rightarrow> ('l, 'o, 'a) sysprog" where
  "get_local f = look (\<lambda>w. f (locals w))"

definition set_local :: "('l \<Rightarrow> 'l) \<Rightarrow> ('l, 'o, unit) sysprog" where
  "set_local f = (\<lambda>w. ([], w\<lparr>locals := f (locals w)\<rparr>, Inr ()))"

text \<open>\<^verbatim>\<open>try: m finally: n\<close>: what \<open>n\<close> raises replaces what \<open>m\<close> returned or raised.\<close>

definition pfinally :: "('w, 'ev, 'e, 'a) prog \<Rightarrow> ('w, 'ev, 'e, unit) prog \<Rightarrow> ('w, 'ev, 'e, 'a) prog" where
  "pfinally m n = (\<lambda>w. case m w of (t, w', r) \<Rightarrow> (case n w' of (t', w'', r') \<Rightarrow>
     (t @ t', w'', case r' of Inl e \<Rightarrow> Inl e | Inr _ \<Rightarrow> r)))"

subsection \<open>Paths and checks that the tools share\<close>

text \<open>\<^verbatim>\<open>pathlib\<close> drops empty and \<^verbatim>\<open>.\<close> components.\<close>

fun split_slash :: "string \<Rightarrow> string \<Rightarrow> string list" where
  "split_slash cur [] = [rev cur]"
| "split_slash cur (c # s) = (if c = CHR ''/'' then rev cur # split_slash [] s else split_slash (c # cur) s)"

definition to_path :: "string \<Rightarrow> path" where
  "to_path s = filter (\<lambda>c. c \<noteq> [] \<and> c \<noteq> ''.'') (split_slash [] s)"

definition is_absolute :: "string \<Rightarrow> bool" where
  "is_absolute s \<longleftrightarrow> take 1 s = ''/''"

definition path_text :: "path \<Rightarrow> string" where
  "path_text p = ''/'' @ join_with ''/'' p"

definition is_private :: "kind \<Rightarrow> int \<Rightarrow> node \<Rightarrow> bool" where
  "is_private k m n \<longleftrightarrow> n_kind n = k \<and> n_uid n = 0 \<and> n_gid n = 0 \<and> n_mode n = m"

subsection \<open>Triples with a crash condition\<close>

text \<open>
  \<open>triple C P m Q E\<close>: from a world satisfying \<open>P\<close>, every call of \<open>m\<close> leaves a file system that
  satisfies \<open>C\<close> (so does every moment at which the process may be killed), and the result and the
  world satisfy \<open>Q\<close>, or the exception and the world satisfy \<open>E\<close>.
\<close>

definition triple :: "(sys_op \<times> fs \<Rightarrow> bool) \<Rightarrow> (('l, 'o) process \<Rightarrow> bool) \<Rightarrow> ('l, 'o, 'a) sysprog
    \<Rightarrow> ('a \<Rightarrow> ('l, 'o) process \<Rightarrow> bool) \<Rightarrow> (exn \<Rightarrow> ('l, 'o) process \<Rightarrow> bool) \<Rightarrow> bool" where
  "triple C P m Q E \<longleftrightarrow> (\<forall>w. P w \<longrightarrow> (\<forall>ev \<in> set (trace_of m w). C ev)
     \<and> (case result_of m w of Inr x \<Rightarrow> Q x (world_of m w) | Inl e \<Rightarrow> E e (world_of m w)))"

lemma tripleI:
  "(\<And>w. P w \<Longrightarrow> (\<forall>ev \<in> set (trace_of m w). C ev)
     \<and> (case result_of m w of Inr x \<Rightarrow> Q x (world_of m w) | Inl e \<Rightarrow> E e (world_of m w))) \<Longrightarrow> triple C P m Q E"
  by (simp add: triple_def)

named_theorems triple_rules \<open>one rule for each construct\<close>

lemma triple_ret: "(\<And>w. P w \<Longrightarrow> Q x w) \<Longrightarrow> triple C P (ret x) Q E"
  by (simp add: triple_def run_simps)

lemma triple_raise: "(\<And>w. P w \<Longrightarrow> E e w) \<Longrightarrow> triple C P (raise e) Q E"
  by (simp add: triple_def run_simps)

lemma triple_look: "(\<And>w. P w \<Longrightarrow> Q (f w) w) \<Longrightarrow> triple C P (look f) Q E"
  by (simp add: triple_def run_simps)

lemma triple_check:
  "(\<And>w. P w \<Longrightarrow> b \<Longrightarrow> Q () w) \<Longrightarrow> (\<And>w. P w \<Longrightarrow> \<not> b \<Longrightarrow> E e w) \<Longrightarrow> triple C P (check b e) Q E"
  by (simp add: triple_def run_simps)

lemma triple_lift:
  "(\<And>w x. P w \<Longrightarrow> r = Inr x \<Longrightarrow> Q x w) \<Longrightarrow> (\<And>w e. P w \<Longrightarrow> r = Inl e \<Longrightarrow> E e w) \<Longrightarrow> triple C P (lift r) Q E"
  by (cases r) (simp_all add: triple_def run_simps)

lemma tripleD:
  assumes "triple C P m Q E" "P w"
  shows "ev \<in> set (trace_of m w) \<Longrightarrow> C ev" "result_of m w = Inr x \<Longrightarrow> Q x (world_of m w)"
    "result_of m w = Inl e \<Longrightarrow> E e (world_of m w)"
proof -
  have t: "\<forall>ev \<in> set (trace_of m w). C ev"
    "case result_of m w of Inr x \<Rightarrow> Q x (world_of m w) | Inl e \<Rightarrow> E e (world_of m w)"
    using assms unfolding triple_def by blast+
  show "ev \<in> set (trace_of m w) \<Longrightarrow> C ev" using t(1) by blast
  show "result_of m w = Inr x \<Longrightarrow> Q x (world_of m w)" "result_of m w = Inl e \<Longrightarrow> E e (world_of m w)"
    using t(2) by simp_all
qed

lemma triple_bind:
  assumes "triple C P m R E" "\<And>x. triple C (R x) (f x) Q E"
  shows "triple C P (pbind m f) Q E"
proof (rule tripleI)
  fix w assume P: "P w"
  note m = tripleD [OF assms(1) P]
  show "(\<forall>ev \<in> set (trace_of (pbind m f) w). C ev)
     \<and> (case result_of (pbind m f) w of Inr x \<Rightarrow> Q x (world_of (pbind m f) w) | Inl e \<Rightarrow> E e (world_of (pbind m f) w))"
  proof (cases "result_of m w")
    case (Inl e)
    then show ?thesis using m by (simp add: run_bind)
  next
    case (Inr x)
    note f = tripleD [OF assms(2) [of x] m(2) [OF Inr]]
    show ?thesis using m(1) f Inr by (auto simp: run_bind split: sum.split)
  qed
qed

lemma triple_seq: "triple C P m (\<lambda>_. R) E \<Longrightarrow> triple C R n Q E \<Longrightarrow> triple C P (pseq m n) Q E"
  unfolding pseq_def by (rule triple_bind)

lemma triple_weaken:
  assumes "triple C P m Q E" "\<And>w. P' w \<Longrightarrow> P w" "\<And>x w. Q x w \<Longrightarrow> Q' x w" "\<And>e w. E e w \<Longrightarrow> E' e w"
    "\<And>ev. C ev \<Longrightarrow> C' ev"
  shows "triple C' P' m Q' E'"
proof (rule tripleI)
  fix w assume "P' w"
  note m = tripleD [OF assms(1) assms(2) [OF this]]
  show "(\<forall>ev \<in> set (trace_of m w). C' ev)
     \<and> (case result_of m w of Inr x \<Rightarrow> Q' x (world_of m w) | Inl e \<Rightarrow> E' e (world_of m w))"
    using m(1) m(2,3) assms(3-5) by (auto split: sum.split)
qed

lemma triple_catch:
  assumes "triple C P m Q R" "\<And>e n. h e = Some n \<Longrightarrow> triple C (R e) n Q E" "\<And>e w. h e = None \<Longrightarrow> R e w \<Longrightarrow> E e w"
  shows "triple C P (pcatch m h) Q E"
proof (rule tripleI)
  fix w assume P: "P w"
  have "world_of (pcatch m h) w = (case result_of m w of Inr x \<Rightarrow> world_of m w
      | Inl e \<Rightarrow> (case h e of None \<Rightarrow> world_of m w | Some n \<Rightarrow> world_of n (world_of m w)))"
    by (simp add: run_defs pcatch_def split_beta split: sum.split option.split)
  note c = this
  note m = tripleD [OF assms(1) P]
  show "(\<forall>ev \<in> set (trace_of (pcatch m h) w). C ev)
     \<and> (case result_of (pcatch m h) w of Inr x \<Rightarrow> Q x (world_of (pcatch m h) w) | Inl e \<Rightarrow> E e (world_of (pcatch m h) w))"
  proof (cases "result_of m w")
    case (Inr x)
    then show ?thesis using m by (simp add: run_catch c)
  next
    case (Inl e)
    show ?thesis
    proof (cases "h e")
      case None
      then show ?thesis using m Inl assms(3) by (simp add: run_catch c)
    next
      case (Some n)
      note n = tripleD [OF assms(2) [OF Some] m(3) [OF Inl]]
      show ?thesis using m(1) n Inl Some by (auto simp: run_catch c split: sum.split)
    qed
  qed
qed

lemma triple_finally:
  assumes "triple C P m R S" "\<And>x. triple C (R x) n (\<lambda>_. Q x) E" "\<And>e. triple C (S e) n (\<lambda>_. E e) E"
  shows "triple C P (pfinally m n) Q E"
proof (rule tripleI)
  fix w assume P: "P w"
  have f: "trace_of (pfinally m n) w = trace_of m w @ trace_of n (world_of m w)"
    "world_of (pfinally m n) w = world_of n (world_of m w)"
    "result_of (pfinally m n) w = (case result_of n (world_of m w) of Inl e \<Rightarrow> Inl e | Inr _ \<Rightarrow> result_of m w)"
    by (simp_all add: run_defs pfinally_def split_beta split: sum.split)
  show "(\<forall>ev \<in> set (trace_of (pfinally m n) w). C ev)
     \<and> (case result_of (pfinally m n) w of Inr x \<Rightarrow> Q x (world_of (pfinally m n) w) | Inl e \<Rightarrow> E e (world_of (pfinally m n) w))"
  proof (cases "result_of m w")
    case (Inr x)
    note n = tripleD [OF assms(2) tripleD(2) [OF assms(1) P Inr]]
    show ?thesis using tripleD(1) [OF assms(1) P] n Inr by (auto simp: f split: sum.split)
  next
    case (Inl e)
    note n = tripleD [OF assms(3) tripleD(3) [OF assms(1) P Inl]]
    show ?thesis using tripleD(1) [OF assms(1) P] n Inl by (auto simp: f split: sum.split)
  qed
qed

lemma triple_if: "(b \<Longrightarrow> triple C P m Q E) \<Longrightarrow> (\<not> b \<Longrightarrow> triple C P n Q E) \<Longrightarrow> triple C P (if b then m else n) Q E"
  by simp

lemma triple_option:
  "(r = None \<Longrightarrow> triple C P m Q E) \<Longrightarrow> (\<And>x. r = Some x \<Longrightarrow> triple C P (f x) Q E) \<Longrightarrow>
    triple C P (case r of None \<Rightarrow> m | Some x \<Rightarrow> f x) Q E"
  by (simp split: option.split)

lemma triple_prod: "(\<And>x y. r = (x, y) \<Longrightarrow> triple C P (f x y) Q E) \<Longrightarrow> triple C P (case r of (x, y) \<Rightarrow> f x y) Q E"
  by (simp split: prod.split)

text \<open>A call: it may fail, and then its partial effect has happened.\<close>

lemma triple_syscall:
  assumes "\<And>w r s o'. P w \<Longrightarrow> f (fs w) = (Inr r, s) \<Longrightarrow> C (op, s) \<and> Q r (w\<lparr>fs := s, choices := o'\<rparr>)"
    and "\<And>w e s o'. P w \<Longrightarrow> f (fs w) = (Inl e, s) \<Longrightarrow> C (op, s) \<and> E e (w\<lparr>fs := s, choices := o'\<rparr>)"
    and "\<And>w k o'. P w \<Longrightarrow> C (op, failing k (fs w)) \<and> E OSError (w\<lparr>fs := failing k (fs w), choices := o'\<rparr>)"
  shows "triple C P (syscall K op failing f) Q E"
proof (rule tripleI)
  fix w assume P: "P w"
  obtain bad o' where b: "k_fault K op (choices w) = (bad, o')" by (cases "k_fault K op (choices w)")
  show "(\<forall>ev \<in> set (trace_of (syscall K op failing f) w). C ev)
     \<and> (case result_of (syscall K op failing f) w of Inr x \<Rightarrow> Q x (world_of (syscall K op failing f) w)
        | Inl e \<Rightarrow> E e (world_of (syscall K op failing f) w))"
  proof (cases bad)
    case None
    obtain r s where "f (fs w) = (r, s)" by (cases "f (fs w)")
    then show ?thesis using b None P assms(1,2) by (cases r) (simp_all add: syscall_def run_defs)
  next
    case (Some k)
    then show ?thesis using b P assms(3) by (simp add: syscall_def run_defs)
  qed
qed

lemma triple_is_cancelled:
  assumes "\<And>w c o'. P w \<Longrightarrow> Q c (w\<lparr>cancelled := c, choices := o'\<rparr>)"
  shows "triple C P (is_cancelled K) Q E"
  using assms by (auto simp: triple_def is_cancelled_def run_defs Let_def split_beta)

lemma triple_get_local: "(\<And>w. P w \<Longrightarrow> Q (f (locals w)) w) \<Longrightarrow> triple C P (get_local f) Q E"
  by (simp add: triple_def get_local_def run_simps)

lemma triple_set_local: "(\<And>w. P w \<Longrightarrow> Q () (w\<lparr>locals := f (locals w)\<rparr>)) \<Longrightarrow> triple C P (set_local f) Q E"
  by (simp add: triple_def set_local_def run_defs)

lemma triple_then_ret: "triple C P m (\<lambda>_. Q x) E \<Longrightarrow> triple C P (pseq m (ret x)) Q E"
  by (erule triple_seq) (rule triple_ret)

lemma triple_choice:
  assumes "\<And>w o'. P w \<Longrightarrow> P (w\<lparr>choices := o'\<rparr>)" "\<And>x. triple C P (m x) Q E"
  shows "triple C P (\<lambda>w. case f (choices w) of (x, o') \<Rightarrow> m x (w\<lparr>choices := o'\<rparr>)) Q E"
proof (rule tripleI)
  fix w assume P: "P w"
  obtain x o' where f: "f (choices w) = (x, o')" by (cases "f (choices w)")
  note t = tripleD [OF assms(2) [of x] assms(1) [OF P, of o']]
  show "(\<forall>ev \<in> set (trace_of (\<lambda>w. case f (choices w) of (x, o') \<Rightarrow> m x (w\<lparr>choices := o'\<rparr>)) w). C ev)
     \<and> (case result_of (\<lambda>w. case f (choices w) of (x, o') \<Rightarrow> m x (w\<lparr>choices := o'\<rparr>)) w of
          Inr x' \<Rightarrow> Q x' (world_of (\<lambda>w. case f (choices w) of (x, o') \<Rightarrow> m x (w\<lparr>choices := o'\<rparr>)) w)
        | Inl e \<Rightarrow> E e (world_of (\<lambda>w. case f (choices w) of (x, o') \<Rightarrow> m x (w\<lparr>choices := o'\<rparr>)) w))"
    using t f by (auto simp: run_defs split: sum.split)
qed

lemma triple_mkstemp:
  assumes "\<And>w o'. P w \<Longrightarrow> P (w\<lparr>choices := o'\<rparr>)"
    "\<And>x. triple C P (sys_create_excl K (d @ [prefix @ x])) (\<lambda>_. Q (d @ [prefix @ x])) E"
  shows "triple C P (sys_mkstemp K d prefix) Q E"
  unfolding sys_mkstemp_def Let_def
  by (rule triple_choice, rule assms(1), assumption, rule triple_then_ret, rule assms(2))

lemma triple_lock:
  assumes "\<And>w o'. P w \<Longrightarrow> P (w\<lparr>choices := o'\<rparr>)"
    "\<And>busy. triple C P (syscall K (Lock p) unchanged (\<lambda>s. (if busy then Inl BlockingIOError else Inr (), s))) Q E"
  shows "triple C P (sys_lock K p) Q E"
  unfolding sys_lock_def by (rule triple_choice, rule assms(1), assumption, rule assms(2))

subsection \<open>What a program keeps\<close>

definition keeps :: "(fs \<Rightarrow> bool) \<Rightarrow> (('l, 'o) process \<Rightarrow> bool) \<Rightarrow> ('l, 'o, 'a) sysprog \<Rightarrow> bool" where
  "keeps C J m \<longleftrightarrow> triple (\<lambda>(op, s). C s) J m (\<lambda>_. J) (\<lambda>_. J)"

text \<open>A condition on the file system and on the local variables only.\<close>

definition only :: "(fs \<Rightarrow> bool) \<Rightarrow> ('l \<Rightarrow> bool) \<Rightarrow> ('l, 'o) process \<Rightarrow> bool" where
  "only I L w \<longleftrightarrow> I (fs w) \<and> L (locals w)"

lemma only_simps [simp]:
  "only I L (w\<lparr>cancelled := c\<rparr>) = only I L w" "only I L (w\<lparr>choices := o'\<rparr>) = only I L w"
  "only I L (w\<lparr>fs := s\<rparr>) \<longleftrightarrow> I s \<and> L (locals w)" "only I L (w\<lparr>locals := l\<rparr>) \<longleftrightarrow> I (fs w) \<and> L l"
  by (simp_all add: only_def)

lemma keeps_ret: "keeps C J (ret x)" and keeps_raise: "keeps C J (raise e)" and keeps_look: "keeps C J (look f)"
  and keeps_check: "keeps C J (check b e)" and keeps_lift: "keeps C J (lift r)" and keeps_get_local: "keeps C J (get_local g)"
  by (simp_all add: keeps_def triple_def get_local_def run_simps split: sum.split)

lemma keeps_bind: "keeps C J m \<Longrightarrow> (\<And>x. keeps C J (f x)) \<Longrightarrow> keeps C J (pbind m f)"
  unfolding keeps_def by (rule triple_bind)

lemma keeps_seq: "keeps C J m \<Longrightarrow> keeps C J n \<Longrightarrow> keeps C J (pseq m n)"
  unfolding keeps_def by (rule triple_seq)

lemma keeps_catch: "keeps C J m \<Longrightarrow> (\<And>e n. h e = Some n \<Longrightarrow> keeps C J n) \<Longrightarrow> keeps C J (pcatch m h)"
  unfolding keeps_def by (rule triple_catch)

lemma keeps_finally: "keeps C J m \<Longrightarrow> keeps C J n \<Longrightarrow> keeps C J (pfinally m n)"
  unfolding keeps_def by (rule triple_finally)

lemma keeps_if: "(b \<Longrightarrow> keeps C J m) \<Longrightarrow> (\<not> b \<Longrightarrow> keeps C J n) \<Longrightarrow> keeps C J (if b then m else n)"
  and keeps_option: "(r = None \<Longrightarrow> keeps C J m) \<Longrightarrow> (\<And>x. r = Some x \<Longrightarrow> keeps C J (f x)) \<Longrightarrow>
    keeps C J (case r of None \<Rightarrow> m | Some x \<Rightarrow> f x)"
  and keeps_prod: "(\<And>x y. r' = (x, y) \<Longrightarrow> keeps C J (g x y)) \<Longrightarrow> keeps C J (case r' of (x, y) \<Rightarrow> g x y)"
  by (simp_all split: option.split prod.split)

lemma keeps_is_cancelled: "keeps C (only I L) (is_cancelled K)"
  unfolding keeps_def by (rule triple_is_cancelled) simp

lemma keeps_set_local: "(\<And>l. L l \<Longrightarrow> L (f l)) \<Longrightarrow> keeps C (only I L) (set_local f)"
  unfolding keeps_def by (rule triple_set_local) (simp add: only_def)

lemma keeps_syscall:
  assumes "\<And>s. I s \<Longrightarrow> I (snd (f s))" "\<And>s k. I s \<Longrightarrow> I (failing k s)"
  shows "keeps I (only I L) (syscall K op failing f)"
  unfolding keeps_def
proof (rule triple_syscall)
  show "(case (op, s) of (op, s) \<Rightarrow> I s) \<and> only I L (w\<lparr>fs := s, choices := o'\<rparr>)"
    if "only I L w" "f (fs w) = (Inr r, s)" for w r s o'
    using assms(1) [of "fs w"] that by (simp add: only_def)
  show "(case (op, s) of (op, s) \<Rightarrow> I s) \<and> only I L (w\<lparr>fs := s, choices := o'\<rparr>)"
    if "only I L w" "f (fs w) = (Inl e, s)" for w e s o'
    using assms(1) [of "fs w"] that by (simp add: only_def)
  show "(case (op, failing k (fs w)) of (op, s) \<Rightarrow> I s)
      \<and> only I L (w\<lparr>fs := failing k (fs w), choices := o'\<rparr>)" if "only I L w" for w k o'
    using assms(2) [of "fs w" k] that by (simp add: only_def)
qed

text \<open>A call that leads from one condition on the file system to another.\<close>

lemma triple_call:
  assumes "\<And>s. I s \<Longrightarrow> C (snd (f s))" "\<And>s r. I s \<Longrightarrow> fst (f s) = Inr r \<Longrightarrow> Q r (snd (f s))"
    "\<And>s e. I s \<Longrightarrow> fst (f s) = Inl e \<Longrightarrow> J (snd (f s))" "\<And>s k. I s \<Longrightarrow> C (failing k s) \<and> J (failing k s)"
  shows "triple (\<lambda>(op, s). C s) (only I L) (syscall K op failing f) (\<lambda>r. only (Q r) L) (\<lambda>_. only J L)"
proof (rule triple_syscall)
  show "(case (op, s) of (op, s) \<Rightarrow> C s) \<and> only (Q r) L (w\<lparr>fs := s, choices := o'\<rparr>)"
    if "only I L w" "f (fs w) = (Inr r, s)" for w r s o'
    using assms(1,2) [of "fs w"] that by (simp add: only_def)
  show "(case (op, s) of (op, s) \<Rightarrow> C s) \<and> only J L (w\<lparr>fs := s, choices := o'\<rparr>)"
    if "only I L w" "f (fs w) = (Inl e, s)" for w e s o'
    using assms(1,3) [of "fs w"] that by (simp add: only_def)
  show "(case (op, failing k (fs w)) of (op, s) \<Rightarrow> C s) \<and> only J L (w\<lparr>fs := failing k (fs w), choices := o'\<rparr>)"
    if "only I L w" for w k o'
    using assms(4) [of "fs w" k] that by (simp add: only_def)
qed

lemma keeps_mkstemp:
  "(\<And>x. keeps C (only I L) (sys_create_excl K (d @ [prefix @ x]))) \<Longrightarrow> keeps C (only I L) (sys_mkstemp K d prefix)"
  unfolding keeps_def by (rule triple_mkstemp) simp_all

lemma keeps_lock: "keeps I (only I L) (sys_lock K p)"
  unfolding keeps_def
  by (rule triple_lock, simp, rule keeps_syscall [unfolded keeps_def]) (simp_all add: unchanged_def)

lemmas keeps_rules = keeps_ret keeps_raise keeps_look keeps_check keeps_lift keeps_get_local keeps_bind keeps_seq
  keeps_catch keeps_finally keeps_if keeps_option keeps_prod keeps_is_cancelled

end
