(* ===== verification/NativeEnrol.thy ===== *)
theory NativeEnrol
  imports Storage PyRegex
begin

text \<open>
  \<^verbatim>\<open>fingerprint/oem/native_enrol.py\<close>: the enrolment that fprintd starts. It keeps a random
  machine credential for each local account, asks the credential provider for the native identity once,
  and publishes the template database of a finished enrolment. The provider is a child process and a
  parameter: given its command line and the file system it returns the calls it made, the file system
  and the choices it left, its exit status and its printed lines. The account database, JSON, the
  random source and the program bundle are parameters too. Output to \<^verbatim>\<open>stderr\<close>, resource limits and
  the overwriting of the secret in memory are left out.
\<close>

datatype json = JString string | JInt int | JOther

type_synonym 'o child_process =
  "string list \<Rightarrow> fs \<times> 'o \<Rightarrow> (sys_op \<times> fs) list \<times> (fs \<times> 'o) \<times> int \<times> string list"

record 'o enroller =
  ker :: "'o kernel"
  superuser :: bool
  passwd :: "string \<Rightarrow> (string \<times> int) option"
  passwd_uid :: "int \<Rightarrow> string option"
  here :: path
  json_object :: "bytes \<Rightarrow> (string \<times> json) list option" \<comment> \<open>the members of an object, each key once\<close>
  json_text :: "(string \<times> json) list \<Rightarrow> bytes"
  urandom :: "'o \<Rightarrow> bytes \<times> 'o"
  input_fd :: int \<comment> \<open>the number of the descriptor of the sealed secret\<close>
  child :: "'o child_process"
  still_running :: "'o \<Rightarrow> bool \<times> 'o"

record enrol_locals =
  cleaned :: bool
  cleanup :: bool
  pending :: "string list"

type_synonym ('o, 'a) enrol_prog = "(enrol_locals, 'o, 'a) sysprog"

definition STATE_ROOT :: path where
  "STATE_ROOT = [''var'', ''lib'', ''liuqin-fingerprint'', ''native-enrollment'']"

definition FPRINT_ROOT :: string where
  "FPRINT_ROOT = ''/var/lib/fprint''"

definition CLEANUP :: string where
  "CLEANUP = ''oem_runtime_cleanup firmware_path_restored=1 sensor_power_off=1 listener_stopped=1''"

definition FORWARD :: "string list" where
  "FORWARD = [''READY '', ''enrol_progress_status='', ''capture_rejected='', ''oem_runtime_cleanup '',
     ''native_credential_provider=FAILED'', ''native_credential_provider=BUSY'', ''pipeline_incomplete='',
     ''end_enrol_not_submitted='', ''enrol_authorization='', ''oem_runtime_timed_out='', ''oem_runtime_cancelled='']"

subsection \<open>Private files\<close>

definition enrol_directory :: "'o kernel \<Rightarrow> path \<Rightarrow> ('o, unit) enrol_prog" where
  "enrol_directory K p =
     pseq (sys_mkdir K p) (pbind (sys_lstat p) (\<lambda>n. check (is_private Directory DIR_MODE n) ValueError))"

definition private_file :: "nat \<Rightarrow> node \<Rightarrow> bool" where
  "private_file limit n \<longleftrightarrow> is_private Regular FILE_MODE n \<and> 0 < length (n_data n) \<and> length (n_data n) \<le> limit"

definition private_read :: "'o kernel \<Rightarrow> path \<Rightarrow> nat \<Rightarrow> ('o, bytes) enrol_prog" where
  "private_read K p limit =
     pbind (sys_open K p) (\<lambda>n. if private_file limit n then ret (n_data n) else raise ValueError)"

definition write_exclusive :: "'o kernel \<Rightarrow> path \<Rightarrow> bytes \<Rightarrow> ('l, 'o, unit) sysprog" where
  "write_exclusive K p content =
     pseq (sys_create_excl K p) (pseq (sys_write K p content) (pseq (sys_fsync K p) (sys_sync_dir K (butlast p))))"

subsection \<open>Running the provider\<close>

text \<open>The last cleanup line decides.\<close>

definition note_line :: "string \<Rightarrow> bool \<Rightarrow> bool" where
  "note_line l c = (if starts_with ''oem_runtime_cleanup '' l then l = CLEANUP else c)"

definition forwarded :: "string \<Rightarrow> bool" where
  "forwarded l \<longleftrightarrow> list_ex (\<lambda>p. starts_with p l) FORWARD"

primrec forward_lines :: "'o kernel \<Rightarrow> string list \<Rightarrow> ('o, unit) enrol_prog" where
  "forward_lines K [] = ret ()"
| "forward_lines K (l # ls) =
     pseq (set_local (\<lambda>v. v\<lparr>cleanup := note_line l (cleanup v), pending := ls\<rparr>))
     (pseq (if forwarded l then sys_print K l else ret ())
     (forward_lines K ls))"

text \<open>After an exception a child that is still running is stopped and the rest of its output read.\<close>

definition drain :: "'o enroller \<Rightarrow> ('o, unit) enrol_prog" where
  "drain H = (\<lambda>w. case still_running H (choices w) of (running, o') \<Rightarrow>
     (if running then set_local (\<lambda>v. v\<lparr>cleanup := fold note_line (pending v) (cleanup v)\<rparr>) else ret ())
       (w\<lparr>choices := o'\<rparr>))"

definition run_native :: "'o enroller \<Rightarrow> string list \<Rightarrow> ('l, 'o, int \<times> string list) sysprog" where
  "run_native H command = (\<lambda>w. case child H command (fs w, choices w) of (t, (s, o'), status, said) \<Rightarrow>
     (t @ [(Ran command status said, s)], w\<lparr>fs := s, choices := o'\<rparr>, Inr (status, said)))"

definition start_child :: "'o kernel \<Rightarrow> string list \<Rightarrow> ('o, unit) enrol_prog" where
  "start_child K command = syscall K (Spawn command) unchanged (\<lambda>s. (Inr (), s))"

definition runtime_run :: "'o enroller \<Rightarrow> string list \<Rightarrow> bool \<Rightarrow> ('o, int) enrol_prog" where
  "runtime_run H command finish_creation =
     pbind (is_cancelled (ker H)) (\<lambda>c.
     if c \<and> \<not> finish_creation then ret 1
     else pbind (get_local cleaned) (\<lambda>previous.
       pseq (set_local (\<lambda>v. v\<lparr>cleaned := False, cleanup := False, pending := []\<rparr>))
       (pseq (pcatch (start_child (ker H) command)
               (\<lambda>e. Some (pseq (set_local (\<lambda>v. v\<lparr>cleaned := previous\<rparr>)) (raise e))))
       (pbind (run_native H command) (\<lambda>(status, said).
        pseq (pfinally (forward_lines (ker H) said)
               (pseq (drain H) (set_local (\<lambda>v. v\<lparr>cleaned := previous \<and> cleanup v\<rparr>))))
        (pbind (is_cancelled (ker H)) (\<lambda>c. ret (if finish_creation \<or> \<not> c then status else 1))))))))"

definition native_command :: "'o enroller \<Rightarrow> string list \<Rightarrow> string list" where
  "native_command H operation =
     [''python3'', ''-u'', path_text (here H @ [''native_credentials.py'']), ''--state-dir'', path_text STATE_ROOT] @ operation"

subsection \<open>Admission\<close>

unbundle bit_operations_syntax

definition trusted :: "node \<Rightarrow> bool" where
  "trusted n \<longleftrightarrow> \<not> (n_kind n = Symlink \<or> n_uid n \<noteq> 0 \<or> n_gid n \<noteq> 0 \<or> n_mode n AND 0x12 \<noteq> 0)"

definition native_uid :: "int \<Rightarrow> int" where
  "native_uid uid = 0x60000000 OR uid"


definition check_target :: "'o enroller \<Rightarrow> (string \<times> json) list \<Rightarrow> string \<Rightarrow> int \<Rightarrow> exn + unit" where
  "check_target H candidate username uid =
     (case map_of candidate ''account_profile'' of
        Some (JString p) \<Rightarrow>
          (if p = ''primary-uid-1000'' then
             (case passwd_uid H 1000 of None \<Rightarrow> Inl KeyError
              | Some primary \<Rightarrow> require (map_of candidate ''linux_uid'' = Some (JInt 1000) \<and> uid = 1000 \<and> primary = username) ValueError)
           else if p = ''bound-account'' then
             require (map_of candidate ''linux_username'' = Some (JString username) \<and> map_of candidate ''linux_uid'' = Some (JInt uid)) ValueError
           else Inl ValueError)
      | None \<Rightarrow> require (map_of candidate ''linux_username'' = Some (JString username) \<and> map_of candidate ''linux_uid'' = Some (JInt uid)) ValueError
      | Some j \<Rightarrow> Inl ValueError)"

definition account_uid :: "'o enroller \<Rightarrow> string \<Rightarrow> exn + int" where
  "account_uid H username =
     (case passwd H username of None \<Rightarrow> Inl KeyError
      | Some (pw_name, uid) \<Rightarrow>
          if pw_name = username \<and> 0 < uid \<and> uid < 0x10000000 then Inr uid else Inl ValueError)"

definition check_bundle :: "'o enroller \<Rightarrow> string \<Rightarrow> int \<Rightarrow> ('o, unit) enrol_prog" where
  "check_bundle H username uid =
     pseq (for_each (\<lambda>p. pbind (sys_lstat p) (\<lambda>n. check (trusted n) ValueError))
            [here H, here H @ [''native_credentials.py''], here H @ [''CANDIDATE.json'']])
     (pbind (sys_open (ker H) (here H @ [''CANDIDATE.json''])) (\<lambda>n.
      pbind (lift (case json_object H (n_data n) of None \<Rightarrow> Inl ValueError | Some candidate \<Rightarrow> Inr candidate)) (\<lambda>candidate.
      lift (check_target H candidate username uid))))"

definition template :: "string \<Rightarrow> char \<Rightarrow> path" where
  "template username finger = to_path (FPRINT_ROOT @ ''/'' @ username @ ''/fpc1264_oem/liuqin-fpc1264-oem/'' @ [finger])"

text \<open>\<^verbatim>\<open>parent.resolve() == parent\<close>: no link and no \<^verbatim>\<open>..\<close> on the way.\<close>

definition resolved :: "path \<Rightarrow> fs \<Rightarrow> bool" where
  "resolved p s \<longleftrightarrow> ''..'' \<notin> set p
     \<and> list_all (\<lambda>k. case s (take k p) of None \<Rightarrow> True | Some n \<Rightarrow> n_kind n \<noteq> Symlink) [1..<Suc (length p)]"

definition check_output :: "string \<Rightarrow> ('o, unit) enrol_prog" where
  "check_output text =
     (let p = to_path text in
      pbind (look (\<lambda>w. is_absolute text \<and> resolved (butlast p) (fs w) \<and> p \<noteq> [] \<and> \<not> lexists p (fs w))) (\<lambda>ok.
      pseq (check ok ValueError)
      (pbind (sys_lstat (butlast p)) (\<lambda>n. check (is_private Directory DIR_MODE n) ValueError))))"

subsection \<open>The machine credential\<close>

definition record_path :: "path \<Rightarrow> path" where
  "record_path account = account @ [''credential.json'']"

definition marker_path :: "path \<Rightarrow> path" where
  "marker_path account = account @ [''create.requested'']"

definition credential_path :: "path \<Rightarrow> path" where
  "credential_path account = account @ [''gatekeeper.handle'']"

definition binding :: "string \<Rightarrow> int \<Rightarrow> (string \<times> json) list" where
  "binding username uid = [(''schema'', JInt 1), (''linux_username'', JString username), (''linux_uid'', JInt uid),
     (''native_uid'', JInt (native_uid uid)), (''credential_kind'', JString ''random-polkit'')]"

definition hex_char :: "nat \<Rightarrow> char" where
  "hex_char d = (if d < 10 then char_of (48 + d) else char_of (87 + d))"

definition hex_text :: "bytes \<Rightarrow> string" where
  "hex_text b = concat (map (\<lambda>c. [hex_char (of_char c div 16), hex_char (of_char c mod 16)]) b)"

text \<open>\<^verbatim>\<open>bytearray.fromhex\<close>: pairs of digits, with white space allowed between pairs.\<close>

definition nibble :: "char \<Rightarrow> nat option" where
  "nibble c = (case alnum_value c of None \<Rightarrow> None | Some d \<Rightarrow> if d < 16 then Some d else None)"

fun from_hex :: "string \<Rightarrow> bytes option" where
  "from_hex [] = Some []"
| "from_hex [c] = (if is_space c then Some [] else None)"
| "from_hex (c # d # s) =
     (if is_space c then from_hex (d # s)
      else (case (nibble c, nibble d) of
              (Some h, Some l) \<Rightarrow> map_option (\<lambda>b. char_of (16 * h + l) # b) (from_hex s)
            | _ \<Rightarrow> None))"

definition take_secret :: "(string \<times> json) list option \<Rightarrow> (string \<times> json) list \<Rightarrow> exn + bytes" where
  "take_secret object bound =
     (case object of None \<Rightarrow> Inl ValueError
      | Some r \<Rightarrow> (case map_of r ''secret_hex'' of None \<Rightarrow> Inl KeyError
          | Some encoded \<Rightarrow>
              if set (filter (\<lambda>(k, v). k \<noteq> ''secret_hex'') r) \<noteq> set bound then Inl ValueError
              else (case encoded of
                      JString h \<Rightarrow> (case from_hex h of None \<Rightarrow> Inl ValueError | Some b \<Rightarrow> Inr b)
                    | _ \<Rightarrow> Inl TypeError)))"

definition new_secret :: "'o enroller \<Rightarrow> ('o, bytes) enrol_prog" where
  "new_secret H = (\<lambda>w. case urandom H (choices w) of (b, o') \<Rightarrow> ([], w\<lparr>choices := o'\<rparr>, Inr b))"

text \<open>Both files are durable before the provider is asked to create anything.\<close>

definition make_credential :: "'o enroller \<Rightarrow> path \<Rightarrow> string \<Rightarrow> int \<Rightarrow> ('o, bytes) enrol_prog" where
  "make_credential H account username uid =
     pbind (new_secret H) (\<lambda>secret.
     pseq (write_exclusive (ker H) (record_path account)
            (json_text H (binding username uid @ [(''secret_hex'', JString (hex_text secret))]) @ [newline]))
     (pseq (write_exclusive (ker H) (marker_path account) (''creation requested'' @ [newline]))
     (ret secret)))"

definition read_credential :: "'o enroller \<Rightarrow> path \<Rightarrow> string \<Rightarrow> int \<Rightarrow> ('o, bytes) enrol_prog" where
  "read_credential H account username uid =
     pbind (private_read (ker H) (record_path account) 4096) (\<lambda>content.
     pbind (lift (take_secret (json_object H content) (binding username uid))) (\<lambda>secret.
     pseq (private_read (ker H) (credential_path account) 1024)
     (ret secret)))"

definition seal_input :: "'o kernel \<Rightarrow> bytes \<Rightarrow> ('o, unit) enrol_prog" where
  "seal_input K secret =
     pseq (check (length secret = 32) ValueError)
       (syscall K (MakeInput secret) unchanged (\<lambda>s. (Inr (), s)))"

subsection \<open>Creation and enrolment\<close>

definition request_creation :: "'o enroller \<Rightarrow> path \<Rightarrow> int \<Rightarrow> ('o, int) enrol_prog" where
  "request_creation H account uid =
     pbind (runtime_run H (native_command H [''--create'', str_int (native_uid uid), str_int (input_fd H)]) True) (\<lambda>status.
     pbind (get_local cleaned) (\<lambda>clean.
     if status \<noteq> 0 \<or> \<not> clean then ret 1
     else pseq (private_read (ker H) (credential_path account) 1024)
       (pseq (sys_unlink (ker H) (marker_path account))
       (pseq (sys_sync_dir (ker H) account)
       (ret 0)))))"

definition sys_mkdtemp :: "'o kernel \<Rightarrow> path \<Rightarrow> string \<Rightarrow> ('l, 'o, path) sysprog" where
  "sys_mkdtemp K d prefix = (\<lambda>w. case k_suffix K (choices w) of (suffix, o') \<Rightarrow>
     let p = d @ [prefix @ suffix] in
     pseq (syscall K (Mkdir p) unchanged (\<lambda>s. if s p = None then (Inr (), s(p \<mapsto> new_dir)) else (Inl OSError, s)))
       (ret p) (w\<lparr>choices := o'\<rparr>))"

definition remove_tree :: "path \<Rightarrow> fs \<Rightarrow> fs" where
  "remove_tree p s = (\<lambda>q. if take (length p) q = p then None else s q)"

definition remove_inside :: "path \<Rightarrow> fs \<Rightarrow> fs" where
  "remove_inside p s = (\<lambda>q. if take (length p) q = p \<and> q \<noteq> p then None else s q)"

text \<open>The removal of a temporary directory; when it fails its files may be gone already.\<close>

definition sys_rmtree :: "'o kernel \<Rightarrow> path \<Rightarrow> ('l, 'o, unit) sysprog" where
  "sys_rmtree K p = syscall K (RmTree p) (\<lambda>k s. if k = 0 then s else remove_inside p s) (\<lambda>s. (Inr (), remove_tree p s))"

definition DATABASE_LIMIT :: nat where
  "DATABASE_LIMIT = 16 * 1024 * 1024"

text \<open>The copy of the finished database; nothing is left of an incomplete one.\<close>

definition copy_database :: "'o kernel \<Rightarrow> path \<Rightarrow> bytes \<Rightarrow> ('o, unit) enrol_prog" where
  "copy_database K out data =
     pseq (sys_create_excl K out)
     (pcatch
       (pseq (sys_write K out data) (pseq (sys_fsync K out) (pbind (is_cancelled K) (\<lambda>c. check (\<not> c) OSError))))
       (\<lambda>e. Some (pseq (sys_unlink K out) (raise e))))"

definition publish :: "'o kernel \<Rightarrow> path \<Rightarrow> path \<Rightarrow> ('o, unit) enrol_prog" where
  "publish K db out =
     pbind (sys_open K db) (\<lambda>n.
     pseq (check (private_file DATABASE_LIMIT n) ValueError)
     (pseq (copy_database K out (n_data n))
     (sys_sync_dir K (butlast out))))"

definition enrol_finger :: "'o enroller \<Rightarrow> int \<Rightarrow> path \<Rightarrow> ('o, int) enrol_prog" where
  "enrol_finger H uid out =
     pbind (sys_mkdtemp (ker H) (butlast out) ''.native-enrol-'') (\<lambda>temp.
     pfinally
       (pbind (runtime_run H (native_command H [''--enrol'', path_text (temp @ [''database'']), str_int (native_uid uid), str_int (input_fd H)]) False) (\<lambda>status.
        pbind (get_local cleaned) (\<lambda>clean.
        pbind (is_cancelled (ker H)) (\<lambda>c.
        if status \<noteq> 0 \<or> \<not> clean \<or> c then ret 1
        else pseq (publish (ker H) (temp @ [''database'']) out) (ret 0)))))
       (sys_rmtree (ker H) temp))"

text \<open>With the lock of the account held. \<open>known\<close>: the account has its record and its handle.\<close>

definition use_identity :: "'o enroller \<Rightarrow> path \<Rightarrow> string \<Rightarrow> int \<Rightarrow> path \<Rightarrow> bool \<Rightarrow> ('o, int) enrol_prog" where
  "use_identity H account username uid out known =
     pbind (is_cancelled (ker H)) (\<lambda>c.
     if \<not> known \<and> c then ret 1
     else pbind (if known then read_credential H account username uid else make_credential H account username uid) (\<lambda>secret.
       pseq (seal_input (ker H) secret)
       (pbind (if known then ret 0 else request_creation H account uid) (\<lambda>status.
        if status \<noteq> 0 then ret 1
        else pbind (is_cancelled (ker H)) (\<lambda>c. if c then ret 1 else enrol_finger H uid out)))))"

definition enrol_locked :: "'o enroller \<Rightarrow> path \<Rightarrow> string \<Rightarrow> int \<Rightarrow> path \<Rightarrow> ('o, int) enrol_prog" where
  "enrol_locked H account username uid out =
     pbind (look (\<lambda>w. lexists (marker_path account) (fs w))) (\<lambda>requested.
     pseq (check (\<not> requested) ValueError)
     (pbind (look (\<lambda>w. (lexists (record_path account) (fs w), lexists (credential_path account) (fs w)))) (\<lambda>(known, handled).
      pseq (check (known = handled) ValueError)
      (use_identity H account username uid out known))))"

definition enrol :: "'o enroller \<Rightarrow> string \<Rightarrow> string \<Rightarrow> ('o, int) enrol_prog" where
  "enrol H username text =
     pbind (lift (account_uid H username)) (\<lambda>uid.
     pseq (check_bundle H username uid)
     (pbind (look (\<lambda>w. list_ex (\<lambda>finger. lexists (template username finger) (fs w)) ''123456789a'')) (\<lambda>enrolled.
     if enrolled then pseq (sys_print (ker H) ''native_enrol=REFUSED existing_template=1'') (ret 2)
     else
       pseq (check_output text)
       (let account = STATE_ROOT @ [str_int (native_uid uid)] in
        pseq (enrol_directory (ker H) STATE_ROOT)
        (pseq (enrol_directory (ker H) account)
        (pseq (sys_create (ker H) (account @ [''user-operation.lock'']))
        (pseq (sys_lock (ker H) (account @ [''user-operation.lock'']))
        (enrol_locked H account username uid (to_path text)))))))))"

definition report_cleaned :: "'o kernel \<Rightarrow> ('o, unit) enrol_prog" where
  "report_cleaned K = pbind (get_local cleaned) (\<lambda>clean. if clean then sys_print K ''native_enrol_cleanup=OK'' else ret ())"

definition enrol_main :: "'o enroller \<Rightarrow> string list \<Rightarrow> ('o, int) enrol_prog" where
  "enrol_main H arguments =
     pseq (set_local (\<lambda>_. \<lparr>cleaned = True, cleanup = False, pending = []\<rparr>))
     (if \<not> superuser H \<or> length arguments \<noteq> 3 \<or> arguments ! 0 \<noteq> ''--enrol''
      then pseq (report_cleaned (ker H)) (ret 2)
      else pbind (pfinally (pcatch (enrol H (arguments ! 1) (arguments ! 2)) (\<lambda>e. Some (ret 1))) (report_cleaned (ker H))) (\<lambda>result.
        pbind (is_cancelled (ker H)) (\<lambda>c.
        if c then pseq (sys_print (ker H) ''native_enrol=CANCELLED'') (ret 1)
        else pbind (get_local cleaned) (\<lambda>clean.
          if result = 0 \<and> clean then pseq (sys_print (ker H) ''native_enrol=OK single_finger_database=1'') (ret result)
          else ret result))))"

end
