(* ===== verification/NativeCredentials.thy ===== *)
theory NativeCredentials
  imports Storage PyRegex
begin

text \<open>
  \<^verbatim>\<open>fingerprint/oem/native_credentials.py\<close>: the provider that keeps the opaque Gatekeeper handle
  of a native identity. The trusted runtime that makes a handle is a parameter: it returns its exit
  status, what it wrote to the descriptor or the database it was given, and its printed lines. Output to \<^verbatim>\<open>stderr\<close> is left out; a
  descriptor of the program is the path it was opened under.
\<close>

record fd_state =
  fd_tty :: bool
  fd_write_only :: bool

record 'o provider =
  kernel :: "'o kernel"
  euid :: int
  runtime_present :: bool
  fd_info :: "int \<Rightarrow> fd_state option"
  runtime :: "string list \<Rightarrow> 'o \<Rightarrow> (int \<times> bytes \<times> string list) \<times> 'o"

record cred_locals =
  temporary :: "path option"
  retain :: bool

type_synonym ('o, 'a) cred_prog = "(cred_locals, 'o, 'a) sysprog"

subsection \<open>The arguments\<close>

definition DEFAULT_STATE :: string where
  "DEFAULT_STATE = ''/var/lib/liuqin-fingerprint/native''"

definition split_state :: "string list \<Rightarrow> string \<times> string list" where
  "split_state args = (if 2 \<le> length args \<and> args ! 0 = ''--state-dir'' then (args ! 1, drop 2 args) else (DEFAULT_STATE, args))"

definition is_create :: "string list \<Rightarrow> bool" where
  "is_create args \<longleftrightarrow> length args = 3 \<and> args ! 0 = ''--create''"

definition is_change :: "string list \<Rightarrow> bool" where
  "is_change args \<longleftrightarrow> length args = 4 \<and> args ! 0 = ''--change-input''"

definition is_authorize :: "string list \<Rightarrow> bool" where
  "is_authorize args \<longleftrightarrow> length args = 3 \<and> args ! 0 \<in> {''--auth-preflight'', ''--auth-preflight-renew''}"

definition is_enrol_existing :: "string list \<Rightarrow> bool" where
  "is_enrol_existing args \<longleftrightarrow> length args = 5 \<and> args ! 0 = ''--enrol-existing''"

definition is_enrol :: "string list \<Rightarrow> bool" where
  "is_enrol args \<longleftrightarrow> is_enrol_existing args \<or> (length args = 4 \<and> args ! 0 = ''--enrol'')"

definition int_arg :: "string \<Rightarrow> exn + int" where
  "int_arg s = (case py_int 10 s of None \<Rightarrow> Inl ValueError | Some i \<Rightarrow> Inr i)"

text \<open>A descriptor that can be read: \<^verbatim>\<open>fcntl\<close> of a closed one is an \<^verbatim>\<open>OSError\<close>.\<close>

definition readable_fd :: "'o provider \<Rightarrow> int \<Rightarrow> exn + unit" where
  "readable_fd E fd = (case fd_info E fd of None \<Rightarrow> Inl OSError
     | Some i \<Rightarrow> require (\<not> fd_write_only i) ValueError)"

definition is_tty :: "'o provider \<Rightarrow> int \<Rightarrow> bool" where
  "is_tty E fd = (case fd_info E fd of None \<Rightarrow> False | Some i \<Rightarrow> fd_tty i)"

text \<open>The native user, the input descriptor and the current one.\<close>

definition parse_request :: "'o provider \<Rightarrow> string list \<Rightarrow> exn + int \<times> int \<times> int" where
  "parse_request E args =
     ebind (int_arg (args ! (if is_enrol_existing args then 3 else if is_enrol args then 2 else 1))) (\<lambda>uid.
     ebind (int_arg (last args)) (\<lambda>input_fd.
     ebind (require (0x40000000 \<le> uid \<and> uid \<le> 0x7fffffff \<and> 3 \<le> input_fd \<and> \<not> is_tty E input_fd) ValueError) (\<lambda>_.
     ebind (readable_fd E input_fd) (\<lambda>_.
     ebind (if is_change args
            then ebind (int_arg (args ! 2)) (\<lambda>current.
                 ebind (require (3 \<le> current \<and> current \<noteq> input_fd \<and> \<not> is_tty E current) ValueError) (\<lambda>_.
                 ebind (readable_fd E current) (\<lambda>_. Inr current)))
            else Inr (-1)) (\<lambda>current_fd.
     ebind (require (runtime_present E) ValueError) (\<lambda>_.
     Inr (uid, input_fd, current_fd)))))))"

subsection \<open>The private directory and the runtime\<close>

definition private_directory :: "'o kernel \<Rightarrow> path \<Rightarrow> ('l, 'o, unit) sysprog" where
  "private_directory K p =
     pseq (sys_mkdir K p) (pbind (sys_lstat p) (\<lambda>n.
       check (n_kind n = Directory \<and> n_uid n = 0 \<and> n_mode n = DIR_MODE) ValueError))"

text \<open>Where the output of the runtime goes: nowhere, to the file that was opened for it, or to a
  database that it makes with \<^verbatim>\<open>O_EXCL\<close> (an empty output: it made none).\<close>

datatype sink = NoOutput | Fill path | Export path

fun deliver :: "sink \<Rightarrow> bytes \<Rightarrow> fs \<Rightarrow> fs" where
  "deliver NoOutput data s = s"
| "deliver (Fill p) data s = put p data s"
| "deliver (Export p) data s = (if data = [] \<or> s p \<noteq> None then s else s(p \<mapsto> new_file\<lparr>n_data := data\<rparr>))"

definition run_child :: "'o provider \<Rightarrow> string list \<Rightarrow> sink \<Rightarrow> ('o, int) cred_prog" where
  "run_child E op out = (\<lambda>w. case runtime E op (choices w) of ((status, data, said), o') \<Rightarrow>
     let s = deliver out data (fs w)
     in ([(Ran op status said, s)], w\<lparr>fs := s, choices := o'\<rparr>, Inr status))"

definition run_runtime :: "'o provider \<Rightarrow> string list \<Rightarrow> sink \<Rightarrow> ('o, int) cred_prog" where
  "run_runtime E op out =
     pbind (is_cancelled (kernel E)) (\<lambda>c.
     if c then ret 1
     else pseq (syscall (kernel E) (Spawn op) unchanged (\<lambda>s. (Inr (), s)))
       (pbind (run_child E op out) (\<lambda>status.
        pbind (is_cancelled (kernel E)) (\<lambda>c. ret (if c then 1 else status)))))"

definition HANDLE_LIMIT :: nat where
  "HANDLE_LIMIT = 1024"

definition file_size :: "path \<Rightarrow> fs \<Rightarrow> nat" where
  "file_size p s = (case s p of None \<Rightarrow> 0 | Some n \<Rightarrow> length (n_data n))"

definition size_ok :: "path \<Rightarrow> fs \<Rightarrow> bool" where
  "size_ok p s \<longleftrightarrow> 0 < file_size p s \<and> file_size p s \<le> HANDLE_LIMIT"

definition cmd :: "string list" where
  "cmd = [''python3'', ''oem_runtime.py'', ''--ufs-rpmb-authenticated'']"

definition CREATED :: string where
  "CREATED = ''native_credential_provider=CREATED opaque_handle_persisted=1 derived_input_persisted=0 user_identity_validation=caller_owned''"

definition UPDATED :: string where
  "UPDATED = ''native_credential_update=OK opaque_handle_replaced=1 new_credential_not_requested=1 sid_validation=TA_owned_and_client_checked''"

subsection \<open>Creating, changing and using a handle\<close>

text \<open>A same-directory hard link publishes the handle without replacing any file.\<close>

definition publish_handle :: "'o provider \<Rightarrow> path \<Rightarrow> path \<Rightarrow> ('o, int) cred_prog" where
  "publish_handle E account temp =
     (let K = kernel E
      in pseq (sys_fsync K temp)
        (pseq (sys_link K temp (account @ [''gatekeeper.handle'']))
        (pseq (sys_unlink K temp)
        (pseq (set_local (temporary_update (\<lambda>_. None)))
        (pseq (sys_sync_dir K account)
        (pseq (sys_print K CREATED)
        (ret 0)))))))"

definition make_handle :: "'o provider \<Rightarrow> path \<Rightarrow> int \<Rightarrow> int \<Rightarrow> path \<Rightarrow> ('o, int) cred_prog" where
  "make_handle E account uid input_fd temp =
     pbind (run_runtime E (cmd @ [''--new-native-credential'', str_int uid, str_int input_fd, ''HANDLE'']) (Fill temp)) (\<lambda>result.
     pbind (look (\<lambda>w. size_ok temp (fs w))) (\<lambda>ok.
     pseq (set_local (retain_update (\<lambda>_. ok)))
     (if result \<noteq> 0 then ret result
      else if \<not> ok then ret 1
      else publish_handle E account temp)))"

definition create_handle :: "'o provider \<Rightarrow> path \<Rightarrow> int \<Rightarrow> int \<Rightarrow> ('o, int) cred_prog" where
  "create_handle E account uid input_fd =
     pbind (look (\<lambda>w. lexists (account @ [''gatekeeper.handle'']) (fs w))) (\<lambda>there.
     if there then ret 2
     else pbind (sys_mkstemp (kernel E) account ''.gatekeeper-handle-'') (\<lambda>temp.
       pseq (set_local (temporary_update (\<lambda>_. Some temp)))
       (pseq (sys_chmod (kernel E) temp)
       (make_handle E account uid input_fd temp))))"

text \<open>Changing: the previous handle stays beside the new one until the directory is synchronised.\<close>

definition commit_update :: "'o provider \<Rightarrow> path \<Rightarrow> path \<Rightarrow> path \<Rightarrow> ('o, int) cred_prog" where
  "commit_update E account temp previous =
     (let K = kernel E
      in pseq (sys_replace K temp (account @ [''gatekeeper.handle'']))
        (pseq (set_local (temporary_update (\<lambda>_. None)))
        (pseq (sys_sync_dir K account)
        (pseq (sys_unlink K previous)
        (pseq (sys_sync_dir K account)
        (pseq (sys_print K UPDATED)
        (ret 0)))))))"

definition install_update :: "'o provider \<Rightarrow> path \<Rightarrow> path \<Rightarrow> ('o, int) cred_prog" where
  "install_update E account temp =
     (let K = kernel E
      in pseq (sys_fsync K temp)
        (pseq (sys_open K account)
        (pbind (sys_mkstemp K account ''.gatekeeper-previous-'') (\<lambda>previous.
         pseq (sys_unlink K previous)
         (pseq (sys_link K (account @ [''gatekeeper.handle'']) previous)
         (pseq (sys_sync_dir K account)
         (pbind (is_cancelled K) (\<lambda>c.
          if c then ret 1 else commit_update E account temp previous))))))))"

definition change_handle :: "'o provider \<Rightarrow> path \<Rightarrow> int \<Rightarrow> int \<Rightarrow> int \<Rightarrow> ('o, int) cred_prog" where
  "change_handle E account uid current_fd input_fd =
     pbind (sys_mkstemp (kernel E) account ''.gatekeeper-update-'') (\<lambda>temp.
     pseq (set_local (temporary_update (\<lambda>_. Some temp)))
     (pseq (sys_chmod (kernel E) temp)
     (pbind (run_runtime E (cmd @ [''--change-native-credential'', str_int uid, ''HANDLE'', str_int current_fd,
               str_int input_fd, ''OUTPUT'']) (Fill temp)) (\<lambda>result.
      pbind (look (\<lambda>w. size_ok temp (fs w))) (\<lambda>ok.
      pseq (set_local (retain_update (\<lambda>_. ok)))
      (pbind (is_cancelled (kernel E)) (\<lambda>c.
       if result \<noteq> 0 then ret result
       else if c then ret 1
       else if \<not> ok then ret 1
       else install_update E account temp)))))))"

definition operation :: "string list \<Rightarrow> int \<Rightarrow> int \<Rightarrow> string list" where
  "operation args uid input_fd =
     (if is_enrol_existing args then [''--enrol-existing'', args ! 1, args ! 2, str_int uid, ''HANDLE'', str_int input_fd]
      else if is_enrol args then [''--enrol'', args ! 1, str_int uid, ''HANDLE'', str_int input_fd]
      else [args ! 0, str_int uid, ''HANDLE'', str_int input_fd])"

definition database :: "string list \<Rightarrow> sink" where
  "database args =
     (if is_enrol_existing args then Export (to_path (args ! 2))
      else if is_enrol args then Export (to_path (args ! 1)) else NoOutput)"

definition handle_private :: "node \<Rightarrow> bool" where
  "handle_private n \<longleftrightarrow> n_kind n = Regular \<and> n_uid n = 0 \<and> n_mode n = FILE_MODE
     \<and> 0 < length (n_data n) \<and> length (n_data n) \<le> HANDLE_LIMIT"

definition with_handle :: "'o provider \<Rightarrow> string list \<Rightarrow> path \<Rightarrow> int \<Rightarrow> int \<Rightarrow> int \<Rightarrow> ('o, int) cred_prog" where
  "with_handle E args account uid input_fd current_fd =
     pbind (sys_open (kernel E) (account @ [''gatekeeper.handle''])) (\<lambda>n.
     if \<not> handle_private n then ret 2
     else if is_change args then change_handle E account uid current_fd input_fd
     else run_runtime E (cmd @ operation args uid input_fd) (database args))"

definition drop_temporary :: "'o provider \<Rightarrow> ('o, unit) cred_prog" where
  "drop_temporary E =
     pbind (get_local temporary) (\<lambda>t. case t of None \<Rightarrow> ret ()
       | Some temp \<Rightarrow> pbind (get_local retain) (\<lambda>keep. if keep then ret () else sys_unlink (kernel E) temp))"

definition storage_failed :: "exn \<Rightarrow> ('o, int) cred_prog option" where
  "storage_failed e = (if e \<in> {BlockingIOError, OSError} then Some (ret 1) else None)"

definition provide :: "'o provider \<Rightarrow> string list \<Rightarrow> path \<Rightarrow> int \<Rightarrow> int \<Rightarrow> int \<Rightarrow> ('o, int) cred_prog" where
  "provide E args account uid input_fd current_fd =
     pseq (set_local (\<lambda>_. \<lparr>temporary = None, retain = False\<rparr>))
     (pfinally
       (pcatch
         (pseq (sys_create (kernel E) (account @ [''operation.lock'']))
         (pseq (sys_lock (kernel E) (account @ [''operation.lock'']))
         (if is_create args then create_handle E account uid input_fd
          else with_handle E args account uid input_fd current_fd)))
         storage_failed)
       (drop_temporary E))"

definition set_up :: "'o provider \<Rightarrow> path \<Rightarrow> string list \<Rightarrow> ('o, (int \<times> int \<times> int) option) cred_prog" where
  "set_up E state args =
     pcatch
       (pbind (lift (parse_request E args)) (\<lambda>(uid, input_fd, current_fd).
        pseq (private_directory (kernel E) state)
        (pseq (private_directory (kernel E) (state @ [str_int uid]))
        (ret (Some (uid, input_fd, current_fd))))))
       (\<lambda>e. if e \<in> {ValueError, OSError, BlockingIOError} then Some (ret None) else None)"

definition provider_main :: "'o provider \<Rightarrow> string list \<Rightarrow> ('o, int) cred_prog" where
  "provider_main E arguments =
     (case split_state arguments of (state, args) \<Rightarrow>
        if euid E \<noteq> 0 \<or> \<not> (is_create args \<or> is_change args \<or> is_authorize args \<or> is_enrol args) \<or> \<not> is_absolute state
        then ret 2
        else pbind (set_up E (to_path state) args) (\<lambda>r. case r of
            None \<Rightarrow> ret 2
          | Some (uid, input_fd, current_fd) \<Rightarrow>
              provide E args (to_path state @ [str_int uid]) uid input_fd current_fd))"

end
