(* ===== verification/UserCredentials.thy ===== *)
theory UserCredentials
  imports NativeEnrol NativeCredentials
begin

text \<open>
  \<^verbatim>\<open>fingerprint/oem/user_credentials.py\<close> and \<^verbatim>\<open>fingerprint/oem/acceptance_input.py\<close>: the
  bridge from the password of a Linux account to its native identity, and the one-use input that it can
  leave in the kernel's keyring for a later enrolment. The PAM helper is a parameter: it returns its
  exit status and what it wrote to the two anonymous files. The provider is a child process as in
  \<open>NativeEnrol\<close>. The clock, the boot identifier and the serial numbers of keys are parameters too; a
  call on the keyring may fail like any other call. Locked memory, messages and the closing of
  descriptors are left out; an anonymous file is its content.
\<close>

record key =
  k_serial :: int
  k_name :: string
  k_data :: bytes
  k_revoked :: bool

record 'o bridge =
  en :: "'o enroller"
  is_root :: bool
  helper :: "string list \<Rightarrow> 'o \<Rightarrow> (int \<times> bytes \<times> bytes) \<times> 'o" \<comment> \<open>its status, the previous and the new input\<close>
  boot_id :: string
  clock :: "'o \<Rightarrow> int \<times> 'o"
  new_serial :: "'o \<Rightarrow> int \<times> 'o"
  salt_no :: int
  current_no :: int
  input_no :: int

record user_locals =
  keyring :: "key list"

type_synonym ('o, 'a) user_prog = "(user_locals, 'o, 'a) sysprog"

subsection \<open>Private state\<close>

definition private_state :: "'o kernel \<Rightarrow> path \<Rightarrow> ('l, 'o, bytes) sysprog" where
  "private_state K p =
     pbind (sys_open K p) (\<lambda>n.
     if n_kind n = Regular \<and> n_uid n = 0 \<and> n_mode n = FILE_MODE then ret (n_data n) else raise ValueError)"

definition write_state :: "'o kernel \<Rightarrow> path \<Rightarrow> bytes \<Rightarrow> ('l, 'o, unit) sysprog" where
  "write_state K p data =
     pseq (sys_create_excl K p) (pseq (sys_write K p data) (pseq (sys_fsync K p) (sys_sync_dir K (butlast p))))"

definition sealed_memory :: "'o kernel \<Rightarrow> bytes \<Rightarrow> ('l, 'o, unit) sysprog" where
  "sealed_memory K data = syscall K (MakeInput data) unchanged (\<lambda>s. (Inr (), s))"

unbundle bit_operations_syntax

definition legacy_uid :: "int \<Rightarrow> int" where
  "legacy_uid linux_uid = 0x40000000 OR linux_uid"

definition IDENTITY_FILES :: "string list" where
  "IDENTITY_FILES = [''gatekeeper.handle'', ''input-parameters.json'', ''create.requested'']"

definition native_account_uid :: "path \<Rightarrow> int \<Rightarrow> fs \<Rightarrow> int" where
  "native_account_uid state linux_uid s =
     (if list_ex (\<lambda>name. lexists (state @ [str_int (legacy_uid linux_uid), name]) s) IDENTITY_FILES
      then legacy_uid linux_uid else 0x50000000 OR linux_uid)"

definition safe_program :: "node \<Rightarrow> bool" where
  "safe_program n \<longleftrightarrow> \<not> (n_uid n \<noteq> 0 \<or> n_mode n AND 0x12 \<noteq> 0 \<or> n_kind n = Symlink)"

definition private_mode :: "node \<Rightarrow> bool" where
  "private_mode n \<longleftrightarrow> n_uid n = 0 \<and> n_mode n AND 0x3F = 0 \<and> n_kind n = Directory"

subsection \<open>The keyring\<close>

definition key_call :: "'o kernel \<Rightarrow> string \<Rightarrow> int \<Rightarrow> (key list \<Rightarrow> 'a option \<times> key list) \<Rightarrow> ('o, 'a option) user_prog" where
  "key_call K name serial f = (\<lambda>w. case k_fault K (KeyOp name serial) (choices w) of (bad, o') \<Rightarrow>
     let (r, ks) = (case bad of Some k \<Rightarrow> (None, keyring (locals w)) | None \<Rightarrow> f (keyring (locals w)))
     in ([(KeyOp name serial, fs w)], w\<lparr>locals := \<lparr>keyring = ks\<rparr>, choices := o'\<rparr>, Inr r))"

definition live_key :: "int \<Rightarrow> key \<Rightarrow> bool" where
  "live_key serial k \<longleftrightarrow> k_serial k = serial \<and> \<not> k_revoked k"

definition key_search :: "string \<Rightarrow> key list \<Rightarrow> int option \<times> key list" where
  "key_search name ks = (map_option k_serial (find (\<lambda>k. k_name k = name \<and> \<not> k_revoked k) ks), ks)"

definition key_read :: "int \<Rightarrow> key list \<Rightarrow> bytes option \<times> key list" where
  "key_read serial ks = (map_option k_data (find (live_key serial) ks), ks)"

definition key_touch :: "int \<Rightarrow> key list \<Rightarrow> unit option \<times> key list" where
  "key_touch serial ks = (if list_ex (live_key serial) ks then Some () else None, ks)"

definition key_revoke :: "int \<Rightarrow> key list \<Rightarrow> unit option \<times> key list" where
  "key_revoke serial ks =
     (if list_ex (live_key serial) ks
      then (Some (), map (\<lambda>k. if k_serial k = serial then k\<lparr>k_revoked := True\<rparr> else k) ks) else (None, ks))"

definition key_unlink :: "int \<Rightarrow> key list \<Rightarrow> unit option \<times> key list" where
  "key_unlink serial ks =
     (if list_ex (\<lambda>k. k_serial k = serial) ks then Some () else None, filter (\<lambda>k. k_serial k \<noteq> serial) ks)"

text \<open>A key of this name that is already there is updated and keeps its serial number.\<close>

definition key_add :: "string \<Rightarrow> bytes \<Rightarrow> int \<Rightarrow> key list \<Rightarrow> int option \<times> key list" where
  "key_add name data serial ks =
     (case find (\<lambda>k. k_name k = name \<and> \<not> k_revoked k) ks of
        Some old \<Rightarrow> (Some (k_serial old), map (\<lambda>k. if live_key (k_serial old) k then k\<lparr>k_data := data\<rparr> else k) ks)
      | None \<Rightarrow> (Some serial, \<lparr>k_serial = serial, k_name = name, k_data = data, k_revoked = False\<rparr> # ks))"

definition need :: "('o, 'a option) user_prog \<Rightarrow> ('o, 'a) user_prog" where
  "need m = pbind m (\<lambda>r. case r of None \<Rightarrow> raise OSError | Some x \<Rightarrow> ret x)"

definition consult :: "('o \<Rightarrow> 'a \<times> 'o) \<Rightarrow> ('l, 'o, 'a) sysprog" where
  "consult f = (\<lambda>w. case f (choices w) of (x, o') \<Rightarrow> ([], w\<lparr>choices := o'\<rparr>, Inr x))"

subsection \<open>The prepared input\<close>

definition RUN_ROOT :: path where
  "RUN_ROOT = [''run'', ''liuqin-fpc-oem-runtime'']"

definition LIFETIME :: int where
  "LIFETIME = 18 * 3600"

text \<open>\<^verbatim>\<open>ROOT.mkdir(mode=0o700, exist_ok=True)\<close>, which makes no parents.\<close>

definition sys_mkdir_one :: "'o kernel \<Rightarrow> path \<Rightarrow> ('l, 'o, unit) sysprog" where
  "sys_mkdir_one K p = syscall K (Mkdir p) unchanged (\<lambda>s. case s p of
       None \<Rightarrow> (if s (butlast p) = None then (Inl OSError, s) else (Inr (), s(p \<mapsto> new_dir)))
     | Some n \<Rightarrow> (if n_kind n \<in> {Directory, Symlink} then Inr () else Inl OSError, s))"

definition acceptance_path :: "string \<Rightarrow> path" where
  "acceptance_path username = RUN_ROOT @ [''acceptance-'' @ username @ ''.json'']"

definition acceptance_context :: "'o bridge \<Rightarrow> string \<Rightarrow> ('o, unit) user_prog" where
  "acceptance_context B username =
     pseq (check (is_root B \<and> username \<noteq> [] \<and> CHR ''/'' \<notin> set username \<and> username \<notin> {''.'', ''..''}) ValueError)
     (pseq (need (key_call (ker (en B)) ''get_keyring_ID'' (-4) (\<lambda>ks. (Some (), ks))))
     (pseq (need (key_call (ker (en B)) ''link'' (-2) (\<lambda>ks. (Some (), ks))))
     (pseq (sys_mkdir_one (ker (en B)) RUN_ROOT)
     (pbind (sys_lstat RUN_ROOT) (\<lambda>n. check (private_mode n) ValueError)))))"

text \<open>\<^verbatim>\<open>metadata.exists()\<close>: the file is only ever made by this program, so it is no link.\<close>

definition is_prepared :: "string \<Rightarrow> ('o, bool) user_prog" where
  "is_prepared username = look (\<lambda>w. lexists (acceptance_path username) (fs w))"

definition drop_key :: "'o kernel \<Rightarrow> int \<Rightarrow> ('o, unit) user_prog" where
  "drop_key K serial =
     pseq (key_call K ''revoke'' serial (key_revoke serial))
     (pseq (key_call K ''unlink'' serial (key_unlink serial)) (ret ()))"

definition drop_stale :: "'o kernel \<Rightarrow> string \<Rightarrow> ('o, unit) user_prog" where
  "drop_stale K name =
     pbind (key_call K ''search'' 0 (key_search name)) (\<lambda>stale. case stale of None \<Rightarrow> ret ()
       | Some serial \<Rightarrow> pseq (need (key_call K ''revoke'' serial (key_revoke serial)))
           (need (key_call K ''unlink'' serial (key_unlink serial))))"

definition publish_key :: "'o bridge \<Rightarrow> string \<Rightarrow> int \<Rightarrow> bytes \<Rightarrow> int \<Rightarrow> ('o, unit) user_prog" where
  "publish_key B username uid secret serial =
     (let K = ker (en B)
      in pseq (need (key_call K ''setperm'' serial (key_touch serial)))
        (pseq (need (key_call K ''set_timeout'' serial (key_touch serial)))
        (pbind (need (key_call K ''read'' serial (key_read serial))) (\<lambda>back.
         pseq (check (back = secret) OSError)
         (pbind (consult (clock B)) (\<lambda>now.
          pseq (sys_create_excl K (acceptance_path username))
          (sys_write K (acceptance_path username)
            (json_text (en B) [(''schema'', JInt 1), (''username'', JString username), (''native_uid'', JInt uid),
               (''boot_id'', JString (boot_id B)), (''key_serial'', JInt serial), (''expires'', JInt (now + LIFETIME))]
             @ [newline]))))))))"

text \<open>A key whose preparation fails afterwards is taken back.\<close>

definition prepare :: "'o bridge \<Rightarrow> string \<Rightarrow> int \<Rightarrow> bytes \<Rightarrow> ('o, unit) user_prog" where
  "prepare B username uid input =
     pseq (acceptance_context B username)
     (pbind (is_prepared username) (\<lambda>there.
      pseq (check (\<not> there) ValueError)
      (pseq (check (32 \<le> length input) ValueError)
      (let K = ker (en B); secret = take 32 input;
           name = ''liuqin-fpc-acceptance:'' @ boot_id B @ '':'' @ username
       in pseq (check (ascii name) ValueError)
         (pseq (drop_stale K name)
         (pbind (consult (new_serial B)) (\<lambda>n.
          pbind (need (key_call K ''add_key'' 0 (key_add name secret n))) (\<lambda>serial.
          pcatch (publish_key B username uid secret serial)
            (\<lambda>e. Some (pseq (drop_key K serial) (raise e)))))))))))"

text \<open>A number with a fraction and a truth value are left out: the program writes neither.\<close>

definition int_of_json :: "json \<Rightarrow> exn + int" where
  "int_of_json j = (case j of JInt i \<Rightarrow> Inr i | JString s \<Rightarrow> int_arg s | JOther \<Rightarrow> Inl TypeError)"

definition read_prepared :: "'o bridge \<Rightarrow> bytes \<Rightarrow> exn + (string \<times> json) list" where
  "read_prepared B content = (case json_object (en B) content of None \<Rightarrow> Inl ValueError | Some p \<Rightarrow> Inr p)"

definition check_prepared :: "'o bridge \<Rightarrow> (string \<times> json) list \<Rightarrow> string \<Rightarrow> int \<Rightarrow> int \<Rightarrow> exn + unit" where
  "check_prepared B public username uid now =
     (if map_of public ''schema'' \<noteq> Some (JInt 1) \<or> map_of public ''username'' \<noteq> Some (JString username)
         \<or> map_of public ''native_uid'' \<noteq> Some (JInt uid) \<or> map_of public ''boot_id'' \<noteq> Some (JString (boot_id B))
      then Inl ValueError
      else (case map_of public ''expires'' of
              None \<Rightarrow> require (now < 0) ValueError
            | Some (JInt e) \<Rightarrow> require (now < e) ValueError
            | Some j \<Rightarrow> Inl TypeError))"

definition prepared_serial :: "(string \<times> json) list \<Rightarrow> exn + int" where
  "prepared_serial public = (case map_of public ''key_serial'' of None \<Rightarrow> Inl KeyError | Some j \<Rightarrow> int_of_json j)"

text \<open>The key is revoked before the input is handed out.\<close>

definition consume :: "'o bridge \<Rightarrow> string \<Rightarrow> int \<Rightarrow> ('o, bytes) user_prog" where
  "consume B username uid =
     (let K = ker (en B)
      in pseq (acceptance_context B username)
        (pbind (private_state K (acceptance_path username)) (\<lambda>content.
         pseq (check (length content \<le> 4096) ValueError)
         (pbind (lift (read_prepared B content)) (\<lambda>public.
          pbind (consult (clock B)) (\<lambda>now.
          pseq (lift (check_prepared B public username uid now))
          (pbind (lift (prepared_serial public)) (\<lambda>serial.
           pbind (key_call K ''read'' serial (key_read serial)) (\<lambda>data.
           pseq (check (data \<noteq> None \<and> length (the data) = 32) ValueError)
           (pseq (sealed_memory K (the data))
           (pseq (need (key_call K ''revoke'' serial (key_revoke serial)))
           (pseq (key_call K ''unlink'' serial (key_unlink serial))
           (pseq (sys_unlink K (acceptance_path username))
           (ret (the data)))))))))))))))"

definition discard :: "'o bridge \<Rightarrow> string \<Rightarrow> ('o, unit) user_prog" where
  "discard B username =
     (let K = ker (en B)
      in pbind (is_prepared username) (\<lambda>there.
         if \<not> there then ret ()
         else pseq (acceptance_context B username)
           (pbind (is_prepared username) (\<lambda>there.
            if \<not> there then ret ()
            else pbind (private_state K (acceptance_path username)) (\<lambda>content.
              pbind (lift (read_prepared B content)) (\<lambda>public.
              pbind (lift (prepared_serial public)) (\<lambda>serial.
              pseq (drop_key K serial)
              (sys_unlink K (acceptance_path username)))))))))"

subsection \<open>The bridge\<close>

definition DEFAULT_NATIVE :: string where
  "DEFAULT_NATIVE = ''/var/lib/liuqin-fingerprint/native''"

definition split_native :: "string list \<Rightarrow> string \<times> string list" where
  "split_native args = (if 2 \<le> length args \<and> args ! 0 = ''--state-dir'' then (args ! 1, drop 2 args) else (DEFAULT_NATIVE, args))"

definition wants :: "nat \<Rightarrow> string list \<Rightarrow> string list \<Rightarrow> bool" where
  "wants n names args \<longleftrightarrow> length args = n \<and> args ! 0 \<in> set names"

definition wants_both :: "string list \<Rightarrow> bool" where
  "wants_both args \<longleftrightarrow> wants 2 [''--create-and-prepare-acceptance''] args"

definition wants_create :: "string list \<Rightarrow> bool" where
  "wants_create args \<longleftrightarrow> wants_both args \<or> wants 2 [''--create''] args"

definition wants_preflight :: "string list \<Rightarrow> bool" where
  "wants_preflight args \<longleftrightarrow> wants 2 [''--auth-preflight'', ''--auth-preflight-renew''] args"

definition wants_sync :: "string list \<Rightarrow> bool" where
  "wants_sync args \<longleftrightarrow> wants 2 [''--sync-password''] args"

definition wants_prepare :: "string list \<Rightarrow> bool" where
  "wants_prepare args \<longleftrightarrow> wants_both args \<or> wants 2 [''--prepare-acceptance''] args"

definition wants_prepared_enrol :: "string list \<Rightarrow> bool" where
  "wants_prepared_enrol args \<longleftrightarrow> wants 3 [''--enrol-prepared''] args"

definition wants_enrol :: "string list \<Rightarrow> bool" where
  "wants_enrol args \<longleftrightarrow> wants 3 [''--enrol''] args"

definition wants_enrol_existing :: "string list \<Rightarrow> bool" where
  "wants_enrol_existing args \<longleftrightarrow> wants 4 [''--enrol-existing''] args"

definition user_accepts :: "string list \<Rightarrow> bool" where
  "user_accepts args \<longleftrightarrow> wants_create args \<or> wants_preflight args \<or> wants_sync args \<or> wants_enrol args
     \<or> wants_enrol_existing args \<or> wants_prepare args \<or> wants_prepared_enrol args"

definition check_programs :: "'o bridge \<Rightarrow> ('o, unit) user_prog" where
  "check_programs B =
     (let h = here (en B)
      in pseq (for_each (\<lambda>p. pbind (sys_lstat p) (\<lambda>n. check (safe_program n) ValueError))
                [h, h @ [''pam-input''], h @ [''native_credentials.py'']])
        (pbind (sys_lstat (h @ [''pam-input''])) (\<lambda>n. check (n_kind n = Regular) ValueError)))"

definition handle_file :: "path \<Rightarrow> path" where
  "handle_file account = account @ [''gatekeeper.handle'']"

definition parameter_file :: "path \<Rightarrow> path" where
  "parameter_file account = account @ [''input-parameters.json'']"

definition requested_file :: "path \<Rightarrow> path" where
  "requested_file account = account @ [''create.requested'']"

definition new_parameters :: "string \<Rightarrow> int \<Rightarrow> int \<Rightarrow> bytes \<Rightarrow> (string \<times> json) list" where
  "new_parameters username linux_uid uid salt =
     [(''schema'', JInt 1), (''linux_username'', JString username), (''linux_uid'', JInt linux_uid), (''native_uid'', JInt uid),
      (''kdf'', JString ''PBKDF2-HMAC-SHA256''), (''iterations'', JInt 600000), (''salt_hex'', JString (hex_text salt)),
      (''input_bytes'', JInt 32)]"

definition take_salt :: "(string \<times> json) list option \<Rightarrow> string \<Rightarrow> int \<Rightarrow> int \<Rightarrow> exn + bytes" where
  "take_salt object username linux_uid uid =
     (case object of None \<Rightarrow> Inl ValueError
      | Some p \<Rightarrow>
          if map_of p ''schema'' \<noteq> Some (JInt 1) \<or> map_of p ''linux_username'' \<noteq> Some (JString username)
             \<or> map_of p ''linux_uid'' \<noteq> Some (JInt linux_uid) \<or> map_of p ''native_uid'' \<noteq> Some (JInt uid)
             \<or> map_of p ''kdf'' \<noteq> Some (JString ''PBKDF2-HMAC-SHA256'') \<or> map_of p ''iterations'' \<noteq> Some (JInt 600000)
             \<or> map_of p ''input_bytes'' \<noteq> Some (JInt 32)
          then Inl ValueError
          else (case map_of p ''salt_hex'' of None \<Rightarrow> Inl KeyError
                | Some (JString h) \<Rightarrow> (case from_hex h of None \<Rightarrow> Inl ValueError
                    | Some salt \<Rightarrow> if length salt = 32 then Inr salt else Inl ValueError)
                | Some j \<Rightarrow> Inl TypeError))"

definition account_salt :: "'o bridge \<Rightarrow> bool \<Rightarrow> path \<Rightarrow> string \<Rightarrow> int \<Rightarrow> int \<Rightarrow> ('o, unit) user_prog" where
  "account_salt B create account username linux_uid uid =
     (let K = ker (en B)
      in pbind (look (\<lambda>w. lexists (parameter_file account) (fs w))) (\<lambda>there.
         pseq (if create \<and> \<not> there
               then pbind (consult (urandom (en B))) (\<lambda>salt.
                 write_state K (parameter_file account)
                   (json_text (en B) (new_parameters username linux_uid uid salt) @ [newline]))
               else ret ())
         (pbind (private_state K (parameter_file account)) (\<lambda>content.
          pseq (check (length content \<le> 4096) ValueError)
          (pbind (lift (take_salt (json_object (en B) content) username linux_uid uid)) (\<lambda>salt.
           sealed_memory K salt))))))"

text \<open>\<^verbatim>\<open>run\<close>: nothing starts after a signal, and a signal during the run makes the status 1.\<close>

definition guarded_run :: "'o kernel \<Rightarrow> string list \<Rightarrow> 'a \<Rightarrow> ('l, 'o, int \<times> 'a) sysprog \<Rightarrow> ('l, 'o, int \<times> 'a) sysprog" where
  "guarded_run K command nothing m =
     pbind (is_cancelled K) (\<lambda>c.
     if c then ret (1, nothing)
     else pseq (syscall K (Spawn command) unchanged (\<lambda>s. (Inr (), s)))
       (pbind m (\<lambda>(status, x).
        pbind (is_cancelled K) (\<lambda>c. ret (if c then 1 else status, x)))))"

definition run_helper :: "'o bridge \<Rightarrow> string list \<Rightarrow> ('o, int \<times> bytes \<times> bytes) user_prog" where
  "run_helper B command = guarded_run (ker (en B)) command ([], [])
     (\<lambda>w. case helper B command (choices w) of ((status, inputs), o') \<Rightarrow>
        ([(Ran command status [], fs w)], w\<lparr>choices := o'\<rparr>, Inr (status, inputs)))"

definition run_provider :: "'o bridge \<Rightarrow> string list \<Rightarrow> ('o, int \<times> unit) user_prog" where
  "run_provider B command = guarded_run (ker (en B)) command ()
     (pbind (run_native (en B) command) (\<lambda>(status, said). ret (status, ())))"

definition helper_command :: "'o bridge \<Rightarrow> string list \<Rightarrow> string \<Rightarrow> string list" where
  "helper_command B args username =
     path_text (here (en B) @ [''pam-input'']) #
       (if wants_sync args then [''--sync-inputs'', username, str_int (salt_no B), str_int (current_no B), str_int (input_no B)]
        else [''--authenticate'', username, str_int (salt_no B), str_int (input_no B)])"

definition user_operation :: "'o bridge \<Rightarrow> string list \<Rightarrow> int \<Rightarrow> string list" where
  "user_operation B args uid =
     (if wants_create args then [''--create'', str_int uid, str_int (input_no B)]
      else if wants_sync args then [''--change-input'', str_int uid, str_int (current_no B), str_int (input_no B)]
      else if wants_enrol_existing args then [''--enrol-existing'', args ! 2, args ! 3, str_int uid, str_int (input_no B)]
      else if wants_enrol args \<or> wants_prepared_enrol args then [''--enrol'', args ! 2, str_int uid, str_int (input_no B)]
      else if wants_prepare args then [''--auth-preflight-renew'', str_int uid, str_int (input_no B)]
      else [args ! 0, str_int uid, str_int (input_no B)])"

definition provider_command :: "'o bridge \<Rightarrow> path \<Rightarrow> string list \<Rightarrow> string list" where
  "provider_command B state op =
     [''python3'', path_text (here (en B) @ [''native_credentials.py'']), ''--state-dir'', path_text state] @ op"

text \<open>The inputs of the provider: the previous one (for a new password) and the new one.\<close>

definition user_inputs :: "'o bridge \<Rightarrow> string list \<Rightarrow> string \<Rightarrow> int \<Rightarrow> ('o, int \<times> bytes \<times> bytes) user_prog" where
  "user_inputs B args username uid =
     (let K = ker (en B)
      in pseq (sealed_memory K [])
        (pseq (if wants_sync args then sealed_memory K [] else ret ())
        (if wants_prepared_enrol args then pbind (consume B username uid) (\<lambda>input. ret (0, [], input))
         else run_helper B (helper_command B args username))))"

definition check_inputs :: "string list \<Rightarrow> bytes \<Rightarrow> bytes \<Rightarrow> bool" where
  "check_inputs args previous input \<longleftrightarrow> length input = 32 \<and> (wants_sync args \<longrightarrow> length previous = 32)"

definition seal_inputs :: "'o bridge \<Rightarrow> string list \<Rightarrow> bytes \<Rightarrow> bytes \<Rightarrow> ('o, unit) user_prog" where
  "seal_inputs B args previous input =
     (if wants_prepared_enrol args then ret ()
      else pseq (if wants_sync args then sealed_memory (ker (en B)) previous else ret ()) (sealed_memory (ker (en B)) input))"

definition finish_request :: "'o bridge \<Rightarrow> string list \<Rightarrow> string \<Rightarrow> int \<Rightarrow> bytes \<Rightarrow> int \<Rightarrow> ('o, int) user_prog" where
  "finish_request B args username uid input status =
     pbind (is_cancelled (ker (en B))) (\<lambda>c.
     pseq (if wants_prepare args \<and> status = 0 \<and> \<not> c
           then pseq (prepare B username uid input)
             (sys_print (ker (en B)) ''acceptance_input=PREPARED kernel_memory_only=1 one_use=1 expires_hours=18 touch_not_collected=1'')
           else ret ())
     (pseq (if wants_sync args \<and> status = 0 then discard B username else ret ())
     (pseq (sys_print (ker (en B)) (''linux_user_credential='' @ (if status = 0 then ''OK'' else ''FAILED'')
        @ '' linux_identity_checked=1 anonymous_input_fd=1 password_or_derived_input_persisted=0 desktop_authentication=disabled''))
     (ret status))))"

text \<open>The marker of a creation is durable before the provider is asked for it, and stays.\<close>

definition request_provider :: "'o bridge \<Rightarrow> path \<Rightarrow> string list \<Rightarrow> string \<Rightarrow> int \<Rightarrow> bytes \<Rightarrow> ('o, int) user_prog" where
  "request_provider B state args username uid input =
     pseq (if wants_create args then write_state (ker (en B)) (requested_file (state @ [str_int uid])) [] else ret ())
     (pbind (run_provider B (provider_command B state (user_operation B args uid))) (\<lambda>(status, u).
      finish_request B args username uid input status))"

definition user_locked :: "'o bridge \<Rightarrow> path \<Rightarrow> string list \<Rightarrow> string \<Rightarrow> int \<Rightarrow> int \<Rightarrow> ('o, int) user_prog" where
  "user_locked B state args username linux_uid uid =
     (let account = state @ [str_int uid]
      in pbind (look (\<lambda>w. (lexists (handle_file account) (fs w), lexists (requested_file account) (fs w)))) (\<lambda>(there, asked).
         if wants_create args \<and> (there \<or> asked) then ret 2
         else if \<not> wants_create args \<and> \<not> there then ret 2
         else pseq (account_salt B (wants_create args) account username linux_uid uid)
           (pbind (user_inputs B args username uid) (\<lambda>(status, previous, input).
            if status \<noteq> 0 then ret status
            else pseq (check (check_inputs args previous input) ValueError)
              (pseq (seal_inputs B args previous input)
              (request_provider B state args username uid input))))))"

definition user_body :: "'o bridge \<Rightarrow> path \<Rightarrow> string list \<Rightarrow> int \<Rightarrow> int \<Rightarrow> ('o, int) user_prog" where
  "user_body B state args linux_uid uid =
     pseq (check_programs B)
     (pseq (private_directory (ker (en B)) state)
     (pseq (private_directory (ker (en B)) (state @ [str_int uid]))
     (pseq (sys_create (ker (en B)) (state @ [str_int uid] @ [''user-operation.lock'']))
     (pseq (sys_lock (ker (en B)) (state @ [str_int uid] @ [''user-operation.lock'']))
     (user_locked B state args (args ! 1) linux_uid uid)))))"

definition user_request :: "'o bridge \<Rightarrow> path \<Rightarrow> string list \<Rightarrow> ('o, int) user_prog" where
  "user_request B state args =
     pbind (lift (account_uid (en B) (args ! 1))) (\<lambda>linux_uid.
     pbind (look (\<lambda>w. native_account_uid state linux_uid (fs w))) (\<lambda>uid. user_body B state args linux_uid uid))"

definition user_failed :: "exn \<Rightarrow> ('l, 'o, int) sysprog option" where
  "user_failed e = (case e of BlockingIOError \<Rightarrow> Some (ret 1) | TypeError \<Rightarrow> None | _ \<Rightarrow> Some (ret 2))"

definition user_main :: "'o bridge \<Rightarrow> string list \<Rightarrow> ('o, int) user_prog" where
  "user_main B arguments =
     (case split_native arguments of (state, args) \<Rightarrow>
        if \<not> is_root B \<or> \<not> is_absolute state \<or> \<not> user_accepts args then ret 2
        else pcatch (user_request B (to_path state) args) user_failed)"

end
