(* ===== verification/EnrolPublish.thy ===== *)
theory EnrolPublish
  imports UserCredentials
begin

text \<open>
  \<^verbatim>\<open>fingerprint/oem/enrol_publish.py\<close>: one authenticated enrolment, kept as a pending export until the
  print made from it is published in fprintd's store. The enrolment is a child process (the bridge of
  \<open>UserCredentials\<close>); the serializer of libfprint is a parameter that returns its status and what it
  wrote to the descriptor it was given. The account database and JSON are parameters; a descriptor is
  the file it was opened on, and messages on \<^verbatim>\<open>stderr\<close> are left out. In an object, \<^verbatim>\<open>true\<close> is the
  integer 1, which Python does not tell apart from it in a comparison.
\<close>

record 'o publisher =
  pub_kernel :: "'o kernel"
  pub_root :: bool
  accounts :: "string \<rightharpoonup> string \<times> int"
  bundle_dir :: path
  read_json :: "bytes \<Rightarrow> (string \<times> json) list option"
  write_json :: "(string \<times> json) list \<Rightarrow> bytes"
  enrolment :: "'o child_process"
  serializer :: "string list \<Rightarrow> bytes \<Rightarrow> 'o \<Rightarrow> (int \<times> bytes) \<times> 'o"
  database_no :: int
  output_no :: int

record pub_locals =
  unpublished :: "path option" \<comment> \<open>\<^verbatim>\<open>temporary\<close>\<close>

type_synonym ('o, 'a) pub_prog = "(pub_locals, 'o, 'a) sysprog"

subsection \<open>The request\<close>

definition FINGERS :: "string list" where
  "FINGERS = [''left-thumb'', ''left-index-finger'', ''left-middle-finger'', ''left-ring-finger'', ''left-little-finger'',
     ''right-thumb'', ''right-index-finger'', ''right-middle-finger'', ''right-ring-finger'', ''right-little-finger'']"

fun index_of :: "string \<Rightarrow> string list \<Rightarrow> exn + nat" where
  "index_of x [] = Inl ValueError"
| "index_of x (y # ys) = (if y = x then Inr 0 else ebind (index_of x ys) (\<lambda>i. Inr (Suc i)))"

definition split_option :: "string \<Rightarrow> string \<Rightarrow> string list \<Rightarrow> string \<times> string list" where
  "split_option flag usual args = (if 2 \<le> length args \<and> args ! 0 = flag then (args ! 1, drop 2 args) else (usual, args))"

text \<open>The store, the state directory and the remaining arguments.\<close>

definition split_places :: "string list \<Rightarrow> string \<times> string \<times> string list" where
  "split_places arguments =
     (case split_option ''--store-dir'' ''/var/lib/fprint'' arguments of (store, args) \<Rightarrow>
      case split_option ''--state-dir'' ''/var/lib/liuqin-fingerprint/native'' args of (state, args) \<Rightarrow> (store, state, args))"

definition pub_accepts :: "string list \<Rightarrow> bool" where
  "pub_accepts args \<longleftrightarrow> length args = 3 \<and> args ! 0 \<in> {''--enrol'', ''--enrol-prepared''}"

definition pub_account :: "'o publisher \<Rightarrow> string \<Rightarrow> exn + unit" where
  "pub_account P username =
     (case accounts P username of None \<Rightarrow> Inl KeyError
      | Some (name, uid) \<Rightarrow> require (name = username \<and> CHR ''/'' \<notin> set name \<and> name \<notin> {''.'', ''..''} \<and> 0 < uid \<and> uid < 0x40000000) ValueError)"

definition pub_bundle :: "'o publisher \<Rightarrow> ('o, unit) pub_prog" where
  "pub_bundle P =
     pseq (for_each (\<lambda>p. pbind (sys_lstat p) (\<lambda>n. check (safe_program n) ValueError))
       [bundle_dir P, bundle_dir P @ [''fpc-oem-print''], bundle_dir P @ [''tod'', ''libfprint-tod-fpc1264-oem.so''],
        bundle_dir P @ [''user_credentials.py'']]) (ret ())"

subsection \<open>The store\<close>

definition device_store :: "path \<Rightarrow> string \<Rightarrow> path" where
  "device_store store username = store @ [username, ''fpc1264_oem'', ''liuqin-fpc1264-oem'']"

definition make_store :: "'o publisher \<Rightarrow> path \<Rightarrow> string \<Rightarrow> ('o, unit) pub_prog" where
  "make_store P store username =
     (let K = pub_kernel P
      in pseq (private_directory K store)
        (pseq (private_directory K (store @ [username]))
        (pseq (private_directory K (store @ [username, ''fpc1264_oem'']))
        (private_directory K (device_store store username)))))"

text \<open>\<^verbatim>\<open>format(value, "x")\<close> for the fingers 1 to 10.\<close>

definition print_name :: "nat \<Rightarrow> string" where
  "print_name v = [''0123456789abcdef'' ! v]"

definition has_print :: "path \<Rightarrow> fs \<Rightarrow> bool" where
  "has_print device s \<longleftrightarrow> list_ex (\<lambda>v. lexists (device @ [print_name v]) s) [1..<11]"

subsection \<open>The pending export\<close>

definition pending_dir :: "string \<Rightarrow> path" where
  "pending_dir username = [''var'', ''lib'', ''liuqin-fingerprint'', ''pending'', username]"

definition database_file :: "string \<Rightarrow> path" where
  "database_file username = pending_dir username @ [''single-finger.db'']"

definition ready_file :: "string \<Rightarrow> path" where
  "ready_file username = pending_dir username @ [''export-ready.json'']"

definition accepted_export :: "string \<Rightarrow> string \<Rightarrow> (string \<times> json) list" where
  "accepted_export username finger = [(''schema'', JInt 1), (''user'', JString username), (''finger'', JString finger),
     (''end_enrol_accepted'', JInt 1), (''template_count'', JInt 1)]"

text \<open>Equality with a dictionary.\<close>

definition same_object :: "(string \<times> json) list \<Rightarrow> (string \<times> json) list \<Rightarrow> bool" where
  "same_object a b \<longleftrightarrow> set (map fst a) = set (map fst b) \<and> list_all (\<lambda>k. map_of a k = map_of b k) (map fst b)"

definition reuse_export :: "'o publisher \<Rightarrow> string \<Rightarrow> string \<Rightarrow> ('o, int) pub_prog" where
  "reuse_export P username finger =
     pbind (look (\<lambda>w. lexists (ready_file username) (fs w))) (\<lambda>ready.
     if \<not> ready then ret 1
     else pbind (private_state (pub_kernel P) (ready_file username)) (\<lambda>content.
       pbind (lift (case read_json P content of None \<Rightarrow> Inl ValueError | Some m \<Rightarrow> Inr m)) (\<lambda>metadata.
       pseq (check (same_object metadata (accepted_export username finger)) ValueError)
       (pseq (sys_print (pub_kernel P) ''oem_print_publication=REUSE accepted_pending_export=1 touch_not_collected=1'')
       (ret 0)))))"

definition enrol_command :: "'o publisher \<Rightarrow> path \<Rightarrow> string list \<Rightarrow> string list" where
  "enrol_command P state args =
     [''python3'', path_text (bundle_dir P @ [''user_credentials.py'']), ''--state-dir'', path_text state,
      args ! 0, args ! 1, path_text (database_file (args ! 1))]"

definition run_enrolment :: "'o publisher \<Rightarrow> string list \<Rightarrow> ('o, int \<times> unit) pub_prog" where
  "run_enrolment P command = guarded_run (pub_kernel P) command ()
     (\<lambda>w. case enrolment P command (fs w, choices w) of (t, (s, o'), status, said) \<Rightarrow>
        (t @ [(Ran command status said, s)], w\<lparr>fs := s, choices := o'\<rparr>, Inr (status, ())))"

definition enrol_export :: "'o publisher \<Rightarrow> path \<Rightarrow> string list \<Rightarrow> ('o, int) pub_prog" where
  "enrol_export P state args =
     pbind (run_enrolment P (enrol_command P state args)) (\<lambda>(status, u).
     if status \<noteq> 0 then ret status
     else pseq (write_state (pub_kernel P) (ready_file (args ! 1))
         (write_json P (accepted_export (args ! 1) (args ! 2)) @ [newline])) (ret 0))"

subsection \<open>Publication\<close>

definition serialize_command :: "'o publisher \<Rightarrow> string list \<Rightarrow> string list" where
  "serialize_command P args =
     [path_text (bundle_dir P @ [''fpc-oem-print'']), ''--serialize'', args ! 1, args ! 2, str_int (database_no P), str_int (output_no P)]"

definition run_serializer :: "'o publisher \<Rightarrow> string list \<Rightarrow> bytes \<Rightarrow> path \<Rightarrow> ('o, int \<times> unit) pub_prog" where
  "run_serializer P command data temp = guarded_run (pub_kernel P) command ()
     (\<lambda>w. case serializer P command data (choices w) of ((status, out), o') \<Rightarrow>
        ([(Ran command status [], put temp out (fs w))], w\<lparr>fs := put temp out (fs w), choices := o'\<rparr>, Inr (status, ())))"

text \<open>The pending export goes only when the print is durable in the store.\<close>

definition install_print :: "'o publisher \<Rightarrow> string \<Rightarrow> path \<Rightarrow> path \<Rightarrow> path \<Rightarrow> ('o, int) pub_prog" where
  "install_print P username device temp target =
     (let K = pub_kernel P
      in pseq (sys_fsync K temp)
        (pseq (sys_link K temp target)
        (pseq (sys_unlink K temp)
        (pseq (set_local (\<lambda>_. \<lparr>unpublished = None\<rparr>))
        (pseq (sys_sync_dir K device)
        (pseq (sys_unlink K (database_file username))
        (pseq (sys_unlink K (ready_file username))
        (pseq (sys_print K ''oem_print_publication=OK linux_identity_checked=1 store_format=fprintd_single_finger private_file_mode=0600 desktop_authentication=disabled'')
        (ret 0)))))))))"

definition publish_export :: "'o publisher \<Rightarrow> string list \<Rightarrow> path \<Rightarrow> path \<Rightarrow> ('o, int) pub_prog" where
  "publish_export P args device target =
     (let K = pub_kernel P
      in pbind (sys_open K (database_file (args ! 1))) (\<lambda>database.
         pbind (sys_mkstemp K device ''.fpc-publish-'') (\<lambda>temp.
         pseq (set_local (\<lambda>_. \<lparr>unpublished = Some temp\<rparr>))
         (pseq (sys_chmod K temp)
         (pbind (run_serializer P (serialize_command P args) (n_data database) temp) (\<lambda>(status, u).
          if status \<noteq> 0 then ret status
          else pbind (is_cancelled K) (\<lambda>c.
            pbind (look (\<lambda>w. file_size temp (fs w))) (\<lambda>size.
            if c \<or> size \<le> 3 then ret 1
            else install_print P (args ! 1) device temp target))))))))"

definition pub_locked :: "'o publisher \<Rightarrow> path \<Rightarrow> string list \<Rightarrow> path \<Rightarrow> path \<Rightarrow> ('o, int) pub_prog" where
  "pub_locked P state args device target =
     pbind (look (\<lambda>w. has_print device (fs w))) (\<lambda>there.
     if there then ret 2
     else pseq (private_directory (pub_kernel P) (pending_dir (args ! 1)))
       (pbind (look (\<lambda>w. lexists (database_file (args ! 1)) (fs w))) (\<lambda>export.
        pbind (if export then reuse_export P (args ! 1) (args ! 2) else enrol_export P state args) (\<lambda>status.
        if status \<noteq> 0 then ret status else publish_export P args device target))))"

definition pub_body :: "'o publisher \<Rightarrow> path \<Rightarrow> path \<Rightarrow> string list \<Rightarrow> ('o, int) pub_prog" where
  "pub_body P store state args =
     (let device = device_store store (args ! 1)
      in pseq (lift (pub_account P (args ! 1)))
        (pbind (lift (index_of (args ! 2) FINGERS)) (\<lambda>finger.
         pseq (pub_bundle P)
         (pseq (make_store P store (args ! 1))
         (pseq (sys_create (pub_kernel P) (device @ [''.operation.lock'']))
         (pseq (sys_lock (pub_kernel P) (device @ [''.operation.lock'']))
         (pub_locked P state args device (device @ [print_name (finger + 1)]))))))))"

definition drop_unpublished :: "'o publisher \<Rightarrow> ('o, unit) pub_prog" where
  "drop_unpublished P =
     pbind (get_local unpublished) (\<lambda>t. case t of None \<Rightarrow> ret () | Some temp \<Rightarrow> sys_unlink (pub_kernel P) temp)"

definition pub_main :: "'o publisher \<Rightarrow> string list \<Rightarrow> ('o, int) pub_prog" where
  "pub_main P arguments =
     (case split_places arguments of (store, state, args) \<Rightarrow>
        if \<not> pub_accepts args \<or> \<not> pub_root P \<or> \<not> is_absolute store \<or> \<not> is_absolute state then ret 2
        else pseq (set_local (\<lambda>_. \<lparr>unpublished = None\<rparr>))
          (pfinally (pcatch (pub_body P (to_path store) (to_path state) args) user_failed) (drop_unpublished P)))"

end
