(* ===== verification/HandleSafety.thy ===== *)
theory HandleSafety
  imports NativeCredentials
begin

text \<open>
  What a run of \<^verbatim>\<open>native_credentials.py\<close> may do to the files, at every moment at which it may
  be killed, and what its exit status 0 means.
\<close>

subsection \<open>The files of an account\<close>

definition core :: "node \<Rightarrow> kind \<times> int \<times> int \<times> int \<times> bytes" where
  "core n = (n_kind n, n_uid n, n_gid n, n_mode n, n_data n)"

text \<open>The same file, at least as durable.\<close>

definition same :: "node option \<Rightarrow> node option \<Rightarrow> bool" where
  "same x y = (case (x, y) of
      (None, None) \<Rightarrow> True
    | (Some a, Some b) \<Rightarrow> core a = core b \<and> (n_flushed a \<longrightarrow> n_flushed b) \<and> (n_durable a \<longrightarrow> n_durable b)
    | _ \<Rightarrow> False)"

lemma same_refl [simp]: "same x x"
  by (simp add: same_def split: option.split)

lemma same_trans: "same x y \<Longrightarrow> same y z \<Longrightarrow> same x z"
  by (auto simp: same_def split: option.splits)

lemma same_None [simp]: "same x None \<longleftrightarrow> x = None" "same None x \<longleftrightarrow> x = None"
  by (simp_all add: same_def split: option.split)

lemma same_settle: "same (s p) (settle d s p)"
  by (simp add: same_def settle_def core_def split: option.split)

definition temp_path :: "path \<Rightarrow> path \<Rightarrow> bool" where
  "temp_path account p \<longleftrightarrow> (\<exists>x. p = account @ [''.gatekeeper-'' @ x])"

definition handle_path :: "path \<Rightarrow> path" where
  "handle_path account = account @ [''gatekeeper.handle'']"

definition lock_path :: "path \<Rightarrow> path" where
  "lock_path account = account @ [''operation.lock'']"

text \<open>The directories on the way, the lock and the temporary files.\<close>

definition housekeeping :: "path \<Rightarrow> path \<Rightarrow> bool" where
  "housekeeping account p \<longleftrightarrow> take (length p) account = p \<or> p = lock_path account \<or> temp_path account p"

lemma handle_apart [simp]: "\<not> housekeeping account (handle_path account)" "\<not> temp_path account (handle_path account)"
  by (simp_all add: housekeeping_def temp_path_def handle_path_def lock_path_def)

lemma temp_housekeeping [simp]: "temp_path account p \<Longrightarrow> housekeeping account p"
  and lock_housekeeping [simp]: "housekeeping account (lock_path account)"
  by (simp_all add: housekeeping_def)

lemma temp_mkstemp [simp]: "temp_path account (account @ [''.gatekeeper-'' @ x])"
  by (simp add: temp_path_def)

text \<open>A complete handle that a run may leave.\<close>

definition handle_ok :: "node \<Rightarrow> bool" where
  "handle_ok n \<longleftrightarrow> handle_private n \<and> n_gid n = 0 \<and> n_flushed n"

text \<open>
  What holds of the file system at every moment of a run that started from \<open>s0\<close>: the handle is the
  one from the start, or (if the run may install one) a complete new one, and otherwise only the
  housekeeping files of the account have changed and new files in \<open>X\<close> were made.
\<close>

definition stored :: "path \<Rightarrow> path set \<Rightarrow> bool \<Rightarrow> fs \<Rightarrow> fs \<Rightarrow> bool" where
  "stored account X may s0 s \<longleftrightarrow>
     (\<forall>p. \<not> housekeeping account p \<and> p \<noteq> handle_path account \<and> (p \<in> X \<longrightarrow> s0 p \<noteq> None) \<longrightarrow> same (s0 p) (s p))
     \<and> (same (s0 (handle_path account)) (s (handle_path account))
        \<or> may \<and> (\<exists>n. s (handle_path account) = Some n \<and> handle_ok n))"

definition has_handle :: "path \<Rightarrow> fs \<Rightarrow> bool" where
  "has_handle account s \<longleftrightarrow> (\<exists>n. s (handle_path account) = Some n \<and> handle_ok n \<and> n_durable n)"

lemma stored_start: "stored account X may s s"
  by (simp add: stored_def)

lemma stored_other: "stored account X may s0 s \<Longrightarrow> housekeeping account p \<Longrightarrow> stored account X may s0 (s(p := x))"
  by (auto simp: stored_def)

lemma handle_ok_same: "same (Some n) x \<Longrightarrow> handle_ok n \<Longrightarrow> \<exists>n'. x = Some n' \<and> handle_ok n'"
  by (auto simp: same_def handle_ok_def handle_private_def core_def split: option.splits)

lemma stored_same:
  assumes "stored account X may s0 s" "\<And>p. same (s p) (s' p)"
  shows "stored account X may s0 s'"
proof -
  let ?h = "handle_path account"
  have "same (s0 p) (s' p)" if "same (s0 p) (s p)" for p
    using same_trans [OF that assms(2)] .
  moreover have "\<exists>n'. s' ?h = Some n' \<and> handle_ok n'" if "s ?h = Some n" "handle_ok n" for n
    using handle_ok_same [of n "s' ?h"] assms(2) [of ?h] that by simp
  ultimately show ?thesis using assms(1) unfolding stored_def by blast
qed

lemma stored_settle: "stored account X may s0 s \<Longrightarrow> stored account X may s0 (settle d s)"
  by (erule stored_same) (rule same_settle)

lemma settle_None [simp]: "settle d s p = None \<longleftrightarrow> s p = None"
  by (simp add: settle_def split: option.split)

lemma has_handle_upd: "has_handle account s \<Longrightarrow> housekeeping account p \<Longrightarrow> has_handle account (s(p := x))"
  by (auto simp: has_handle_def)

lemma has_handle_settle: "has_handle account s \<Longrightarrow> has_handle account (settle d s)"
  by (auto simp: has_handle_def settle_def handle_ok_def handle_private_def)

lemma stored_make_dirs:
  assumes "stored account X may s0 s" "take (length p) account = p"
  shows "stored account X may s0 (make_dirs p s)"
proof -
  have "make_dirs p s q = s q" if "q = handle_path account \<or> \<not> housekeeping account q" for q
  proof (rule ccontr)
    assume "make_dirs p s q \<noteq> s q"
    then have q: "take (length q) p = q" by (auto simp: make_dirs_def split: if_splits)
    have "take (length q) account = q"
      using q assms(2) by (metis length_take min.absorb_iff2 min.commute take_take)
    then have "housekeeping account q" by (simp add: housekeeping_def)
    then show False using that by auto
  qed
  then show ?thesis using assms(1) unfolding stored_def by simp
qed

subsection \<open>Conditions that do not depend on temporary files\<close>

definition temp_local :: "path \<Rightarrow> cred_locals \<Rightarrow> bool" where
  "temp_local account l \<longleftrightarrow> (\<forall>t. temporary l = Some t \<longrightarrow> temp_path account t)"

lemma temp_local_upd [simp]:
  "temp_local account (l\<lparr>temporary := Some t\<rparr>) \<longleftrightarrow> temp_path account t" "temp_local account (l\<lparr>temporary := None\<rparr>)"
  "temp_local account (l\<lparr>retain := b\<rparr>) \<longleftrightarrow> temp_local account l"
  by (simp_all add: temp_local_def)

abbreviation steady :: "path \<Rightarrow> (fs \<Rightarrow> bool) \<Rightarrow> ('o, 'a) cred_prog \<Rightarrow> bool" where
  "steady account I m \<equiv> keeps I (only I (temp_local account)) m"

text \<open>A temporary file, private from the start, and with complete content.\<close>

definition holds_temp :: "(fs \<Rightarrow> bool) \<Rightarrow> path \<Rightarrow> (node \<Rightarrow> bool) \<Rightarrow> path \<Rightarrow> fs \<Rightarrow> bool" where
  "holds_temp I account P temp s \<longleftrightarrow> I s \<and> temp_path account temp
     \<and> (\<exists>n. s temp = Some n \<and> is_private Regular FILE_MODE n \<and> P n)"

definition sized :: "node \<Rightarrow> bool" where
  "sized n \<longleftrightarrow> 0 < length (n_data n) \<and> length (n_data n) \<le> HANDLE_LIMIT"

definition complete :: "node \<Rightarrow> bool" where
  "complete n \<longleftrightarrow> sized n \<and> n_flushed n"

lemma keeps_triple:
  assumes "keeps I (only I L) m" "\<And>s. I s \<Longrightarrow> I0 s"
  shows "triple (\<lambda>(op, s). I0 s) (only I L) m (\<lambda>_. only I L) (\<lambda>_. only I0 L)"
  using assms(1) unfolding keeps_def by (rule triple_weaken) (auto simp: only_def assms(2))

lemma triple_relax:
  assumes "triple (\<lambda>(op, s). I s) P m Q (\<lambda>_. only I L)" "\<And>s. I s \<Longrightarrow> I0 s"
  shows "triple (\<lambda>(op, s). I0 s) P m Q (\<lambda>_. only I0 L)"
  using assms(1) by (rule triple_weaken) (auto simp: only_def assms(2))

lemma triple_pre: "triple C P m Q E \<Longrightarrow> (\<And>w. P' w \<Longrightarrow> P w) \<Longrightarrow> triple C P' m Q E"
  by (erule triple_weaken)

lemma triple_fact: "(\<And>w. P w \<Longrightarrow> F) \<Longrightarrow> (F \<Longrightarrow> triple C P m Q E) \<Longrightarrow> triple C P m Q E"
  by (auto simp: triple_def)

locale ignores_temps =
  fixes account :: path and I :: "fs \<Rightarrow> bool"
  assumes other: "I s \<Longrightarrow> temp_path account p \<Longrightarrow> I (s(p := x))"
    and settled: "I s \<Longrightarrow> I (settle d s)"
begin

lemma calls:
  assumes "temp_path account p"
  shows "steady account I (sys_create_excl K p)" "steady account I (sys_unlink K p)"
    "steady account I (sys_chmod K p)" "steady account I (sys_fsync K p)"
  unfolding sys_create_excl_def sys_unlink_def sys_chmod_def sys_fsync_def flush_def
  by (rule keeps_syscall; use assms in \<open>auto simp: unchanged_def other split: option.split\<close>)+

lemma quiet:
  "steady account I (sys_open K p)" "steady account I (sys_sync_dir K d)" "steady account I (sys_print K l)"
  "steady account I (syscall K op unchanged (\<lambda>s. (Inr (), s)))"
  unfolding sys_open_def sys_sync_dir_def sys_print_def
  by (rule keeps_syscall; auto simp: unchanged_def settled split: option.split)+

lemma run_child_keeps: "(\<And>s data. I s \<Longrightarrow> I (deliver out data s)) \<Longrightarrow> steady account I (run_child E op out)"
  unfolding keeps_def triple_def
  by (auto simp: run_child_def run_defs Let_def only_def split: prod.splits)

lemma run_runtime_keeps: "(\<And>s data. I s \<Longrightarrow> I (deliver out data s)) \<Longrightarrow> steady account I (run_runtime E op out)"
  using run_child_keeps [of out] quiet(4) unfolding run_runtime_def by (intro keeps_rules) simp_all

lemma drop_keeps: "steady account I (drop_temporary E)"
  unfolding keeps_def drop_temporary_def
proof (rule triple_bind)
  let ?J = "only I (temp_local account)"
  show "triple (\<lambda>(op, s). I s) ?J (get_local temporary) (\<lambda>t w. ?J w \<and> (\<forall>p. t = Some p \<longrightarrow> temp_path account p)) (\<lambda>_. ?J)"
    by (rule triple_get_local) (simp add: only_def temp_local_def)
  show "triple (\<lambda>(op, s). I s) (\<lambda>w. ?J w \<and> (\<forall>p. t = Some p \<longrightarrow> temp_path account p))
      (case t of None \<Rightarrow> ret () | Some temp \<Rightarrow> pbind (get_local retain) (\<lambda>keep. if keep then ret () else sys_unlink (kernel E) temp))
      (\<lambda>_. ?J) (\<lambda>_. ?J)" for t
  proof (cases "\<forall>p. t = Some p \<longrightarrow> temp_path account p")
    case True
    have "keeps I ?J (case t of None \<Rightarrow> ret ()
        | Some temp \<Rightarrow> pbind (get_local retain) (\<lambda>keep. if keep then ret () else sys_unlink (kernel E) temp))"
      using True by (intro keeps_rules calls(2)) simp_all
    then show ?thesis using True unfolding keeps_def by simp
  qed (auto simp: triple_def)
qed

lemma temp_held: "holds_temp I account P temp s \<Longrightarrow> I s \<and> temp_path account temp"
  by (simp add: holds_temp_def)

lemma make_temp:
  assumes "prefix = ''.gatekeeper-'' @ x"
  shows "triple (\<lambda>(op, s). I s) (only I L) (sys_mkstemp K account prefix)
    (\<lambda>t. only (\<lambda>s. holds_temp I account (\<lambda>n. True) t s \<and> (\<exists>y. t = account @ [prefix @ y])) L) (\<lambda>_. only I L)"
proof (rule triple_mkstemp)
  fix y
  let ?t = "account @ [prefix @ y]"
  have t: "temp_path account ?t" unfolding temp_path_def assms by simp
  show "triple (\<lambda>(op, s). I s) (only I L) (sys_create_excl K ?t)
      (\<lambda>_. only (\<lambda>s. holds_temp I account (\<lambda>n. True) ?t s \<and> (\<exists>y'. ?t = account @ [prefix @ y'])) L) (\<lambda>_. only I L)"
    unfolding sys_create_excl_def
    by (rule triple_call)
      (use t in \<open>auto simp: unchanged_def holds_temp_def other is_private_def new_file_def FILE_MODE_def split: option.splits\<close>)
qed simp

lemma held_other:
  assumes "p \<noteq> temp" "temp_path account p"
  shows "keeps (holds_temp I account P temp) (only (holds_temp I account P temp) L) (sys_unlink K p)"
    "keeps (holds_temp I account P temp) (only (holds_temp I account P temp) L) (sys_create_excl K p)"
    "keeps (holds_temp I account P temp) (only (holds_temp I account P temp) L) (sys_link K q p)"
  unfolding sys_unlink_def sys_create_excl_def sys_link_def
  by (rule keeps_syscall; use assms in \<open>auto simp: unchanged_def holds_temp_def other split: option.splits\<close>)+

lemma held_quiet:
  assumes "\<And>n. P n \<Longrightarrow> P (n\<lparr>n_durable := True\<rparr>)"
  shows "keeps (holds_temp I account P temp) (only (holds_temp I account P temp) L) (sys_sync_dir K d)"
    "keeps (holds_temp I account P temp) (only (holds_temp I account P temp) L) (sys_open K p)"
    "keeps (holds_temp I account P temp) (only (holds_temp I account P temp) L) (sys_print K l)"
proof -
  have "holds_temp I account P temp (settle d s)" if "holds_temp I account P temp s" for s
    using that assms settled [of s d] by (auto simp: holds_temp_def settle_def is_private_def)
  note settle = this
  show "keeps (holds_temp I account P temp) (only (holds_temp I account P temp) L) (sys_sync_dir K d)"
    "keeps (holds_temp I account P temp) (only (holds_temp I account P temp) L) (sys_open K p)"
    "keeps (holds_temp I account P temp) (only (holds_temp I account P temp) L) (sys_print K l)"
    unfolding sys_sync_dir_def sys_open_def sys_print_def
    by (rule keeps_syscall; auto simp: unchanged_def settle split: option.splits)+
qed

text \<open>The runtime writes the new handle to the temporary file.\<close>

lemma held_upd:
  "holds_temp I account P temp s \<Longrightarrow> is_private Regular FILE_MODE n \<Longrightarrow> Q n \<Longrightarrow> holds_temp I account Q temp (s(temp \<mapsto> n))"
  by (auto simp: holds_temp_def other)

lemma held_chmod:
  "keeps (holds_temp I account (\<lambda>n. True) temp) (only (holds_temp I account (\<lambda>n. True) temp) L) (sys_chmod K temp)"
  unfolding sys_chmod_def
proof (rule keeps_syscall)
  fix s assume h: "holds_temp I account (\<lambda>n. True) temp s"
  then obtain n where n: "s temp = Some n" "is_private Regular FILE_MODE n" by (auto simp: holds_temp_def)
  show "holds_temp I account (\<lambda>n. True) temp (snd (Inr (), case s temp of None \<Rightarrow> s | Some n \<Rightarrow> s(temp \<mapsto> n\<lparr>n_mode := FILE_MODE\<rparr>)))"
    using held_upd [OF h, of "n\<lparr>n_mode := FILE_MODE\<rparr>"] n by (simp add: is_private_def)
qed (simp add: unchanged_def)

lemma held_runtime:
  "keeps (holds_temp I account (\<lambda>n. True) temp) (only (holds_temp I account (\<lambda>n. True) temp) L) (run_runtime E op (Fill temp))"
proof -
  have put: "holds_temp I account (\<lambda>n. True) temp (put temp data s)" if h: "holds_temp I account (\<lambda>n. True) temp s" for data s
  proof -
    obtain n where n: "s temp = Some n" "is_private Regular FILE_MODE n" using h by (auto simp: holds_temp_def)
    show ?thesis
      using held_upd [OF h, of "n\<lparr>n_data := data, n_flushed := False, n_durable := False\<rparr>"] n
      by (simp add: put_def is_private_def)
  qed
  have "keeps (holds_temp I account (\<lambda>n. True) temp) (only (holds_temp I account (\<lambda>n. True) temp) L) (run_child E op (Fill temp))"
    unfolding keeps_def triple_def
    by (auto simp: run_child_def run_defs Let_def only_def put split: prod.splits)
  then show ?thesis unfolding run_runtime_def by (intro keeps_rules keeps_syscall) (simp_all add: unchanged_def)
qed

lemma held_fsync:
  "triple (\<lambda>(op, s). I s) (only (holds_temp I account sized temp) L) (sys_fsync K temp)
    (\<lambda>_. only (holds_temp I account complete temp) L) (\<lambda>_. only I L)"
  unfolding sys_fsync_def
proof (rule triple_call)
  fix s assume h: "holds_temp I account sized temp s"
  then obtain n where n: "s temp = Some n" "is_private Regular FILE_MODE n" "sized n" by (auto simp: holds_temp_def)
  have c: "holds_temp I account complete temp (flush temp s)"
    using held_upd [OF h, of "n\<lparr>n_flushed := True\<rparr>" complete] n
    by (simp add: flush_def is_private_def complete_def sized_def)
  show "I (snd (Inr (), flush temp s))" using temp_held [OF c] by simp
  show "holds_temp I account complete temp (snd (Inr (), flush temp s))" using c by simp
qed (auto simp: unchanged_def holds_temp_def)

end

text \<open>The three conditions of the proofs: what always holds, no handle yet, and the handle in place.\<close>

interpretation st: ignores_temps account "stored account X may s0" for account X may s0
  by unfold_locales (simp_all add: stored_other stored_settle)

interpretation vacant: ignores_temps account "\<lambda>s. stored account X may s0 s \<and> s (handle_path account) = None" for account X may s0
  by unfold_locales (auto simp: stored_other stored_settle)

interpretation inst: ignores_temps account "\<lambda>s. stored account X may s0 s \<and> (\<exists>n. s (handle_path account) = Some n \<and> handle_ok n)"
  for account X may s0
proof unfold_locales
  fix s d assume s: "stored account X may s0 s \<and> (\<exists>n. s (handle_path account) = Some n \<and> handle_ok n)"
  then obtain n where "s (handle_path account) = Some n" "handle_ok n" by blast
  then show "stored account X may s0 (settle d s) \<and> (\<exists>n. settle d s (handle_path account) = Some n \<and> handle_ok n)"
    using s handle_ok_same [of n "settle d s (handle_path account)"] same_settle [of s "handle_path account" d]
    by (simp add: stored_settle)
qed (auto simp: stored_other)

interpretation fin: ignores_temps account "\<lambda>s. stored account X may s0 s \<and> has_handle account s" for account X may s0
  by unfold_locales (auto simp: stored_other stored_settle has_handle_settle has_handle_upd)

subsection \<open>Creating a handle\<close>

lemma size_ok_sized: "size_ok p s \<Longrightarrow> s p = Some n \<Longrightarrow> sized n"
  by (simp add: size_ok_def file_size_def sized_def)

lemma complete_handle: "is_private Regular FILE_MODE n \<Longrightarrow> complete n \<Longrightarrow> handle_ok (n\<lparr>n_durable := b\<rparr>)"
  by (simp add: is_private_def complete_def sized_def handle_ok_def handle_private_def)

abbreviation present :: "path \<Rightarrow> path set \<Rightarrow> bool \<Rightarrow> fs \<Rightarrow> fs \<Rightarrow> bool" where
  "present account X may s0 s \<equiv> stored account X may s0 s \<and> (\<exists>n. s (handle_path account) = Some n \<and> handle_ok n)"

text \<open>The last steps of both: the handle is in place and its directory is synchronised.\<close>

lemma settled_handle:
  "triple (\<lambda>(op, s). stored account X may s0 s) (only (present account X may s0) L) (sys_sync_dir K account)
    (\<lambda>_. only (\<lambda>s. stored account X may s0 s \<and> has_handle account s) L) (\<lambda>_. only (stored account X may s0) L)"
  unfolding sys_sync_dir_def
proof (rule triple_call)
  fix s assume s: "present account X may s0 s"
  then obtain n where n: "s (handle_path account) = Some n" "handle_ok n" by blast
  show "stored account X may s0 (snd (Inr (), settle account s)) \<and> has_handle account (snd (Inr (), settle account s))"
    using s n stored_settle by (auto simp: has_handle_def settle_def handle_path_def handle_ok_def handle_private_def)
qed (auto simp: unchanged_def stored_settle)

lemma link_installs:
  assumes may: "s0 (handle_path account) = None \<Longrightarrow> may"
  shows "triple (\<lambda>(op, s). stored account X may s0 s)
    (only (holds_temp (\<lambda>s. stored account X may s0 s \<and> s (handle_path account) = None) account complete temp) L)
    (sys_link K temp (handle_path account)) (\<lambda>_. only (present account X may s0) L) (\<lambda>_. only (stored account X may s0) L)"
  unfolding sys_link_def
proof (rule triple_call)
  fix s assume h: "holds_temp (\<lambda>s. stored account X may s0 s \<and> s (handle_path account) = None) account complete temp s"
  then have s: "stored account X may s0 s" "s (handle_path account) = None" by (auto simp: holds_temp_def)
  obtain n where n: "s temp = Some n" "is_private Regular FILE_MODE n" "complete n" using h by (auto simp: holds_temp_def)
  have ok: "handle_ok (n\<lparr>n_durable := False\<rparr>)" using n(2,3) by (rule complete_handle)
  have m: "may" using may s by (auto simp: stored_def)
  have st: "stored account X may s0 (s(handle_path account \<mapsto> n\<lparr>n_durable := False\<rparr>))"
    using s(1) m ok by (simp add: stored_def)
  show "stored account X may s0 (snd (case (s temp, s (handle_path account)) of
      (Some n, None) \<Rightarrow> (Inr (), s(handle_path account \<mapsto> n\<lparr>n_durable := False\<rparr>)) | _ \<Rightarrow> (Inl OSError, s)))"
    using st s n by simp
  show "present account X may s0 (snd (case (s temp, s (handle_path account)) of
      (Some n, None) \<Rightarrow> (Inr (), s(handle_path account \<mapsto> n\<lparr>n_durable := False\<rparr>)) | _ \<Rightarrow> (Inl OSError, s)))"
    using st s n ok by simp
qed (auto simp: unchanged_def holds_temp_def split: option.splits)


lemma set_locals:
  "temp_path account t \<Longrightarrow> triple C (only I (temp_local account)) (set_local (temporary_update (\<lambda>_. Some t)))
     (\<lambda>_. only I (temp_local account)) E"
  "triple C (only I (temp_local account)) (set_local (temporary_update (\<lambda>_. None))) (\<lambda>_. only I (temp_local account)) E"
  "triple C (only I (temp_local account)) (set_local (retain_update (\<lambda>_. b))) (\<lambda>_. only I (temp_local account)) E"
  by (rule triple_set_local; simp add: only_def)+

text \<open>What every part promises: \<open>stored\<close> throughout, and a durable handle when it returns 0.\<close>

definition promises :: "path \<Rightarrow> path set \<Rightarrow> bool \<Rightarrow> fs \<Rightarrow> (fs \<Rightarrow> bool) \<Rightarrow> ('o, int) cred_prog \<Rightarrow> bool" where
  "promises account X may s0 P m \<longleftrightarrow> triple (\<lambda>(op, s). stored account X may s0 s) (only P (temp_local account)) m
     (\<lambda>r w. only (stored account X may s0) (temp_local account) w \<and> (r = 0 \<longrightarrow> has_handle account (fs w)))
     (\<lambda>_. only (stored account X may s0) (temp_local account))"

lemma promises_ret: "(\<And>s. P s \<Longrightarrow> stored account X may s0 s) \<Longrightarrow> r \<noteq> 0 \<Longrightarrow> promises account X may s0 P (ret r)"
  unfolding promises_def by (rule triple_ret) (simp add: only_def)

lemma promises_pre: "promises account X may s0 P m \<Longrightarrow> (\<And>s. P' s \<Longrightarrow> P s) \<Longrightarrow> promises account X may s0 P' m"
  unfolding promises_def by (erule triple_weaken) (auto simp: only_def)

lemma promises_fact: "(\<And>s. P s \<Longrightarrow> F) \<Longrightarrow> (F \<Longrightarrow> promises account X may s0 P m) \<Longrightarrow> promises account X may s0 P m"
  unfolding promises_def by (rule triple_fact) (auto simp: only_def)

lemma promises_bind:
  assumes "triple (\<lambda>(op, s). stored account X may s0 s) (only P (temp_local account)) m
      (\<lambda>x. only (R x) (temp_local account)) (\<lambda>_. only (stored account X may s0) (temp_local account))"
    "\<And>x. promises account X may s0 (R x) (f x)"
  shows "promises account X may s0 P (pbind m f)"
  using assms unfolding promises_def by (rule triple_bind)

lemma promises_seq:
  assumes "triple (\<lambda>(op, s). stored account X may s0 s) (only P (temp_local account)) m
      (\<lambda>_. only R (temp_local account)) (\<lambda>_. only (stored account X may s0) (temp_local account))"
    "promises account X may s0 R n"
  shows "promises account X may s0 P (pseq m n)"
  using assms unfolding promises_def by (rule triple_seq)

text \<open>A step that keeps a condition which implies \<open>stored\<close>.\<close>

lemma promises_keep:
  assumes "steady account P m" "\<And>s. P s \<Longrightarrow> stored account X may s0 s" "promises account X may s0 P n"
  shows "promises account X may s0 P (pseq m n)"
  by (rule promises_seq [OF keeps_triple [OF assms(1,2)] assms(3)])

lemma promises_keep_bind:
  assumes "steady account P m" "\<And>s. P s \<Longrightarrow> stored account X may s0 s" "\<And>x. promises account X may s0 P (f x)"
  shows "promises account X may s0 P (pbind m f)"
  by (rule promises_bind [OF keeps_triple [OF assms(1,2)] assms(3)])

lemma finish: "promises account X may s0 (\<lambda>s. stored account X may s0 s \<and> has_handle account s) (pseq (sys_print K l) (ret 0))"
  by (rule promises_keep [OF fin.quiet(3)], simp) (unfold promises_def, rule triple_ret, simp add: only_def)

lemma settle_finish:
  "promises account X may s0 (\<lambda>s. stored account X may s0 s \<and> has_handle account s) m \<Longrightarrow>
   promises account X may s0 (present account X may s0) (pseq (sys_sync_dir K account) m)"
  by (rule promises_seq [OF settled_handle])

lemma publish_promise:
  assumes may: "s0 (handle_path account) = None \<Longrightarrow> may" and t: "temp_path account temp"
  shows "promises account X may s0
    (holds_temp (\<lambda>s. stored account X may s0 s \<and> s (handle_path account) = None) account sized temp) (publish_handle E account temp)"
  unfolding publish_handle_def Let_def handle_path_def [symmetric]
proof (rule promises_seq [OF triple_relax [OF vacant.held_fsync]])
  show "promises account X may s0 (holds_temp (\<lambda>s. stored account X may s0 s \<and> s (handle_path account) = None) account complete temp)
    (pseq (sys_link (kernel E) temp (handle_path account)) (pseq (sys_unlink (kernel E) temp)
      (pseq (set_local (temporary_update (\<lambda>_. None))) (pseq (sys_sync_dir (kernel E) account)
        (pseq (sys_print (kernel E) CREATED) (ret 0))))))"
    by (rule promises_seq [OF link_installs [OF may]], assumption, rule promises_keep [OF inst.calls(2) [OF t]], simp,
        rule promises_seq [OF set_locals(2)], rule settle_finish, rule finish)
qed simp

lemma look_size:
  "triple C (only (holds_temp I account (\<lambda>n. True) temp) L) (look (\<lambda>w. size_ok temp (fs w)))
     (\<lambda>ok. only (holds_temp I account (\<lambda>n. ok \<longrightarrow> sized n) temp) L) E"
  by (rule triple_look) (auto simp: only_def holds_temp_def size_ok_sized)

lemma held_sub: "holds_temp I account P temp s \<Longrightarrow> (\<And>s. I s \<Longrightarrow> I' s) \<Longrightarrow> (\<And>n. P n \<Longrightarrow> P' n) \<Longrightarrow> holds_temp I' account P' temp s"
  by (auto simp: holds_temp_def)

lemma make_promise:
  assumes may: "s0 (handle_path account) = None \<Longrightarrow> may" and t: "temp_path account temp"
  shows "promises account X may s0
    (holds_temp (\<lambda>s. stored account X may s0 s \<and> s (handle_path account) = None) account (\<lambda>n. True) temp)
    (make_handle E account uid fd temp)"
  unfolding make_handle_def
  by (rule promises_keep_bind [OF vacant.held_runtime], simp add: holds_temp_def, rule promises_bind [OF look_size],
      rule promises_seq [OF set_locals(3)])
    (auto intro!: promises_ret promises_pre [OF publish_promise [OF may t]] simp: holds_temp_def)

lemma create_promise:
  assumes may: "s0 (handle_path account) = None \<Longrightarrow> may"
  shows "promises account X may s0 (stored account X may s0) (create_handle E account uid fd)"
  unfolding create_handle_def handle_path_def [symmetric]
proof (rule promises_bind)
  let ?V = "\<lambda>s. stored account X may s0 s \<and> s (handle_path account) = None"
  show "triple (\<lambda>(op, s). stored account X may s0 s) (only (stored account X may s0) (temp_local account))
      (look (\<lambda>w. lexists (handle_path account) (fs w)))
      (\<lambda>there. only (\<lambda>s. stored account X may s0 s \<and> there = (s (handle_path account) \<noteq> None)) (temp_local account))
      (\<lambda>_. only (stored account X may s0) (temp_local account))"
    by (rule triple_look) (simp add: only_def lexists_def)
  have "promises account X may s0 ?V (pbind (sys_mkstemp (kernel E) account ''.gatekeeper-handle-'') (\<lambda>temp.
      pseq (set_local (temporary_update (\<lambda>_. Some temp))) (pseq (sys_chmod (kernel E) temp) (make_handle E account uid fd temp))))"
  proof (rule promises_bind [OF triple_relax [OF vacant.make_temp [of _ "''handle-''"]]])
    fix temp
    show "promises account X may s0 (\<lambda>s. holds_temp ?V account (\<lambda>n. True) temp s \<and> (\<exists>y. temp = account @ [''.gatekeeper-handle-'' @ y]))
      (pseq (set_local (temporary_update (\<lambda>_. Some temp))) (pseq (sys_chmod (kernel E) temp) (make_handle E account uid fd temp)))"
    proof (rule promises_fact [where F = "temp_path account temp"])
      assume t: "temp_path account temp"
      show "promises account X may s0 (\<lambda>s. holds_temp ?V account (\<lambda>n. True) temp s \<and> (\<exists>y. temp = account @ [''.gatekeeper-handle-'' @ y]))
        (pseq (set_local (temporary_update (\<lambda>_. Some temp))) (pseq (sys_chmod (kernel E) temp) (make_handle E account uid fd temp)))"
        by (rule promises_pre [where P = "holds_temp ?V account (\<lambda>n. True) temp"],
            rule promises_seq [OF set_locals(1) [OF t]], rule promises_keep [OF vacant.held_chmod],
            simp add: holds_temp_def, rule make_promise [OF may t]) simp_all
    qed (simp add: holds_temp_def)
  qed simp_all
  then show "promises account X may s0 (\<lambda>s. stored account X may s0 s \<and> there = (s (handle_path account) \<noteq> None))
      (if there then ret 2 else pbind (sys_mkstemp (kernel E) account ''.gatekeeper-handle-'') (\<lambda>temp.
      pseq (set_local (temporary_update (\<lambda>_. Some temp))) (pseq (sys_chmod (kernel E) temp) (make_handle E account uid fd temp))))"
    for there
    by (cases there) (auto intro: promises_ret promises_pre)
qed

subsection \<open>Changing a handle\<close>

lemma replace_installs:
  assumes may: "may"
  shows "triple (\<lambda>(op, s). stored account X may s0 s) (only (holds_temp (stored account X may s0) account complete temp) L)
    (sys_replace K temp (handle_path account)) (\<lambda>_. only (present account X may s0) L) (\<lambda>_. only (stored account X may s0) L)"
  unfolding sys_replace_def
proof (rule triple_call)
  fix s assume h: "holds_temp (stored account X may s0) account complete temp s"
  then have s: "stored account X may s0 s" "temp_path account temp" by (auto simp: holds_temp_def)
  obtain n where n: "s temp = Some n" "is_private Regular FILE_MODE n" "complete n" using h by (auto simp: holds_temp_def)
  have ok: "handle_ok (n\<lparr>n_durable := False\<rparr>)" using n(2,3) by (rule complete_handle)
  have st: "stored account X may s0 (s(temp := None, handle_path account \<mapsto> n\<lparr>n_durable := False\<rparr>))"
    using stored_other [OF s(1), of temp None] s(2) may ok by (simp add: stored_def)
  show "stored account X may s0 (snd (case s temp of None \<Rightarrow> (Inl OSError, s)
     | Some n \<Rightarrow> (Inr (), s(temp := None, handle_path account \<mapsto> n\<lparr>n_durable := False\<rparr>))))"
    using st n by simp
  show "present account X may s0 (snd (case s temp of None \<Rightarrow> (Inl OSError, s)
     | Some n \<Rightarrow> (Inr (), s(temp := None, handle_path account \<mapsto> n\<lparr>n_durable := False\<rparr>))))"
    using st n ok by simp
qed (auto simp: unchanged_def holds_temp_def split: option.splits)

lemma keep_after:
  assumes "steady account P m" "\<And>s. P s \<Longrightarrow> stored account X may s0 s" "\<And>s. P' s \<Longrightarrow> P s" "promises account X may s0 P n"
  shows "promises account X may s0 P' (pseq m n)"
  by (rule promises_pre [OF promises_keep [OF assms(1,2,4)] assms(3)])

lemma commit_promise:
  assumes may: "may" and p: "temp_path account previous"
  shows "promises account X may s0 (holds_temp (stored account X may s0) account complete temp) (commit_update E account temp previous)"
  unfolding commit_update_def Let_def handle_path_def [symmetric]
  by (rule promises_seq [OF replace_installs [where may = may, OF may]], rule promises_seq [OF set_locals(2)], rule settle_finish,
      rule promises_keep [OF fin.calls(2) [OF p]], simp, rule promises_keep [OF fin.quiet(2)], simp, rule finish)

lemma mkstemp_named:
  assumes "\<And>y. keeps I (only I L) (sys_create_excl K (d @ [prefix @ y]))" "\<And>s. I s \<Longrightarrow> I0 s"
  shows "triple (\<lambda>(op, s). I0 s) (only I L) (sys_mkstemp K d prefix)
    (\<lambda>t. only (\<lambda>s. I s \<and> (\<exists>y. t = d @ [prefix @ y])) L) (\<lambda>_. only I0 L)"
  by (rule triple_mkstemp, simp, rule triple_weaken [OF keeps_triple [OF assms]]) (auto simp: only_def)

lemma promises_named:
  assumes "\<And>y. t = d @ [prefix @ y] \<Longrightarrow> promises account X may s0 P m"
  shows "promises account X may s0 (\<lambda>s. P s \<and> (\<exists>y. t = d @ [prefix @ y])) m"
  by (rule promises_fact [where F = "\<exists>y. t = d @ [prefix @ y]"]) (auto intro: promises_pre assms)

lemma install_promise:
  assumes may: "may" and t: "temp = account @ [''.gatekeeper-update-'' @ x]"
  shows "promises account X may s0 (holds_temp (stored account X may s0) account sized temp) (install_update E account temp)"
  unfolding install_update_def Let_def
proof (rule promises_seq [OF st.held_fsync])
  let ?H = "holds_temp (stored account X may s0) account complete temp"
  have keep: "\<And>n. complete n \<Longrightarrow> complete (n\<lparr>n_durable := True\<rparr>)" by (simp add: complete_def sized_def)
  have H: "?H s \<Longrightarrow> stored account X may s0 s" for s by (simp add: holds_temp_def)
  have body: "promises account X may s0 ?H (pseq (sys_unlink (kernel E) p) (pseq (sys_link (kernel E) (account @ [''gatekeeper.handle'']) p)
      (pseq (sys_sync_dir (kernel E) account) (pbind (is_cancelled (kernel E)) (\<lambda>c.
        if c then ret 1 else commit_update E account temp p)))))"
    if p: "p = account @ [''.gatekeeper-previous-'' @ y]" for p y
  proof -
    have ne: "p \<noteq> temp" and tp: "temp_path account p" using p t by (simp_all add: temp_path_def)
    have "promises account X may s0 ?H (if c then ret 1 else commit_update E account temp p)" for c
      using commit_promise [OF may tp] H by (auto intro: promises_ret)
    then show ?thesis
      by (intro promises_keep promises_keep_bind st.held_other [OF ne tp] st.held_quiet keep keeps_is_cancelled H)
  qed
  have make: "steady account ?H (sys_create_excl (kernel E) (account @ [''.gatekeeper-previous-'' @ y]))" for y
    by (rule st.held_other(2)) (use t in \<open>simp_all add: temp_path_def\<close>)
  show "promises account X may s0 ?H (pseq (sys_open (kernel E) account) (pbind (sys_mkstemp (kernel E) account ''.gatekeeper-previous-'') (\<lambda>p.
      pseq (sys_unlink (kernel E) p) (pseq (sys_link (kernel E) (account @ [''gatekeeper.handle'']) p)
      (pseq (sys_sync_dir (kernel E) account) (pbind (is_cancelled (kernel E)) (\<lambda>c.
        if c then ret 1 else commit_update E account temp p)))))))"
    by (rule promises_keep [OF st.held_quiet(2) H], rule keep, assumption, assumption,
        rule promises_bind [OF mkstemp_named [OF make H]], assumption, rule promises_named, rule body)
qed


lemma change_promise:
  assumes may: "may"
  shows "promises account X may s0 (stored account X may s0) (change_handle E account uid current_fd fd)"
  unfolding change_handle_def
proof (rule promises_bind [OF st.make_temp [of _ "''update-''"]])
  fix temp
  let ?H = "holds_temp (stored account X may s0) account (\<lambda>n. True) temp"
  let ?Z = "\<lambda>ok. holds_temp (stored account X may s0) account (\<lambda>n. ok \<longrightarrow> sized n) temp"
  have H: "?H s \<Longrightarrow> stored account X may s0 s" for s by (simp add: holds_temp_def)
  have last: "promises account X may s0 (?Z ok) (if result \<noteq> 0 then ret result else if c then ret 1 else if \<not> ok then ret 1
      else install_update E account temp)" if "temp = account @ [''.gatekeeper-update-'' @ x]" for result :: int and c ok x
    using install_promise [OF may that]
    by (auto intro!: promises_ret promises_pre [OF install_promise [OF may that]] simp: holds_temp_def)
  show "promises account X may s0 (\<lambda>s. ?H s \<and> (\<exists>y. temp = account @ [''.gatekeeper-update-'' @ y]))
      (pseq (set_local (temporary_update (\<lambda>_. Some temp))) (pseq (sys_chmod (kernel E) temp)
       (pbind (run_runtime E (cmd @ [''--change-native-credential'', str_int uid, ''HANDLE'', str_int current_fd,
               str_int fd, ''OUTPUT'']) (Fill temp)) (\<lambda>result.
        pbind (look (\<lambda>w. size_ok temp (fs w))) (\<lambda>ok. pseq (set_local (retain_update (\<lambda>_. ok)))
         (pbind (is_cancelled (kernel E)) (\<lambda>c. if result \<noteq> 0 then ret result else if c then ret 1 else if \<not> ok then ret 1
          else install_update E account temp)))))))"
  proof (rule promises_named)
    fix x assume t: "temp = account @ [''.gatekeeper-update-'' @ x]"
    have tp: "temp_path account temp" using t by (simp add: temp_path_def)
    show "promises account X may s0 ?H (pseq (set_local (temporary_update (\<lambda>_. Some temp))) (pseq (sys_chmod (kernel E) temp)
       (pbind (run_runtime E (cmd @ [''--change-native-credential'', str_int uid, ''HANDLE'', str_int current_fd,
               str_int fd, ''OUTPUT'']) (Fill temp)) (\<lambda>result.
        pbind (look (\<lambda>w. size_ok temp (fs w))) (\<lambda>ok. pseq (set_local (retain_update (\<lambda>_. ok)))
         (pbind (is_cancelled (kernel E)) (\<lambda>c. if result \<noteq> 0 then ret result else if c then ret 1 else if \<not> ok then ret 1
          else install_update E account temp)))))))"
      by (rule promises_seq [OF set_locals(1) [OF tp]], rule promises_keep [OF st.held_chmod H], assumption,
          rule promises_keep_bind [OF st.held_runtime H], assumption, rule promises_bind [OF look_size],
          rule promises_seq [OF set_locals(3)], rule promises_keep_bind [OF keeps_is_cancelled], simp add: holds_temp_def,
          rule last [OF t])
  qed
qed simp

subsection \<open>Whole runs\<close>

definition may_install :: "string list \<Rightarrow> node option \<Rightarrow> bool" where
  "may_install args h \<longleftrightarrow> (is_create args \<and> h = None) \<or> (is_change args \<and> h \<noteq> None)"

lemma open_handle:
  "triple (\<lambda>(op, s). stored account X may s0 s) (only (stored account X may s0) L) (sys_open K p)
    (\<lambda>n. only (\<lambda>s. stored account X may s0 s \<and> s p = Some n) L) (\<lambda>_. only (stored account X may s0) L)"
  unfolding sys_open_def by (rule triple_call) (auto simp: unchanged_def split: option.splits if_splits)

lemma change_with_handle:
  assumes change: "is_change args" and may: "s0 (handle_path account) \<noteq> None \<Longrightarrow> may"
  shows "promises account X may s0 (stored account X may s0) (with_handle E args account uid fd current_fd)"
  unfolding with_handle_def handle_path_def [symmetric] if_P [OF change]
proof (rule promises_bind [OF open_handle])
  fix n
  show "promises account X may s0 (\<lambda>s. stored account X may s0 s \<and> s (handle_path account) = Some n)
      (if \<not> handle_private n then ret 2 else change_handle E account uid current_fd fd)"
  proof (rule promises_fact [where F = may])
    show "may" if "stored account X may s0 s \<and> s (handle_path account) = Some n" for s
      using that may by (cases "s0 (handle_path account)") (auto simp: stored_def)
    assume m: "may"
    show "promises account X may s0 (\<lambda>s. stored account X may s0 s \<and> s (handle_path account) = Some n)
      (if \<not> handle_private n then ret 2 else change_handle E account uid current_fd fd)"
      by (auto intro!: promises_ret promises_pre [OF change_promise [where may = may, OF m]])
  qed
qed

text \<open>The files that a run may make elsewhere: the database of an enrolment.\<close>

definition writes :: "string list \<Rightarrow> path set" where
  "writes args = (case database args of Export p \<Rightarrow> {p} | _ \<Rightarrow> {})"

interpretation opened: ignores_temps account "\<lambda>s. stored account X may s0 s \<and> s (handle_path account) \<noteq> None" for account X may s0
  by unfold_locales (auto simp: stored_other stored_settle)

lemma stored_deliver:
  assumes "stored account (writes args) may s0 s" "s (handle_path account) \<noteq> None"
  shows "stored account (writes args) may s0 (deliver (database args) data s)
    \<and> deliver (database args) data s (handle_path account) \<noteq> None"
proof (cases "database args")
  case (Export p)
  then have X: "writes args = {p}" by (simp add: writes_def)
  show ?thesis using assms unfolding X Export by (auto simp: stored_def)
qed (use assms in \<open>simp_all add: database_def split: if_splits\<close>)

lemma use_with_handle:
  assumes "\<not> is_change args"
  shows "triple (\<lambda>(op, s). stored account (writes args) may s0 s) (only (stored account (writes args) may s0) (temp_local account))
    (with_handle E args account uid fd current_fd)
    (\<lambda>_. only (stored account (writes args) may s0) (temp_local account))
    (\<lambda>_. only (stored account (writes args) may s0) (temp_local account))"
  unfolding with_handle_def handle_path_def [symmetric] if_not_P [OF assms]
proof (rule triple_bind [OF open_handle])
  fix n
  let ?I = "\<lambda>s. stored account (writes args) may s0 s \<and> s (handle_path account) \<noteq> None"
  have "steady account ?I (if \<not> handle_private n then ret 2 else run_runtime E (cmd @ operation args uid fd) (database args))"
    by (intro keeps_if keeps_ret opened.run_runtime_keeps) (auto dest: stored_deliver)
  from keeps_triple [OF this, of "stored account (writes args) may s0"]
  show "triple (\<lambda>(op, s). stored account (writes args) may s0 s)
      (only (\<lambda>s. stored account (writes args) may s0 s \<and> s (handle_path account) = Some n) (temp_local account))
      (if \<not> handle_private n then ret 2 else run_runtime E (cmd @ operation args uid fd) (database args))
      (\<lambda>_. only (stored account (writes args) may s0) (temp_local account))
      (\<lambda>_. only (stored account (writes args) may s0) (temp_local account))"
    by (rule triple_weaken) (auto simp: only_def)
qed

text \<open>The frame of a run: the lock, the exceptions and the removal of the temporary file.\<close>

lemma lock_keeps:
  "steady account (stored account X may s0) (sys_create K (account @ [''operation.lock'']))"
  unfolding sys_create_def lock_path_def [symmetric]
  by (rule keeps_syscall) (auto simp: unchanged_def stored_other split: option.split)

lemma framed:
  assumes "promises account X may s0 (stored account X may s0) m"
  shows "promises account X may s0 (stored account X may s0)
    (pfinally (pcatch (pseq (sys_create K (account @ [''operation.lock''])) (pseq (sys_lock K (account @ [''operation.lock''])) m))
       storage_failed) (drop_temporary E))"
  unfolding promises_def
proof (rule triple_finally)
  let ?C = "\<lambda>(op :: sys_op, s). stored account X may s0 s"
  let ?J = "only (stored account X may s0) (temp_local account)"
  let ?Q = "\<lambda>r w. ?J w \<and> (r = (0::int) \<longrightarrow> has_handle account (fs w))"
  show "triple ?C ?J (pcatch (pseq (sys_create K (account @ [''operation.lock''])) (pseq (sys_lock K (account @ [''operation.lock''])) m))
       storage_failed) ?Q (\<lambda>_. ?J)"
  proof (rule triple_catch)
    have "promises account X may s0 (stored account X may s0)
        (pseq (sys_create K (account @ [''operation.lock''])) (pseq (sys_lock K (account @ [''operation.lock''])) m))"
      by (rule promises_keep [OF lock_keeps], assumption, rule promises_keep [OF keeps_lock], assumption, rule assms)
    then show "triple ?C ?J (pseq (sys_create K (account @ [''operation.lock''])) (pseq (sys_lock K (account @ [''operation.lock''])) m))
        ?Q (\<lambda>_. ?J)" by (simp add: promises_def)
    show "triple ?C ?J n ?Q (\<lambda>_. ?J)" if "storage_failed e = Some n" for e n
      using that by (auto simp: storage_failed_def intro: triple_ret split: if_splits)
  qed simp
  show "triple ?C (?Q r) (drop_temporary E) (\<lambda>_. ?Q r) (\<lambda>_. ?J)" for r
  proof (cases "r = 0")
    case True
    have "triple ?C (only (\<lambda>s. stored account X may s0 s \<and> has_handle account s) (temp_local account)) (drop_temporary E)
        (\<lambda>_. only (\<lambda>s. stored account X may s0 s \<and> has_handle account s) (temp_local account)) (\<lambda>_. ?J)"
      by (rule keeps_triple [OF fin.drop_keeps]) simp
    then show ?thesis by (rule triple_weaken) (use True in \<open>auto simp: only_def\<close>)
  next
    case False
    then show ?thesis using keeps_triple [OF st.drop_keeps] by simp
  qed
  show "triple ?C ?J (drop_temporary E) (\<lambda>_. ?J) (\<lambda>_. ?J)"
    by (rule keeps_triple [OF st.drop_keeps])
qed

lemma started_locals:
  "triple C (only I (\<lambda>_. True)) (set_local (\<lambda>_. \<lparr>temporary = None, retain = False\<rparr>)) (\<lambda>_. only I (temp_local account)) E"
  by (rule triple_set_local) (simp add: only_def temp_local_def)

lemma weaken_locals:
  "triple C P m Q E \<Longrightarrow> (\<And>x w. Q x w \<Longrightarrow> Q' x w) \<Longrightarrow> (\<And>e w. E e w \<Longrightarrow> E' e w) \<Longrightarrow> triple C P m Q' E'"
  by (erule triple_weaken)

lemma provide_promise:
  assumes "is_create args \<or> is_change args" "may = may_install args (s0 (handle_path account))"
  shows "triple (\<lambda>(op, s). stored account X may s0 s) (only (stored account X may s0) (\<lambda>_. True))
    (provide E args account uid fd current_fd)
    (\<lambda>r w. stored account X may s0 (fs w) \<and> (r = 0 \<longrightarrow> has_handle account (fs w))) (\<lambda>_ w. stored account X may s0 (fs w))"
proof -
  have "promises account X may s0 (stored account X may s0)
      (if is_create args then create_handle E account uid fd else with_handle E args account uid fd current_fd)"
    using assms by (auto intro!: create_promise change_with_handle simp: may_install_def)
  note body = framed [OF this, where K = "kernel E" and E = E]
  show ?thesis
    unfolding provide_def
    by (rule triple_seq [OF started_locals], rule weaken_locals [OF body [unfolded promises_def]]) (auto simp: only_def)
qed

lemma provide_use:
  assumes "\<not> is_create args" "\<not> is_change args"
  shows "triple (\<lambda>(op, s). stored account (writes args) may s0 s) (only (stored account (writes args) may s0) (\<lambda>_. True))
    (provide E args account uid fd current_fd) (\<lambda>_ w. stored account (writes args) may s0 (fs w))
    (\<lambda>_ w. stored account (writes args) may s0 (fs w))"
proof -
  have "keeps (stored account (writes args) may s0) (only (stored account (writes args) may s0) (temp_local account))
      (with_handle E args account uid fd current_fd)"
    using use_with_handle [OF assms(2)] by (simp add: keeps_def)
  then have "steady account (stored account (writes args) may s0) (pfinally (pcatch
      (pseq (sys_create (kernel E) (account @ [''operation.lock''])) (pseq (sys_lock (kernel E) (account @ [''operation.lock'']))
       (if is_create args then create_handle E account uid fd else with_handle E args account uid fd current_fd)))
      storage_failed) (drop_temporary E))"
    using assms
    by (intro keeps_finally keeps_catch keeps_seq lock_keeps keeps_lock st.drop_keeps)
      (auto simp: storage_failed_def intro: keeps_ret split: if_splits)
  note body = keeps_triple [OF this, of "stored account (writes args) may s0"]
  show ?thesis
    unfolding provide_def
    by (rule triple_seq [OF started_locals], rule weaken_locals [OF body]) (auto simp: only_def)
qed

lemma private_directory_keeps:
  assumes "take (length p) account = p"
  shows "keeps (stored account X may s0) (only (stored account X may s0) L) (private_directory K p)"
proof -
  have k: "take (length (take k p)) account = take k p" for k
    using assms by (metis length_take min.commute take_take)
  have "keeps (stored account X may s0) (only (stored account X may s0) L) (sys_mkdir K p)"
    unfolding sys_mkdir_def
    by (rule keeps_syscall) (auto simp: stored_make_dirs [OF _ assms] stored_make_dirs [OF _ k] split: option.split)
  then show ?thesis
    unfolding private_directory_def sys_lstat_def by (intro keeps_rules)
qed

lemma set_up_spec:
  assumes "parse_request E args = Inr (uid, fd, current_fd)" "account = state @ [str_int uid]"
  shows "triple (\<lambda>(op, s). stored account X may s0 s) (only (stored account X may s0) (\<lambda>_. True)) (set_up E state args)
    (\<lambda>r w. only (stored account X may s0) (\<lambda>_. True) w \<and> (r = None \<or> r = Some (uid, fd, current_fd)))
    (\<lambda>_. only (stored account X may s0) (\<lambda>_. True))"
  unfolding set_up_def
proof (rule triple_catch)
  let ?C = "\<lambda>(op :: sys_op, s). stored account X may s0 s"
  let ?J = "only (stored account X may s0) (\<lambda>_. True)"
  have d: "triple ?C ?J (private_directory (kernel E) p) (\<lambda>_. ?J) (\<lambda>_. ?J)" if "take (length p) account = p" for p
    using private_directory_keeps [OF that] by (simp add: keeps_def)
  have dirs: "triple ?C ?J (private_directory (kernel E) state) (\<lambda>_. ?J) (\<lambda>_. ?J)"
    "triple ?C ?J (private_directory (kernel E) (state @ [str_int uid])) (\<lambda>_. ?J) (\<lambda>_. ?J)"
    by (rule d; simp add: assms(2))+
  show "triple ?C ?J (pbind (lift (parse_request E args)) (\<lambda>(uid, input_fd, current_fd).
        pseq (private_directory (kernel E) state) (pseq (private_directory (kernel E) (state @ [str_int uid]))
        (ret (Some (uid, input_fd, current_fd))))))
      (\<lambda>r w. ?J w \<and> (r = None \<or> r = Some (uid, fd, current_fd))) (\<lambda>_. ?J)"
  proof (rule triple_bind)
    show "triple ?C ?J (lift (parse_request E args)) (\<lambda>x w. ?J w \<and> x = (uid, fd, current_fd)) (\<lambda>_. ?J)"
      by (rule triple_lift) (simp_all add: assms)
    show "triple ?C (\<lambda>w. ?J w \<and> x = (uid, fd, current_fd)) (case x of (uid, input_fd, current_fd) \<Rightarrow>
        pseq (private_directory (kernel E) state) (pseq (private_directory (kernel E) (state @ [str_int uid]))
        (ret (Some (uid, input_fd, current_fd))))) (\<lambda>r w. ?J w \<and> (r = None \<or> r = Some (uid, fd, current_fd))) (\<lambda>_. ?J)" for x
    proof (rule triple_fact [where F = "x = (uid, fd, current_fd)"])
      assume x: "x = (uid, fd, current_fd)"
      show "triple ?C (\<lambda>w. ?J w \<and> x = (uid, fd, current_fd)) (case x of (uid, input_fd, current_fd) \<Rightarrow>
        pseq (private_directory (kernel E) state) (pseq (private_directory (kernel E) (state @ [str_int uid]))
        (ret (Some (uid, input_fd, current_fd))))) (\<lambda>r w. ?J w \<and> (r = None \<or> r = Some (uid, fd, current_fd))) (\<lambda>_. ?J)"
        unfolding x split
        by (rule triple_pre [OF triple_seq [OF dirs(1) triple_seq [OF dirs(2) triple_ret]]]) simp_all
    qed simp
  qed
  show "triple ?C ?J n (\<lambda>r w. ?J w \<and> (r = None \<or> r = Some (uid, fd, current_fd))) (\<lambda>_. ?J)"
    if "(if e \<in> {ValueError, OSError, BlockingIOError} then Some (ret None) else None) = Some n" for e n
    using that by (auto intro: triple_ret split: if_splits)
qed simp

lemma set_up_rejected:
  assumes "parse_request E args = Inl e"
  shows "trace_of (set_up E state args) w = []" "result_of (set_up E state args) w \<noteq> Inr (Some r)"
  using assms by (auto simp: set_up_def run_catch run_bind run_simps split: sum.split option.split)

lemma accepted_run:
  assumes "split_state arguments = (state, args)" "parse_request E args = Inr (uid, fd, current_fd)"
    "account = to_path state @ [str_int uid]" "may = may_install args (s0 (handle_path account))"
  shows "triple (\<lambda>(op, s). stored account (writes args) may s0 s) (only (stored account (writes args) may s0) (\<lambda>_. True)) (provider_main E arguments)
    (\<lambda>r w. stored account (writes args) may s0 (fs w) \<and> (r = 0 \<and> (is_create args \<or> is_change args) \<longrightarrow> has_handle account (fs w)))
    (\<lambda>_ w. stored account (writes args) may s0 (fs w))"
proof -
  let ?C = "\<lambda>(op :: sys_op, s). stored account (writes args) may s0 s"
  let ?J = "only (stored account (writes args) may s0) (\<lambda>_. True)"
  let ?Q = "\<lambda>r w. stored account (writes args) may s0 (fs w) \<and> (r = (0::int) \<and> (is_create args \<or> is_change args) \<longrightarrow> has_handle account (fs w))"
  have prov: "triple ?C ?J (provide E args account uid fd current_fd) ?Q (\<lambda>_ w. stored account (writes args) may s0 (fs w))"
  proof (cases "is_create args \<or> is_change args")
    case True
    then show ?thesis by (intro triple_weaken [OF provide_promise [where ?s0.0 = s0 and account = account, OF True assms(4)]]) auto
  next
    case False
    then show ?thesis by (intro triple_weaken [OF provide_use]) auto
  qed
  have "triple ?C ?J (pbind (set_up E (to_path state) args) (\<lambda>r. case r of None \<Rightarrow> ret 2
          | Some (uid, input_fd, current_fd) \<Rightarrow> provide E args (to_path state @ [str_int uid]) uid input_fd current_fd))
      ?Q (\<lambda>_ w. stored account (writes args) may s0 (fs w))"
  proof (rule triple_bind)
    show "triple ?C ?J (set_up E (to_path state) args) (\<lambda>r w. ?J w \<and> (r = None \<or> r = Some (uid, fd, current_fd)))
        (\<lambda>_ w. stored account (writes args) may s0 (fs w))"
      by (rule triple_weaken [OF set_up_spec [OF assms(2,3)]]) (auto simp: only_def)
    fix r
    show "triple ?C (\<lambda>w. ?J w \<and> (r = None \<or> r = Some (uid, fd, current_fd))) (case r of None \<Rightarrow> ret 2
          | Some (uid, input_fd, current_fd) \<Rightarrow> provide E args (to_path state @ [str_int uid]) uid input_fd current_fd)
        ?Q (\<lambda>_ w. stored account (writes args) may s0 (fs w))"
    proof (rule triple_fact [where F = "r = None \<or> r = Some (uid, fd, current_fd)"])
      assume "r = None \<or> r = Some (uid, fd, current_fd)"
      then show "triple ?C (\<lambda>w. ?J w \<and> (r = None \<or> r = Some (uid, fd, current_fd))) (case r of None \<Rightarrow> ret 2
          | Some (uid, input_fd, current_fd) \<Rightarrow> provide E args (to_path state @ [str_int uid]) uid input_fd current_fd)
        ?Q (\<lambda>_ w. stored account (writes args) may s0 (fs w))"
        using prov assms(3) by (auto intro!: triple_ret intro: triple_pre simp: only_def)
    qed simp
  qed
  then show ?thesis
    unfolding provider_main_def assms(1) by (auto intro: triple_ret simp: only_def)
qed

text \<open>C7. Whatever the kernel, the runtime and the caller do, and wherever the provider stops or is
  killed: the handle of the account is the original one, byte for byte, or a complete new one that
  \<^verbatim>\<open>--create\<close> put where there was none or \<^verbatim>\<open>--change-input\<close> put in the place of an
  existing one; apart from it only the account's directories, its lock and its temporary files change,
  the database that an enrolment asks for is made only where nothing was, and nothing at all changes on
  a request that is refused.\<close>

theorem native_handle_safe:
  "list_all (\<lambda>(op, s). case split_state arguments of (state, args) \<Rightarrow>
       case parse_request E args of Inl e \<Rightarrow> False
       | Inr (uid, fd, current_fd) \<Rightarrow> let account = to_path state @ [str_int uid]
           in stored account (writes args) (may_install args (fs w (handle_path account))) (fs w) s)
     (trace_of (provider_main E arguments) w)"
proof -
  obtain state args where a: "split_state arguments = (state, args)" by (cases "split_state arguments")
  show ?thesis
  proof (cases "parse_request E args")
    case (Inl e)
    have "trace_of (provider_main E arguments) w = []"
      using set_up_rejected [OF Inl, of "to_path state" w]
      by (cases "result_of (set_up E (to_path state) args) w")
        (auto simp: provider_main_def a run_bind run_simps split: option.split)
    then show ?thesis by simp
  next
    case (Inr r)
    obtain uid fd current_fd where r: "r = (uid, fd, current_fd)" by (cases r)
    let ?account = "to_path state @ [str_int uid]"
    note t = accepted_run [where ?s0.0 = "fs w" and account = ?account, OF a Inr [unfolded r] refl refl]
    have "only (stored ?account (writes args) (may_install args (fs w (handle_path ?account))) (fs w)) (\<lambda>_. True) w"
      by (simp add: only_def stored_start)
    from tripleD(1) [OF t this] show ?thesis by (auto simp: list_all_iff a Inr r Let_def)
  qed
qed

text \<open>C8. Exit status 0 of \<^verbatim>\<open>--create\<close> and of \<^verbatim>\<open>--change-input\<close> means that the account holds a
  complete private handle that survives a power loss.\<close>

theorem native_status_zero:
  assumes "split_state arguments = (state, args)" "is_create args \<or> is_change args"
    and "parse_request E args = Inr (uid, fd, current_fd)" "result_of (provider_main E arguments) w = Inr 0"
  shows "has_handle (to_path state @ [str_int uid]) (fs (world_of (provider_main E arguments) w))"
proof -
  let ?account = "to_path state @ [str_int uid]"
  have "only (stored ?account (writes args) (may_install args (fs w (handle_path ?account))) (fs w)) (\<lambda>_. True) w"
    by (simp add: only_def stored_start)
  from tripleD(2) [OF accepted_run [where ?s0.0 = "fs w" and account = ?account, OF assms(1,3) refl refl] this assms(4)] assms(2) show ?thesis by simp
qed

end
