(* ===== verification/EnrolRules.thy ===== *)
theory EnrolRules
  imports NativeEnrol HandleSafety
begin

text \<open>
  Rules for the two questions about \<^verbatim>\<open>native_enrol.py\<close>: which files a part of it keeps, and when
  it may have asked for a native identity. The provider is any child that keeps the contract
  \<open>native_child\<close>.
\<close>

subsection \<open>Requests for an identity\<close>

text \<open>The arguments of a Python program, with and without the flag of the interpreter.\<close>

definition script_args :: "string list \<Rightarrow> string list" where
  "script_args c = (if 1 < length c \<and> c ! 1 = ''-u'' then drop 3 c else drop 2 c)"

definition create_request :: "sys_op \<Rightarrow> bool" where
  "create_request op \<longleftrightarrow> (case op of Spawn c \<Rightarrow>
       (case script_args c of flag # place # command # rest \<Rightarrow> flag = ''--state-dir'' \<and> command = ''--create'' | _ \<Rightarrow> False)
     | _ \<Rightarrow> False)"

lemma create_request_simps [simp]:
  "\<not> create_request (Mkdir p)" "\<not> create_request (OpenAt p)" "\<not> create_request (CreateExcl p)"
  "\<not> create_request (WriteAt p d)" "\<not> create_request (Flush p)" "\<not> create_request (SyncDir p)"
  "\<not> create_request (Link p q)" "\<not> create_request (Unlink p)" "\<not> create_request (Replace p q)"
  "\<not> create_request (Chmod p)" "\<not> create_request (Lock p)" "\<not> create_request (MakeInput d)"
  "\<not> create_request (RmTree p)" "\<not> create_request (KeyOp name serial)" "\<not> create_request (Ran c i said)" "\<not> create_request (Print l)"
  by (simp_all add: create_request_def)

definition requests :: "(sys_op \<times> fs) list \<Rightarrow> nat" where
  "requests t = length (filter (\<lambda>e. create_request (fst e)) t)"

lemma requests_simps [simp]: "requests [] = 0" "requests (s @ t) = requests s + requests t"
  by (simp_all add: requests_def)

lemma requests_none: "(\<And>e. e \<in> set t \<Longrightarrow> \<not> create_request (fst e)) \<Longrightarrow> requests t = 0"
  by (auto simp: requests_def filter_empty_conv)

subsection \<open>Parts that keep a condition and request nothing\<close>

definition quiet :: "(fs \<Rightarrow> bool) \<Rightarrow> ('l, 'o, 'a) sysprog \<Rightarrow> bool" where
  "quiet G m \<longleftrightarrow> triple (\<lambda>(op, s). \<not> create_request op \<and> G s) (\<lambda>w. G (fs w)) m (\<lambda>_ w. G (fs w)) (\<lambda>_ w. G (fs w))"

lemma quiet_triple:
  "triple (\<lambda>(op, s). \<not> create_request op \<and> G s) (\<lambda>w. G (fs w)) m Q E \<Longrightarrow>
   (\<And>x w. Q x w \<Longrightarrow> G (fs w)) \<Longrightarrow> (\<And>e w. E e w \<Longrightarrow> G (fs w)) \<Longrightarrow> quiet G m"
  unfolding quiet_def by (erule triple_weaken)

lemma quiet_basic:
  "quiet G (ret x)" "quiet G (raise e)" "quiet G (look f)" "quiet G (check b e)" "quiet G (lift r)" "quiet G (get_local g)"
  "quiet G (set_local h)" "quiet G (is_cancelled K)"
  by (auto simp: quiet_def triple_def get_local_def set_local_def is_cancelled_def run_defs Let_def split_beta
      ret_def raise_def look_def check_def lift_def split: sum.split)

lemma quiet_bind: "quiet G m \<Longrightarrow> (\<And>x. quiet G (f x)) \<Longrightarrow> quiet G (pbind m f)"
  unfolding quiet_def by (rule triple_bind)

lemma quiet_seq: "quiet G m \<Longrightarrow> quiet G n \<Longrightarrow> quiet G (pseq m n)"
  unfolding quiet_def by (rule triple_seq)

lemma quiet_catch: "quiet G m \<Longrightarrow> (\<And>e n. h e = Some n \<Longrightarrow> quiet G n) \<Longrightarrow> quiet G (pcatch m h)"
  unfolding quiet_def by (rule triple_catch)

lemma quiet_finally: "quiet G m \<Longrightarrow> quiet G n \<Longrightarrow> quiet G (pfinally m n)"
  unfolding quiet_def by (rule triple_finally)

lemma quiet_if: "(b \<Longrightarrow> quiet G m) \<Longrightarrow> (\<not> b \<Longrightarrow> quiet G n) \<Longrightarrow> quiet G (if b then m else n)"
  and quiet_option: "(r = None \<Longrightarrow> quiet G m) \<Longrightarrow> (\<And>x. r = Some x \<Longrightarrow> quiet G (f x)) \<Longrightarrow>
    quiet G (case r of None \<Rightarrow> m | Some x \<Rightarrow> f x)"
  and quiet_prod: "(\<And>x y. r' = (x, y) \<Longrightarrow> quiet G (g x y)) \<Longrightarrow> quiet G (case r' of (x, y) \<Rightarrow> g x y)"
  by (simp_all split: option.split prod.split)

lemma quiet_for_each: "(\<And>x. quiet G (f x)) \<Longrightarrow> quiet G (for_each f xs)"
  by (induction xs) (simp_all add: quiet_basic quiet_bind)

lemma quiet_lift: "(\<And>x. r = Inr x \<Longrightarrow> quiet G (f x)) \<Longrightarrow> quiet G (pbind (lift r) f)"
  by (cases r) (auto simp: quiet_def triple_def run_simps split: sum.split)

lemma quiet_choice:
  assumes "\<And>x. quiet G (m x)"
  shows "quiet G (\<lambda>w. case f (choices w) of (x, o') \<Rightarrow> m x (w\<lparr>choices := o'\<rparr>))"
  using assms unfolding quiet_def by (intro triple_choice) simp_all

lemma quiet_syscall:
  assumes "\<not> create_request op" "\<And>s. G s \<Longrightarrow> G (snd (f s))" "\<And>s k. G s \<Longrightarrow> G (failing k s)"
  shows "quiet G (syscall K op failing f)"
  unfolding quiet_def by (rule triple_syscall) (use assms in \<open>force+\<close>)

lemmas quiet_rules = quiet_basic quiet_bind quiet_seq quiet_catch quiet_finally quiet_if quiet_option quiet_prod quiet_for_each

subsection \<open>Conditions on some files\<close>

text \<open>A condition that depends on the files in \<open>Y\<close> only, and that durability and new files cannot
  break.\<close>

locale protected =
  fixes Y :: "path set" and G :: "fs \<Rightarrow> bool"
  assumes kept: "G s \<Longrightarrow> (\<And>p. p \<in> Y \<Longrightarrow> s p \<noteq> None \<Longrightarrow> same (s p) (s' p)) \<Longrightarrow> G s'"
begin

lemma settled: "G s \<Longrightarrow> G (settle d s)"
  by (erule kept) (rule same_settle)

lemma other: "G s \<Longrightarrow> (\<And>p. p \<in> Y \<Longrightarrow> s' p = s p) \<Longrightarrow> G s'"
  by (erule kept) simp

lemma made: "G s \<Longrightarrow> (\<And>p. s p \<noteq> None \<Longrightarrow> s' p = s p) \<Longrightarrow> G s'"
  by (erule kept) simp

lemma upd: "G s \<Longrightarrow> p \<notin> Y \<Longrightarrow> G (s(p := x))"
  by (erule other) auto

lemma new: "G s \<Longrightarrow> s p = None \<Longrightarrow> G (s(p := x))"
  by (erule made) auto

lemma calls:
  "quiet G (sys_mkdir K p)" "quiet G (sys_lstat p)" "quiet G (sys_open K p)" "quiet G (sys_create K p)"
  "quiet G (sys_create_excl K p)" "quiet G (sys_sync_dir K p)" "quiet G (sys_print K l)"
  "\<not> create_request op \<Longrightarrow> quiet G (syscall K op unchanged (\<lambda>s. (Inr (), s)))"
proof -
  have dirs: "G (make_dirs q s)" if "G s" for q s
    using that by (rule made) (simp add: make_dirs_def)
  show "quiet G (sys_mkdir K p)" unfolding sys_mkdir_def
    by (rule quiet_syscall) (auto simp: dirs split: option.split)
  show "quiet G (sys_lstat p)" unfolding sys_lstat_def by (intro quiet_rules)
  show "quiet G (sys_open K p)" "quiet G (sys_create K p)" "quiet G (sys_create_excl K p)"
    "quiet G (sys_sync_dir K p)" "quiet G (sys_print K l)"
    unfolding sys_open_def sys_create_def sys_create_excl_def sys_sync_dir_def sys_print_def
    by (rule quiet_syscall; auto simp: unchanged_def settled new split: option.split)+
  show "\<not> create_request op \<Longrightarrow> quiet G (syscall K op unchanged (\<lambda>s. (Inr (), s)))"
    by (rule quiet_syscall) (simp_all add: unchanged_def)
qed

lemma changes:
  assumes "p \<notin> Y"
  shows "quiet G (sys_write K p data)" "quiet G (sys_fsync K p)" "quiet G (sys_unlink K p)"
  unfolding sys_write_def sys_fsync_def sys_unlink_def put_def flush_def
  by (rule quiet_syscall; use assms in \<open>auto simp: unchanged_def upd split: option.split\<close>)+

lemma lock: "quiet G (sys_lock K p)"
  unfolding sys_lock_def by (rule quiet_choice, rule quiet_syscall) (simp_all add: unchanged_def)

lemma rmtree:
  assumes "\<And>q. q \<in> Y \<Longrightarrow> take (length p) q \<noteq> p"
  shows "quiet G (sys_rmtree K p)"
  unfolding sys_rmtree_def
  by (rule quiet_syscall; use assms in \<open>auto simp: remove_inside_def remove_tree_def intro: other split: if_splits\<close>)

lemma private_reads: "quiet G (private_read K p limit)"
  unfolding private_read_def by (intro quiet_rules calls)

lemma directories: "quiet G (enrol_directory K p)"
  unfolding enrol_directory_def by (intro quiet_rules calls)

lemma forwards: "quiet G (forward_lines K ls)"
  by (induction ls) (auto intro!: quiet_rules calls)

lemma drains: "quiet G (drain H)"
  unfolding drain_def by (rule quiet_choice) (intro quiet_rules)

lemma seals: "quiet G (seal_input K secret)"
  unfolding seal_input_def by (intro quiet_rules calls) simp

lemma admits: "quiet G (check_bundle H username uid)"
  unfolding check_bundle_def by (intro quiet_rules calls)

lemma outputs: "quiet G (check_output t)"
  unfolding check_output_def Let_def by (intro quiet_rules calls)

lemma reports: "quiet G (report_cleaned K)"
  unfolding report_cleaned_def by (intro quiet_rules calls)

lemma reads_credential: "quiet G (read_credential H account username uid)"
  unfolding read_credential_def by (intro quiet_rules private_reads)

lemma temp_dir:
  assumes "\<And>x. quiet G (f (d @ [prefix @ x]))"
  shows "quiet G (pbind (sys_mkdtemp K d prefix) f)"
  unfolding quiet_def
proof (rule triple_bind)
  let ?C = "\<lambda>(op, s). \<not> create_request op \<and> G s"
  show "triple ?C (\<lambda>w. G (fs w)) (sys_mkdtemp K d prefix) (\<lambda>p w. G (fs w) \<and> (\<exists>x. p = d @ [prefix @ x])) (\<lambda>_ w. G (fs w))"
    unfolding sys_mkdtemp_def Let_def
    by (rule triple_choice, simp, rule triple_then_ret, rule triple_syscall) (auto simp: unchanged_def new split: if_splits)
  show "triple ?C (\<lambda>w. G (fs w) \<and> (\<exists>x. p = d @ [prefix @ x])) (f p) (\<lambda>_ w. G (fs w)) (\<lambda>_ w. G (fs w))" for p
  proof (rule triple_fact [where F = "\<exists>x. p = d @ [prefix @ x]"])
    assume "\<exists>x. p = d @ [prefix @ x]"
    then show "triple ?C (\<lambda>w. G (fs w) \<and> (\<exists>x. p = d @ [prefix @ x])) (f p) (\<lambda>_ w. G (fs w)) (\<lambda>_ w. G (fs w))"
      using assms unfolding quiet_def by (auto intro: triple_pre)
  qed simp
qed

lemma runs_child:
  fixes H :: "'o enroller"
  assumes "\<And>s0 o1 t s o2 status said s1. child H c (s0, o1) = (t, (s, o2), status, said) \<Longrightarrow> G s0 \<Longrightarrow>
      s1 \<in> insert s (snd ` set t) \<Longrightarrow> G s1"
    and "\<And>st t z op s1. child H c st = (t, z) \<Longrightarrow> (op, s1) \<in> set t \<Longrightarrow> \<not> create_request op"
  shows "quiet G (run_native H c :: ('l, 'o, int \<times> string list) sysprog)"
  unfolding quiet_def
proof (rule tripleI)
  fix w :: "('l, 'o) process" assume G: "G (fs w)"
  obtain t s o2 status said where r: "child H c (fs w, choices w) = (t, (s, o2), status, said)"
    by (cases "child H c (fs w, choices w)") auto
  show "(\<forall>ev \<in> set (trace_of (run_native H c) w). case ev of (op, s) \<Rightarrow> \<not> create_request op \<and> G s)
      \<and> (case result_of (run_native H c) w of Inr x \<Rightarrow> G (fs (world_of (run_native H c) w))
        | Inl e \<Rightarrow> G (fs (world_of (run_native H c) w)))"
  proof -
    have n: "trace_of (run_native H c) w = t @ [(Ran c status said, s)]" "result_of (run_native H c) w = Inr (status, said)"
      "fs (world_of (run_native H c) w) = s" by (simp_all add: run_native_def run_defs r)
    have s: "G s" by (rule assms(1) [OF r G]) simp
    have "\<not> create_request op \<and> G s1" if "(op, s1) \<in> set t" for op s1
      using assms(2) [OF r that] assms(1) [OF r G, of s1] that by force
    then show ?thesis using s unfolding n by auto
  qed
qed

text \<open>A run of the provider that requests nothing new.\<close>

lemma runtime_keeps:
  fixes H :: "'o enroller"
  assumes "quiet G (run_native H c :: ('o, int \<times> string list) enrol_prog)" "\<not> create_request (Spawn c)"
  shows "quiet G (runtime_run H c finish)"
  unfolding runtime_run_def start_child_def
  by (intro quiet_rules assms calls(8) forwards drains) (clarsimp, intro quiet_rules)

end

end
