(* ===== verification/EnrolSafety.thy ===== *)
theory EnrolSafety
  imports EnrolRules
begin

text \<open>
  \<^verbatim>\<open>native_enrol.py\<close> asks for a native identity only when the account has none, with its record
  and its marker durable, and nothing later in the run takes the record of that away.
\<close>

subsection \<open>What the provider promises\<close>

text \<open>The native user of a command line.\<close>

lemma alnum_digit: "is_digit c \<Longrightarrow> alnum_value c = Some (digit_value c) \<and> digit_value c < 10 \<and> c \<noteq> CHR ''_'' \<and> \<not> is_space c
    \<and> c \<noteq> CHR ''-'' \<and> c \<noteq> CHR ''+''"
  by (auto simp: is_digit_def alnum_value_def digit_value_def is_space_def less_eq_char_def)

lemma int_digits_dec:
  "list_all is_digit s \<Longrightarrow> s \<noteq> [] \<or> \<not> us \<Longrightarrow> int_digits 10 a us s = Some (foldl (\<lambda>n c. 10 * n + digit_value c) a s)"
  by (induction s arbitrary: a us) (simp_all add: alnum_digit mult.commute)

lemma strip_digits: "list_all is_digit s \<Longrightarrow> strip s = s"
proof -
  assume a: "list_all is_digit s"
  then have "dropWhile is_space s = s" by (cases s) (simp_all add: alnum_digit)
  moreover have "dropWhile is_space (rev s) = rev s"
    using a by (cases "rev s") (auto simp: alnum_digit list_all_iff simp flip: set_rev [of s])
  ultimately show ?thesis by (simp add: strip_def)
qed

lemma int_arg_str: "0 \<le> i \<Longrightarrow> int_arg (str_int i) = Inr i"
proof -
  assume i: "0 \<le> i"
  let ?s = "dec (nat i)"
  note d = dec_digits [of "nat i"]
  have v: "int_body 10 ?s = Some (nat i)"
    using int_digits_dec [OF d, of True 0] by (simp add: int_body_def flip: dec_value_def)
  have "take 1 ?s \<noteq> ''-''" "take 1 ?s \<noteq> ''+''"
    using d by (cases ?s; auto simp: alnum_digit)+
  then show ?thesis using i v by (simp add: int_arg_def str_int_def py_int_def Let_def strip_digits [OF d])
qed

lemma root_path: "to_path (path_text STATE_ROOT) = STATE_ROOT" "is_absolute (path_text STATE_ROOT)"
  by (simp_all add: to_path_def path_text_def STATE_ROOT_def is_absolute_def)

definition request_uid :: "string list \<Rightarrow> exn + int" where
  "request_uid args = int_arg (args ! (if is_enrol_existing args then 3 else if is_enrol args then 2 else 1))"

definition provider_call :: "string list \<Rightarrow> path \<Rightarrow> string list \<Rightarrow> bool" where
  "provider_call c state op \<longleftrightarrow> script_args c = [''--state-dir'', path_text state] @ op \<and> to_path (path_text state) = state"

lemma native_call: "provider_call (native_command H op) STATE_ROOT op"
  by (simp add: provider_call_def native_command_def script_args_def root_path)

text \<open>The contract of the provider with the programs that start it.\<close>

locale native_child =
  fixes prov :: "'o child_process"
  assumes silent: "prov c st = (t, z) \<Longrightarrow> (op, s1) \<in> set t \<Longrightarrow> \<not> create_request op"
    and stores: "provider_call c state args \<Longrightarrow> request_uid args = Inr u \<Longrightarrow>
      prov c (s0, o1) = (t, (s, o2), status, said) \<Longrightarrow> s1 \<in> insert s (snd ` set t) \<Longrightarrow>
      stored (state @ [str_int u]) (writes args) (may_install args (s0 (handle_path (state @ [str_int u])))) s0 s1"
    and installs: "provider_call c state args \<Longrightarrow> request_uid args = Inr u \<Longrightarrow> is_create args \<or> is_change args \<Longrightarrow>
      prov c (s0, o1) = (t, (s, o2), 0, said) \<Longrightarrow> has_handle (state @ [str_int u]) s"

subsection \<open>The identity of an account\<close>

definition marked :: "path \<Rightarrow> fs \<Rightarrow> bool" where
  "marked account s \<longleftrightarrow> (\<exists>n. s (marker_path account) = Some n \<and> n_durable n)"

definition recorded :: "path \<Rightarrow> fs \<Rightarrow> bool" where
  "recorded account s \<longleftrightarrow> (\<exists>n. s (record_path account) = Some n \<and> n_durable n)"

definition settled_pair :: "path \<Rightarrow> fs \<Rightarrow> bool" where
  "settled_pair account s \<longleftrightarrow> recorded account s \<and> (\<exists>n. s (handle_path account) = Some n \<and> n_durable n)"

definition guarded :: "path \<Rightarrow> fs \<Rightarrow> bool" where
  "guarded account s \<longleftrightarrow> marked account s \<or> settled_pair account s"

definition identity_files :: "path \<Rightarrow> path set" where
  "identity_files account = {marker_path account, record_path account, handle_path account}"

lemma credential_handle: "credential_path account = handle_path account"
  by (simp add: credential_path_def handle_path_def)

lemma identity_distinct [simp]:
  "marker_path account \<noteq> record_path account" "marker_path account \<noteq> handle_path account"
  "record_path account \<noteq> marker_path account" "record_path account \<noteq> handle_path account"
  "handle_path account \<noteq> marker_path account" "handle_path account \<noteq> record_path account"
  "\<not> housekeeping account (marker_path account)" "\<not> housekeeping account (record_path account)"
  by (simp_all add: marker_path_def record_path_def handle_path_def housekeeping_def temp_path_def lock_path_def)

lemma identity_inside:
  "p \<in> identity_files account \<Longrightarrow> \<exists>x. p = account @ [x] \<and> x \<in> {''create.requested'', ''credential.json'', ''gatekeeper.handle''}"
  by (auto simp: identity_files_def marker_path_def record_path_def handle_path_def)

lemma same_durable: "s p = Some n \<Longrightarrow> n_durable n \<Longrightarrow> same (s p) x \<Longrightarrow> \<exists>n'. x = Some n' \<and> n_durable n'"
  by (auto simp: same_def split: option.splits)

lemma durable_kept:
  assumes "\<exists>n. s p = Some n \<and> n_durable n" "s p \<noteq> None \<Longrightarrow> same (s p) (s' p)"
  shows "\<exists>n. s' p = Some n \<and> n_durable n"
  using assms same_durable [of s p _ "s' p"] by auto

interpretation mk: protected "identity_files account" "marked account" for account
proof unfold_locales
  fix s s' assume "marked account s" "\<And>p. p \<in> identity_files account \<Longrightarrow> s p \<noteq> None \<Longrightarrow> same (s p) (s' p)"
  then show "marked account s'"
    unfolding marked_def by (rule durable_kept [of s]) (simp_all add: identity_files_def)
qed

interpretation rc: protected "identity_files account" "recorded account" for account
proof unfold_locales
  fix s s' assume "recorded account s" "\<And>p. p \<in> identity_files account \<Longrightarrow> s p \<noteq> None \<Longrightarrow> same (s p) (s' p)"
  then show "recorded account s'"
    unfolding recorded_def by (rule durable_kept [of s]) (simp_all add: identity_files_def)
qed

interpretation sp: protected "identity_files account" "settled_pair account" for account
proof unfold_locales
  fix s s' assume s: "settled_pair account s" and k: "\<And>p. p \<in> identity_files account \<Longrightarrow> s p \<noteq> None \<Longrightarrow> same (s p) (s' p)"
  have "\<exists>n. s' (handle_path account) = Some n \<and> n_durable n"
    by (rule durable_kept [of s]) (use s k in \<open>simp_all add: settled_pair_def identity_files_def\<close>)
  then show "settled_pair account s'" using s k rc.kept [of account s s'] by (simp add: settled_pair_def)
qed

interpretation gd: protected "identity_files account" "guarded account" for account
proof unfold_locales
  fix s s' assume "guarded account s" "\<And>p. p \<in> identity_files account \<Longrightarrow> s p \<noteq> None \<Longrightarrow> same (s p) (s' p)"
  then show "guarded account s'" using mk.kept [of account s s'] sp.kept [of account s s'] by (auto simp: guarded_def)
qed

lemma has_handle_kept: "has_handle account s \<Longrightarrow> same (s (handle_path account)) (s' (handle_path account)) \<Longrightarrow> has_handle account s'"
  by (auto simp: has_handle_def same_def handle_ok_def handle_private_def core_def split: option.splits)

text \<open>Asked for, with both files in place and perhaps the handle; and no condition at all.\<close>

definition asked :: "path \<Rightarrow> bool \<Rightarrow> fs \<Rightarrow> bool" where
  "asked account b s \<longleftrightarrow> recorded account s \<and> marked account s \<and> (b \<longrightarrow> has_handle account s)"

interpretation ak: protected "identity_files account" "asked account b" for account b
proof unfold_locales
  fix s s' assume a: "asked account b s" and k: "\<And>p. p \<in> identity_files account \<Longrightarrow> s p \<noteq> None \<Longrightarrow> same (s p) (s' p)"
  have "has_handle account s'" if "b"
    using a that k [of "handle_path account"] has_handle_kept [of account s s']
    by (auto simp: asked_def identity_files_def has_handle_def)
  then show "asked account b s'"
    using a k mk.kept [of account s s'] rc.kept [of account s s'] by (simp add: asked_def)
qed

interpretation any: protected "identity_files account" "\<lambda>s. True" for account
  by unfold_locales simp

text \<open>The provider keeps all of them.\<close>

lemma stored_alike:
  assumes "stored account X may s0 s1" "p = handle_path account \<Longrightarrow> \<not> may" "p \<in> identity_files account" "s0 p \<noteq> None"
  shows "same (s0 p) (s1 p)"
proof (cases "p = handle_path account")
  case True
  then show ?thesis using assms(1,2) by (auto simp: stored_def)
next
  case False
  then have "\<not> housekeeping account p" using assms(3) by (auto simp: identity_files_def)
  then show ?thesis using assms(1,4) False by (simp add: stored_def)
qed

lemma asked_guarded: "asked account b s \<Longrightarrow> guarded account s"
  by (simp add: asked_def guarded_def)

lemma quiet_guards:
  assumes "quiet G m" "\<And>s. G s \<Longrightarrow> guarded account s"
  shows "triple (\<lambda>(op, s). guarded account s) (\<lambda>w. G (fs w)) m (\<lambda>_ w. G (fs w)) (\<lambda>_ w. guarded account (fs w))"
  using assms(1) unfolding quiet_def by (rule triple_weaken) (auto dest: assms(2))

lemma marker_removed:
  "triple (\<lambda>(op, s). guarded account s) (\<lambda>w. asked account True (fs w)) (sys_unlink K (marker_path account))
     (\<lambda>_ w. settled_pair account (fs w)) (\<lambda>_ w. guarded account (fs w))"
proof -
  have "settled_pair account (s(marker_path account := None))" if "asked account True s" for s
    using that by (auto simp: asked_def settled_pair_def recorded_def has_handle_def)
  then show ?thesis
    unfolding sys_unlink_def
    by (intro triple_syscall) (auto simp: unchanged_def guarded_def asked_def split: if_splits)
qed

lemma str_int_head: "hd (str_int i) \<noteq> CHR ''.''"
proof (cases "i < 0")
  case False
  have "is_digit (hd (dec (nat i)))" using dec_digits [of "nat i"] by (simp add: list_all_iff)
  then show ?thesis using False by (auto simp: str_int_def is_digit_def)
qed (simp add: str_int_def)

text \<open>Publishing the database cannot break an identity, whatever path the caller names.\<close>

definition guarded_beside :: "path \<Rightarrow> path \<Rightarrow> fs \<Rightarrow> bool" where
  "guarded_beside account p s \<longleftrightarrow> (marked account s \<and> p \<noteq> marker_path account)
     \<or> (settled_pair account s \<and> p \<noteq> record_path account \<and> p \<noteq> handle_path account)"

interpretation gb: protected "identity_files account - {p}" "guarded_beside account p" for account p
proof unfold_locales
  fix s s' assume g: "guarded_beside account p s"
    and k: "\<And>q. q \<in> identity_files account - {p} \<Longrightarrow> s q \<noteq> None \<Longrightarrow> same (s q) (s' q)"
  from g consider "marked account s" "p \<noteq> marker_path account"
    | "settled_pair account s" "p \<noteq> record_path account" "p \<noteq> handle_path account" by (auto simp: guarded_beside_def)
  then show "guarded_beside account p s'"
  proof cases
    case 1
    have "marked account s'" unfolding marked_def
      by (rule durable_kept [of s]) (use 1 k in \<open>simp_all add: marked_def identity_files_def\<close>)
    then show ?thesis using 1 by (simp add: guarded_beside_def)
  next
    case 2
    have "recorded account s'" unfolding recorded_def
      by (rule durable_kept [of s]) (use 2 k in \<open>simp_all add: settled_pair_def recorded_def identity_files_def\<close>)
    moreover have "\<exists>n. s' (handle_path account) = Some n \<and> n_durable n"
      by (rule durable_kept [of s]) (use 2 k in \<open>simp_all add: settled_pair_def identity_files_def\<close>)
    ultimately show ?thesis using 2 by (simp add: guarded_beside_def settled_pair_def)
  qed
qed

lemma beside_guarded: "guarded_beside account p s \<Longrightarrow> guarded account s"
  by (auto simp: guarded_beside_def guarded_def)

lemma beside_new: "guarded account s \<Longrightarrow> s p = None \<Longrightarrow> guarded_beside account p (s(p := x))"
  by (rule gb.upd) (auto simp: guarded_beside_def guarded_def marked_def settled_pair_def recorded_def)

lemma copy_keeps: "quiet (guarded account) (copy_database K out data)"
  unfolding quiet_def copy_database_def
proof (rule triple_seq)
  let ?C = "\<lambda>(op, s). \<not> create_request op \<and> guarded account s"
  show "triple ?C (\<lambda>w. guarded account (fs w)) (sys_create_excl K out) (\<lambda>_ w. guarded_beside account out (fs w))
      (\<lambda>_ w. guarded account (fs w))"
    unfolding sys_create_excl_def
    by (rule triple_syscall) (auto simp: unchanged_def beside_new dest: beside_new beside_guarded [OF beside_new] split: option.splits)
  have "quiet (guarded_beside account out)
      (pcatch (pseq (sys_write K out data) (pseq (sys_fsync K out) (pbind (is_cancelled K) (\<lambda>c. check (\<not> c) OSError))))
       (\<lambda>e. Some (pseq (sys_unlink K out) (raise e))))"
    by (intro quiet_catch quiet_seq quiet_bind quiet_basic gb.changes) (auto intro!: quiet_seq quiet_basic gb.changes)
  then show "triple ?C (\<lambda>w. guarded_beside account out (fs w))
      (pcatch (pseq (sys_write K out data) (pseq (sys_fsync K out) (pbind (is_cancelled K) (\<lambda>c. check (\<not> c) OSError))))
       (\<lambda>e. Some (pseq (sys_unlink K out) (raise e)))) (\<lambda>_ w. guarded account (fs w)) (\<lambda>_ w. guarded account (fs w))"
    unfolding quiet_def by (rule triple_weaken) (auto dest: beside_guarded)
qed

lemma publish_keeps: "quiet (guarded account) (publish K db out)"
  unfolding publish_def by (intro quiet_bind quiet_seq quiet_basic gd.calls copy_keeps)

lemma native_uid_range: "account_uid H username = Inr uid \<Longrightarrow> 0 \<le> native_uid uid"
  by (auto simp: account_uid_def native_uid_def split: option.splits if_splits)

subsection \<open>Nothing before the request, and the guard after it\<close>

definition late :: "(fs \<Rightarrow> bool) \<Rightarrow> (('l, 'o) process \<Rightarrow> bool) \<Rightarrow> ('l, 'o, 'a) sysprog \<Rightarrow> bool" where
  "late G P m \<longleftrightarrow> (\<forall>w. P w \<longrightarrow> (\<exists>t1 t2. trace_of m w = t1 @ t2 \<and> requests t1 = 0
     \<and> (\<forall>e \<in> set t2. G (snd e)) \<and> (t2 \<noteq> [] \<longrightarrow> G (fs (world_of m w))) \<and> requests t2 \<le> 1))"

lemma lateI:
  "trace_of m w = t1 @ t2 \<Longrightarrow> requests t1 = 0 \<Longrightarrow> \<forall>e \<in> set t2. G (snd e) \<Longrightarrow>
   (t2 \<noteq> [] \<Longrightarrow> G (fs (world_of m w))) \<Longrightarrow> requests t2 \<le> 1 \<Longrightarrow>
   \<exists>t1 t2. trace_of m w = t1 @ t2 \<and> requests t1 = 0
     \<and> (\<forall>e \<in> set t2. G (snd e)) \<and> (t2 \<noteq> [] \<longrightarrow> G (fs (world_of m w))) \<and> requests t2 \<le> 1"
  by blast

lemma quiet_none: "quiet G m \<Longrightarrow> G (fs w) \<Longrightarrow> requests (trace_of m w) = 0"
  unfolding quiet_def by (rule requests_none) (auto dest!: tripleD(1))

lemma quiet_guarded: "quiet (G) m \<Longrightarrow> G (fs w) \<Longrightarrow>
    (\<forall>e \<in> set (trace_of m w). G (snd e)) \<and> G (fs (world_of m w))"
proof -
  assume "quiet (G) m" "G (fs w)"
  note t = tripleD [OF this [unfolded quiet_def]]
  show "(\<forall>e \<in> set (trace_of m w). G (snd e)) \<and> G (fs (world_of m w))"
    using t(1) t(2,3) by (cases "result_of m w") auto
qed

lemma late_silent: "triple (\<lambda>(op, s). \<not> create_request op) P m Q E \<Longrightarrow> late G P m"
  unfolding late_def
  by (intro allI impI, rule lateI [of _ _ _ "[]"]) (auto intro!: requests_none dest: tripleD(1))

lemma late_quiet: "quiet (\<lambda>_. True) m \<Longrightarrow> late G P m"
  by (rule late_silent [where Q = "\<lambda>_ _. True" and E = "\<lambda>_ _. True"]) (auto simp: quiet_def triple_def split: sum.split)

lemma late_guarded:
  assumes "triple (\<lambda>(op, s). G s) P m (\<lambda>_ w. G (fs w)) (\<lambda>_ w. G (fs w))"
    "\<And>w. requests (trace_of m w) \<le> 1"
  shows "late G P m"
  unfolding late_def
proof (intro allI impI)
  fix w assume "P w"
  note t = tripleD [OF assms(1) this]
  have "G (fs (world_of m w))" using t(2,3) by (cases "result_of m w") auto
  then show "\<exists>t1 t2. trace_of m w = t1 @ t2 \<and> requests t1 = 0 \<and> (\<forall>e \<in> set t2. G (snd e))
      \<and> (t2 \<noteq> [] \<longrightarrow> G (fs (world_of m w))) \<and> requests t2 \<le> 1"
    using t(1) assms(2) by (intro lateI [of _ _ "[]"]) auto
qed

lemma late_bind:
  assumes "triple (\<lambda>(op, s). \<not> create_request op) P m R E" "\<And>x. late G (R x) (f x)"
  shows "late G P (pbind m f)"
  unfolding late_def
proof (intro allI impI)
  fix w assume P: "P w"
  note t = tripleD [OF assms(1) P]
  have z: "requests (trace_of m w) = 0" using t(1) by (auto intro!: requests_none)
  show "\<exists>t1 t2. trace_of (pbind m f) w = t1 @ t2 \<and> requests t1 = 0 \<and> (\<forall>e \<in> set t2. G (snd e))
      \<and> (t2 \<noteq> [] \<longrightarrow> G (fs (world_of (pbind m f) w))) \<and> requests t2 \<le> 1"
  proof (cases "result_of m w")
    case (Inl e)
    then show ?thesis using z by (intro lateI [of _ _ "trace_of m w" "[]"]) (simp_all add: run_bind)
  next
    case (Inr x)
    obtain t1 t2 where f: "trace_of (f x) (world_of m w) = t1 @ t2" "requests t1 = 0" "\<forall>e \<in> set t2. G (snd e)"
      "t2 \<noteq> [] \<longrightarrow> G (fs (world_of (f x) (world_of m w)))" "requests t2 \<le> 1"
      using assms(2) [of x] t(2) [OF Inr] unfolding late_def by blast
    show ?thesis using z f by (intro lateI [of _ _ "trace_of m w @ t1" t2]) (simp_all add: run_bind Inr)
  qed
qed

text \<open>What follows a late part requests nothing and keeps the guard.\<close>

lemma late_extend:
  assumes "\<exists>t1 t2. t = t1 @ t2 \<and> requests t1 = 0 \<and> (\<forall>e \<in> set t2. G (snd e)) \<and> (t2 \<noteq> [] \<longrightarrow> G (fs w'))
      \<and> requests t2 \<le> 1"
    and "quiet (G) n" "quiet (\<lambda>_. True) n"
  shows "\<exists>t1 t2. t @ trace_of n w' = t1 @ t2 \<and> requests t1 = 0 \<and> (\<forall>e \<in> set t2. G (snd e))
      \<and> (t2 \<noteq> [] \<longrightarrow> G (fs (world_of n w'))) \<and> requests t2 \<le> 1"
proof -
  obtain t1 t2 where t: "t = t1 @ t2" "requests t1 = 0" "\<forall>e \<in> set t2. G (snd e)"
    "t2 \<noteq> [] \<longrightarrow> G (fs w')" "requests t2 \<le> 1" using assms(1) by blast
  have z: "requests (trace_of n w') = 0" by (rule quiet_none [OF assms(3)]) simp
  show ?thesis
  proof (cases "t2 = []")
    case True
    then show ?thesis using t z by (intro exI [of _ "t1 @ trace_of n w'"] exI [of _ "[]"]) simp
  next
    case False
    then show ?thesis using t z quiet_guarded [OF assms(2), of w']
      by (intro exI [of _ t1] exI [of _ "t2 @ trace_of n w'"]) auto
  qed
qed

lemma late_then:
  assumes "late G P m" "\<And>x. quiet (G) (f x)" "\<And>x. quiet (\<lambda>_. True) (f x)"
  shows "late G P (pbind m f)"
  unfolding late_def
proof (intro allI impI)
  fix w assume "P w"
  then have m: "\<exists>t1 t2. trace_of m w = t1 @ t2 \<and> requests t1 = 0 \<and> (\<forall>e \<in> set t2. G (snd e))
      \<and> (t2 \<noteq> [] \<longrightarrow> G (fs (world_of m w))) \<and> requests t2 \<le> 1" using assms(1) by (simp add: late_def)
  show "\<exists>t1 t2. trace_of (pbind m f) w = t1 @ t2 \<and> requests t1 = 0 \<and> (\<forall>e \<in> set t2. G (snd e))
      \<and> (t2 \<noteq> [] \<longrightarrow> G (fs (world_of (pbind m f) w))) \<and> requests t2 \<le> 1"
  proof (cases "result_of m w")
    case (Inl e)
    then show ?thesis using m by (simp add: run_bind)
  next
    case (Inr x)
    show ?thesis using late_extend [OF m assms(2) [of x] assms(3) [of x]] by (simp add: run_bind Inr)
  qed
qed

lemma late_finally:
  assumes "late G P m" "quiet (G) n" "quiet (\<lambda>_. True) n"
  shows "late G P (pfinally m n)"
proof -
  have f: "trace_of (pfinally m n) w = trace_of m w @ trace_of n (world_of m w)"
    "world_of (pfinally m n) w = world_of n (world_of m w)" for w
    by (simp_all add: run_defs pfinally_def split_beta)
  show ?thesis unfolding late_def f using assms(1) late_extend [OF _ assms(2,3)] unfolding late_def by blast
qed

lemma late_catch_ret: "late G P m \<Longrightarrow> late G P (pcatch m (\<lambda>e. Some (ret x)))"
proof -
  have "trace_of (pcatch m (\<lambda>e. Some (ret x))) w = trace_of m w"
    "world_of (pcatch m (\<lambda>e. Some (ret x))) w = world_of m w" for w
    by (simp_all add: run_defs pcatch_def ret_def split_beta split: sum.split)
  then show "late G P m \<Longrightarrow> late G P (pcatch m (\<lambda>e. Some (ret x)))" by (simp add: late_def)
qed

abbreviation always :: "('l, 'o) process \<Rightarrow> bool" where
  "always \<equiv> (\<lambda>_. True)"

lemma late_step: "quiet (\<lambda>_. True) m \<Longrightarrow> (\<And>x. late G always (f x)) \<Longrightarrow> late G always (pbind m f)"
  by (rule late_bind [where R = "\<lambda>_ _. True" and E = "\<lambda>_ _. True"])
    (auto simp: quiet_def triple_def split: sum.split)

lemma late_seq: "quiet (\<lambda>_. True) m \<Longrightarrow> late G always n \<Longrightarrow> late G always (pseq m n)"
  unfolding pseq_def by (rule late_step)

lemma late_if: "(b \<Longrightarrow> late G P m) \<Longrightarrow> (\<not> b \<Longrightarrow> late G P n) \<Longrightarrow> late G P (if b then m else n)"
  by simp

lemma late_lift: "(\<And>x. r = Inr x \<Longrightarrow> late G always (f x)) \<Longrightarrow> late G always (pbind (lift r) f)"
  by (cases r) (auto simp: late_def run_simps)

lemma late_prod: "(\<And>x y. late G P (f x y)) \<Longrightarrow> late G P (case r of (x, y) \<Rightarrow> f x y)"
  by (simp split: prod.split)

text \<open>Counting requests.\<close>

definition most :: "nat \<Rightarrow> ('l, 'o, 'a) sysprog \<Rightarrow> bool" where
  "most n m \<longleftrightarrow> (\<forall>w. requests (trace_of m w) \<le> n)"

lemma most_quiet: "quiet (\<lambda>_. True) m \<Longrightarrow> most n m"
  by (simp add: most_def quiet_none)

lemma most_bind: "most a m \<Longrightarrow> (\<And>x. most b (f x)) \<Longrightarrow> a + b \<le> n \<Longrightarrow> most n (pbind m f)"
proof -
  assume m: "most a m" and f: "\<And>x. most b (f x)" and n: "a + b \<le> n"
  have "requests (trace_of m w) + requests (trace_of (f x) v) \<le> n" for x w v
  proof -
    have "requests (trace_of m w) \<le> a" "requests (trace_of (f x) v) \<le> b" using m f by (simp_all add: most_def)
    then show ?thesis using n by linarith
  qed
  then show "most n (pbind m f)" using m n unfolding most_def run_bind by (auto split: sum.split intro: le_trans add_leD1)
qed

lemma most_seq: "most a m \<Longrightarrow> most b k \<Longrightarrow> a + b \<le> n \<Longrightarrow> most n (pseq m k)"
  unfolding pseq_def by (rule most_bind)

lemma most_if: "most n m \<Longrightarrow> most n k \<Longrightarrow> most n (if b then m else k)"
  by simp

lemma most_catch: "most n m \<Longrightarrow> (\<And>e k. h e = Some k \<Longrightarrow> quiet (\<lambda>_. True) k) \<Longrightarrow> most n (pcatch m h)"
  unfolding most_def run_catch by (auto split: sum.split option.split simp: quiet_none [where G = "\<lambda>_. True"])

lemma most_start: "most 1 (start_child K c)"
  by (simp add: most_def start_child_def syscall_def run_defs requests_def split_beta)

lemma most_prod: "(\<And>x y. most n (f x y)) \<Longrightarrow> most n (case r of (x, y) \<Rightarrow> f x y)"
  by (simp split: prod.split)

text \<open>The record and the marker are durable when they have been written.\<close>

interpretation none: protected "{}" "\<lambda>s. True"
  by unfold_locales simp

interpretation rc1: protected "{record_path account}" "recorded account" for account
  by unfold_locales (auto simp: recorded_def intro: durable_kept)

lemma write_durable:
  fixes K :: "'o kernel"
  assumes "protected Y G" "p \<notin> Y" "p \<noteq> []"
  shows "triple (\<lambda>(op, s). \<not> create_request op) (\<lambda>w :: ('l, 'o) process. G (fs w)) (write_exclusive K p content)
    (\<lambda>_ w. G (fs w) \<and> (\<exists>n. fs w p = Some n \<and> n_durable n)) (\<lambda>_ _. True)"
  unfolding write_exclusive_def
proof -
  let ?C = "\<lambda>(op, s :: fs). \<not> create_request op"
  let ?E = "\<lambda>(e :: exn) (w :: ('l, 'o) process). True"
  note upd = protected.upd [OF assms(1) _ assms(2)]
  have "triple ?C (\<lambda>w. G (fs w)) (sys_create_excl K p) (\<lambda>_ w. G (fs w) \<and> fs w p \<noteq> None) ?E"
    unfolding sys_create_excl_def by (rule triple_syscall) (auto simp: upd split: option.splits)
  moreover have "triple ?C (\<lambda>w. G (fs w) \<and> fs w p \<noteq> None) (sys_write K p content) (\<lambda>_ w. G (fs w) \<and> fs w p \<noteq> None) ?E"
    unfolding sys_write_def put_def by (rule triple_syscall) (auto simp: upd)
  moreover have "triple ?C (\<lambda>w. G (fs w) \<and> fs w p \<noteq> None) (sys_fsync K p)
      (\<lambda>_ w. G (fs w) \<and> (\<exists>n. fs w p = Some n \<and> n_flushed n)) ?E"
    unfolding sys_fsync_def flush_def by (rule triple_syscall) (auto simp: upd)
  moreover have "triple ?C (\<lambda>w. G (fs w) \<and> (\<exists>n. fs w p = Some n \<and> n_flushed n)) (sys_sync_dir K (butlast p))
      (\<lambda>_ w. G (fs w) \<and> (\<exists>n. fs w p = Some n \<and> n_durable n)) ?E"
    unfolding sys_sync_dir_def
    by (rule triple_syscall) (use assms(3) protected.settled [OF assms(1)] in \<open>auto simp: settle_def\<close>)
  ultimately show "triple ?C (\<lambda>w. G (fs w))
      (pseq (sys_create_excl K p) (pseq (sys_write K p content) (pseq (sys_fsync K p) (sys_sync_dir K (butlast p)))))
      (\<lambda>_ w. G (fs w) \<and> (\<exists>n. fs w p = Some n \<and> n_durable n)) ?E"
    by (intro triple_seq) assumption+
qed

lemma credential_asked:
  "triple (\<lambda>(op, s). \<not> create_request op) (\<lambda>_. True) (make_credential H account username uid)
    (\<lambda>_ w. asked account False (fs w)) (\<lambda>_ _. True)"
  unfolding make_credential_def
proof (rule triple_bind)
  let ?C = "\<lambda>(op, s :: fs). \<not> create_request op"
  show "triple ?C (\<lambda>_. True) (new_secret H) (\<lambda>_ _. True) (\<lambda>_ _. True)"
    by (simp add: triple_def new_secret_def run_defs split_beta)
  have ne: "record_path account \<noteq> []" "marker_path account \<noteq> []" by (simp_all add: record_path_def marker_path_def)
  have rec: "triple ?C (\<lambda>_. True) (write_exclusive K (record_path account) c) (\<lambda>_ w. recorded account (fs w)) (\<lambda>_ _. True)" for K c
    by (rule triple_weaken [OF write_durable [OF none.protected_axioms _ ne(1)]]) (auto simp: recorded_def)
  have mrk: "triple ?C (\<lambda>w. recorded account (fs w)) (write_exclusive K (marker_path account) c)
      (\<lambda>_ w. asked account False (fs w)) (\<lambda>_ _. True)" for K c
    by (rule triple_weaken [OF write_durable [OF rc1.protected_axioms _ ne(2)]]) (auto simp: asked_def marked_def)
  show "triple ?C (\<lambda>_. True) (pseq (write_exclusive (ker H) (record_path account)
            (json_text H (binding username uid @ [(''secret_hex'', JString (hex_text secret))]) @ [newline]))
     (pseq (write_exclusive (ker H) (marker_path account) (''creation requested'' @ [newline])) (ret secret)))
     (\<lambda>_ w. asked account False (fs w)) (\<lambda>_ _. True)" for secret
    by (rule triple_seq [OF rec], rule triple_seq [OF mrk], rule triple_ret)
qed

lemma look_pair:
  "(\<And>w. P w \<Longrightarrow> Q (f w, g w) w) \<Longrightarrow> (\<And>x y. triple C (Q (x, y)) (h x y) Q' E) \<Longrightarrow>
    triple C P (pbind (look (\<lambda>w. (f w, g w))) (\<lambda>(x, y). h x y)) Q' E"
  by (rule triple_bind [where R = Q], rule triple_look) (auto split: prod.split)

context native_child
begin

lemma silent_run: "prov = child H \<Longrightarrow> child H c st = (t, z) \<Longrightarrow> (op, s1) \<in> set t \<Longrightarrow> \<not> create_request op"
  using silent by blast

lemma provider_keeps:
  assumes "protected Y G" "Y \<subseteq> identity_files account" "is_change args \<Longrightarrow> handle_path account \<notin> Y"
    "prov = child H" "provider_call c state args" "request_uid args = Inr u" "account = state @ [str_int u]"
  shows "quiet G (run_native H c)"
proof (rule protected.runs_child [OF assms(1)])
  fix s0 o1 t s o2 status said s1
  assume r: "child H c (s0, o1) = (t, (s, o2), status, said)" and G: "G s0" and s1: "s1 \<in> insert s (snd ` set t)"
  have st: "stored account (writes args) (may_install args (s0 (handle_path account))) s0 s1"
    using stores [OF assms(5,6) r [folded assms(4)] s1] assms(7) by simp
  show "G s1"
  proof (rule protected.kept [OF assms(1) G])
    fix p assume "p \<in> Y" "s0 p \<noteq> None"
    then show "same (s0 p) (s1 p)"
      using assms(2,3) by (intro stored_alike [OF st]) (auto simp: may_install_def)
  qed
qed (rule silent_run [OF assms(4)])

lemma create_keeps:
  assumes "protected (identity_files account) G" "prov = child H" "account = STATE_ROOT @ [str_int u]" "0 \<le> u"
  shows "quiet G (run_native H (native_command H [''--create'', str_int u, str_int (input_fd H)]))"
  by (rule provider_keeps [OF assms(1) subset_refl _ assms(2) native_call _ assms(3)])
    (simp_all add: is_change_def request_uid_def is_enrol_existing_def is_enrol_def int_arg_str [OF assms(4)])

lemma enrol_keeps:
  assumes "protected (identity_files account) G" "prov = child H" "account = STATE_ROOT @ [str_int u]" "0 \<le> u"
  shows "quiet G (run_native H (native_command H [''--enrol'', path_text (temp @ [''database'']), str_int u, str_int (input_fd H)]))"
  by (rule provider_keeps [OF assms(1) subset_refl _ assms(2) native_call _ assms(3)])
    (simp_all add: is_change_def request_uid_def is_enrol_existing_def is_enrol_def int_arg_str [OF assms(4)])

text \<open>A creation that ends with status 0 leaves the handle.\<close>

lemma create_result:
  assumes "prov = child H" "account = STATE_ROOT @ [str_int u]" "0 \<le> u"
  shows "triple (\<lambda>(op, s). \<not> create_request op \<and> asked account False s) (\<lambda>w :: ('l, 'o) process. asked account False (fs w))
    (run_native H (native_command H [''--create'', str_int u, str_int (input_fd H)]))
    (\<lambda>(st, said) w. asked account (st = 0) (fs w)) (\<lambda>_ w. asked account False (fs w))"
proof (rule tripleI)
  let ?m = "run_native H (native_command H [''--create'', str_int u, str_int (input_fd H)]) :: ('l, 'o, int \<times> string list) sysprog"
  fix w :: "('l, 'o) process" assume a: "asked account False (fs w)"
  note t = tripleD [OF create_keeps [OF ak.protected_axioms assms, unfolded quiet_def] a]
  obtain z where c: "child H (native_command H [''--create'', str_int u, str_int (input_fd H)]) (fs w, choices w) = z" by blast
  obtain e s o2 status said where z: "z = (e, (s, o2), status, said)" by (cases z) auto
  have r: "result_of ?m w = Inr (status, said)" "fs (world_of ?m w) = s" by (simp_all add: run_native_def run_defs c z)
  have h: "has_handle account s" if "status = 0"
  proof -
    have "request_uid [''--create'', str_int u, str_int (input_fd H)] = Inr u"
      by (simp add: request_uid_def is_enrol_existing_def is_enrol_def int_arg_str [OF assms(3)])
    from installs [OF native_call this _ c [unfolded z that, folded assms(1)]] assms(2) show ?thesis by (simp add: is_create_def)
  qed
  have "asked account (status = 0) s" using t(2) [OF r(1)] h r(2) by (auto simp: asked_def)
  then show "(\<forall>ev \<in> set (trace_of ?m w). case ev of (op, s) \<Rightarrow> \<not> create_request op \<and> asked account False s)
      \<and> (case result_of ?m w of Inr x \<Rightarrow> (case x of (st, said) \<Rightarrow> \<lambda>w. asked account (st = 0) (fs w)) (world_of ?m w)
        | Inl e \<Rightarrow> asked account False (fs (world_of ?m w)))"
    using t(1) r by simp
qed

lemma asked_quiet:
  assumes "quiet (asked account b) m"
  shows "triple (\<lambda>(op, s). asked account False s) (\<lambda>w. asked account b (fs w)) m (\<lambda>_ w. asked account b (fs w))
    (\<lambda>_ w. asked account False (fs w))"
  using assms unfolding quiet_def by (rule triple_weaken) (auto simp: asked_def)

lemma creation_run:
  assumes "prov = child H" "account = STATE_ROOT @ [str_int u]" "0 \<le> u"
  shows "triple (\<lambda>(op, s). asked account False s) (\<lambda>w. asked account False (fs w))
    (runtime_run H (native_command H [''--create'', str_int u, str_int (input_fd H)]) True)
    (\<lambda>st w. asked account (st = 0) (fs w)) (\<lambda>_ w. asked account False (fs w))"
proof -
  let ?A = "asked account False"
  let ?C = "\<lambda>(op :: sys_op, s). ?A s"
  note q = asked_quiet
  have start: "triple ?C (\<lambda>w. ?A (fs w)) (start_child (ker H) c) (\<lambda>_ w. ?A (fs w)) (\<lambda>_ w. ?A (fs w))" for c
    unfolding start_child_def by (rule triple_syscall) (simp_all add: unchanged_def)
  have start': "triple ?C (\<lambda>w. ?A (fs w)) (pcatch (start_child (ker H) c)
      (\<lambda>e. Some (pseq (set_local (\<lambda>v. v\<lparr>cleaned := b\<rparr>)) (raise e)))) (\<lambda>_ w. ?A (fs w)) (\<lambda>_ w. ?A (fs w))" for c b
    by (rule triple_catch [OF start]) (auto intro!: q quiet_seq quiet_basic)
  have run: "triple ?C (\<lambda>w. ?A (fs w)) (run_native H (native_command H [''--create'', str_int u, str_int (input_fd H)]))
      (\<lambda>x w. asked account (fst x = 0) (fs w)) (\<lambda>_ w. ?A (fs w))"
    by (rule triple_weaken [OF create_result [OF assms]]) auto
  have tail: "triple ?C (\<lambda>w. asked account (st = 0) (fs w))
      (pseq (pfinally (forward_lines (ker H) said) (pseq (drain H) (set_local (\<lambda>v. v\<lparr>cleaned := b \<and> cleanup v\<rparr>))))
        (pbind (is_cancelled (ker H)) (\<lambda>c. ret (if True \<or> \<not> c then st else 1))))
      (\<lambda>st w. asked account (st = 0) (fs w)) (\<lambda>_ w. ?A (fs w))" for st said b
  proof (rule triple_seq [OF q], intro quiet_finally quiet_seq ak.forwards ak.drains quiet_basic)
    show "triple ?C (\<lambda>w. asked account (st = 0) (fs w)) (pbind (is_cancelled (ker H)) (\<lambda>c. ret (if True \<or> \<not> c then st else 1)))
        (\<lambda>st w. asked account (st = 0) (fs w)) (\<lambda>_ w. ?A (fs w))"
      by (rule triple_bind [OF q [OF quiet_basic(8)]], rule triple_ret) simp
  qed
  have tail': "triple ?C (\<lambda>w. asked account (fst x = 0) (fs w)) (case x of (st, said) \<Rightarrow>
      pseq (pfinally (forward_lines (ker H) said) (pseq (drain H) (set_local (\<lambda>v. v\<lparr>cleaned := b \<and> cleanup v\<rparr>))))
        (pbind (is_cancelled (ker H)) (\<lambda>c. ret (if True \<or> \<not> c then st else 1))))
      (\<lambda>st w. asked account (st = 0) (fs w)) (\<lambda>_ w. ?A (fs w))" for x b
    using tail [of "fst x" "snd x" b] by (simp add: split_beta)
  show ?thesis
    unfolding runtime_run_def
    by (rule triple_bind [OF q [OF quiet_basic(8)]], rule triple_if, simp,
        rule triple_bind [OF q [OF quiet_basic(6)]], rule triple_seq [OF q [OF quiet_basic(7)]],
        rule triple_seq [OF start'], rule triple_bind [OF run], rule tail')
qed

lemma request_guards:
  assumes "prov = child H" "account = STATE_ROOT @ [str_int (native_uid uid)]" "0 \<le> native_uid uid"
  shows "triple (\<lambda>(op, s). guarded account s) (\<lambda>w. asked account False (fs w)) (request_creation H account uid)
    (\<lambda>_ w. guarded account (fs w)) (\<lambda>_ w. guarded account (fs w))"
  unfolding request_creation_def
proof (rule triple_bind)
  let ?C = "\<lambda>(op :: sys_op, s). guarded account s"
  let ?E = "\<lambda>(e :: exn) w. guarded account (fs w)"
  show "triple ?C (\<lambda>w. asked account False (fs w))
      (runtime_run H (native_command H [''--create'', str_int (native_uid uid), str_int (input_fd H)]) True)
      (\<lambda>st w. asked account (st = 0) (fs w)) ?E"
    by (rule triple_weaken [OF creation_run [OF assms]]) (auto dest: asked_guarded)
  have tail: "triple ?C (\<lambda>w. asked account True (fs w)) (pseq (private_read (ker H) (credential_path account) 1024)
      (pseq (sys_unlink (ker H) (marker_path account)) (pseq (sys_sync_dir (ker H) account) (ret (0::int)))))
      (\<lambda>_ w. guarded account (fs w)) ?E"
    by (rule triple_seq [OF quiet_guards [OF ak.private_reads asked_guarded]], assumption,
        rule triple_seq [OF marker_removed], rule triple_seq [OF quiet_guards [OF sp.calls(6)]])
      (auto simp: guarded_def intro: triple_ret)
  show "triple ?C (\<lambda>w. asked account (st = 0) (fs w)) (pbind (get_local cleaned) (\<lambda>clean.
      if st \<noteq> 0 \<or> \<not> clean then ret (1::int) else pseq (private_read (ker H) (credential_path account) 1024)
       (pseq (sys_unlink (ker H) (marker_path account)) (pseq (sys_sync_dir (ker H) account) (ret 0)))))
      (\<lambda>_ w. guarded account (fs w)) ?E" for st
  proof (rule triple_bind [OF quiet_guards [OF quiet_basic(6), where G = "asked account (st = 0)"]])
    show "guarded account s" if "asked account (st = 0) s" for s using that by (rule asked_guarded)
    show "triple ?C (\<lambda>w. asked account (st = 0) (fs w)) (if st \<noteq> 0 \<or> \<not> clean then ret (1::int)
        else pseq (private_read (ker H) (credential_path account) 1024)
         (pseq (sys_unlink (ker H) (marker_path account)) (pseq (sys_sync_dir (ker H) account) (ret 0))))
        (\<lambda>_ w. guarded account (fs w)) ?E" for clean
      using tail by (cases "st = 0") (auto intro!: triple_ret dest: asked_guarded)
  qed
qed

lemma enrol_finger_keeps:
  assumes "prov = child H" "account = STATE_ROOT @ [str_int (native_uid uid)]" "0 \<le> native_uid uid"
  shows "quiet (guarded account) (enrol_finger H uid out)"
  unfolding enrol_finger_def
proof (rule gd.temp_dir)
  fix x
  define temp where "temp = butlast out @ [''.native-enrol-'' @ x]"
  let ?c = "native_command H [''--enrol'', path_text (temp @ [''database'']), str_int (native_uid uid), str_int (input_fd H)]"
  have "\<not> create_request (Spawn ?c)" by (simp add: create_request_def script_args_def native_command_def)
  with enrol_keeps [OF gd.protected_axioms assms]
  have run: "quiet (guarded account) (runtime_run H ?c False)" by (rule gd.runtime_keeps)
  have "take (length temp) q \<noteq> temp" if mem: "q \<in> identity_files account" for q
  proof
    assume t: "take (length temp) q = temp"
    obtain y where q: "q = account @ [y]" "y \<in> {''create.requested'', ''credential.json'', ''gatekeeper.handle''}"
      using identity_inside [OF mem] by blast
    have "''.native-enrol-'' @ x \<in> set (take (length temp) q)" by (subst t) (simp add: temp_def)
    then have "''.native-enrol-'' @ x \<in> set q" by (rule in_set_takeD)
    then have "''.native-enrol-'' @ x = str_int (native_uid uid)"
      using q assms(2) by (auto simp: STATE_ROOT_def)
    then have "hd (str_int (native_uid uid)) = CHR ''.''" by (metis append_Cons list.sel(1))
    then show False using str_int_head [of "native_uid uid"] by simp
  qed
  then have rm: "quiet (guarded account) (sys_rmtree (ker H) temp)" by (rule gd.rmtree)
  show "quiet (guarded account) (pfinally
       (pbind (runtime_run H (native_command H [''--enrol'', path_text ((butlast out @ [''.native-enrol-'' @ x]) @ [''database'']),
          str_int (native_uid uid), str_int (input_fd H)]) False) (\<lambda>status.
        pbind (get_local cleaned) (\<lambda>clean. pbind (is_cancelled (ker H)) (\<lambda>c.
        if status \<noteq> 0 \<or> \<not> clean \<or> c then ret 1
        else pseq (publish (ker H) ((butlast out @ [''.native-enrol-'' @ x]) @ [''database'']) out) (ret 0)))))
       (sys_rmtree (ker H) (butlast out @ [''.native-enrol-'' @ x])))"
    unfolding temp_def [symmetric]
    by (intro quiet_finally quiet_bind [OF run] quiet_bind quiet_seq quiet_if quiet_basic publish_keeps rm)
qed

text \<open>A guarded account is never asked for again.\<close>

lemma known_keeps:
  assumes "prov = child H" "account = STATE_ROOT @ [str_int (native_uid uid)]" "0 \<le> native_uid uid"
  shows "quiet (guarded account) (use_identity H account username uid out True)"
  unfolding use_identity_def if_True not_True_eq_False
  by (intro quiet_seq quiet_bind quiet_if quiet_basic gd.reads_credential gd.seals enrol_finger_keeps [OF assms])

lemma guarded_locked:
  assumes "prov = child H" "account = STATE_ROOT @ [str_int (native_uid uid)]" "0 \<le> native_uid uid"
  shows "quiet (guarded account) (enrol_locked H account username uid out)"
  unfolding quiet_def enrol_locked_def
proof (rule triple_bind)
  let ?C = "\<lambda>(op, s). \<not> create_request op \<and> guarded account s"
  let ?G = "\<lambda>w :: (enrol_locals, 'o) process. guarded account (fs w)"
  show "triple ?C ?G (look (\<lambda>w. lexists (marker_path account) (fs w)))
      (\<lambda>requested w. guarded account (fs w) \<and> requested = lexists (marker_path account) (fs w)) (\<lambda>_. ?G)"
    by (rule triple_look) simp
  have known: "triple ?C (\<lambda>w. guarded account (fs w) \<and> (x, y) = (True, True))
      (pseq (check (x = y) ValueError) (use_identity H account username uid out x)) (\<lambda>_. ?G) (\<lambda>_. ?G)" for x y
  proof (rule triple_fact [where F = "x \<and> y"])
    assume xy: "x \<and> y"
    have "quiet (guarded account) (pseq (check (x = y) ValueError) (use_identity H account username uid out x))"
      using known_keeps [OF assms] xy by (auto intro!: quiet_seq quiet_basic)
    then show "triple ?C (\<lambda>w. guarded account (fs w) \<and> (x, y) = (True, True))
      (pseq (check (x = y) ValueError) (use_identity H account username uid out x)) (\<lambda>_. ?G) (\<lambda>_. ?G)"
      unfolding quiet_def by (rule triple_pre) simp
  qed simp
  show "triple ?C (\<lambda>w. guarded account (fs w) \<and> requested = lexists (marker_path account) (fs w))
     (pseq (check (\<not> requested) ValueError)
     (pbind (look (\<lambda>w. (lexists (record_path account) (fs w), lexists (credential_path account) (fs w)))) (\<lambda>(known, handled).
      pseq (check (known = handled) ValueError) (use_identity H account username uid out known)))) (\<lambda>_. ?G) (\<lambda>_. ?G)" for requested
  proof (rule triple_seq)
    show "triple ?C (\<lambda>w. guarded account (fs w) \<and> requested = lexists (marker_path account) (fs w))
        (check (\<not> requested) ValueError) (\<lambda>_ w. settled_pair account (fs w)) (\<lambda>_. ?G)"
      by (rule triple_check) (auto simp: guarded_def marked_def lexists_def)
  qed (rule look_pair [where Q = "\<lambda>x w. guarded account (fs w) \<and> x = (True, True)", OF _ known],
      auto simp: settled_pair_def recorded_def guarded_def lexists_def credential_handle)
qed

lemma guarded_enrol:
  assumes "prov = child H" "\<And>uid. account_uid H username = Inr uid \<Longrightarrow> account = STATE_ROOT @ [str_int (native_uid uid)]"
  shows "quiet (guarded account) (enrol H username text)"
proof -
  have L: "quiet (guarded account) (enrol_locked H account username uid out)" if "account_uid H username = Inr uid" for uid out
    using guarded_locked [OF assms(1) assms(2) [OF that] native_uid_range [OF that]] .
  show ?thesis
    unfolding enrol_def Let_def
    by (intro quiet_lift quiet_seq quiet_bind quiet_if quiet_basic gd.admits gd.outputs gd.calls gd.directories gd.lock)
      (simp add: assms(2) [symmetric] L)
qed

lemma guarded_main:
  assumes "prov = child H"
    "\<And>uid. account_uid H (arguments ! 1) = Inr uid \<Longrightarrow> account = STATE_ROOT @ [str_int (native_uid uid)]"
  shows "quiet (guarded account) (enrol_main H arguments)"
  unfolding enrol_main_def
  by (intro quiet_seq quiet_bind quiet_if quiet_finally quiet_catch quiet_basic gd.reports gd.calls guarded_enrol [OF assms])
    (auto intro: quiet_basic)

lemma creation_once: "prov = child H \<Longrightarrow> most 1 (request_creation H account uid)"
proof -
  assume H: "prov = child H"
  have c: "most 0 (run_native H c)" for c
    by (rule most_quiet, rule none.runs_child) (auto dest: silent_run [OF H])
  have s: "most 1 (pcatch (start_child (ker H) c) (\<lambda>e. Some (pseq (set_local (\<lambda>v. v\<lparr>cleaned := b\<rparr>)) (raise e))))" for c b
    by (rule most_catch [OF most_start]) (auto intro: quiet_seq quiet_basic)
  have r: "most 1 (runtime_run H c True)" for c
    unfolding runtime_run_def
    by (rule most_bind [where a = 0 and b = 1], rule most_quiet, rule quiet_basic, rule most_if, rule most_quiet, rule quiet_basic,
        rule most_bind [where a = 0 and b = 1], rule most_quiet, rule quiet_basic,
        rule most_seq [where a = 0 and b = 1], rule most_quiet, rule quiet_basic,
        rule most_seq [where a = 1 and b = 0, OF s], rule most_bind [where a = 0 and b = 0, OF c], rule most_prod, rule most_quiet)
      (intro quiet_seq quiet_bind quiet_finally quiet_basic none.forwards none.drains, simp_all)
  show ?thesis
    unfolding request_creation_def
    by (rule most_bind [where a = 1 and b = 0, OF r], rule most_quiet)
      (intro quiet_seq quiet_bind quiet_if quiet_basic none.private_reads none.changes none.calls, simp_all)
qed

lemma enrol_finger_silent: "prov = child H \<Longrightarrow> quiet (\<lambda>_. True) (enrol_finger H uid out)"
proof -
  assume H: "prov = child H"
  have c: "quiet (\<lambda>_. True) (run_native H c)" for c
    by (rule none.runs_child) (auto dest: silent_run [OF H])
  have r: "quiet (\<lambda>_. True) (runtime_run H (native_command H (''--enrol'' # op)) False)" for op
    by (rule none.runtime_keeps [OF c]) (simp add: create_request_def script_args_def native_command_def)
  have p: "quiet (\<lambda>_. True) (publish K db out)" for K db
    unfolding publish_def copy_database_def
    by (intro quiet_bind quiet_seq quiet_catch quiet_basic none.calls none.changes) (auto intro!: quiet_seq quiet_basic none.changes)
  show ?thesis
    unfolding enrol_finger_def
    by (rule none.temp_dir) (intro quiet_finally quiet_bind [OF r] quiet_bind quiet_seq quiet_if quiet_basic p none.rmtree, simp)
qed

lemma fresh_late:
  assumes "prov = child H" "account = STATE_ROOT @ [str_int (native_uid uid)]" "0 \<le> native_uid uid"
  shows "late (guarded account) (\<lambda>_. True) (use_identity H account username uid out False)"
  unfolding use_identity_def if_False
proof (rule late_bind)
  show "triple (\<lambda>(op, s). \<not> create_request op) (\<lambda>_. True) (is_cancelled (ker H)) (\<lambda>_ _. True) (\<lambda>_ _. True)"
    by (rule triple_is_cancelled) simp
  let ?rest = "\<lambda>status :: int. if status \<noteq> 0 then ret 1
      else pbind (is_cancelled (ker H)) (\<lambda>c. if c then ret 1 else enrol_finger H uid out)"
  have rest: "quiet (guarded account) (?rest status)" "quiet (\<lambda>_. True) (?rest status)" for status
    by (intro quiet_if quiet_bind quiet_basic enrol_finger_keeps [OF assms] enrol_finger_silent [OF assms(1)])+
  have after: "triple (\<lambda>(op, s). guarded account s) (\<lambda>w. asked account False (fs w))
      (pseq (seal_input (ker H) secret) (pbind (request_creation H account uid) ?rest))
      (\<lambda>_ w. guarded account (fs w)) (\<lambda>_ w. guarded account (fs w))" for secret
    by (rule triple_seq [OF quiet_guards [OF ak.seals asked_guarded]], assumption, rule triple_bind [OF request_guards [OF assms]],
        rule quiet_guards [OF rest(1)])
  have once: "most 1 (pseq (seal_input (ker H) secret) (pbind (request_creation H account uid) ?rest))" for secret
    by (rule most_seq [where a = 0 and b = 1, OF most_quiet [OF none.seals]],
        rule most_bind [where a = 1 and b = 0, OF creation_once [OF assms(1)] most_quiet [OF rest(2)]]) simp_all
  show "late (guarded account) (\<lambda>_. True) (if \<not> False \<and> c then ret 1
     else pbind (make_credential H account username uid) (\<lambda>secret. pseq (seal_input (ker H) secret)
       (pbind (request_creation H account uid) (\<lambda>status. if status \<noteq> 0 then ret 1
        else pbind (is_cancelled (ker H)) (\<lambda>c. if c then ret 1 else enrol_finger H uid out)))))" for c
  proof (cases c)
    case False
    have "late (guarded account) (\<lambda>w. asked account False (fs w)) (pseq (seal_input (ker H) secret) (pbind (request_creation H account uid) ?rest))"
      for secret
      by (rule late_guarded [OF after]) (use once in \<open>simp add: most_def\<close>)
    then show ?thesis using False by (simp add: late_bind [OF credential_asked])
  qed (simp add: late_quiet quiet_basic)
qed

lemma known_silent: "prov = child H \<Longrightarrow> quiet (\<lambda>_. True) (use_identity H account username uid out True)"
  unfolding use_identity_def if_True not_True_eq_False
  by (intro quiet_seq quiet_bind quiet_if quiet_basic none.reads_credential none.seals enrol_finger_silent)

lemma locked_late:
  assumes "prov = child H" "account = STATE_ROOT @ [str_int (native_uid uid)]" "0 \<le> native_uid uid"
  shows "late (guarded account) always (enrol_locked H account username uid out)"
proof -
  have u: "late (guarded account) always (use_identity H account username uid out known)" for known
    using fresh_late [OF assms] late_quiet [OF known_silent [OF assms(1)]] by (cases known) simp_all
  show ?thesis
    unfolding enrol_locked_def by (intro late_step late_seq late_prod quiet_basic u)
qed

lemma late_main:
  assumes "prov = child H"
    "\<And>uid. account_uid H (arguments ! 1) = Inr uid \<Longrightarrow> account = STATE_ROOT @ [str_int (native_uid uid)]"
  shows "late (guarded account) always (enrol_main H arguments)"
proof -
  have L: "late (guarded account) always (enrol_locked H account username uid out)" if "account_uid H (arguments ! 1) = Inr uid" for username uid out
    using locked_late [OF assms(1) assms(2) [OF that] native_uid_range [OF that]] .
  have e: "late (guarded account) always (enrol H (arguments ! 1) t)" for t
    unfolding enrol_def Let_def
    by (intro late_lift late_seq late_step late_if none.admits none.outputs none.calls none.directories none.lock
          late_quiet [OF quiet_seq] quiet_basic)
      (simp add: assms(2) [symmetric] L)
  show ?thesis
    unfolding enrol_main_def
    by (intro late_seq late_if late_then late_finally late_catch_ret e late_quiet quiet_seq quiet_bind quiet_if quiet_basic
        gd.reports none.reports gd.calls none.calls)
qed

end

end
