(* ===== verification/EnrolHistory.thy ===== *)
theory EnrolHistory
  imports EnrolSafety
begin

text \<open>
  The provider of \<open>NativeCredentials\<close> as the child of \<^verbatim>\<open>native_enrol.py\<close>, and what holds over any
  sequence of enrolments, kills and power losses.
\<close>

subsection \<open>The provider keeps the contract\<close>

definition said_in :: "(sys_op \<times> fs) list \<Rightarrow> string list" where
  "said_in t = concat (map (\<lambda>(op, s). case op of Print l \<Rightarrow> [l] | Ran c i ls \<Rightarrow> ls | _ \<Rightarrow> []) t)"

text \<open>An uncaught exception ends the interpreter with status 1.\<close>

definition provider_child :: "'o provider \<Rightarrow> 'o child_process" where
  "provider_child E c st =
     (let w = \<lparr>fs = fst st, cancelled = False, locals = \<lparr>temporary = None, retain = False\<rparr>, choices = snd st\<rparr>
      in case provider_main E (script_args c) w of (t, w', r) \<Rightarrow>
        (t, (fs w', choices w'), (case r of Inr n \<Rightarrow> n | Inl e \<Rightarrow> 1), said_in t))"

text \<open>The only children of the provider are runs of the trusted runtime.\<close>

definition emits :: "(sys_op \<Rightarrow> bool) \<Rightarrow> ('l, 'o, 'a) sysprog \<Rightarrow> bool" where
  "emits R m \<longleftrightarrow> (\<forall>w. \<forall>e \<in> set (trace_of m w). R (fst e))"

lemma emits_triple: "emits R m \<longleftrightarrow> triple (\<lambda>(op, s). R op) (\<lambda>_. True) m (\<lambda>_ _. True) (\<lambda>_ _. True)"
  by (simp add: emits_def triple_def split_def split: sum.split)

lemma emits_basic:
  "emits R (ret x)" "emits R (raise e)" "emits R (look f)" "emits R (check b e)" "emits R (lift r)" "emits R (get_local g)"
  "emits R (set_local h)" "emits R (is_cancelled K)"
  by (auto simp: emits_def get_local_def set_local_def is_cancelled_def run_defs Let_def split_beta
      ret_def raise_def look_def check_def lift_def split: sum.split)

lemma emits_bind: "emits R m \<Longrightarrow> (\<And>x. emits R (f x)) \<Longrightarrow> emits R (pbind m f)"
  unfolding emits_triple by (rule triple_bind)

lemma emits_seq: "emits R m \<Longrightarrow> emits R n \<Longrightarrow> emits R (pseq m n)"
  unfolding pseq_def by (rule emits_bind)

lemma emits_catch: "emits R m \<Longrightarrow> (\<And>e n. h e = Some n \<Longrightarrow> emits R n) \<Longrightarrow> emits R (pcatch m h)"
  unfolding emits_triple by (rule triple_catch)

lemma emits_finally: "emits R m \<Longrightarrow> emits R n \<Longrightarrow> emits R (pfinally m n)"
  by (auto simp: emits_def pfinally_def run_defs split_beta)

lemma emits_cases:
  "(b \<Longrightarrow> emits R m) \<Longrightarrow> (\<not> b \<Longrightarrow> emits R n) \<Longrightarrow> emits R (if b then m else n)"
  "(r = None \<Longrightarrow> emits R m) \<Longrightarrow> (\<And>x. r = Some x \<Longrightarrow> emits R (f x)) \<Longrightarrow> emits R (case r of None \<Rightarrow> m | Some x \<Rightarrow> f x)"
  "(\<And>x y. p = (x, y) \<Longrightarrow> emits R (g x y)) \<Longrightarrow> emits R (case p of (x, y) \<Rightarrow> g x y)"
  by (simp_all split: option.split prod.split)

lemma emits_syscall: "R op \<Longrightarrow> emits R (syscall K op failing f)"
  by (simp add: emits_def syscall_def run_defs split_beta)

lemma emits_choice: "(\<And>x. emits R (m x)) \<Longrightarrow> emits R (\<lambda>w. case f (choices w) of (x, o') \<Rightarrow> m x (w\<lparr>choices := o'\<rparr>))"
  by (auto simp: emits_def run_defs split_beta)

definition runtime_only :: "sys_op \<Rightarrow> bool" where
  "runtime_only op \<longleftrightarrow> (case op of Spawn c \<Rightarrow> \<exists>x. c = cmd @ x | _ \<Rightarrow> True)"

lemma provider_calls:
  "emits runtime_only (sys_mkstemp K d prefix)" "emits runtime_only (sys_chmod K p)" "emits runtime_only (sys_link K p q)"
  "emits runtime_only (sys_replace K p q)" "emits runtime_only (sys_unlink K p)" "emits runtime_only (sys_fsync K p)"
  "emits runtime_only (sys_sync_dir K p)" "emits runtime_only (sys_print K l)" "emits runtime_only (sys_open K p)"
  "emits runtime_only (sys_create K p)" "emits runtime_only (sys_mkdir K p)" "emits runtime_only (sys_lock K p)"
  "emits runtime_only (sys_lstat p)"
proof -
  show "emits runtime_only (sys_mkstemp K d prefix)"
    unfolding sys_mkstemp_def Let_def sys_create_excl_def
    by (rule emits_choice) (intro emits_seq emits_basic emits_syscall, simp add: runtime_only_def)
  show "emits runtime_only (sys_lock K p)"
    unfolding sys_lock_def by (rule emits_choice, rule emits_syscall) (simp add: runtime_only_def)
  show "emits runtime_only (sys_lstat p)" unfolding sys_lstat_def by (intro emits_bind emits_cases emits_basic)
qed (simp_all add: sys_chmod_def sys_link_def sys_replace_def sys_unlink_def sys_fsync_def sys_sync_dir_def sys_print_def
      sys_open_def sys_create_def sys_mkdir_def emits_syscall runtime_only_def)

lemma provider_runtime: "emits runtime_only (run_runtime E (cmd @ op) out)"
proof -
  have "emits runtime_only (run_child E c out)" for c
    by (simp add: emits_def run_child_def run_defs Let_def runtime_only_def split: prod.split)
  moreover have "runtime_only (Spawn (cmd @ op))" by (simp add: runtime_only_def)
  ultimately show ?thesis
    unfolding run_runtime_def by (intro emits_bind emits_cases emits_seq emits_basic emits_syscall)
qed

lemma provider_emits: "emits runtime_only (provider_main E arguments)"
proof -
  have p: "emits runtime_only (publish_handle E account t)" for account t
    unfolding publish_handle_def Let_def by (intro emits_seq emits_basic provider_calls)
  have m: "emits runtime_only (make_handle E account uid fd t)" for account uid fd t
    unfolding make_handle_def by (intro emits_bind emits_seq emits_cases emits_basic provider_runtime p)
  have c: "emits runtime_only (create_handle E account uid fd)" for account uid fd
    unfolding create_handle_def by (intro emits_bind emits_seq emits_cases emits_basic provider_calls m)
  have u: "emits runtime_only (install_update E account t)" for account t
    unfolding install_update_def commit_update_def Let_def by (intro emits_bind emits_seq emits_cases emits_basic provider_calls)
  have h: "emits runtime_only (change_handle E account uid current_fd fd)" for account uid current_fd fd
    unfolding change_handle_def by (intro emits_bind emits_seq emits_cases emits_basic provider_calls provider_runtime u)
  have w: "emits runtime_only (with_handle E args account uid fd current_fd)" for args account uid fd current_fd
    unfolding with_handle_def by (intro emits_bind emits_seq emits_cases emits_basic provider_calls provider_runtime h)
  have d: "emits runtime_only (drop_temporary E)"
    unfolding drop_temporary_def by (intro emits_bind emits_cases emits_basic provider_calls)
  have v: "emits runtime_only (provide E args account uid fd current_fd)" for args account uid fd current_fd
    unfolding provide_def
    by (intro emits_seq emits_finally emits_catch emits_cases emits_basic provider_calls c w d)
      (auto simp: storage_failed_def emits_basic split: if_splits)
  have s: "emits runtime_only (set_up E state args)" for state args
    unfolding set_up_def private_directory_def
    by (intro emits_catch emits_bind emits_seq emits_cases emits_basic provider_calls) (auto simp: emits_basic split: if_splits)
  show ?thesis
    unfolding provider_main_def by (intro emits_cases emits_bind emits_basic v s)
qed

lemma provider_child_emits:
  assumes "provider_child E c st = (t, z)" "e \<in> set t"
  shows "runtime_only (fst e)"
proof -
  let ?w = "\<lparr>fs = fst st, cancelled = False, locals = \<lparr>temporary = None, retain = False\<rparr>, choices = snd st\<rparr>"
  have "t = trace_of (provider_main E (script_args c)) ?w"
    using assms(1) by (auto simp: provider_child_def run_defs Let_def split: prod.splits)
  then show ?thesis using provider_emits assms(2) unfolding emits_def by blast
qed

lemma runtime_silent: "runtime_only op \<Longrightarrow> \<not> create_request op"
  by (auto simp: runtime_only_def create_request_def script_args_def cmd_def split: sys_op.splits list.splits)

lemma parsed_uid: "parse_request E args = Inr r \<Longrightarrow> request_uid args = Inr (fst r)"
  by (auto simp: parse_request_def request_uid_def ebind_def require_def split: sum.splits if_splits)

lemma provider_child_keeps:
  assumes c: "provider_call c state args" and u: "request_uid args = Inr u"
    and r: "provider_child E c (s0, o1) = (t, (s, o2), status, said)" and account: "account = state @ [str_int u]"
  shows "s1 \<in> insert s (snd ` set t) \<Longrightarrow> stored account (writes args) (may_install args (s0 (handle_path account))) s0 s1"
    "status = 0 \<Longrightarrow> is_create args \<or> is_change args \<Longrightarrow> has_handle account s"
proof -
  let ?w = "\<lparr>fs = s0, cancelled = False, locals = \<lparr>temporary = None, retain = False\<rparr>, choices = o1\<rparr>"
  let ?m = "provider_main E (script_args c)"
  let ?may = "may_install args (s0 (handle_path account))"
  have cc: "script_args c = ''--state-dir'' # path_text state # args" "to_path (path_text state) = state"
    using c by (simp_all add: provider_call_def)
  have split: "split_state (script_args c) = (path_text state, args)" by (simp add: cc split_state_def)
  have m: "t = trace_of ?m ?w" "s = fs (world_of ?m ?w)" "status = (case result_of ?m ?w of Inr n \<Rightarrow> n | Inl e \<Rightarrow> 1)"
    using r by (auto simp: provider_child_def run_defs Let_def split: prod.splits)
  have "(\<forall>s1 \<in> insert s (snd ` set t). stored account (writes args) ?may s0 s1)
      \<and> (status = 0 \<and> (is_create args \<or> is_change args) \<longrightarrow> has_handle account s)"
  proof (cases "parse_request E args")
    case (Inl e)
    have "trace_of (set_up E p args) ?w = [] \<and> world_of (set_up E p args) ?w = ?w
        \<and> (\<forall>r. result_of (set_up E p args) ?w \<noteq> Inr (Some r))" for p
      by (auto simp: Inl set_up_def pcatch_def run_defs pbind_def lift_def ret_def)
    then have "t = [] \<and> s = s0 \<and> status \<noteq> 0"
      unfolding m provider_main_def split
      by (auto simp: run_simps run_bind split: sum.splits option.splits)
    then show ?thesis by (auto simp: stored_start)
  next
    case (Inr q)
    obtain fd cur where q: "q = (u, fd, cur)" using parsed_uid [OF Inr] u by (cases q) auto
    note a = accepted_run [where ?s0.0 = s0 and account = account, OF split Inr [unfolded q] _ refl]
    have acc: "account = to_path (path_text state) @ [str_int u]" by (simp add: account cc)
    have "only (stored account (writes args) ?may s0) (\<lambda>_. True) ?w" by (simp add: only_def stored_start)
    note t = tripleD [OF a [OF acc] this]
    show ?thesis using t(1) t(2,3) unfolding m
      by (cases "result_of ?m ?w") (auto split: prod.splits)
  qed
  then show "s1 \<in> insert s (snd ` set t) \<Longrightarrow> stored account (writes args) ?may s0 s1"
    "status = 0 \<Longrightarrow> is_create args \<or> is_change args \<Longrightarrow> has_handle account s" by blast+
qed

interpretation pc: native_child "provider_child E" for E :: "'o provider"
proof unfold_locales
  fix c t op s1 and st z
  assume "provider_child E c st = (t, z)" "(op, s1) \<in> set t"
  from provider_child_emits [OF this] show "\<not> create_request op" by (simp add: runtime_silent)
next
  fix c state args u s0 o1 t s o2 status said s1
  assume "provider_call c state args" "request_uid args = Inr u" "provider_child E c (s0, o1) = (t, (s, o2), status, said)"
    "s1 \<in> insert s (snd ` set t)"
  then show "stored (state @ [str_int u]) (writes args) (may_install args (s0 (handle_path (state @ [str_int u])))) s0 s1"
    by (rule provider_child_keeps(1) [OF _ _ _ refl])
next
  fix c state args u s0 o1 t s o2 said
  assume "is_create args \<or> is_change args" and c: "provider_call c state args" "request_uid args = Inr u"
    and r: "provider_child E c (s0, o1) = (t, (s, o2), 0, said)"
  then show "has_handle (state @ [str_int u]) s" by (intro provider_child_keeps(2) [OF c r refl refl])
qed

subsection \<open>Histories\<close>

text \<open>
  What happens to one account over time: enrolments that end or are killed after any of their calls,
  each with a kernel, a provider and an account database of its own, and in between power losses and
  the work of other programs, which keep at least the durable files of the identity. \<open>n\<close> counts the
  requests for an identity.
\<close>

definition survives :: "path \<Rightarrow> fs \<Rightarrow> fs \<Rightarrow> bool" where
  "survives account s s' \<longleftrightarrow> (\<forall>p \<in> identity_files account. case s p of None \<Rightarrow> True | Some n \<Rightarrow> n_durable n \<longrightarrow> s' p = Some n)"

definition enrols_account :: "'o enroller \<Rightarrow> string list \<Rightarrow> path \<Rightarrow> bool" where
  "enrols_account H arguments account \<longleftrightarrow> (case account_uid H (arguments ! 1) of Inl e \<Rightarrow> True
     | Inr uid \<Rightarrow> account = STATE_ROOT @ [str_int (native_uid uid)])"

definition left_by :: "(sys_op \<times> fs) list \<Rightarrow> fs \<Rightarrow> fs" where
  "left_by t s = (if t = [] then s else snd (last t))"

inductive history :: "path \<Rightarrow> (enrol_locals, 'o) process \<Rightarrow> nat \<Rightarrow> bool" for account where
  start: "history account w 0"
| killed: "history account w n \<Longrightarrow> child H = provider_child E \<Longrightarrow> enrols_account H arguments account \<Longrightarrow>
    trace_of (enrol_main H arguments) w = t @ rest \<Longrightarrow> fs w' = left_by t (fs w) \<Longrightarrow> history account w' (n + requests t)"
| finished: "history account w n \<Longrightarrow> child H = provider_child E \<Longrightarrow> enrols_account H arguments account \<Longrightarrow>
    fs w' = fs (world_of (enrol_main H arguments) w) \<Longrightarrow>
    history account w' (n + requests (trace_of (enrol_main H arguments) w))"
| disturbed: "history account w n \<Longrightarrow> survives account (fs w) (fs w') \<Longrightarrow> history account w' n"

inductive_cases history_cases: "history account w n"

lemma survives_guarded: "guarded account s \<Longrightarrow> survives account s s' \<Longrightarrow> guarded account s'"
  by (auto simp: guarded_def marked_def settled_pair_def recorded_def survives_def identity_files_def)

lemma main_guarded:
  assumes "child H = provider_child E" "enrols_account H arguments account" "guarded account (fs w)"
  shows "requests (trace_of (enrol_main H arguments) w) = 0"
    "\<forall>e \<in> set (trace_of (enrol_main H arguments) w). guarded account (snd e)" "guarded account (fs (world_of (enrol_main H arguments) w))"
proof -
  have q: "quiet (guarded account) (enrol_main H arguments)"
    by (rule pc.guarded_main [OF assms(1) [symmetric]]) (use assms(2) in \<open>simp add: enrols_account_def\<close>)
  show "requests (trace_of (enrol_main H arguments) w) = 0" by (rule quiet_none [OF q assms(3)])
  show "\<forall>e \<in> set (trace_of (enrol_main H arguments) w). guarded account (snd e)"
    "guarded account (fs (world_of (enrol_main H arguments) w))" using quiet_guarded [OF q assms(3)] by blast+
qed

lemma main_late:
  assumes "child H = provider_child E" "enrols_account H arguments account"
  shows "late (guarded account) always (enrol_main H arguments)"
  by (rule pc.late_main [OF assms(1) [symmetric]]) (use assms(2) in \<open>simp add: enrols_account_def\<close>)

text \<open>One more run of a program that is late and, under the guard, silent.\<close>

lemma once_killed:
  assumes "late G P m" "P w" "n = 0 \<or> n = 1 \<and> G (fs w)" "trace_of m w = t @ rest"
    and "G (fs w) \<Longrightarrow> requests (trace_of m w) = 0 \<and> (\<forall>e \<in> set (trace_of m w). G (snd e))"
  shows "n + requests t = 0 \<or> n + requests t = 1 \<and> G (left_by t (fs w))"
proof (cases "G (fs w)")
  case True
  then have "requests t = 0" "G (left_by t (fs w))" using assms(5) [OF True] assms(4) by (simp_all add: left_by_def)
  then show ?thesis using assms(3) by auto
next
  case False
  then have n: "n = 0" using assms(3) by simp
  obtain t1 t2 where m: "trace_of m w = t1 @ t2" "requests t1 = 0" "\<forall>e \<in> set t2. G (snd e)" "requests t2 \<le> 1"
    using assms(1,2) unfolding late_def by blast
  from m(1) assms(4) consider u where "t1 = t @ u" | u where "t = t1 @ u" "t2 = u @ rest"
    by (auto simp: append_eq_append_conv2)
  then show ?thesis
  proof cases
    case 1
    then show ?thesis using n m(2) by simp
  next
    case 2
    then have "requests t \<le> 1" using m(2,4) by simp
    moreover have "G (left_by t (fs w))" if "requests t \<noteq> 0"
      using that 2 m(2,3) by (cases "u = []") (auto simp: left_by_def)
    ultimately show ?thesis using n by (cases "requests t") auto
  qed
qed

lemma once_finished:
  assumes "late G P m" "P w" "n = 0 \<or> n = 1 \<and> G (fs w)"
    and "G (fs w) \<Longrightarrow> requests (trace_of m w) = 0 \<and> G (fs (world_of m w))"
  shows "n + requests (trace_of m w) = 0 \<or> n + requests (trace_of m w) = 1 \<and> G (fs (world_of m w))"
proof (cases "G (fs w)")
  case True
  then show ?thesis using assms(3,4) by auto
next
  case False
  then have n: "n = 0" using assms(3) by simp
  obtain t1 t2 where m: "trace_of m w = t1 @ t2" "requests t1 = 0" "t2 \<noteq> [] \<Longrightarrow> G (fs (world_of m w))" "requests t2 \<le> 1"
    using assms(1,2) unfolding late_def by blast
  show ?thesis using n m by (cases "requests t2") (auto intro: m(3))
qed

lemma history_guarded: "history account w n \<Longrightarrow> n = 0 \<or> n = 1 \<and> guarded account (fs w)"
proof (induction rule: history.induct)
  case (killed w n H E arguments t rest w')
  note g = main_guarded [OF killed.hyps(2,3), of w]
  show ?case
    using once_killed [OF main_late [OF killed.hyps(2,3)] _ killed.IH killed.hyps(4)] g killed.hyps(5) by simp
next
  case (finished w n H E arguments w')
  note g = main_guarded [OF finished.hyps(2,3), of w]
  show ?case using once_finished [OF main_late [OF finished.hyps(2,3)] _ finished.IH] g finished.hyps(4) by simp
qed (auto dest: survives_guarded)

text \<open>C4. Over the whole life of an account, whatever kernels, providers and signals its enrolments
  meet, wherever they are killed and whatever a power loss between them takes: a native identity is
  asked for at most once, and from then on the account has durable files that stop every later
  enrolment from asking again.\<close>

theorem at_most_one_creation:
  assumes "history account w n"
  shows "n \<le> 1 \<and> (n = 1 \<longrightarrow> marked account (fs w) \<or> settled_pair account (fs w))"
  using history_guarded [OF assms] by (auto simp: guarded_def)

end
