(* ===== verification/UserSafety.thy ===== *)
theory UserSafety
  imports UserCredentials EnrolHistory
begin

text \<open>
  The bridge \<^verbatim>\<open>user_credentials.py\<close> asks the provider for a native identity at most once for each
  account, and its success means that the account holds the identity.
\<close>

subsection \<open>What the parts keep\<close>

lemma quiet_key_call: "quiet G (key_call K name serial f)"
  by (auto simp: quiet_def triple_def key_call_def run_defs Let_def split: prod.splits option.splits)

lemma quiet_consult: "quiet G (consult f)"
  by (auto simp: quiet_def triple_def consult_def run_defs split: prod.splits)

lemma quiet_need: "quiet G m \<Longrightarrow> quiet G (need m)"
  unfolding need_def by (intro quiet_bind quiet_option quiet_basic)

lemma quiet_drop: "quiet G (drop_key K serial)" "quiet G (drop_stale K name)"
  unfolding drop_key_def drop_stale_def
  by (intro quiet_seq quiet_bind quiet_option quiet_basic quiet_need quiet_key_call)+

lemmas quiet_keys = quiet_key_call quiet_consult quiet_need quiet_drop

lemma write_state_eq: "write_state = write_exclusive"
  by (intro ext) (simp add: write_state_def write_exclusive_def)

context protected
begin

lemma mkdir_one: "quiet G (sys_mkdir_one K p)"
  unfolding sys_mkdir_one_def by (rule quiet_syscall) (auto simp: unchanged_def new split: option.split)

lemma state_calls:
  "quiet G (private_state K p)" "quiet G (sealed_memory K data)"
  "quiet G (private_directory K p)" "quiet G (acceptance_context B username)" "quiet G (check_programs B)"
proof -
  show "quiet G (private_state K p)" unfolding private_state_def by (intro quiet_rules calls)
  show "quiet G (sealed_memory K data)" unfolding sealed_memory_def by (rule calls(8)) simp
  show "quiet G (private_directory K p)" unfolding private_directory_def by (intro quiet_rules calls)
  show "quiet G (acceptance_context B username)"
    unfolding acceptance_context_def by (intro quiet_rules quiet_keys mkdir_one calls)
  show "quiet G (check_programs B)" unfolding check_programs_def Let_def by (intro quiet_rules calls)
qed

lemma writes_state: "p \<notin> Y \<Longrightarrow> quiet G (write_state K p data)"
  unfolding write_state_def by (intro quiet_seq calls changes)

lemma prepares: "acceptance_path username \<notin> Y \<Longrightarrow> quiet G (prepare B username uid input)"
proof -
  assume a: "acceptance_path username \<notin> Y"
  have p: "quiet G (publish_key B username uid secret serial)" for secret serial
    unfolding publish_key_def Let_def by (intro quiet_seq quiet_bind quiet_basic quiet_keys calls changes a)
  show ?thesis
    unfolding prepare_def Let_def is_prepared_def
    by (intro quiet_seq quiet_bind quiet_catch quiet_basic quiet_keys state_calls p)
      (auto intro: quiet_seq quiet_basic quiet_keys)
qed

lemma consumes: "acceptance_path username \<notin> Y \<Longrightarrow> quiet G (consume B username uid)"
  unfolding consume_def Let_def by (intro quiet_seq quiet_bind quiet_basic quiet_keys state_calls changes)

lemma discards: "acceptance_path username \<notin> Y \<Longrightarrow> quiet G (discard B username)"
  unfolding discard_def Let_def is_prepared_def
  by (intro quiet_seq quiet_bind quiet_if quiet_basic quiet_keys state_calls changes)

lemma runs_guarded: "\<not> create_request (Spawn c) \<Longrightarrow> quiet G m \<Longrightarrow> quiet G (guarded_run K c x m)"
  unfolding guarded_run_def by (intro quiet_bind quiet_seq quiet_if quiet_prod quiet_basic calls(8))

lemma finishes: "acceptance_path username \<notin> Y \<Longrightarrow> quiet G (finish_request B args username uid input status)"
  unfolding finish_request_def by (intro quiet_seq quiet_bind quiet_if quiet_basic prepares discards calls)

lemma seals_inputs: "quiet G (seal_inputs B args previous input)"
  unfolding seal_inputs_def by (intro quiet_seq quiet_if quiet_basic state_calls)

lemma salts: "parameter_file account \<notin> Y \<or> \<not> create \<Longrightarrow> quiet G (account_salt B create account username linux_uid uid)"
  unfolding account_salt_def Let_def
  by (intro quiet_seq quiet_bind quiet_if quiet_basic quiet_keys state_calls writes_state) auto

end

lemma str_int_plain: "str_int i \<noteq> ''--create''"
proof
  assume s: "str_int i = ''--create''"
  have d: "is_digit c" if "c \<in> set (dec n)" for c n using dec_digits [of n] that by (simp add: list_all_iff)
  have "CHR ''c'' \<in> set (str_int i)" by (simp add: s)
  then have "is_digit CHR ''c''" using d by (auto simp: str_int_def split: if_splits)
  then show False by (simp add: is_digit_def less_eq_char_def)
qed

lemma helper_plain: "\<not> create_request (Spawn (helper_command B args username))"
  using str_int_plain by (auto simp: create_request_def helper_command_def script_args_def)

lemma quiet_helper_run:
  "protected Y G \<Longrightarrow> quiet G (run_helper B (helper_command B args username))"
  unfolding run_helper_def
  by (rule protected.runs_guarded, assumption, rule helper_plain)
    (auto simp: quiet_def triple_def run_defs split: prod.splits)

lemma quiet_inputs:
  assumes "protected Y G" "acceptance_path username \<notin> Y"
  shows "quiet G (user_inputs B args username uid)"
  unfolding user_inputs_def Let_def
  by (intro quiet_seq quiet_bind quiet_if quiet_basic protected.state_calls(2) [OF assms(1)] protected.consumes [OF assms]
      quiet_helper_run [OF assms(1)])


subsection \<open>The requests of the provider\<close>

interpretation mk1: protected "{marker_path account}" "marked account" for account
proof unfold_locales
  fix s s' assume m: "marked account s" and k: "\<And>p. p \<in> {marker_path account} \<Longrightarrow> s p \<noteq> None \<Longrightarrow> same (s p) (s' p)"
  show "marked account s'" using m k [OF singletonI] unfolding marked_def by (rule durable_kept)
qed

lemma request_file: "requested_file account = marker_path account"
  by (simp add: requested_file_def marker_path_def)

lemma marker_other [simp]:
  "acceptance_path username \<noteq> marker_path account" "marker_path account \<noteq> acceptance_path username"
  "parameter_file account \<noteq> marker_path account" "marker_path account \<noteq> parameter_file account"
  by (simp_all add: acceptance_path_def RUN_ROOT_def marker_path_def parameter_file_def)

lemma user_request_uid: "0 \<le> uid \<Longrightarrow> request_uid (user_operation B args uid) = Inr uid"
  by (auto simp: request_uid_def user_operation_def is_enrol_existing_def is_enrol_def int_arg_str)

lemma user_call:
  assumes "to_path (path_text state) = state"
  shows "provider_call (provider_command B state op) state op"
  using assms by (simp add: provider_call_def provider_command_def script_args_def path_text_def)

lemma asks_only_create:
  assumes "user_accepts args" "\<not> wants_create args"
  shows "\<not> create_request (Spawn (provider_command B state (user_operation B args uid)))"
  using assms by (auto simp: create_request_def provider_command_def script_args_def path_text_def user_operation_def
      user_accepts_def wants_preflight_def wants_def)

lemma change_op: "is_change (user_operation B args uid) \<Longrightarrow> wants_sync args \<and> \<not> wants_create args"
  by (auto simp: is_change_def user_operation_def split: if_splits)

lemma uid_range:
  assumes "account_uid H username = Inr linux_uid"
  shows "0 \<le> native_account_uid state linux_uid s"
  using assms by (auto simp: account_uid_def native_account_uid_def legacy_uid_def split: option.splits if_splits)

lemma quiet_weak: "quiet G m \<Longrightarrow> triple (\<lambda>(op, s). G s) (\<lambda>w. G (fs w)) m (\<lambda>_ w. G (fs w)) (\<lambda>_ w. G (fs w))"
  unfolding quiet_def by (erule triple_weaken) auto

lemma late_fact: "(\<And>w. P w \<Longrightarrow> F) \<Longrightarrow> (F \<Longrightarrow> late G P m) \<Longrightarrow> late G P m"
  by (auto simp: late_def)

lemma late_always: "late G always m \<Longrightarrow> late G P m"
  by (simp add: late_def)

lemma most_call: "most 1 (syscall K op failing f)"
  by (simp add: most_def syscall_def run_defs requests_def split_beta)

lemma guarded_run_once: "quiet (\<lambda>_. True) m \<Longrightarrow> most 1 (guarded_run K c x m)"
proof -
  assume m: "quiet (\<lambda>_. True) m"
  show ?thesis
    unfolding guarded_run_def
    by (rule most_bind [where a = 0 and b = 1, OF most_quiet [OF quiet_basic(8)]], rule most_if, rule most_quiet, rule quiet_basic,
        rule most_seq [where a = 1 and b = 0, OF most_call], rule most_quiet)
      (intro quiet_bind quiet_prod quiet_basic m, simp_all)
qed

lemma guarded_run_keeps:
  assumes "quiet G m"
  shows "triple (\<lambda>(op, s). G s) (\<lambda>w. G (fs w)) (guarded_run K c x m) (\<lambda>_ w. G (fs w)) (\<lambda>_ w. G (fs w))"
  unfolding guarded_run_def
proof (rule triple_bind [OF quiet_weak [OF quiet_basic(8)]], rule triple_if, rule quiet_weak [OF quiet_basic(1)], rule triple_seq)
  show "triple (\<lambda>(op, s). G s) (\<lambda>w. G (fs w)) (syscall K (Spawn c) unchanged (\<lambda>s. (Inr (), s))) (\<lambda>_ w. G (fs w)) (\<lambda>_ w. G (fs w))"
    by (rule triple_syscall) (simp_all add: unchanged_def)
  show "triple (\<lambda>(op, s). G s) (\<lambda>w. G (fs w)) (pbind m (\<lambda>(status, x). pbind (is_cancelled K)
      (\<lambda>c. ret (if c then 1 else status, x)))) (\<lambda>_ w. G (fs w)) (\<lambda>_ w. G (fs w))"
    by (rule quiet_weak) (intro quiet_bind quiet_prod quiet_basic assms)
qed

context native_child
begin

lemma native_quiet: "prov = child H \<Longrightarrow> quiet (\<lambda>_. True) (run_native H c)"
  by (rule none.runs_child) (auto dest: silent_run)

lemma request_late:
  assumes "prov = child (en B)" "to_path (path_text state) = state" "account = state @ [str_int uid]" "0 \<le> uid" "user_accepts args"
  shows "late (marked account) always (request_provider B state args username uid input)"
proof -
  let ?c = "provider_command B state (user_operation B args uid)"
  let ?native = "pbind (run_native (en B) ?c) (\<lambda>(status, said). ret (status, ()))"
  have silent: "quiet (\<lambda>_. True) ?native" by (intro quiet_bind native_quiet [OF assms(1)] quiet_prod quiet_basic)
  have fin: "quiet (marked account) (finish_request B args username uid input status)"
    "quiet (\<lambda>_. True) (finish_request B args username uid input status)" for status
    by (rule mk1.finishes none.finishes, simp)+
  show ?thesis
  proof (cases "wants_create args")
    case False
    have "quiet (\<lambda>_. True) (run_provider B ?c)"
      unfolding run_provider_def by (rule none.runs_guarded [OF asks_only_create [OF assms(5) False] silent])
    then have "quiet (\<lambda>_. True) (request_provider B state args username uid input)"
      using False unfolding request_provider_def by (intro quiet_seq quiet_bind quiet_prod fin) (simp_all add: quiet_basic)
    then show ?thesis by (rule late_quiet)
  next
    case True
    have n: "quiet (marked account) ?native"
      by (intro quiet_bind quiet_prod quiet_basic
          provider_keeps [OF mk1.protected_axioms _ _ assms(1) user_call [OF assms(2)] user_request_uid [OF assms(4)] assms(3)])
        (use True in \<open>auto simp: identity_files_def dest: change_op\<close>)
    have "late (marked account) (\<lambda>w. marked account (fs w))
        (pbind (run_provider B ?c) (\<lambda>(status, u). finish_request B args username uid input status))"
    proof (rule late_guarded)
      show "triple (\<lambda>(op, s). marked account s) (\<lambda>w. marked account (fs w))
          (pbind (run_provider B ?c) (\<lambda>(status, u). finish_request B args username uid input status))
          (\<lambda>_ w. marked account (fs w)) (\<lambda>_ w. marked account (fs w))"
        unfolding run_provider_def
        by (rule triple_bind [OF guarded_run_keeps [OF n]]) (auto intro: quiet_weak fin split: prod.split)
      have "most 1 (pbind (run_provider B ?c) (\<lambda>(status, u). finish_request B args username uid input status))"
        unfolding run_provider_def
        by (rule most_bind [where a = 1 and b = 0, OF guarded_run_once [OF silent]]) (auto intro: most_quiet fin split: prod.split)
      then show "requests (trace_of (pbind (run_provider B ?c) (\<lambda>(status, u). finish_request B args username uid input status)) w) \<le> 1" for w
        by (simp add: most_def)
    qed
    moreover have "triple (\<lambda>(op, s). \<not> create_request op) always (write_state (ker (en B)) (requested_file account) [])
        (\<lambda>_ w. marked account (fs w)) (\<lambda>_ _. True)"
      unfolding write_state_eq request_file
      by (rule triple_weaken [OF write_durable [OF none.protected_axioms]]) (auto simp: marked_def marker_path_def)
    ultimately have "late (marked account) always (pbind (write_state (ker (en B)) (requested_file account) [])
        (\<lambda>_. pbind (run_provider B ?c) (\<lambda>(status, u). finish_request B args username uid input status)))"
      by (rule late_bind [rotated])
    then show ?thesis using True assms(3) unfolding request_provider_def pseq_def by simp
  qed
qed

lemma locked_user_late:
  assumes "prov = child (en B)" "to_path (path_text state) = state" "account = state @ [str_int uid]" "0 \<le> uid" "user_accepts args"
  shows "late (marked account) always (user_locked B state args username linux_uid uid)"
  unfolding user_locked_def Let_def
  by (intro late_step late_seq late_if late_prod quiet_basic none.salts none.seals_inputs quiet_inputs [OF none.protected_axioms]
      request_late [OF assms] late_quiet) simp_all

lemma request_keeps:
  assumes "prov = child (en B)" "to_path (path_text state) = state" "account = state @ [str_int uid]" "0 \<le> uid" "user_accepts args"
    "\<not> wants_create args"
  shows "quiet (marked account) (request_provider B state args username uid input)"
proof -
  have n: "quiet (marked account) (run_native (en B) (provider_command B state (user_operation B args uid)))"
    by (rule provider_keeps [OF mk1.protected_axioms _ _ assms(1) user_call [OF assms(2)] user_request_uid [OF assms(4)] assms(3)])
      (auto simp: identity_files_def)
  have "quiet (marked account) (run_provider B (provider_command B state (user_operation B args uid)))"
    unfolding run_provider_def
    by (intro mk1.runs_guarded [OF asks_only_create [OF assms(5,6)]] quiet_bind quiet_prod quiet_basic n)
  then show ?thesis
    using assms(6) unfolding request_provider_def
    by (intro quiet_seq quiet_bind quiet_prod mk1.finishes) (simp_all add: quiet_basic)
qed

lemma locked_user_keeps:
  assumes "prov = child (en B)" "to_path (path_text state) = state" "account = state @ [str_int uid]" "0 \<le> uid" "user_accepts args"
  shows "quiet (marked account) (user_locked B state args username linux_uid uid)"
  unfolding quiet_def user_locked_def Let_def assms(3) [symmetric]
proof (rule look_pair [where Q = "\<lambda>q w. marked account (fs w) \<and> snd q"])
  let ?C = "\<lambda>(op, s). \<not> create_request op \<and> marked account s"
  let ?G = "\<lambda>w :: (user_locals, 'o) process. marked account (fs w)"
  show "marked account (fs w) \<and> snd (lexists (handle_file account) (fs w), lexists (requested_file account) (fs w))" if "?G w" for w
    using that by (auto simp: marked_def lexists_def request_file)
  fix there asked
  let ?rest = "pseq (account_salt B (wants_create args) account username linux_uid uid)
      (pbind (user_inputs B args username uid) (\<lambda>(status, previous, input). if status \<noteq> 0 then ret status
        else pseq (check (check_inputs args previous input) ValueError) (pseq (seal_inputs B args previous input)
          (request_provider B state args username uid input))))"
  show "triple ?C (\<lambda>w. ?G w \<and> snd (there, asked)) (if wants_create args \<and> (there \<or> asked) then ret 2
      else if \<not> wants_create args \<and> \<not> there then ret 2 else ?rest) (\<lambda>_. ?G) (\<lambda>_. ?G)"
  proof (rule triple_fact [where F = asked])
    assume a: "asked"
    have r: "quiet (marked account) ?rest" if "\<not> wants_create args"
      by (intro quiet_seq quiet_bind quiet_prod quiet_if quiet_basic mk1.salts mk1.seals_inputs quiet_inputs [OF mk1.protected_axioms]
          request_keeps [OF assms that]) (simp_all add: that)
    have "quiet (marked account) (if wants_create args \<and> (there \<or> asked) then ret 2
      else if \<not> wants_create args \<and> \<not> there then ret 2 else ?rest)"
      using a r by (cases "wants_create args") (auto intro: quiet_basic)
    then show "triple ?C (\<lambda>w. ?G w \<and> snd (there, asked)) (if wants_create args \<and> (there \<or> asked) then ret 2
      else if \<not> wants_create args \<and> \<not> there then ret 2 else ?rest) (\<lambda>_. ?G) (\<lambda>_. ?G)"
      unfolding quiet_def by (rule triple_pre) simp
  qed simp
qed

text \<open>The request of one account.\<close>

lemma body_late:
  assumes "prov = child (en B)" "to_path (path_text state) = state" "account = state @ [str_int uid]" "0 \<le> uid" "user_accepts args"
  shows "late (marked account) always (user_body B state args linux_uid uid)"
  unfolding user_body_def assms(3) [symmetric]
  by (intro late_seq none.state_calls none.calls none.lock locked_user_late [OF assms])

lemma body_keeps:
  assumes "prov = child (en B)" "to_path (path_text state) = state" "account = state @ [str_int uid]" "0 \<le> uid" "user_accepts args"
  shows "quiet (marked account) (user_body B state args linux_uid uid)"
  unfolding user_body_def
  by (intro quiet_seq mk1.state_calls mk1.calls mk1.lock locked_user_keeps [OF assms])

end

text \<open>The account that a run is about.\<close>

definition bridge_account :: "'o bridge \<Rightarrow> string list \<Rightarrow> path \<Rightarrow> fs \<Rightarrow> bool" where
  "bridge_account B arguments account s \<longleftrightarrow> (case split_native arguments of (text, args) \<Rightarrow>
     (case account_uid (en B) (args ! 1) of Inl e \<Rightarrow> True
      | Inr linux_uid \<Rightarrow> account = to_path text @ [str_int (native_account_uid (to_path text) linux_uid s)]))"

lemma split_slash_plain: "CHR ''/'' \<notin> set s \<Longrightarrow> split_slash cur s = [rev cur @ s]"
  by (induction cur s rule: split_slash.induct) auto

lemma split_slash_append: "split_slash cur (a @ CHR ''/'' # b) = split_slash cur a @ split_slash [] b"
  by (induction cur a rule: split_slash.induct) simp_all

lemma split_slash_parts: "c \<in> set (split_slash cur s) \<Longrightarrow> CHR ''/'' \<notin> set cur \<Longrightarrow> CHR ''/'' \<notin> set c"
  by (induction cur s rule: split_slash.induct) (auto split: if_splits)

lemma split_join: "cs \<noteq> [] \<Longrightarrow> (\<And>c. c \<in> set cs \<Longrightarrow> CHR ''/'' \<notin> set c) \<Longrightarrow> split_slash [] (join_with ''/'' cs) = cs"
proof (induction cs rule: induct_list012)
  case (3 x y zs)
  then show ?case by (simp add: split_slash_append split_slash_plain)
qed (simp_all add: split_slash_plain)

lemma to_path_text: "to_path (path_text (to_path t)) = to_path t"
proof (cases "to_path t = []")
  case False
  have "split_slash [] (path_text (to_path t)) = [] # split_slash [] (join_with ''/'' (to_path t))"
    using split_slash_append [of "[]" "[]"] by (simp add: path_text_def)
  moreover have "split_slash [] (join_with ''/'' (to_path t)) = to_path t"
    by (rule split_join [OF False]) (auto simp: to_path_def dest: split_slash_parts)
  ultimately show ?thesis by (simp add: to_path_def [of "path_text _"]) (simp add: to_path_def)
qed (simp add: path_text_def to_path_def)

lemma user_failed_ret: "user_failed e = Some n \<Longrightarrow> n = ret 1 \<or> n = ret 2"
  by (cases e) (auto simp: user_failed_def)

lemma late_caught: "late G P m \<Longrightarrow> late G P (pcatch m user_failed)"
proof -
  have "trace_of (pcatch m user_failed) w = trace_of m w" "world_of (pcatch m user_failed) w = world_of m w" for w
    by (auto simp: run_defs pcatch_def split_beta ret_def split: sum.split option.split dest!: user_failed_ret)
  then show "late G P m \<Longrightarrow> late G P (pcatch m user_failed)" by (simp add: late_def)
qed

lemma lift_Inr: "pbind (lift (Inr x)) f = f x" and lift_Inl: "pbind (lift (Inl e)) f = raise e"
  by (rule ext; simp add: pbind_def lift_def ret_def raise_def split: prod.split)+

context native_child
begin

lemma user_late:
  assumes "prov = child (en B)"
  shows "late (marked account) (\<lambda>w. bridge_account B arguments account (fs w)) (user_main B arguments)"
proof -
  obtain t args where a: "split_native arguments = (t, args)" by (cases "split_native arguments")
  let ?P = "\<lambda>w :: (user_locals, 'o) process. bridge_account B arguments account (fs w)"
  have "late (marked account) ?P (user_request B (to_path t) args)" if ok: "user_accepts args"
  proof (cases "account_uid (en B) (args ! 1)")
    case (Inr linux_uid)
    show ?thesis
      unfolding user_request_def Inr lift_Inr
    proof (rule late_bind)
      show "triple (\<lambda>(op, s). \<not> create_request op) ?P (look (\<lambda>w. native_account_uid (to_path t) linux_uid (fs w)))
          (\<lambda>uid w. account = to_path t @ [str_int uid] \<and> 0 \<le> uid) (\<lambda>_ _. True)"
        by (rule triple_look) (use uid_range [OF Inr] Inr in \<open>simp add: bridge_account_def a\<close>)
      show "late (marked account) (\<lambda>w. account = to_path t @ [str_int uid] \<and> 0 \<le> uid) (user_body B (to_path t) args linux_uid uid)" for uid
        by (rule late_fact, assumption, rule late_always) (auto intro: body_late [OF assms to_path_text _ _ ok])
    qed
  qed (simp add: user_request_def lift_Inl late_quiet quiet_basic)
  then show ?thesis
    unfolding user_main_def a by (auto intro: late_caught late_quiet quiet_basic)
qed

lemma user_keeps:
  assumes "prov = child (en B)"
  shows "triple (\<lambda>(op, s). \<not> create_request op \<and> marked account s) (\<lambda>w. marked account (fs w) \<and> bridge_account B arguments account (fs w))
    (user_main B arguments) (\<lambda>_ w. marked account (fs w)) (\<lambda>_ w. marked account (fs w))"
proof -
  obtain t args where a: "split_native arguments = (t, args)" by (cases "split_native arguments")
  let ?C = "\<lambda>(op, s). \<not> create_request op \<and> marked account s"
  let ?G = "\<lambda>w :: (user_locals, 'o) process. marked account (fs w)"
  let ?P = "\<lambda>w. ?G w \<and> bridge_account B arguments account (fs w)"
  have "triple ?C ?P (user_request B (to_path t) args) (\<lambda>_. ?G) (\<lambda>_. ?G)" if ok: "user_accepts args"
  proof (cases "account_uid (en B) (args ! 1)")
    case (Inr linux_uid)
    show ?thesis
      unfolding user_request_def Inr lift_Inr
    proof (rule triple_bind)
      show "triple ?C ?P (look (\<lambda>w. native_account_uid (to_path t) linux_uid (fs w)))
          (\<lambda>uid w. ?G w \<and> account = to_path t @ [str_int uid] \<and> 0 \<le> uid) (\<lambda>_. ?G)"
        by (rule triple_look) (use uid_range [OF Inr] Inr in \<open>auto simp: bridge_account_def a\<close>)
      show "triple ?C (\<lambda>w. ?G w \<and> account = to_path t @ [str_int uid] \<and> 0 \<le> uid) (user_body B (to_path t) args linux_uid uid)
          (\<lambda>_. ?G) (\<lambda>_. ?G)" for uid
        by (rule triple_fact [where F = "account = to_path t @ [str_int uid] \<and> 0 \<le> uid"], simp)
          (auto intro: triple_pre [OF body_keeps [OF assms to_path_text _ _ ok, unfolded quiet_def]])
    qed
  qed (auto simp: user_request_def lift_Inl intro: triple_raise)
  then have "triple ?C ?P (pcatch (user_request B (to_path t) args) user_failed) (\<lambda>_. ?G) (\<lambda>_. ?G)" if "user_accepts args"
    using that by (intro triple_catch) (auto dest!: user_failed_ret intro: triple_ret)
  then show ?thesis
    unfolding user_main_def a by (auto intro: triple_ret)
qed

end

subsection \<open>Histories\<close>

text \<open>As for \<open>history\<close>: what happens to one account over time, with the requests counted.\<close>

inductive bridge_history :: "path \<Rightarrow> (user_locals, 'o) process \<Rightarrow> nat \<Rightarrow> bool" for account where
  bridge_start: "bridge_history account w 0"
| bridge_killed: "bridge_history account w n \<Longrightarrow> child (en B) = provider_child E \<Longrightarrow> bridge_account B arguments account (fs w) \<Longrightarrow>
    trace_of (user_main B arguments) w = t @ rest \<Longrightarrow> fs w' = left_by t (fs w) \<Longrightarrow> bridge_history account w' (n + requests t)"
| bridge_finished: "bridge_history account w n \<Longrightarrow> child (en B) = provider_child E \<Longrightarrow> bridge_account B arguments account (fs w) \<Longrightarrow>
    fs w' = fs (world_of (user_main B arguments) w) \<Longrightarrow>
    bridge_history account w' (n + requests (trace_of (user_main B arguments) w))"
| bridge_disturbed: "bridge_history account w n \<Longrightarrow> survives account (fs w) (fs w') \<Longrightarrow> bridge_history account w' n"

lemma survives_marked: "marked account s \<Longrightarrow> survives account s s' \<Longrightarrow> marked account s'"
  by (auto simp: marked_def survives_def identity_files_def)

lemma bridge_marked:
  assumes "child (en B) = provider_child E" "bridge_account B arguments account (fs w)" "marked account (fs w)"
  shows "requests (trace_of (user_main B arguments) w) = 0 \<and> (\<forall>e \<in> set (trace_of (user_main B arguments) w). marked account (snd e))
    \<and> marked account (fs (world_of (user_main B arguments) w))"
proof -
  note t = tripleD [OF pc.user_keeps [OF assms(1) [symmetric]], where w = w, OF conjI [OF assms(3,2)]]
  have "marked account (fs (world_of (user_main B arguments) w))"
    using t(2,3) by (cases "result_of (user_main B arguments) w") auto
  then show ?thesis using t(1) by (auto intro: requests_none)
qed

lemma bridge_guarded: "bridge_history account w n \<Longrightarrow> n = 0 \<or> n = 1 \<and> marked account (fs w)"
proof (induction rule: bridge_history.induct)
  case (bridge_killed w n B E arguments t rest w')
  show ?case
    using once_killed [OF pc.user_late [OF bridge_killed.hyps(2) [symmetric]] bridge_killed.hyps(3) bridge_killed.IH bridge_killed.hyps(4)]
      bridge_marked [OF bridge_killed.hyps(2,3)] bridge_killed.hyps(5) by simp
next
  case (bridge_finished w n B E arguments w')
  show ?case
    using once_finished [OF pc.user_late [OF bridge_finished.hyps(2) [symmetric]] bridge_finished.hyps(3) bridge_finished.IH]
      bridge_marked [OF bridge_finished.hyps(2,3)] bridge_finished.hyps(4) by simp
qed (auto dest: survives_marked)

text \<open>C5. The same for the identity that a password opens: however often the bridge is started for an
  account, killed or interrupted by a power loss, it asks the provider for a native identity at most
  once, and the durable marker of that request stays.\<close>

theorem one_password_identity:
  assumes "bridge_history account w n"
  shows "n \<le> 1 \<and> (n = 1 \<longrightarrow> marked account (fs w))"
  using bridge_guarded [OF assms] by auto

end
