(* ===== verification/EnrolOutcome.thy ===== *)
theory EnrolOutcome
  imports EnrolHistory
begin

text \<open>
  What the exit status of \<^verbatim>\<open>native_enrol.py\<close> means, and the accounts it refuses.
\<close>

subsection \<open>Unfinished accounts\<close>

definition unfinished :: "path \<Rightarrow> fs \<Rightarrow> bool" where
  "unfinished account s \<longleftrightarrow> lexists (marker_path account) s \<or> lexists (record_path account) s \<noteq> lexists (credential_path account) s"

definition starts_child :: "sys_op \<Rightarrow> bool" where
  "starts_child op \<longleftrightarrow> (case op of Spawn c \<Rightarrow> True | Ran c i ls \<Rightarrow> True | _ \<Rightarrow> False)"

lemma starts_child_simps [simp]:
  "\<not> starts_child (Mkdir p)" "\<not> starts_child (OpenAt p)" "\<not> starts_child (Lock p)" "\<not> starts_child (Print l)"
  by (simp_all add: starts_child_def)

text \<open>A part that starts nothing, leaves the identity alone, and has a result only if \<open>Q\<close>.\<close>

definition idle :: "path \<Rightarrow> fs \<Rightarrow> ('a \<Rightarrow> bool) \<Rightarrow> ('l, 'o, 'a) sysprog \<Rightarrow> bool" where
  "idle account s0 Q m \<longleftrightarrow> (let G = (\<lambda>s. \<forall>p \<in> identity_files account. s p = s0 p) in
     triple (\<lambda>(op, s). \<not> starts_child op \<and> G s) (\<lambda>w. G (fs w)) m (\<lambda>x w. Q x \<and> G (fs w)) (\<lambda>_ w. G (fs w)))"

lemma idle_basic:
  "Q x \<Longrightarrow> idle account s0 Q (ret x)" "idle account s0 Q (raise e)" "idle account s0 (\<lambda>_. True) (look f)"
  "idle account s0 (\<lambda>_. True) (check b e)" "idle account s0 (\<lambda>_. True) (lift r)" "idle account s0 (\<lambda>_. True) (get_local g)"
  "idle account s0 (\<lambda>_. True) (set_local h)" "idle account s0 (\<lambda>_. True) (is_cancelled K)"
  by (auto simp: idle_def Let_def triple_def get_local_def set_local_def is_cancelled_def run_defs split_beta
      ret_def raise_def look_def check_def lift_def split: sum.split)

lemma idle_bind: "idle account s0 (\<lambda>_. True) m \<Longrightarrow> (\<And>x. idle account s0 Q (f x)) \<Longrightarrow> idle account s0 Q (pbind m f)"
  unfolding idle_def Let_def by (rule triple_bind) simp_all

lemma idle_after: "idle account s0 P m \<Longrightarrow> (\<And>x. P x \<Longrightarrow> idle account s0 Q (f x)) \<Longrightarrow> idle account s0 Q (pbind m f)"
  unfolding idle_def Let_def
  by (rule triple_bind, assumption, rule triple_fact) (auto elim: triple_pre)

lemma idle_seq: "idle account s0 (\<lambda>_. True) m \<Longrightarrow> idle account s0 Q n \<Longrightarrow> idle account s0 Q (pseq m n)"
  unfolding pseq_def by (rule idle_bind)

lemma idle_if: "(b \<Longrightarrow> idle account s0 Q m) \<Longrightarrow> (\<not> b \<Longrightarrow> idle account s0 Q n) \<Longrightarrow> idle account s0 Q (if b then m else n)"
  by simp

lemma idle_catch: "idle account s0 Q m \<Longrightarrow> Q x \<Longrightarrow> idle account s0 Q (pcatch m (\<lambda>e. Some (ret x)))"
  unfolding idle_def Let_def by (rule triple_catch) (auto intro: triple_ret)

lemma idle_finally: "idle account s0 Q m \<Longrightarrow> idle account s0 (\<lambda>_. True) n \<Longrightarrow> idle account s0 Q (pfinally m n)"
proof -
  let ?G = "\<lambda>w. \<forall>p \<in> identity_files account. fs w p = s0 p"
  let ?C = "\<lambda>(op, s). \<not> starts_child op \<and> (\<forall>p \<in> identity_files account. s p = s0 p)"
  assume m: "idle account s0 Q m" and n: "idle account s0 (\<lambda>_. True) n"
  have "triple ?C (\<lambda>w. Q x \<and> ?G w) n (\<lambda>_ w. Q x \<and> ?G w) (\<lambda>_. ?G)" for x
    by (rule triple_fact [where F = "Q x"], simp, rule triple_weaken [OF n [unfolded idle_def Let_def]]) auto
  moreover have "triple ?C ?G n (\<lambda>_. ?G) (\<lambda>_. ?G)"
    by (rule triple_weaken [OF n [unfolded idle_def Let_def]]) auto
  ultimately show ?thesis using m unfolding idle_def Let_def by (intro triple_finally)
qed

lemma idle_for_each: "(\<And>x. idle account s0 (\<lambda>_. True) (f x)) \<Longrightarrow> idle account s0 (\<lambda>_. True) (for_each f xs)"
  by (induction xs) (simp_all add: idle_basic idle_bind)

lemma idle_syscall:
  assumes "\<not> starts_child op" "\<And>s p. p \<in> identity_files account \<Longrightarrow> snd (f s) p = s p"
    "\<And>k s p. p \<in> identity_files account \<Longrightarrow> failing k s p = s p"
  shows "idle account s0 (\<lambda>_. True) (syscall K op failing f)"
  unfolding idle_def Let_def
proof (rule triple_syscall)
  have k: "(\<forall>p \<in> identity_files account. snd (f s) p = s0 p) \<and> (\<forall>p \<in> identity_files account. failing k s p = s0 p)"
    if "\<forall>p \<in> identity_files account. s p = s0 p" for s k using that assms(2,3) by simp
  show "(case (op, s) of (op, s) \<Rightarrow> \<not> starts_child op \<and> (\<forall>p \<in> identity_files account. s p = s0 p))
      \<and> True \<and> (\<forall>p \<in> identity_files account. fs (w\<lparr>fs := s, choices := o'\<rparr>) p = s0 p)"
    if "\<forall>p \<in> identity_files account. fs w p = s0 p" "f (fs w) = (Inr r, s)" for w r s o'
    using k [OF that(1)] that(2) assms(1) by simp
  show "(case (op, s) of (op, s) \<Rightarrow> \<not> starts_child op \<and> (\<forall>p \<in> identity_files account. s p = s0 p))
      \<and> (\<forall>p \<in> identity_files account. fs (w\<lparr>fs := s, choices := o'\<rparr>) p = s0 p)"
    if "\<forall>p \<in> identity_files account. fs w p = s0 p" "f (fs w) = (Inl e, s)" for w e s o'
    using k [OF that(1)] that(2) assms(1) by simp
  show "(case (op, failing k (fs w)) of (op, s) \<Rightarrow> \<not> starts_child op \<and> (\<forall>p \<in> identity_files account. s p = s0 p))
      \<and> (\<forall>p \<in> identity_files account. fs (w\<lparr>fs := failing k (fs w), choices := o'\<rparr>) p = s0 p)"
    if "\<forall>p \<in> identity_files account. fs w p = s0 p" for w k o'
    using k [OF that(1)] assms(1) by simp
qed

lemma idle_calls:
  "idle account s0 (\<lambda>_. True) (sys_lstat p)" "idle account s0 (\<lambda>_. True) (sys_open K p)" "idle account s0 (\<lambda>_. True) (sys_print K l)"
  "idle account s0 (\<lambda>_. True) (sys_create K (account @ [''user-operation.lock'']))"
  "take (length q) account = q \<Longrightarrow> idle account s0 (\<lambda>_. True) (enrol_directory K q)"
proof -
  have lookup: "idle account s0 (\<lambda>_. True) (sys_lstat p)" for p
    unfolding sys_lstat_def by (rule idle_bind [OF idle_basic(3)]) (auto intro: idle_basic split: option.split)
  then show "idle account s0 (\<lambda>_. True) (sys_lstat p)" .
  show "idle account s0 (\<lambda>_. True) (sys_open K p)" "idle account s0 (\<lambda>_. True) (sys_print K l)"
    unfolding sys_open_def sys_print_def by (rule idle_syscall; simp add: unchanged_def split: option.split)+
  show "idle account s0 (\<lambda>_. True) (sys_create K (account @ [''user-operation.lock'']))"
    unfolding sys_create_def
    by (rule idle_syscall) (auto simp: unchanged_def dest: identity_inside split: option.split)
  show "idle account s0 (\<lambda>_. True) (enrol_directory K q)" if q: "take (length q) account = q"
  proof -
    have long: "length p = Suc (length account)" if "p \<in> identity_files account" for p
      using identity_inside [OF that] by auto
    have d: "make_dirs (take k q) s p = s p" if "p \<in> identity_files account" for k s p
    proof -
      have "length (take k q) < length p" using long [OF that] arg_cong [OF q, of length] by simp
      then show ?thesis by (auto simp: make_dirs_def dest: arg_cong [where f = length])
    qed
    have "idle account s0 (\<lambda>_. True) (sys_mkdir K q)"
      unfolding sys_mkdir_def by (rule idle_syscall) (use d d [of _ "length q"] in \<open>auto split: option.split\<close>)
    then show ?thesis unfolding enrol_directory_def by (intro idle_seq idle_bind lookup idle_basic)
  qed
qed

lemma idle_lock: "idle account s0 (\<lambda>_. True) (sys_lock K p)"
  unfolding idle_def Let_def
  by (rule triple_lock, simp, rule idle_syscall [unfolded idle_def Let_def]) (simp_all add: unchanged_def)

lemma idle_locked:
  assumes "unfinished account s0"
  shows "idle account s0 (\<lambda>r. r \<noteq> 0) (enrol_locked H account username uid out)"
  unfolding idle_def Let_def enrol_locked_def
proof (rule triple_bind)
  let ?G = "\<lambda>w :: (enrol_locals, 'b) process. \<forall>p \<in> identity_files account. fs w p = s0 p"
  let ?C = "\<lambda>(op, s). \<not> starts_child op \<and> (\<forall>p \<in> identity_files account. s p = s0 p)"
  have m: "lexists (marker_path account) (fs w) = lexists (marker_path account) s0"
    "lexists (record_path account) (fs w) = lexists (record_path account) s0"
    "lexists (credential_path account) (fs w) = lexists (credential_path account) s0" if "?G w" for w
    using that by (simp_all add: identity_files_def lexists_def credential_handle)
  show "triple ?C ?G (look (\<lambda>w. lexists (marker_path account) (fs w))) (\<lambda>r w. ?G w \<and> r = lexists (marker_path account) s0) (\<lambda>_. ?G)"
    by (rule triple_look) (simp add: m(1))
  have stop: "triple ?C (\<lambda>w. ?G w \<and> (x, y) = (lexists (record_path account) s0, lexists (credential_path account) s0)
        \<and> \<not> lexists (marker_path account) s0)
      (pseq (check (x = y) ValueError) (use_identity H account username uid out x)) (\<lambda>r w. r \<noteq> 0 \<and> ?G w) (\<lambda>_. ?G)" for x y
    by (rule triple_seq [where R = "\<lambda>_. False"], rule triple_check) (use assms in \<open>auto simp: unfinished_def triple_def\<close>)
  show "triple ?C (\<lambda>w. ?G w \<and> r = lexists (marker_path account) s0) (pseq (check (\<not> r) ValueError)
     (pbind (look (\<lambda>w. (lexists (record_path account) (fs w), lexists (credential_path account) (fs w)))) (\<lambda>(known, handled).
      pseq (check (known = handled) ValueError) (use_identity H account username uid out known))))
     (\<lambda>r w. r \<noteq> 0 \<and> ?G w) (\<lambda>_. ?G)" for r
  proof (rule triple_seq)
    show "triple ?C (\<lambda>w. ?G w \<and> r = lexists (marker_path account) s0) (check (\<not> r) ValueError)
        (\<lambda>_ w. ?G w \<and> \<not> lexists (marker_path account) s0) (\<lambda>_. ?G)" by (rule triple_check) auto
  qed (rule look_pair [where Q = "\<lambda>q w. ?G w \<and> q = (lexists (record_path account) s0, lexists (credential_path account) s0)
      \<and> \<not> lexists (marker_path account) s0", OF _ stop], simp add: m)
qed

lemma idle_main:
  assumes "enrols_account H arguments account" "unfinished account s0"
  shows "idle account s0 (\<lambda>r. r \<noteq> 0) (enrol_main H arguments)"
proof -
  have d: "take (length STATE_ROOT) (STATE_ROOT @ [x]) = STATE_ROOT" for x by simp
  have l: "idle account s0 (\<lambda>r. r \<noteq> 0) (pbind (lift (account_uid H (arguments ! 1))) f)"
    if "\<And>uid. account = STATE_ROOT @ [str_int (native_uid uid)] \<Longrightarrow> idle account s0 (\<lambda>r. r \<noteq> 0) (f uid)" for f
  proof (cases "account_uid H (arguments ! 1)")
    case (Inr uid)
    have "pbind (lift (Inr uid)) f = f uid" by (rule ext) (simp add: pbind_def lift_def ret_def split: prod.split)
    then show ?thesis using that [of uid] assms(1) Inr by (simp add: enrols_account_def)
  next
    case (Inl e)
    have "pbind (lift (Inl e)) f = raise e" by (rule ext) (simp add: pbind_def lift_def raise_def)
    then show ?thesis using Inl idle_basic(2) by simp
  qed
  have b: "idle account s0 (\<lambda>_. True) (check_bundle H username uid)" for username uid
    unfolding check_bundle_def by (intro idle_seq idle_bind idle_for_each idle_calls idle_basic)
  have t: "idle account s0 (\<lambda>_. True) (check_output t)" for t
    unfolding check_output_def Let_def by (intro idle_seq idle_bind idle_calls idle_basic)
  have e: "idle account s0 (\<lambda>r. r \<noteq> 0) (enrol H (arguments ! 1) t)" for t
    unfolding enrol_def Let_def
  proof (rule l)
    fix uid assume a: "account = STATE_ROOT @ [str_int (native_uid uid)]"
    show "idle account s0 (\<lambda>r. r \<noteq> 0) (pseq (check_bundle H (arguments ! 1) uid)
     (pbind (look (\<lambda>w. list_ex (\<lambda>finger. lexists (template (arguments ! 1) finger) (fs w)) ''123456789a'')) (\<lambda>enrolled.
     if enrolled then pseq (sys_print (ker H) ''native_enrol=REFUSED existing_template=1'') (ret 2)
     else pseq (check_output t)
       (pseq (enrol_directory (ker H) STATE_ROOT)
        (pseq (enrol_directory (ker H) (STATE_ROOT @ [str_int (native_uid uid)]))
        (pseq (sys_create (ker H) ((STATE_ROOT @ [str_int (native_uid uid)]) @ [''user-operation.lock'']))
        (pseq (sys_lock (ker H) ((STATE_ROOT @ [str_int (native_uid uid)]) @ [''user-operation.lock'']))
        (enrol_locked H (STATE_ROOT @ [str_int (native_uid uid)]) (arguments ! 1) uid (to_path t)))))))))"
      unfolding a [symmetric]
      by (intro idle_seq idle_bind idle_if b t idle_calls idle_basic idle_lock idle_locked [OF assms(2)]) (simp_all add: a)
  qed
  have c: "idle account s0 (\<lambda>_. True) (report_cleaned (ker H))"
    unfolding report_cleaned_def by (intro idle_bind idle_if idle_calls idle_basic) simp
  have f: "idle account s0 (\<lambda>r. r \<noteq> 0) (pfinally (pcatch (enrol H (arguments ! 1) (arguments ! 2)) (\<lambda>e. Some (ret 1))) (report_cleaned (ker H)))"
    by (intro idle_finally idle_catch e c) simp
  show ?thesis
    unfolding enrol_main_def
    by (intro idle_seq idle_if c idle_after [OF f] idle_bind idle_calls idle_basic) simp_all
qed

text \<open>C10. An account with the marker of a creation that was asked for, or with only one of its record and
  its handle, is refused: the run fails, starts no child, and leaves the files of the identity as they
  are.\<close>

theorem unfinished_refused:
  assumes "enrols_account H arguments account" "unfinished account (fs w)"
  shows "list_all (\<lambda>(op, s). \<not> starts_child op \<and> (\<forall>p \<in> identity_files account. s p = fs w p)) (trace_of (enrol_main H arguments) w)
    \<and> result_of (enrol_main H arguments) w \<noteq> Inr 0"
proof -
  note t = tripleD [OF idle_main [OF assms, unfolded idle_def Let_def], where w = w, simplified]
  show ?thesis using t by (auto simp: list_all_iff)
qed

subsection \<open>Success\<close>

definition published :: "path \<Rightarrow> fs \<Rightarrow> bool" where
  "published out s \<longleftrightarrow> (\<exists>n. s out = Some n \<and> private_file DATABASE_LIMIT n \<and> n_durable n)"

text \<open>The result 0 only with \<open>D\<close>.\<close>

definition zero_only :: "(fs \<Rightarrow> bool) \<Rightarrow> ('l, 'o, int) sysprog \<Rightarrow> bool" where
  "zero_only D m \<longleftrightarrow> triple (\<lambda>_. True) (\<lambda>_. True) m (\<lambda>r w. r = 0 \<longrightarrow> D (fs w)) (\<lambda>_ _. True)"

lemma anything: "triple (\<lambda>_. True) P m (\<lambda>_ _. True) (\<lambda>_ _. True)"
  by (simp add: triple_def split: sum.split)

lemma zero_basic: "r \<noteq> 0 \<Longrightarrow> zero_only D (ret r)" "zero_only D (raise e)"
  by (simp_all add: zero_only_def triple_def run_simps)

lemma zero_bind: "(\<And>x. zero_only D (f x)) \<Longrightarrow> zero_only D (pbind m f)"
  unfolding zero_only_def by (rule triple_bind [OF anything])

lemma zero_seq: "zero_only D n \<Longrightarrow> zero_only D (pseq m n)"
  unfolding pseq_def by (rule zero_bind)

lemma zero_if: "(b \<Longrightarrow> zero_only D m) \<Longrightarrow> (\<not> b \<Longrightarrow> zero_only D n) \<Longrightarrow> zero_only D (if b then m else n)"
  by simp

lemma copy_published:
  assumes "out \<noteq> []" "0 < length data" "length data \<le> DATABASE_LIMIT"
  shows "triple (\<lambda>_. True) (\<lambda>_. True) (pseq (copy_database K out data) (sys_sync_dir K (butlast out)))
    (\<lambda>_ w. published out (fs w)) (\<lambda>_ _. True)"
  unfolding copy_database_def
proof (intro triple_seq triple_catch)
  let ?F = "\<lambda>w :: (enrol_locals, 'a) process. \<exists>n. fs w out = Some n \<and> is_private Regular FILE_MODE n"
  let ?D = "\<lambda>w :: (enrol_locals, 'a) process. \<exists>n. fs w out = Some n \<and> private_file DATABASE_LIMIT n"
  let ?S = "\<lambda>w :: (enrol_locals, 'a) process. \<exists>n. fs w out = Some n \<and> private_file DATABASE_LIMIT n \<and> n_flushed n"
  show "triple (\<lambda>_. True) (\<lambda>_. True) (sys_create_excl K out) (\<lambda>_. ?F) (\<lambda>_ _. True)"
    unfolding sys_create_excl_def
    by (rule triple_syscall) (auto simp: new_file_def is_private_def split: option.splits)
  show "triple (\<lambda>_. True) ?F (sys_write K out data) (\<lambda>_. ?D) (\<lambda>_ _. True)"
    unfolding sys_write_def
    by (rule triple_syscall) (use assms(2,3) in \<open>auto simp: put_def private_file_def is_private_def\<close>)
  show "triple (\<lambda>_. True) ?D (sys_fsync K out) (\<lambda>_. ?S) (\<lambda>_ _. True)"
    unfolding sys_fsync_def
    by (rule triple_syscall) (auto simp: flush_def private_file_def is_private_def)
  show "triple (\<lambda>_. True) ?S (pbind (is_cancelled K) (\<lambda>c. check (\<not> c) OSError)) (\<lambda>_. ?S) (\<lambda>_ _. True)"
    by (rule triple_bind [where R = "\<lambda>_. ?S"], rule triple_is_cancelled, simp, rule triple_check) simp_all
  show "triple (\<lambda>_. True) ?S (sys_sync_dir K (butlast out)) (\<lambda>_ w. published out (fs w)) (\<lambda>_ _. True)"
    unfolding sys_sync_dir_def
    by (rule triple_syscall)
      (use assms(1) in \<open>auto simp: settle_def published_def private_file_def is_private_def\<close>)
  show "triple (\<lambda>_. True) (\<lambda>_. True) n (\<lambda>_. ?S) (\<lambda>_ _. True)"
    if "Some (pseq (sys_unlink K out) (raise e)) = Some n" for e n
    using that by (auto intro!: triple_seq [OF anything] triple_raise)
qed simp_all

lemma publish_zero: "out \<noteq> [] \<Longrightarrow> zero_only (published out) (pseq (publish K db out) (ret 0))"
proof -
  assume out: "out \<noteq> []"
  have "triple (\<lambda>_. True) (\<lambda>_. True) (publish K db out) (\<lambda>_ w. published out (fs w)) (\<lambda>_ _. True)"
    unfolding publish_def
  proof (rule triple_bind [OF anything])
    fix n
    show "triple (\<lambda>_. True) (\<lambda>_. True) (pseq (check (private_file DATABASE_LIMIT n) ValueError)
        (pseq (copy_database K out (n_data n)) (sys_sync_dir K (butlast out)))) (\<lambda>_ w. published out (fs w)) (\<lambda>_ _. True)"
    proof (rule triple_seq [where R = "\<lambda>_. private_file DATABASE_LIMIT n"])
      show "triple (\<lambda>_. True) (\<lambda>_. private_file DATABASE_LIMIT n) (pseq (copy_database K out (n_data n)) (sys_sync_dir K (butlast out)))
          (\<lambda>_ w. published out (fs w)) (\<lambda>_ _. True)"
        by (rule triple_fact [where F = "private_file DATABASE_LIMIT n"], simp, rule triple_pre [OF copy_published [OF out]])
          (simp_all add: private_file_def)
    qed (rule triple_check, simp_all)
  qed
  then show ?thesis unfolding zero_only_def by (intro triple_then_ret) (rule triple_weaken, auto)
qed

lemma finger_zero:
  fixes H :: "'o enroller"
  assumes "out = d @ [x]" "\<not> starts_with ''.native-enrol-'' x"
  shows "zero_only (published out) (enrol_finger H uid out)"
  unfolding enrol_finger_def zero_only_def
proof (rule triple_bind)
  show "triple (\<lambda>_. True) (\<lambda>_. True) (sys_mkdtemp (ker H) (butlast out) ''.native-enrol-'')
      (\<lambda>temp _. \<exists>y. temp = d @ [''.native-enrol-'' @ y]) (\<lambda>_ _. True)"
    unfolding sys_mkdtemp_def Let_def assms(1) by (rule triple_choice, simp, rule triple_then_ret, rule triple_syscall) auto
  fix temp
  let ?body = "pbind (runtime_run H (native_command H [''--enrol'', path_text (temp @ [''database'']), str_int (native_uid uid),
      str_int (input_fd H)]) False) (\<lambda>status. pbind (get_local cleaned) (\<lambda>clean. pbind (is_cancelled (ker H)) (\<lambda>c.
        if status \<noteq> 0 \<or> \<not> clean \<or> c then ret 1 else pseq (publish (ker H) (temp @ [''database'']) out) (ret 0))))"
  show "triple (\<lambda>_. True) (\<lambda>_. \<exists>y. temp = d @ [''.native-enrol-'' @ y]) (pfinally ?body (sys_rmtree (ker H) temp))
      (\<lambda>r w. r = (0::int) \<longrightarrow> published out (fs w)) (\<lambda>_ _. True)"
  proof (rule triple_fact [where F = "\<exists>y. temp = d @ [''.native-enrol-'' @ y]"])
    assume "\<exists>y. temp = d @ [''.native-enrol-'' @ y]"
    then obtain y where t: "temp = d @ [''.native-enrol-'' @ y]" by blast
    have apart: "take (length temp) out \<noteq> temp" using assms(2) by (auto simp: t assms(1) starts_with_def)
    have z: "zero_only (published out) ?body"
      by (intro zero_bind zero_if zero_basic publish_zero) (simp_all add: assms(1))
    have rm: "triple (\<lambda>_. True) (\<lambda>w :: (enrol_locals, 'o) process. r = 0 \<longrightarrow> published out (fs w)) (sys_rmtree (ker H) temp)
        (\<lambda>_ w. r = 0 \<longrightarrow> published out (fs w)) (\<lambda>_ _. True)" for r :: int
      unfolding sys_rmtree_def
      by (rule triple_syscall) (use apart in \<open>auto simp: published_def remove_tree_def\<close>)
    show ?thesis

      by (rule triple_pre, rule triple_finally [where Q = "\<lambda>r w. r = 0 \<longrightarrow> published out (fs w)" and E = "\<lambda>_ _. True"],
          rule z [unfolded zero_only_def], rule rm, rule anything, simp)
  qed simp
qed

lemma zero_kept:
  "(\<And>w. fs (world_of m w) = fs w) \<Longrightarrow>
    triple (\<lambda>_. True) (\<lambda>w. r = (0::int) \<longrightarrow> D (fs w)) m (\<lambda>_ w. r = 0 \<longrightarrow> D (fs w)) (\<lambda>_ _. True)"
  by (simp add: triple_def split: sum.split)

lemma main_zero:
  fixes H :: "'o enroller"
  assumes "to_path (arguments ! 2) = d @ [x]" "\<not> starts_with ''.native-enrol-'' x"
  shows "zero_only (published (d @ [x])) (enrol_main H arguments)"
proof -
  let ?D = "published (d @ [x])"
  have u: "zero_only ?D (use_identity H account username uid (d @ [x]) known)" for account username uid known
    unfolding use_identity_def
    by (intro zero_bind zero_seq zero_if zero_basic finger_zero [OF refl assms(2)]) simp_all
  have e: "zero_only ?D (enrol H (arguments ! 1) (arguments ! 2))"
    unfolding enrol_def Let_def assms(1) enrol_locked_def
    by (intro zero_bind zero_seq zero_if zero_basic) (auto intro!: zero_seq u split: prod.split)
  have p: "fs (world_of (sys_print K l) w) = fs w" for K l and w :: "(enrol_locals, 'o) process"
    by (simp add: sys_print_def syscall_def run_defs unchanged_def split: prod.split option.split)
  have r: "fs (world_of (report_cleaned (ker H)) w) = fs w" for w
    by (simp add: report_cleaned_def pbind_def get_local_def look_def ret_def run_defs p [unfolded run_defs] split: prod.split)
  have c: "fs (world_of (is_cancelled (ker H)) w) = fs w" "fs (world_of (get_local g) w) = fs w" for g :: "enrol_locals \<Rightarrow> bool" and w :: "(enrol_locals, 'o) process"
    by (simp_all add: is_cancelled_def get_local_def look_def run_defs Let_def split: prod.split)
  have catch: "zero_only ?D (pcatch (enrol H (arguments ! 1) (arguments ! 2)) (\<lambda>e. Some (ret 1)))"
    using e unfolding zero_only_def by (rule triple_catch) (auto intro: triple_ret)
  have fin: "zero_only ?D (pfinally (pcatch (enrol H (arguments ! 1) (arguments ! 2)) (\<lambda>e. Some (ret 1))) (report_cleaned (ker H)))"
    using catch unfolding zero_only_def
    by (rule triple_finally [where Q = "\<lambda>r w. r = 0 \<longrightarrow> ?D (fs w)" and E = "\<lambda>_ _. True", OF _ zero_kept anything]) (rule r)
  show ?thesis
    unfolding enrol_main_def
  proof (intro zero_seq zero_if)
    show "zero_only ?D (pbind (pfinally (pcatch (enrol H (arguments ! 1) (arguments ! 2)) (\<lambda>e. Some (ret 1))) (report_cleaned (ker H))) (\<lambda>result.
        pbind (is_cancelled (ker H)) (\<lambda>c.
        if c then pseq (sys_print (ker H) ''native_enrol=CANCELLED'') (ret 1)
        else pbind (get_local cleaned) (\<lambda>clean.
          if result = 0 \<and> clean then pseq (sys_print (ker H) ''native_enrol=OK single_finger_database=1'') (ret result)
          else ret result))))"
      unfolding zero_only_def
    proof (rule triple_bind [OF fin [unfolded zero_only_def]])
      fix result :: int
      show "triple (\<lambda>_. True) (\<lambda>w :: (enrol_locals, 'o) process. result = 0 \<longrightarrow> ?D (fs w)) (pbind (is_cancelled (ker H)) (\<lambda>c.
        if c then pseq (sys_print (ker H) ''native_enrol=CANCELLED'') (ret 1)
        else pbind (get_local cleaned) (\<lambda>clean.
          if result = 0 \<and> clean then pseq (sys_print (ker H) ''native_enrol=OK single_finger_database=1'') (ret result)
          else ret result))) (\<lambda>r w. r = 0 \<longrightarrow> ?D (fs w)) (\<lambda>_ _. True)"
        by (intro triple_bind [OF zero_kept] c triple_if triple_seq [OF zero_kept] p triple_ret) (simp_all add: c p)
    qed
  qed (simp add: zero_basic)
qed

text \<open>C12. Exit status 0 of an enrolment, under any kernel, provider and signals: the output is a private
  file, not empty, within the size limit, and survives a power loss. (The caller does not give the
  output a name of the temporary directories.)\<close>

theorem enrol_status_zero:
  assumes "to_path (arguments ! 2) = d @ [x]" "\<not> starts_with ''.native-enrol-'' x"
    and "result_of (enrol_main H arguments) w = Inr 0"
  shows "\<exists>n. fs (world_of (enrol_main H arguments) w) (d @ [x]) = Some n
    \<and> is_private Regular FILE_MODE n \<and> 0 < length (n_data n) \<and> length (n_data n) \<le> DATABASE_LIMIT \<and> n_durable n"
  using tripleD(2) [OF main_zero [OF assms(1,2), unfolded zero_only_def] _ assms(3)]
  by (auto simp: published_def private_file_def)

end
