(* ===== verification/UserOutcome.thy ===== *)
theory UserOutcome
  imports UserSafety EnrolOutcome
begin

text \<open>
  What the success of \<^verbatim>\<open>user_credentials.py --create\<close> means, and how often an input prepared in the
  keyring can be used.
\<close>

subsection \<open>A created identity\<close>

definition owned :: "path \<Rightarrow> fs \<Rightarrow> bool" where
  "owned account s \<longleftrightarrow> marked account s \<and> has_handle account s"

interpretation ow: protected "{marker_path account, handle_path account}" "owned account" for account
proof unfold_locales
  fix s s' assume o: "owned account s"
    and k: "\<And>p. p \<in> {marker_path account, handle_path account} \<Longrightarrow> s p \<noteq> None \<Longrightarrow> same (s p) (s' p)"
  have "marked account s'" by (rule mk1.kept [of account s]) (use o k in \<open>simp_all add: owned_def\<close>)
  moreover have "has_handle account s'"
    using o k [of "handle_path account"] has_handle_kept [of account s s'] by (auto simp: owned_def has_handle_def)
  ultimately show "owned account s'" by (simp add: owned_def)
qed

lemma acceptance_apart: "acceptance_path username \<noteq> handle_path account"
  by (simp add: acceptance_path_def RUN_ROOT_def handle_path_def)

lemma quiet_owned: "quiet (owned account) m \<Longrightarrow> triple (\<lambda>_. True) (\<lambda>w. r = (0::int) \<longrightarrow> owned account (fs w)) m
    (\<lambda>_ w. r = 0 \<longrightarrow> owned account (fs w)) (\<lambda>_ _. True)"
  by (cases "r = 0") (auto simp: quiet_def anything elim: triple_weaken)

lemma finish_owned: "triple (\<lambda>_. True) (\<lambda>w. status = 0 \<longrightarrow> owned account (fs w)) (finish_request B args username uid input status)
    (\<lambda>r w. r = 0 \<longrightarrow> owned account (fs w)) (\<lambda>_ _. True)"
proof -
  have a: "acceptance_path username \<notin> {marker_path account, handle_path account}" by (simp add: acceptance_apart)
  note q = quiet_owned [where account = account and r = status]
  show ?thesis
    unfolding finish_request_def
    by (intro triple_bind [OF q] triple_seq [OF q] quiet_if quiet_seq quiet_basic ow.prepares ow.discards ow.calls a triple_ret) simp
qed

lemma guarded_run_status:
  fixes m :: "('l, 'o, int \<times> 'a) sysprog"
  assumes "triple (\<lambda>_. True) P m (\<lambda>(st, x) w. st = 0 \<longrightarrow> D (fs w)) (\<lambda>_ _. True)"
    "\<And>w. P w = G (fs w)"
  shows "triple (\<lambda>_. True) P (guarded_run K c x m) (\<lambda>(st, x) w. st = 0 \<longrightarrow> D (fs w)) (\<lambda>_ _. True)"
  unfolding guarded_run_def
proof (rule triple_bind [where R = "\<lambda>_. P"])
  show "triple (\<lambda>_. True) P (is_cancelled K) (\<lambda>_. P) (\<lambda>_ _. True)"
    by (rule triple_is_cancelled) (simp add: assms(2))
  have run: "triple (\<lambda>_. True) P (pbind m (\<lambda>(status, x). pbind (is_cancelled K) (\<lambda>c. ret (if c then 1 else status, x))))
      (\<lambda>(st, x) w. st = 0 \<longrightarrow> D (fs w)) (\<lambda>_ _. True)"
  proof (rule triple_bind [OF assms(1)])
    fix r :: "int \<times> 'a"
    show "triple (\<lambda>_. True) (case r of (st, x) \<Rightarrow> \<lambda>w. st = 0 \<longrightarrow> D (fs w))
        (case r of (status, x) \<Rightarrow> pbind (is_cancelled K) (\<lambda>c. ret (if c then 1 else status, x)))
        (\<lambda>(st, x) w. st = 0 \<longrightarrow> D (fs w)) (\<lambda>_ _. True)"
      by (cases r) (auto intro!: triple_bind [where R = "\<lambda>_ w. fst r = 0 \<longrightarrow> D (fs w)"] triple_is_cancelled triple_ret split: if_splits)
  qed
  have spawn: "triple (\<lambda>_. True) P (syscall K (Spawn c) unchanged (\<lambda>s. (Inr (), s))) (\<lambda>_. P) (\<lambda>_ _. True)"
    by (rule triple_syscall) (simp_all add: assms(2))
  show "triple (\<lambda>_. True) P (if ca then ret (1, x) else pseq (syscall K (Spawn c) unchanged (\<lambda>s. (Inr (), s)))
      (pbind m (\<lambda>(status, x). pbind (is_cancelled K) (\<lambda>c. ret (if c then 1 else status, x)))))
      (\<lambda>(st, x) w. st = 0 \<longrightarrow> D (fs w)) (\<lambda>_ _. True)" for ca
    by (intro triple_if triple_ret triple_seq [OF spawn] run) simp
qed

context native_child
begin

lemma create_status:
  assumes "prov = child (en B)" "to_path (path_text state) = state" "account = state @ [str_int uid]" "0 \<le> uid" "wants_create args"
  shows "triple (\<lambda>_. True) (\<lambda>w. marked account (fs w)) (run_provider B (provider_command B state (user_operation B args uid)))
    (\<lambda>(st, x) w. st = 0 \<longrightarrow> owned account (fs w)) (\<lambda>_ _. True)"
  unfolding run_provider_def
proof (rule guarded_run_status)
  let ?c = "provider_command B state (user_operation B args uid)"
  let ?m = "run_native (en B) ?c :: ('o, int \<times> string list) user_prog"
  have k: "quiet (marked account) ?m"
    by (rule provider_keeps [OF mk1.protected_axioms _ _ assms(1) user_call [OF assms(2)] user_request_uid [OF assms(4)] assms(3)])
      (use assms(5) in \<open>auto simp: identity_files_def dest: change_op\<close>)
  have n: "triple (\<lambda>_. True) (\<lambda>w. marked account (fs w)) ?m (\<lambda>(st, said) w. st = 0 \<longrightarrow> owned account (fs w)) (\<lambda>_ _. True)"
  proof (rule tripleI)
    fix w :: "(user_locals, 'o) process" assume g: "marked account (fs w)"
    obtain t s o2 status said where c: "child (en B) ?c (fs w, choices w) = (t, (s, o2), status, said)"
      by (cases "child (en B) ?c (fs w, choices w)") auto
    have r: "result_of ?m w = Inr (status, said)" "fs (world_of ?m w) = s" by (simp_all add: run_native_def run_defs c)
    have "has_handle account s" if "status = 0"
    proof -
      have "is_create (user_operation B args uid)" using assms(5) by (simp add: is_create_def user_operation_def)
      then show ?thesis
        using installs [OF user_call [OF assms(2)] user_request_uid [OF assms(4)] _ c [unfolded that, folded assms(1)]] assms(3) by simp
    qed
    moreover have "marked account s" using tripleD(2) [OF k [unfolded quiet_def] g r(1)] r(2) by simp
    ultimately show "(\<forall>ev \<in> set (trace_of ?m w). True)
        \<and> (case result_of ?m w of Inr x \<Rightarrow> (case x of (st, said) \<Rightarrow> \<lambda>w. st = 0 \<longrightarrow> owned account (fs w)) (world_of ?m w)
          | Inl e \<Rightarrow> True)"
      using r by (simp add: owned_def)
  qed
  show "triple (\<lambda>_. True) (\<lambda>w. marked account (fs w)) (pbind ?m (\<lambda>(status, said). ret (status, ())))
      (\<lambda>(st, x) w. st = 0 \<longrightarrow> owned account (fs w)) (\<lambda>_ _. True)"
    by (rule triple_bind [OF n]) (auto intro: triple_ret split: prod.split)
qed simp

lemma body_owned:
  assumes "prov = child (en B)" "to_path (path_text state) = state" "account = state @ [str_int uid]" "0 \<le> uid" "wants_create args"
  shows "zero_only (owned account) (user_body B state args linux_uid uid)"
proof -
  have r: "zero_only (owned account) (request_provider B state args username uid input)" for username input
    unfolding zero_only_def request_provider_def if_P [OF assms(5)] assms(3) [symmetric]
  proof (rule triple_seq)
    show "triple (\<lambda>_. True) (\<lambda>_. True) (write_state (ker (en B)) (requested_file account) []) (\<lambda>_ w. marked account (fs w)) (\<lambda>_ _. True)"
      unfolding write_state_eq request_file
      by (rule triple_weaken [OF write_durable [OF none.protected_axioms]]) (auto simp: marked_def marker_path_def)
    show "triple (\<lambda>_. True) (\<lambda>w. marked account (fs w)) (pbind (run_provider B (provider_command B state (user_operation B args uid)))
        (\<lambda>(status, u). finish_request B args username uid input status)) (\<lambda>r w. r = 0 \<longrightarrow> owned account (fs w)) (\<lambda>_ _. True)"
      by (rule triple_bind [OF create_status [OF assms]]) (auto intro: triple_pre [OF finish_owned] split: prod.split)
  qed
  show ?thesis
    unfolding user_body_def user_locked_def Let_def
    by (intro zero_seq zero_bind) (auto intro!: zero_seq zero_bind zero_basic r split: prod.split)
qed

lemma main_owned:
  assumes "prov = child (en B)" "split_native arguments = (t, args)" "wants_create args"
    and "account_uid (en B) (args ! 1) = Inr linux_uid"
    and "account = to_path t @ [str_int (native_account_uid (to_path t) linux_uid (fs w))]"
    and "result_of (user_main B arguments) w = Inr 0"
  shows "owned account (fs (world_of (user_main B arguments) w))"
proof -
  let ?uid = "native_account_uid (to_path t) linux_uid (fs w)"
  let ?body = "user_body B (to_path t) args linux_uid ?uid"
  have acc: "user_accepts args" using assms(3) by (simp add: user_accepts_def)
  have caught: "zero_only (owned account) (pcatch ?body user_failed)"
    using body_owned [OF assms(1) to_path_text assms(5) uid_range [OF assms(4)] assms(3)]
    unfolding zero_only_def by (rule triple_catch) (auto dest!: user_failed_ret intro: triple_ret)
  have req: "user_request B (to_path t) args w = ?body w"
    unfolding user_request_def assms(4) lift_Inr by (simp add: pbind_def look_def)
  have main: "user_main B arguments w = (if \<not> is_root B \<or> \<not> is_absolute t then ret 2 w else pcatch ?body user_failed w)"
    using acc by (simp add: user_main_def assms(2) pcatch_def req)
  show ?thesis
    using tripleD(2) [OF caught [unfolded zero_only_def], where w = w] assms(6) main
    by (auto simp: run_defs ret_def split: if_splits)
qed

end

text \<open>C13. Success of \<^verbatim>\<open>user_credentials.py --create\<close> (and of
  \<^verbatim>\<open>--create-and-prepare-acceptance\<close>) means that the account has a complete private handle and
  the marker of the request, and that both survive a power loss.\<close>

theorem password_identity_created:
  assumes "child (en B) = provider_child E" "split_native arguments = (t, args)" "wants_create args"
    and "account_uid (en B) (args ! 1) = Inr linux_uid"
    and "account = to_path t @ [str_int (native_account_uid (to_path t) linux_uid (fs w))]"
    and "result_of (user_main B arguments) w = Inr 0"
  shows "has_handle account (fs (world_of (user_main B arguments) w)) \<and> marked account (fs (world_of (user_main B arguments) w))"
  using pc.main_owned [OF assms(1) [symmetric] assms(2-6)] by (simp add: owned_def)

end
