(* ===== verification/PublishSafety.thy ===== *)
theory PublishSafety
  imports EnrolPublish UserOutcome
begin

text \<open>
  What \<^verbatim>\<open>enrol_publish.py\<close> keeps: the prints of the store, and an export that is pending.
\<close>

subsection \<open>Parts that keep a condition and start only some programs\<close>

definition steady :: "(sys_op \<Rightarrow> bool) \<Rightarrow> (fs \<Rightarrow> bool) \<Rightarrow> ('l \<Rightarrow> bool) \<Rightarrow> ('l, 'o, 'a) sysprog \<Rightarrow> bool" where
  "steady R I L m \<longleftrightarrow> triple (\<lambda>(op, s). R op \<and> I s) (only I L) m (\<lambda>_. only I L) (\<lambda>_. only I L)"

definition plain :: "(sys_op \<Rightarrow> bool) \<Rightarrow> bool" where
  "plain R \<longleftrightarrow> (\<forall>op. \<not> starts_child op \<longrightarrow> R op)"

lemma plain_ops: "plain R \<Longrightarrow> R (Mkdir p)" "plain R \<Longrightarrow> R (OpenAt p)" "plain R \<Longrightarrow> R (CreateExcl p)" "plain R \<Longrightarrow> R (WriteAt p d)"
  "plain R \<Longrightarrow> R (Flush p)" "plain R \<Longrightarrow> R (SyncDir p)" "plain R \<Longrightarrow> R (Link p q)" "plain R \<Longrightarrow> R (Unlink p)" "plain R \<Longrightarrow> R (Chmod p)"
  "plain R \<Longrightarrow> R (Lock p)" "plain R \<Longrightarrow> R (Print l)"
  by (simp_all add: plain_def starts_child_def)

lemma steady_basic:
  "steady R I L (ret x)" "steady R I L (raise e)" "steady R I L (look f)" "steady R I L (check b e)" "steady R I L (lift r)"
  "steady R I L (get_local g)" "steady R I L (is_cancelled K)"
  by (auto simp: steady_def only_def triple_def get_local_def is_cancelled_def run_defs Let_def split_beta
      ret_def raise_def look_def check_def lift_def split: sum.split)

lemma steady_local: "(\<And>l. L l \<Longrightarrow> L (f l)) \<Longrightarrow> steady R I L (set_local f)"
  unfolding steady_def by (rule triple_set_local) (simp add: only_def)

lemma steady_bind: "steady R I L m \<Longrightarrow> (\<And>x. steady R I L (f x)) \<Longrightarrow> steady R I L (pbind m f)"
  unfolding steady_def by (rule triple_bind)

lemma steady_seq: "steady R I L m \<Longrightarrow> steady R I L n \<Longrightarrow> steady R I L (pseq m n)"
  unfolding steady_def by (rule triple_seq)

lemma steady_cases:
  "(b \<Longrightarrow> steady R I L m) \<Longrightarrow> (\<not> b \<Longrightarrow> steady R I L n) \<Longrightarrow> steady R I L (if b then m else n)"
  "(r = None \<Longrightarrow> steady R I L m) \<Longrightarrow> (\<And>x. r = Some x \<Longrightarrow> steady R I L (f x)) \<Longrightarrow> steady R I L (case r of None \<Rightarrow> m | Some x \<Rightarrow> f x)"
  "(\<And>x y. p = (x, y) \<Longrightarrow> steady R I L (g x y)) \<Longrightarrow> steady R I L (case p of (x, y) \<Rightarrow> g x y)"
  by (simp_all split: option.split prod.split)

lemma steady_for_each: "(\<And>x. steady R I L (f x)) \<Longrightarrow> steady R I L (for_each f xs)"
  by (induction xs) (simp_all add: steady_basic steady_bind)

lemma steady_syscall:
  assumes "R op" "\<And>s. I s \<Longrightarrow> I (snd (f s))" "\<And>s k. I s \<Longrightarrow> I (failing k s)"
  shows "steady R I L (syscall K op failing f)"
  unfolding steady_def by (rule triple_syscall) (use assms in \<open>force simp: only_def\<close>)+

lemma steady_choice: "(\<And>x. steady R I L (m x)) \<Longrightarrow> steady R I L (\<lambda>w. case f (choices w) of (x, o') \<Rightarrow> m x (w\<lparr>choices := o'\<rparr>))"
  unfolding steady_def by (rule triple_choice) simp_all

lemmas steady_rules = steady_basic steady_bind steady_seq steady_cases steady_for_each

context protected
begin

lemma steady_calls:
  assumes "plain R"
  shows "steady R G L (sys_mkdir K p)" "steady R G L (sys_lstat p)" "steady R G L (sys_open K p)" "steady R G L (sys_create K p)"
    "steady R G L (sys_create_excl K p)" "steady R G L (sys_sync_dir K p)" "steady R G L (sys_print K l)" "steady R G L (sys_lock K p)"
    "steady R G L (sys_link K p q)"
proof -
  note R = plain_ops [OF assms]
  have dirs: "G (make_dirs q s)" if "G s" for q s
    using that by (rule made) (simp add: make_dirs_def)
  show "steady R G L (sys_mkdir K p)" unfolding sys_mkdir_def
    by (rule steady_syscall) (auto simp: dirs R split: option.split)
  show "steady R G L (sys_lstat p)" unfolding sys_lstat_def by (intro steady_rules)
  show "steady R G L (sys_lock K p)" unfolding sys_lock_def
    by (rule steady_choice, rule steady_syscall) (simp_all add: unchanged_def R)
  show "steady R G L (sys_open K p)" "steady R G L (sys_create K p)" "steady R G L (sys_create_excl K p)"
    "steady R G L (sys_sync_dir K p)" "steady R G L (sys_print K l)" "steady R G L (sys_link K p q)"
    unfolding sys_open_def sys_create_def sys_create_excl_def sys_sync_dir_def sys_print_def sys_link_def
    by (rule steady_syscall; auto simp: R unchanged_def settled new split: option.split)+
qed

lemma steady_changes:
  assumes "plain R" "p \<notin> Y"
  shows "steady R G L (sys_fsync K p)" "steady R G L (sys_unlink K p)" "steady R G L (sys_chmod K p)"
  unfolding sys_fsync_def sys_unlink_def sys_chmod_def flush_def
  by (rule steady_syscall; use assms(2) in \<open>auto simp: plain_ops [OF assms(1)] unchanged_def upd split: option.split\<close>)+

lemma steady_state:
  assumes "plain R"
  shows "steady R G L (private_state K p)" "steady R G L (private_directory K p)"
  unfolding private_state_def private_directory_def by (intro steady_rules steady_calls assms)+

end

text \<open>A stronger condition on the files may hold for a part of the program.\<close>

lemma steady_weaken:
  assumes "steady R I L m" "\<And>s. I s \<Longrightarrow> I' s"
  shows "triple (\<lambda>(op, s). R op \<and> I' s) (only I L) m (\<lambda>_. only I L) (\<lambda>_. only I' L)"
  using assms(1) unfolding steady_def by (rule triple_weaken) (use assms(2) in \<open>auto simp: only_def\<close>)

subsection \<open>An account with a print\<close>

definition untouched :: "fs \<Rightarrow> fs \<Rightarrow> bool" where
  "untouched s0 s \<longleftrightarrow> (\<forall>p. s0 p \<noteq> None \<longrightarrow> same (s0 p) (s p))"

lemma untouched_there: "untouched s0 s \<Longrightarrow> s0 p \<noteq> None \<Longrightarrow> same (s0 p) (s p) \<and> s p \<noteq> None"
  unfolding untouched_def by (metis same_None(1))

lemma untouched_refl: "untouched s s"
  by (simp add: untouched_def)

interpretation un: protected UNIV "untouched s0" for s0
proof unfold_locales
  fix s s' assume u: "untouched s0 s" and k: "\<And>p. p \<in> UNIV \<Longrightarrow> s p \<noteq> None \<Longrightarrow> same (s p) (s' p)"
  show "untouched s0 s'"
    unfolding untouched_def
  proof (intro allI impI)
    fix p assume p: "s0 p \<noteq> None"
    show "same (s0 p) (s' p)" using untouched_there [OF u p] same_trans k by blast
  qed
qed

lemma plain_silent: "plain (\<lambda>op. \<not> starts_child op)"
  by (simp add: plain_def)

lemma preparation:
  assumes "plain R" "protected Y G"
  shows "steady R G L (pub_bundle P)" "steady R G L (make_store P store username)"
proof -
  note calls = protected.steady_calls [OF assms(2,1)] protected.steady_state [OF assms(2,1)]
  show "steady R G L (pub_bundle P)" unfolding pub_bundle_def by (intro steady_rules steady_seq calls)
  show "steady R G L (make_store P store username)" unfolding make_store_def Let_def by (intro steady_seq calls)
qed

text \<open>The lock file is the only file that is made, and it is not a print.\<close>

definition none_pending :: "(pub_locals \<Rightarrow> bool)" where
  "none_pending l \<longleftrightarrow> unpublished l = None"

definition refuses :: "fs \<Rightarrow> ('o, int) pub_prog \<Rightarrow> bool" where
  "refuses s0 m \<longleftrightarrow> triple (\<lambda>(op, s). \<not> starts_child op \<and> untouched s0 s) (only (untouched s0) none_pending) m
     (\<lambda>r w. r \<noteq> 0 \<and> only (untouched s0) none_pending w) (\<lambda>_. only (untouched s0) none_pending)"

lemma refuses_seq: "steady (\<lambda>op. \<not> starts_child op) (untouched s0) none_pending m \<Longrightarrow> refuses s0 n \<Longrightarrow> refuses s0 (pseq m n)"
  unfolding steady_def refuses_def by (rule triple_seq)

lemma refuses_bind: "steady (\<lambda>op. \<not> starts_child op) (untouched s0) none_pending m \<Longrightarrow> (\<And>x. refuses s0 (f x)) \<Longrightarrow> refuses s0 (pbind m f)"
  unfolding steady_def refuses_def by (rule triple_bind)

lemma refuses_ret: "r \<noteq> 0 \<Longrightarrow> refuses s0 (ret r)"
  unfolding refuses_def by (rule triple_ret) simp

lemma locked_refuses:
  fixes P :: "'o publisher"
  assumes "has_print device s0"
  shows "refuses s0 (pub_locked P state args device target)"
  unfolding pub_locked_def refuses_def
proof (rule triple_bind [where R = "\<lambda>there w. there \<and> only (untouched s0) none_pending w"])
  let ?C = "\<lambda>(op, s). \<not> starts_child op \<and> untouched s0 s"
  let ?J = "only (untouched s0) none_pending"
  have "has_print device s" if "untouched s0 s" for s
    using assms untouched_there [OF that] unfolding has_print_def lexists_def list_ex_iff by blast
  then show "triple ?C ?J (look (\<lambda>w. has_print device (fs w))) (\<lambda>there w. there \<and> ?J w) (\<lambda>_. ?J)"
    by (intro triple_look) (auto simp: only_def)
  show "triple ?C (\<lambda>w. there \<and> ?J w) (if there then ret 2 else m) (\<lambda>r w. r \<noteq> 0 \<and> ?J w) (\<lambda>_. ?J)"
    for there and m :: "('o, int) pub_prog"
    by (rule triple_fact [where F = there]) (auto intro: triple_ret)
qed

lemma drop_none: "steady R I none_pending (drop_unpublished P)"
  by (auto simp: steady_def triple_def only_def none_pending_def drop_unpublished_def get_local_def run_defs pbind_def look_def ret_def)

lemma main_refuses:
  assumes "split_places arguments = (store, state, args)" "has_print (device_store (to_path store) (args ! 1)) (fs w)"
  shows "(\<forall>(op, s) \<in> set (trace_of (pub_main P arguments) w). \<not> starts_child op \<and> untouched (fs w) s)
    \<and> result_of (pub_main P arguments) w \<noteq> Inr 0"
proof -
  let ?C = "\<lambda>(op, s). \<not> starts_child op \<and> untouched (fs w) s"
  let ?J = "only (untouched (fs w)) none_pending"
  have b: "refuses (fs w) (pub_body P (to_path store) (to_path state) args)"
    unfolding pub_body_def Let_def
    by (intro refuses_seq refuses_bind steady_basic preparation [OF plain_silent un.protected_axioms] un.steady_calls plain_silent
        locked_refuses assms(2))
  have f: "triple ?C ?J (pfinally (pcatch (pub_body P (to_path store) (to_path state) args) user_failed) (drop_unpublished P))
      (\<lambda>r w. r \<noteq> 0 \<and> ?J w) (\<lambda>_. ?J)"
  proof (rule triple_finally [where R = "\<lambda>r w. r \<noteq> 0 \<and> ?J w" and S = "\<lambda>_. ?J"])
    show "triple ?C ?J (pcatch (pub_body P (to_path store) (to_path state) args) user_failed) (\<lambda>r w. r \<noteq> 0 \<and> ?J w) (\<lambda>_. ?J)"
      using b unfolding refuses_def by (rule triple_catch) (auto dest!: user_failed_ret intro: triple_ret)
    show "triple ?C (\<lambda>w. r \<noteq> 0 \<and> ?J w) (drop_unpublished P) (\<lambda>_ w. r \<noteq> 0 \<and> ?J w) (\<lambda>_. ?J)" for r :: int
      by (rule triple_fact [where F = "r \<noteq> 0"], simp, rule triple_weaken [OF drop_none [unfolded steady_def]]) auto
    show "triple ?C ?J (drop_unpublished P) (\<lambda>_. ?J) (\<lambda>_. ?J)" by (rule drop_none [unfolded steady_def])
  qed
  have "triple ?C (\<lambda>v. fs v = fs w) (pub_main P arguments) (\<lambda>r w. r \<noteq> 0) (\<lambda>_ _. True)"
    unfolding pub_main_def assms(1)
    by (auto intro!: triple_if triple_ret triple_seq [where R = ?J] triple_set_local triple_weaken [OF f]
        simp: only_def none_pending_def untouched_refl)
  from tripleD [OF this, of w] show ?thesis by auto
qed

subsection \<open>A pending export\<close>

definition starts_python :: "sys_op \<Rightarrow> bool" where
  "starts_python op \<longleftrightarrow> (case op of Spawn c \<Rightarrow> take 1 c = [''python3''] | _ \<Rightarrow> False)"

definition exported :: "path \<Rightarrow> node \<Rightarrow> fs \<Rightarrow> bool" where
  "exported db n s \<longleftrightarrow> same (Some n) (s db)"

definition printed :: "path \<Rightarrow> fs \<Rightarrow> bool" where
  "printed device s \<longleftrightarrow> list_ex (\<lambda>v. case s (device @ [print_name v]) of None \<Rightarrow> False | Some n \<Rightarrow> n_durable n) [1..<11]"

definition prints :: "path \<Rightarrow> path set" where
  "prints device = {device @ [print_name v] |v. v \<in> {1..<11}}"

definition temp_form :: "path \<Rightarrow> pub_locals \<Rightarrow> bool" where
  "temp_form device l \<longleftrightarrow> (\<forall>t. unpublished l = Some t \<longrightarrow> (\<exists>x. t = device @ [''.fpc-publish-'' @ x]))"

interpretation ex: protected "{db}" "exported db n" for db n
proof unfold_locales
  fix s s' assume e: "exported db n s" and k: "\<And>p. p \<in> {db} \<Longrightarrow> s p \<noteq> None \<Longrightarrow> same (s p) (s' p)"
  have "s db \<noteq> None" using e by (cases "s db") (simp_all add: exported_def)
  then show "exported db n s'" using e k [of db] same_trans by (auto simp: exported_def)
qed

interpretation pr: protected "prints device" "printed device" for device
proof unfold_locales
  fix s s' assume p: "printed device s" and k: "\<And>p. p \<in> prints device \<Longrightarrow> s p \<noteq> None \<Longrightarrow> same (s p) (s' p)"
  from p obtain v n where v: "v \<in> set [1..<11]" "s (device @ [print_name v]) = Some n" "n_durable n"
    by (auto simp: printed_def list_ex_iff split: option.splits)
  have "device @ [print_name v] \<in> prints device" using v(1) by (auto simp: prints_def)
  from k [OF this] v(2) have "same (s (device @ [print_name v])) (s' (device @ [print_name v]))" by simp
  from same_durable [of s "device @ [print_name v]", OF v(2,3) this] v(1) show "printed device s'"
    unfolding printed_def list_ex_iff by (intro bexI [of _ v]) auto
qed

interpretation kp: protected "insert db (prints device)" "\<lambda>s. exported db n s \<or> printed device s" for db device n
proof unfold_locales
  fix s s' assume g: "exported db n s \<or> printed device s"
    and k: "\<And>p. p \<in> insert db (prints device) \<Longrightarrow> s p \<noteq> None \<Longrightarrow> same (s p) (s' p)"
  show "exported db n s' \<or> printed device s'"
    using g ex.kept [of db n s s'] pr.kept [of device s s'] k by blast
qed

lemma plain_python: "plain (\<lambda>op. \<not> starts_python op)"
  by (simp add: plain_def starts_python_def starts_child_def split: sys_op.splits)

lemma publish_names:
  "device @ [''.fpc-publish-'' @ x] \<notin> prints device" "device @ [''.fpc-publish-'' @ x] \<noteq> database_file username"
  "device @ [''.fpc-publish-'' @ x] \<noteq> device @ [print_name v]" "database_file username \<notin> prints device" 
  "ready_file username \<notin> prints device" "database_file username \<noteq> ready_file username"
  "device @ [print_name v] \<noteq> database_file username" "device @ [print_name v] \<noteq> ready_file username"
  by (auto simp: prints_def print_name_def database_file_def ready_file_def)

lemma reuse_steady:
  assumes "plain R" "protected Y G"
  shows "steady R G L (reuse_export P username finger)"
  unfolding reuse_export_def
  by (intro steady_rules steady_seq protected.steady_calls [OF assms(2,1)] protected.steady_state [OF assms(2,1)])

subsection \<open>The publication of a print\<close>

lemma triple_both:
  assumes "triple C P m Q E" "triple C' P' m Q' E'"
  shows "triple C (\<lambda>w. P w \<and> P' w) m (\<lambda>x w. Q x w \<and> Q' x w) E"
proof (rule tripleI)
  fix w assume w: "P w \<and> P' w"
  note a = tripleD [OF assms(1), of w] and b = tripleD [OF assms(2), of w]
  show "(\<forall>ev \<in> set (trace_of m w). C ev)
     \<and> (case result_of m w of Inr x \<Rightarrow> Q x (world_of m w) \<and> Q' x (world_of m w) | Inl e \<Rightarrow> E e (world_of m w))"
    using w a b by (auto split: sum.split)
qed

definition installed :: "(kind \<times> int \<times> int \<times> int \<times> bytes \<Rightarrow> bool) \<Rightarrow> path \<Rightarrow> fs \<Rightarrow> bool" where
  "installed F target s \<longleftrightarrow> (\<exists>n. s target = Some n \<and> F (core n) \<and> n_durable n)"

lemma install_steps:
  fixes K :: "'o kernel"
  assumes "temp \<noteq> target" "target = device @ [x]"
  shows "triple (\<lambda>_. True) (\<lambda>w :: ('l, 'o) process. \<forall>n. fs w temp = Some n \<longrightarrow> F (core n)) (sys_fsync K temp)
      (\<lambda>_ w. \<forall>n. fs w temp = Some n \<longrightarrow> F (core n) \<and> n_flushed n) (\<lambda>_ _. True)"
    and "triple (\<lambda>_. True) (\<lambda>w :: ('l, 'o) process. \<forall>n. fs w temp = Some n \<longrightarrow> F (core n) \<and> n_flushed n) (sys_link K temp target)
      (\<lambda>_ w. \<exists>n. fs w target = Some n \<and> F (core n) \<and> n_flushed n) (\<lambda>_ _. True)"
    and "triple (\<lambda>_. True) (\<lambda>w :: ('l, 'o) process. \<exists>n. fs w target = Some n \<and> F (core n) \<and> n_flushed n) (sys_unlink K temp)
      (\<lambda>_ w. \<exists>n. fs w target = Some n \<and> F (core n) \<and> n_flushed n) (\<lambda>_ _. True)"
    and "triple (\<lambda>_. True) (\<lambda>w :: ('l, 'o) process. \<exists>n. fs w target = Some n \<and> F (core n) \<and> n_flushed n) (set_local f)
      (\<lambda>_ w. \<exists>n. fs w target = Some n \<and> F (core n) \<and> n_flushed n) (\<lambda>_ _. True)"
    and "triple (\<lambda>_. True) (\<lambda>w :: ('l, 'o) process. \<exists>n. fs w target = Some n \<and> F (core n) \<and> n_flushed n) (sys_sync_dir K device)
      (\<lambda>_ w. installed F target (fs w)) (\<lambda>_ _. True)"
proof -
  let ?A = "\<lambda>w :: ('l, 'o) process. \<forall>n. fs w temp = Some n \<longrightarrow> F (core n)"
  let ?B = "\<lambda>w :: ('l, 'o) process. \<forall>n. fs w temp = Some n \<longrightarrow> F (core n) \<and> n_flushed n"
  let ?D = "\<lambda>w :: ('l, 'o) process. \<exists>n. fs w target = Some n \<and> F (core n) \<and> n_flushed n"
  show "triple (\<lambda>_. True) ?A (sys_fsync K temp) (\<lambda>_. ?B) (\<lambda>_ _. True)"
    unfolding sys_fsync_def by (rule triple_syscall) (auto simp: flush_def core_def split: option.splits)
  show "triple (\<lambda>_. True) ?B (sys_link K temp target) (\<lambda>_. ?D) (\<lambda>_ _. True)"
    unfolding sys_link_def by (rule triple_syscall) (auto simp: core_def split: option.splits)
  show "triple (\<lambda>_. True) ?D (sys_unlink K temp) (\<lambda>_. ?D) (\<lambda>_ _. True)"
    unfolding sys_unlink_def by (rule triple_syscall) (use assms(1) in \<open>auto split: if_splits\<close>)
  show "triple (\<lambda>_. True) ?D (set_local f) (\<lambda>_. ?D) (\<lambda>_ _. True)"
    by (rule triple_set_local) simp
  show "triple (\<lambda>_. True) ?D (sys_sync_dir K device) (\<lambda>_ w. installed F target (fs w)) (\<lambda>_ _. True)"
    unfolding sys_sync_dir_def by (rule triple_syscall) (auto simp: settle_def installed_def core_def assms(2))
qed

lemma installed_printed: "installed F (device @ [print_name v]) s \<Longrightarrow> v \<in> set [1..<11] \<Longrightarrow> printed device s"
  unfolding installed_def printed_def list_ex_iff by (rule bexI [of _ v]) auto

text \<open>Until the print is durable the export stays; then it goes.\<close>

lemma install_keeps:
  fixes P :: "'o publisher"
  assumes "v \<in> set [1..<11]" "temp = device @ [''.fpc-publish-'' @ x]" "db = database_file username"
  shows "triple (\<lambda>(op, s). \<not> starts_python op \<and> (exported db n s \<or> printed device s))
    (only (\<lambda>s. exported db n s \<or> printed device s) (temp_form device)) (install_print P username device temp (device @ [print_name v]))
    (\<lambda>_. only (\<lambda>s. exported db n s \<or> printed device s) (temp_form device))
    (\<lambda>_. only (\<lambda>s. exported db n s \<or> printed device s) (temp_form device))"
proof -
  let ?I = "\<lambda>s. exported db n s \<or> printed device s" and ?t = "device @ [print_name v]"
  let ?C = "\<lambda>(op, s). \<not> starts_python op \<and> ?I s"
  let ?J = "only ?I (temp_form device) :: (pub_locals, 'o) process \<Rightarrow> bool"
  let ?F = "\<lambda>c :: kind \<times> int \<times> int \<times> int \<times> bytes. True"
  have temp: "temp \<notin> insert db (prints device)" "temp \<noteq> ?t"
    using publish_names(1,2,3) by (simp_all add: assms(2,3))
  note kept = kp.steady_changes(1,2) [OF plain_python temp(1), unfolded steady_def]
    kp.steady_calls(6,9) [OF plain_python, unfolded steady_def]
    steady_local [where R = "\<lambda>op. \<not> starts_python op" and I = ?I and L = "temp_form device" and f = "\<lambda>_. \<lparr>unpublished = None\<rparr>", unfolded steady_def]
  note steps = install_steps [OF temp(2) refl, where F = ?F]
  have tail: "triple ?C (\<lambda>w. ?J w \<and> installed ?F ?t (fs w))
      (pseq (sys_unlink (pub_kernel P) (database_file username)) (pseq (sys_unlink (pub_kernel P) (ready_file username)) (pseq (sys_print (pub_kernel P) l) (ret 0))))
      (\<lambda>_. ?J) (\<lambda>_. ?J)" for l
  proof (rule triple_weaken)
    show "triple (\<lambda>(op, s). \<not> starts_python op \<and> printed device s) (only (printed device) (temp_form device))
      (pseq (sys_unlink (pub_kernel P) (database_file username)) (pseq (sys_unlink (pub_kernel P) (ready_file username)) (pseq (sys_print (pub_kernel P) l) (ret 0))))
      (\<lambda>_. only (printed device) (temp_form device)) (\<lambda>_. only (printed device) (temp_form device))"
      using publish_names(4,5)
      by (fold steady_def) (intro steady_seq steady_basic pr.steady_changes pr.steady_calls plain_python)
  qed (auto simp: only_def intro: installed_printed assms(1))
  show ?thesis
    unfolding install_print_def Let_def
    by (rule triple_pre, (rule triple_seq, rule triple_both [OF _ steps(1)], rule kept(1)),
        (rule triple_seq, rule triple_both [OF _ steps(2)], rule kept(4)),
        (rule triple_seq, rule triple_both [OF _ steps(3)], rule kept(2)),
        (rule triple_seq, rule triple_both [OF _ steps(4)], rule kept(5), simp add: temp_form_def),
        (rule triple_seq, rule triple_both [OF _ steps(5)], rule kept(3)), rule tail, simp)
qed

lemma serializer_steady:
  assumes "temp \<notin> insert db (prints device)"
  shows "steady (\<lambda>op. \<not> starts_python op) (\<lambda>s. exported db n s \<or> printed device s) L (run_serializer P (serialize_command P args) data temp)"
proof -
  have c: "\<not> starts_python (Spawn (serialize_command P args))"
    by (simp add: starts_python_def serialize_command_def path_text_def)
  have p: "exported db n (put temp out s) \<or> printed device (put temp out s)" if "exported db n s \<or> printed device s" for out s
    using kp.upd [OF that assms] that by (simp add: put_def split: option.split)
  have r: "steady (\<lambda>op. \<not> starts_python op) (\<lambda>s. exported db n s \<or> printed device s) L
      (\<lambda>w. case serializer P command data (choices w) of ((status, out), o') \<Rightarrow>
        ([(Ran command status [], put temp out (fs w))], w\<lparr>fs := put temp out (fs w), choices := o'\<rparr>, Inr (status, ())))" for command
    using p by (auto simp: steady_def triple_def only_def run_defs starts_python_def split: prod.splits)
  show ?thesis
    unfolding run_serializer_def guarded_run_def
    by (intro steady_rules steady_seq steady_syscall c r) (simp_all add: unchanged_def)
qed

lemma pub_publish_keeps:
  fixes P :: "'o publisher"
  assumes "v \<in> set [1..<11]" "db = database_file (args ! 1)"
  shows "triple (\<lambda>(op, s). \<not> starts_python op \<and> (exported db n s \<or> printed device s))
    (only (\<lambda>s. exported db n s \<or> printed device s) (temp_form device)) (publish_export P args device (device @ [print_name v]))
    (\<lambda>_. only (\<lambda>s. exported db n s \<or> printed device s) (temp_form device))
    (\<lambda>_. only (\<lambda>s. exported db n s \<or> printed device s) (temp_form device))"
  unfolding publish_export_def Let_def
proof (fold steady_def, rule steady_bind)
  let ?R = "\<lambda>op. \<not> starts_python op" and ?I = "\<lambda>s. exported db n s \<or> printed device s"
  let ?C = "\<lambda>(op, s). ?R op \<and> ?I s" and ?J = "only ?I (temp_form device) :: (pub_locals, 'o) process \<Rightarrow> bool"
  let ?rest = "\<lambda>database temp. pseq (set_local (\<lambda>_. \<lparr>unpublished = Some temp\<rparr>)) (pseq (sys_chmod (pub_kernel P) temp)
     (pbind (run_serializer P (serialize_command P args) (n_data database) temp) (\<lambda>(status, u).
      if status \<noteq> 0 then ret status
      else pbind (is_cancelled (pub_kernel P)) (\<lambda>c. pbind (look (\<lambda>w. file_size temp (fs w))) (\<lambda>size.
        if c \<or> size \<le> 3 then ret 1 else install_print P (args ! 1) device temp (device @ [print_name v]))))))"
  show "steady ?R ?I (temp_form device) (sys_open (pub_kernel P) (database_file (args ! 1)))"
    by (rule kp.steady_calls [OF plain_python])
  fix database
  show "steady ?R ?I (temp_form device) (pbind (sys_mkstemp (pub_kernel P) device ''.fpc-publish-'') (?rest database))"
    unfolding steady_def
  proof (rule triple_bind)
    show "triple ?C ?J (sys_mkstemp (pub_kernel P) device ''.fpc-publish-'')
        (\<lambda>temp w. ?J w \<and> (\<exists>x. temp = device @ [''.fpc-publish-'' @ x])) (\<lambda>_. ?J)"
    proof (rule triple_mkstemp)
      show "triple ?C ?J (sys_create_excl (pub_kernel P) (device @ [''.fpc-publish-'' @ x]))
          (\<lambda>_ w. ?J w \<and> (\<exists>y. device @ [''.fpc-publish-'' @ x] = device @ [''.fpc-publish-'' @ y])) (\<lambda>_. ?J)" for x
        by (rule triple_weaken [OF kp.steady_calls(5) [OF plain_python, unfolded steady_def]]) auto
    qed simp
    fix temp
    show "triple ?C (\<lambda>w. ?J w \<and> (\<exists>x. temp = device @ [''.fpc-publish-'' @ x])) (?rest database temp) (\<lambda>_. ?J) (\<lambda>_. ?J)"
    proof (rule triple_fact [where F = "\<exists>x. temp = device @ [''.fpc-publish-'' @ x]"])
      assume "\<exists>x. temp = device @ [''.fpc-publish-'' @ x]"
      then obtain x where t: "temp = device @ [''.fpc-publish-'' @ x]" by blast
      have y: "temp \<notin> insert db (prints device)" using publish_names(1,2) by (simp add: t assms(2))
      have "steady ?R ?I (temp_form device) (?rest database temp)"
        by (intro steady_seq steady_bind steady_cases steady_basic steady_local kp.steady_changes(3) [OF plain_python y] serializer_steady [OF y]
            install_keeps [OF assms(1) t assms(2), folded steady_def]) (simp add: temp_form_def t)
      then show "triple ?C (\<lambda>w. ?J w \<and> (\<exists>x. temp = device @ [''.fpc-publish-'' @ x])) (?rest database temp) (\<lambda>_. ?J) (\<lambda>_. ?J)"
        unfolding steady_def by (rule triple_pre) simp
    qed simp
  qed
qed

lemma index_bound: "index_of x ys = Inr i \<Longrightarrow> i < length ys"
  by (induction x ys arbitrary: i rule: index_of.induct) (auto simp: ebind_def split: if_splits sum.splits)

lemma finger_range: "index_of x FINGERS = Inr i \<Longrightarrow> i + 1 \<in> set [1..<11]"
  using index_bound [of x FINGERS i] by (simp add: FINGERS_def)

lemma export_steady:
  assumes "steady (\<lambda>op. \<not> starts_python op) (exported db n) L m"
  shows "triple (\<lambda>(op, s). \<not> starts_python op \<and> (exported db n s \<or> printed device s)) (only (exported db n) L) m
    (\<lambda>_. only (exported db n) L) (\<lambda>_. only (\<lambda>s. exported db n s \<or> printed device s) L)"
  using steady_weaken [OF assms, of "\<lambda>s. exported db n s \<or> printed device s"] by simp

lemma locked_keeps:
  fixes P :: "'o publisher"
  assumes "v \<in> set [1..<11]" "db = database_file (args ! 1)"
  shows "triple (\<lambda>(op, s). \<not> starts_python op \<and> (exported db n s \<or> printed device s)) (only (exported db n) (temp_form device))
    (pub_locked P state args device (device @ [print_name v]))
    (\<lambda>_. only (\<lambda>s. exported db n s \<or> printed device s) (temp_form device))
    (\<lambda>_. only (\<lambda>s. exported db n s \<or> printed device s) (temp_form device))"
  unfolding pub_locked_def
proof (rule triple_bind [OF export_steady [OF steady_basic(3)]], rule triple_if)
  let ?C = "\<lambda>(op, s). \<not> starts_python op \<and> (exported db n s \<or> printed device s)"
  let ?G = "only (exported db n) (temp_form device) :: (pub_locals, 'o) process \<Rightarrow> bool"
  let ?J = "only (\<lambda>s. exported db n s \<or> printed device s) (temp_form device) :: (pub_locals, 'o) process \<Rightarrow> bool"
  have up: "?G w \<Longrightarrow> ?J w" for w by (simp add: only_def)
  show "triple ?C ?G (ret 2) (\<lambda>_. ?J) (\<lambda>_. ?J)" by (rule triple_ret) (rule up)
  let ?publish = "\<lambda>status. if status \<noteq> 0 then ret status else publish_export P args device (device @ [print_name v])"
  show "triple ?C ?G (pseq (private_directory (pub_kernel P) (pending_dir (args ! 1)))
      (pbind (look (\<lambda>w. lexists (database_file (args ! 1)) (fs w))) (\<lambda>export.
       pbind (if export then reuse_export P (args ! 1) (args ! 2) else enrol_export P state args) ?publish))) (\<lambda>_. ?J) (\<lambda>_. ?J)"
  proof (rule triple_seq [OF export_steady [OF ex.steady_state(2) [OF plain_python]]], rule triple_bind)
    have "exported db n s \<Longrightarrow> lexists (database_file (args ! 1)) s" for s
      by (cases "s db") (simp_all add: exported_def lexists_def assms(2))
    then show "triple ?C ?G (look (\<lambda>w. lexists (database_file (args ! 1)) (fs w))) (\<lambda>export w. export \<and> ?G w) (\<lambda>_. ?J)"
      by (intro triple_look) (simp add: only_def)
    fix export
    show "triple ?C (\<lambda>w. export \<and> ?G w)
        (pbind (if export then reuse_export P (args ! 1) (args ! 2) else enrol_export P state args) ?publish) (\<lambda>_. ?J) (\<lambda>_. ?J)"
    proof (rule triple_fact [where F = export])
      assume e: export
      have "triple ?C ?G (pbind (reuse_export P (args ! 1) (args ! 2)) ?publish) (\<lambda>_. ?J) (\<lambda>_. ?J)"
        by (rule triple_bind [OF export_steady [OF reuse_steady [OF plain_python ex.protected_axioms]]], rule triple_if)
          (auto intro: triple_ret triple_pre [OF pub_publish_keeps [where P = P, OF assms]] up)
      then show "triple ?C (\<lambda>w. export \<and> ?G w)
          (pbind (if export then reuse_export P (args ! 1) (args ! 2) else enrol_export P state args) ?publish) (\<lambda>_. ?J) (\<lambda>_. ?J)"
        using e by simp
    qed simp
  qed
qed

lemma pub_body_keeps:
  fixes P :: "'o publisher"
  assumes "device = device_store store (args ! 1)" "db = database_file (args ! 1)"
  shows "triple (\<lambda>(op, s). \<not> starts_python op \<and> (exported db n s \<or> printed device s)) (only (exported db n) (temp_form device))
    (pub_body P store state args)
    (\<lambda>_. only (\<lambda>s. exported db n s \<or> printed device s) (temp_form device))
    (\<lambda>_. only (\<lambda>s. exported db n s \<or> printed device s) (temp_form device))"
  unfolding pub_body_def Let_def assms(1) [symmetric]
proof (rule triple_seq [OF export_steady [OF steady_basic(5)]], cases "index_of (args ! 2) FINGERS")
  let ?C = "\<lambda>(op, s). \<not> starts_python op \<and> (exported db n s \<or> printed device s)"
  let ?G = "only (exported db n) (temp_form device) :: (pub_locals, 'o) process \<Rightarrow> bool"
  let ?J = "only (\<lambda>s. exported db n s \<or> printed device s) (temp_form device) :: (pub_locals, 'o) process \<Rightarrow> bool"
  let ?m = "\<lambda>finger. pseq (pub_bundle P) (pseq (make_store P store (args ! 1))
    (pseq (sys_create (pub_kernel P) (device @ [''.operation.lock''])) (pseq (sys_lock (pub_kernel P) (device @ [''.operation.lock'']))
    (pub_locked P state args device (device @ [print_name (finger + 1)])))))"
  case (Inl e)
  then show "triple ?C ?G (pbind (lift (index_of (args ! 2) FINGERS)) ?m) (\<lambda>_. ?J) (\<lambda>_. ?J)"
    by (auto simp: lift_Inl only_def intro: triple_raise)
next
  let ?C = "\<lambda>(op, s). \<not> starts_python op \<and> (exported db n s \<or> printed device s)"
  let ?G = "only (exported db n) (temp_form device) :: (pub_locals, 'o) process \<Rightarrow> bool"
  let ?J = "only (\<lambda>s. exported db n s \<or> printed device s) (temp_form device) :: (pub_locals, 'o) process \<Rightarrow> bool"
  case (Inr finger)
  note prep = preparation [OF plain_python ex.protected_axioms]
  show "triple ?C ?G (pbind (lift (index_of (args ! 2) FINGERS)) (\<lambda>finger. pseq (pub_bundle P) (pseq (make_store P store (args ! 1))
    (pseq (sys_create (pub_kernel P) (device @ [''.operation.lock''])) (pseq (sys_lock (pub_kernel P) (device @ [''.operation.lock'']))
    (pub_locked P state args device (device @ [print_name (finger + 1)]))))))) (\<lambda>_. ?J) (\<lambda>_. ?J)"
    unfolding Inr lift_Inr
    by (rule triple_seq [OF export_steady [OF prep(1)]], rule triple_seq [OF export_steady [OF prep(2)]],
        rule triple_seq [OF export_steady [OF ex.steady_calls(4) [OF plain_python]]],
        rule triple_seq [OF export_steady [OF ex.steady_calls(8) [OF plain_python]]],
        rule locked_keeps [OF finger_range [OF Inr] assms(2)])
qed

lemma main_keeps:
  fixes P :: "'o publisher"
  assumes "split_places arguments = (store, state, args)" "device = device_store (to_path store) (args ! 1)" "db = database_file (args ! 1)"
  shows "triple (\<lambda>(op, s). \<not> starts_python op \<and> (exported db n s \<or> printed device s)) (\<lambda>w. exported db n (fs w))
    (pub_main P arguments) (\<lambda>_ w. exported db n (fs w) \<or> printed device (fs w)) (\<lambda>_ w. exported db n (fs w) \<or> printed device (fs w))"
proof -
  let ?C = "\<lambda>(op, s). \<not> starts_python op \<and> (exported db n s \<or> printed device s)"
  let ?G = "only (exported db n) (temp_form device) :: (pub_locals, 'o) process \<Rightarrow> bool"
  let ?J = "only (\<lambda>s. exported db n s \<or> printed device s) (temp_form device) :: (pub_locals, 'o) process \<Rightarrow> bool"
  have f: "temp \<notin> insert db (prints device)" if t: "temp_form device l" "unpublished l = Some temp" for l temp
  proof -
    obtain x where "temp = device @ [''.fpc-publish-'' @ x]" using t unfolding temp_form_def by blast
    then show ?thesis using publish_names(1,2) by (simp add: assms(3))
  qed
  have drop: "triple ?C ?J (drop_unpublished P) (\<lambda>_. ?J) (\<lambda>_. ?J)"
    unfolding drop_unpublished_def
  proof (rule triple_bind)
    show "triple ?C ?J (get_local unpublished) (\<lambda>t w. ?J w \<and> (\<forall>temp. t = Some temp \<longrightarrow> temp \<notin> insert db (prints device))) (\<lambda>_. ?J)"
      using f by (intro triple_get_local) (simp add: only_def, blast)
    show "triple ?C (\<lambda>w. ?J w \<and> (\<forall>temp. t = Some temp \<longrightarrow> temp \<notin> insert db (prints device)))
        (case t of None \<Rightarrow> ret () | Some temp \<Rightarrow> sys_unlink (pub_kernel P) temp) (\<lambda>_. ?J) (\<lambda>_. ?J)" for t
      by (rule triple_fact [where F = "\<forall>temp. t = Some temp \<longrightarrow> temp \<notin> insert db (prints device)"], simp, cases t)
        (auto intro: triple_ret triple_pre [OF kp.steady_changes(2) [OF plain_python, unfolded steady_def]])
  qed
  have "triple ?C ?G (pcatch (pub_body P (to_path store) (to_path state) args) user_failed) (\<lambda>_. ?J) (\<lambda>_. ?J)"
    using pub_body_keeps [where P = P and state = "to_path state", OF assms(2,3)]
    by (rule triple_catch) (auto dest!: user_failed_ret intro: triple_ret)
  then have "triple ?C ?G (pfinally (pcatch (pub_body P (to_path store) (to_path state) args) user_failed) (drop_unpublished P)) (\<lambda>_. ?J) (\<lambda>_. ?J)"
    by (rule triple_finally [OF _ drop drop])
  note fin = this
  let ?I = "\<lambda>w :: (pub_locals, 'o) process. exported db n (fs w) \<or> printed device (fs w)"
  have run: "triple ?C (\<lambda>w. exported db n (fs w)) (pseq (set_local (\<lambda>_. \<lparr>unpublished = None\<rparr>))
      (pfinally (pcatch (pub_body P (to_path store) (to_path state) args) user_failed) (drop_unpublished P))) (\<lambda>_. ?I) (\<lambda>_. ?I)"
  proof (rule triple_seq [where R = ?G])
    show "triple ?C (\<lambda>w. exported db n (fs w)) (set_local (\<lambda>_. \<lparr>unpublished = None\<rparr>)) (\<lambda>_. ?G) (\<lambda>_. ?I)"
      by (rule triple_set_local) (simp add: only_def temp_form_def)
    show "triple ?C ?G (pfinally (pcatch (pub_body P (to_path store) (to_path state) args) user_failed) (drop_unpublished P)) (\<lambda>_. ?I) (\<lambda>_. ?I)"
      by (rule triple_weaken [OF fin]) (simp_all add: only_def)
  qed
  show ?thesis
    unfolding pub_main_def assms(1) prod.case by (intro triple_if run triple_ret) simp
qed

text \<open>C15. A user who has a print in the store is refused: nothing is started, no file that was there is
  changed at any moment of the run, and the status is not 0.\<close>

theorem existing_print_refused:
  assumes "split_places arguments = (store, state, args)" "has_print (device_store (to_path store) (args ! 1)) (fs w)"
  shows "(\<forall>(op, s) \<in> set (trace_of (pub_main P arguments) w). \<not> starts_child op \<and> untouched (fs w) s)
    \<and> result_of (pub_main P arguments) w \<noteq> Inr 0"
  using main_refuses [OF assms] .

text \<open>C11. An export that is pending is neither lost nor repeated: at every moment of the run, and so
  wherever it is killed, the export is still there as it was or a print of the user is durable in the
  store, and no other enrolment is started.\<close>

theorem pending_export_kept:
  assumes "split_places arguments = (store, state, args)" "fs w (database_file (args ! 1)) = Some n"
  shows "(\<forall>(op, s) \<in> set (trace_of (pub_main P arguments) w). \<not> starts_python op
      \<and> (exported (database_file (args ! 1)) n s \<or> printed (device_store (to_path store) (args ! 1)) s))
    \<and> (exported (database_file (args ! 1)) n (fs (world_of (pub_main P arguments) w))
      \<or> printed (device_store (to_path store) (args ! 1)) (fs (world_of (pub_main P arguments) w)))"
proof -
  have "exported (database_file (args ! 1)) n (fs w)" using assms(2) by (simp add: exported_def)
  note t = tripleD [OF main_keeps [OF assms(1) refl refl, where P = P], where w = w, OF this]
  show ?thesis using t(1,2,3) by (cases "result_of (pub_main P arguments) w") auto
qed

end
