(* ===== verification/PublishOutcome.thy ===== *)
theory PublishOutcome
  imports PublishSafety
begin

text \<open>What status 0 of \<^verbatim>\<open>enrol_publish.py\<close> means.\<close>

definition print_ok :: "kind \<times> int \<times> int \<times> int \<times> bytes \<Rightarrow> bool" where
  "print_ok c = (case c of (kind, uid, gid, mode, data) \<Rightarrow> kind = Regular \<and> uid = 0 \<and> gid = 0 \<and> mode = FILE_MODE \<and> 3 < length data)"

definition done_for :: "string \<Rightarrow> path \<Rightarrow> fs \<Rightarrow> bool" where
  "done_for username target s \<longleftrightarrow> installed print_ok target s \<and> s (database_file username) = None \<and> s (ready_file username) = None"

text \<open>The result 0 only when all is done and no temporary file is left to drop.\<close>

definition succeeds :: "string \<Rightarrow> path \<Rightarrow> ('o, int) pub_prog \<Rightarrow> bool" where
  "succeeds username target m \<longleftrightarrow> triple (\<lambda>_. True) (\<lambda>_. True) m
     (\<lambda>r w. r = 0 \<longrightarrow> done_for username target (fs w) \<and> none_pending (locals w)) (\<lambda>_ _. True)"

lemma succeeds_rules:
  "r \<noteq> 0 \<Longrightarrow> succeeds username target (ret r)" "succeeds username target (raise e)"
  "(\<And>x. succeeds username target (f x)) \<Longrightarrow> succeeds username target (pbind m f)"
  "succeeds username target n \<Longrightarrow> succeeds username target (pseq k n)"
  "(b \<Longrightarrow> succeeds username target n) \<Longrightarrow> (\<not> b \<Longrightarrow> succeeds username target k') \<Longrightarrow> succeeds username target (if b then n else k')"
proof -
  show "(\<And>x. succeeds username target (f x)) \<Longrightarrow> succeeds username target (pbind m f)"
    "succeeds username target n \<Longrightarrow> succeeds username target (pseq k n)"
    unfolding succeeds_def pseq_def by (rule triple_bind [OF anything], simp)+
qed (simp_all add: succeeds_def triple_ret triple_raise)

lemma install_succeeds:
  fixes P :: "'o publisher"
  assumes "temp \<noteq> target" "target = device @ [print_name v]"
  shows "triple (\<lambda>_. True) (\<lambda>w. \<forall>n. fs w temp = Some n \<longrightarrow> print_ok (core n)) (install_print P username device temp target)
    (\<lambda>r w. r = 0 \<longrightarrow> done_for username target (fs w) \<and> none_pending (locals w)) (\<lambda>_ _. True)"
proof -
  let ?T = "\<lambda>_. True" and ?N = "\<lambda>w :: (pub_locals, 'o) process. none_pending (locals w)"
  let ?i = "\<lambda>w :: (pub_locals, 'o) process. installed print_ok target (fs w)"
  let ?a = "\<lambda>w :: (pub_locals, 'o) process. fs w (database_file username) = None"
  note steps = install_steps [OF assms(1,2), where F = print_ok]
  have ne: "target \<noteq> database_file username" "target \<noteq> ready_file username" "database_file username \<noteq> ready_file username"
    using publish_names(6,7,8) by (simp_all add: assms(2))
  have n: "triple ?T (\<lambda>w. ?N w) (sys_sync_dir K device) (\<lambda>_. ?N) (\<lambda>_ _. True)" for K
    unfolding sys_sync_dir_def by (rule triple_syscall) auto
  have l: "triple ?T (\<lambda>_. True) (set_local (\<lambda>_. \<lparr>unpublished = None\<rparr>)) (\<lambda>_. ?N) (\<lambda>_ _. True)"
    by (rule triple_set_local) (simp add: none_pending_def)
  have d: "triple ?T (\<lambda>w. ?i w \<and> ?N w) (sys_unlink K (database_file username)) (\<lambda>_ w. ?i w \<and> ?N w \<and> ?a w) (\<lambda>_ _. True)" for K
    unfolding sys_unlink_def by (rule triple_syscall) (use ne in \<open>auto simp: installed_def split: if_splits\<close>)
  have r: "triple ?T (\<lambda>w. ?i w \<and> ?N w \<and> ?a w) (sys_unlink K (ready_file username))
      (\<lambda>_ w. done_for username target (fs w) \<and> ?N w) (\<lambda>_ _. True)" for K
    unfolding sys_unlink_def by (rule triple_syscall) (use ne in \<open>auto simp: done_for_def installed_def split: if_splits\<close>)
  have p: "triple ?T (\<lambda>w. done_for username target (fs w) \<and> ?N w) (sys_print K t)
      (\<lambda>_ w. done_for username target (fs w) \<and> ?N w) (\<lambda>_ _. True)" for K t
    unfolding sys_print_def by (rule triple_syscall) auto
  show ?thesis
    unfolding install_print_def Let_def
    by (rule triple_seq [OF steps(1)], rule triple_seq [OF steps(2)], rule triple_seq [OF steps(3)],
        rule triple_pre, rule triple_seq [OF triple_both [OF steps(4) l]], rule triple_seq [OF triple_both [OF steps(5) n]],
        rule triple_seq [OF d], rule triple_seq [OF r], rule triple_seq [OF p], rule triple_ret) simp_all
qed

definition private_temp :: "path \<Rightarrow> fs \<Rightarrow> bool" where
  "private_temp temp s \<longleftrightarrow> (\<exists>n. s temp = Some n \<and> is_private Regular FILE_MODE n)"

lemma private_temp_put: "private_temp temp s \<Longrightarrow> private_temp temp (put temp data s)"
  by (auto simp: private_temp_def put_def is_private_def)

lemma serializer_private:
  "triple (\<lambda>_. True) (\<lambda>w. private_temp temp (fs w)) (run_serializer P command data temp) (\<lambda>_ w. private_temp temp (fs w)) (\<lambda>_ _. True)"
proof -
  have r: "triple (\<lambda>_. True) (\<lambda>w. private_temp temp (fs w))
      (\<lambda>w. case serializer P command data (choices w) of ((status, out), o') \<Rightarrow>
        ([(Ran command status [], put temp out (fs w))], w\<lparr>fs := put temp out (fs w), choices := o'\<rparr>, Inr (status, ())))
      (\<lambda>_ w. private_temp temp (fs w)) (\<lambda>_ _. True)"
    by (auto simp: triple_def run_defs private_temp_put split: prod.splits)
  have s: "triple (\<lambda>_. True) (\<lambda>w. private_temp temp (fs w)) (syscall (pub_kernel P) (Spawn command) unchanged (\<lambda>s. (Inr (), s)))
      (\<lambda>_ w. private_temp temp (fs w)) (\<lambda>_ _. True)"
    by (rule triple_syscall) auto
  have c: "triple (\<lambda>_. True) (\<lambda>w. private_temp temp (fs w)) (is_cancelled (pub_kernel P)) (\<lambda>_ w. private_temp temp (fs w)) (\<lambda>_ _. True)"
    by (rule triple_is_cancelled) simp
  show ?thesis
    unfolding run_serializer_def guarded_run_def
    by (intro triple_bind [OF c] triple_if triple_ret triple_seq [OF s] triple_bind [OF r] triple_prod) simp_all
qed

lemma publish_succeeds:
  fixes P :: "'o publisher"
  assumes "target = device @ [print_name v]"
  shows "succeeds (args ! 1) target (publish_export P args device target)"
  unfolding publish_export_def Let_def
proof (rule succeeds_rules(3))
  let ?V = "\<lambda>temp (w :: (pub_locals, 'o) process). private_temp temp (fs w)"
  let ?Q = "\<lambda>r (w :: (pub_locals, 'o) process). r = (0::int) \<longrightarrow> done_for (args ! 1) target (fs w) \<and> none_pending (locals w)"
  let ?rest = "\<lambda>database temp. pseq (set_local (\<lambda>_. \<lparr>unpublished = Some temp\<rparr>)) (pseq (sys_chmod (pub_kernel P) temp)
     (pbind (run_serializer P (serialize_command P args) (n_data database) temp) (\<lambda>(status, u).
      if status \<noteq> 0 then ret status
      else pbind (is_cancelled (pub_kernel P)) (\<lambda>c. pbind (look (\<lambda>w. file_size temp (fs w))) (\<lambda>size.
        if c \<or> size \<le> 3 then ret 1 else install_print P (args ! 1) device temp target)))))"
  fix database
  show "succeeds (args ! 1) target (pbind (sys_mkstemp (pub_kernel P) device ''.fpc-publish-'') (?rest database))"
    unfolding succeeds_def
  proof (rule triple_bind)
    show "triple (\<lambda>_. True) (\<lambda>_. True) (sys_mkstemp (pub_kernel P) device ''.fpc-publish-'')
        (\<lambda>temp w. (\<exists>x. temp = device @ [''.fpc-publish-'' @ x]) \<and> ?V temp w) (\<lambda>_ _. True)"
      unfolding sys_mkstemp_def Let_def sys_create_excl_def
      by (rule triple_choice, simp, rule triple_then_ret, rule triple_syscall)
        (auto simp: private_temp_def is_private_def new_file_def split: option.splits)
    fix temp
    show "triple (\<lambda>_. True) (\<lambda>w. (\<exists>x. temp = device @ [''.fpc-publish-'' @ x]) \<and> ?V temp w) (?rest database temp) ?Q (\<lambda>_ _. True)"
    proof (rule triple_fact [where F = "\<exists>x. temp = device @ [''.fpc-publish-'' @ x]"])
      assume "\<exists>x. temp = device @ [''.fpc-publish-'' @ x]"
      then have ne: "temp \<noteq> target" using publish_names(3) assms by auto
      have l: "triple (\<lambda>_. True) (?V temp) (set_local f) (\<lambda>_. ?V temp) (\<lambda>_ _. True)" for f by (rule triple_set_local) simp
      have h: "triple (\<lambda>_. True) (?V temp) (sys_chmod (pub_kernel P) temp) (\<lambda>_. ?V temp) (\<lambda>_ _. True)"
        unfolding sys_chmod_def by (rule triple_syscall) (auto simp: private_temp_def is_private_def)
      have c: "triple (\<lambda>_. True) (?V temp) (is_cancelled (pub_kernel P)) (\<lambda>_. ?V temp) (\<lambda>_ _. True)"
        by (rule triple_is_cancelled) simp
      have k: "triple (\<lambda>_. True) (?V temp) (look (\<lambda>w. file_size temp (fs w)))
          (\<lambda>size w. \<forall>n. fs w temp = Some n \<longrightarrow> size \<le> 3 \<or> print_ok (core n)) (\<lambda>_ _. True)"
        by (rule triple_look) (auto simp: private_temp_def is_private_def print_ok_def core_def file_size_def)
      have i: "triple (\<lambda>_. True) (\<lambda>w. \<forall>n. fs w temp = Some n \<longrightarrow> size \<le> 3 \<or> print_ok (core n))
          (if c \<or> size \<le> 3 then ret 1 else install_print P (args ! 1) device temp target) ?Q (\<lambda>_ _. True)" for c and size :: nat
        by (cases "c \<or> size \<le> 3") (auto intro: triple_ret triple_pre [OF install_succeeds [OF ne assms]])
      have "triple (\<lambda>_. True) (?V temp) (?rest database temp) ?Q (\<lambda>_ _. True)"
        by (rule triple_seq [OF l], rule triple_seq [OF h], rule triple_bind [OF serializer_private], rule triple_prod, rule triple_if,
            rule triple_ret, simp, rule triple_bind [OF c], rule triple_bind [OF k], rule i)
      then show "triple (\<lambda>_. True) (\<lambda>w. (\<exists>x. temp = device @ [''.fpc-publish-'' @ x]) \<and> ?V temp w) (?rest database temp) ?Q (\<lambda>_ _. True)"
        by (rule triple_pre) simp
    qed simp
  qed
qed

lemma main_succeeds:
  fixes P :: "'o publisher"
  assumes "split_places arguments = (store, state, args)" "result_of (pub_main P arguments) w = Inr 0"
  shows "\<exists>finger. index_of (args ! 2) FINGERS = Inr finger
    \<and> done_for (args ! 1) (device_store (to_path store) (args ! 1) @ [print_name (finger + 1)]) (fs (world_of (pub_main P arguments) w))"
proof -
  let ?device = "device_store (to_path store) (args ! 1)"
  let ?D = "\<lambda>w :: (pub_locals, 'o) process. \<exists>finger. index_of (args ! 2) FINGERS = Inr finger
    \<and> done_for (args ! 1) (?device @ [print_name (finger + 1)]) (fs w) \<and> none_pending (locals w)"
  have body: "triple (\<lambda>_. True) (\<lambda>_. True) (pub_body P (to_path store) (to_path state) args) (\<lambda>r w. r = 0 \<longrightarrow> ?D w) (\<lambda>_ _. True)"
    unfolding pub_body_def Let_def
  proof (rule triple_seq [OF anything], cases "index_of (args ! 2) FINGERS")
    case (Inl e)
    then show "triple (\<lambda>_. True) (\<lambda>_. True) (pbind (lift (index_of (args ! 2) FINGERS)) f) (\<lambda>r w. r = 0 \<longrightarrow> ?D w) (\<lambda>_ _. True)" for f
      by (auto simp: lift_Inl intro: triple_raise)
  next
    case (Inr finger)
    let ?t = "?device @ [print_name (finger + 1)]"
    have "succeeds (args ! 1) ?t (pseq (pub_bundle P) (pseq (make_store P (to_path store) (args ! 1))
       (pseq (sys_create (pub_kernel P) (?device @ [''.operation.lock''])) (pseq (sys_lock (pub_kernel P) (?device @ [''.operation.lock'']))
       (pub_locked P (to_path state) args ?device ?t)))))"
      unfolding pub_locked_def by (intro succeeds_rules publish_succeeds refl) simp_all
    then show "triple (\<lambda>_. True) (\<lambda>_. True) (pbind (lift (index_of (args ! 2) FINGERS)) (\<lambda>finger. pseq (pub_bundle P)
       (pseq (make_store P (to_path store) (args ! 1)) (pseq (sys_create (pub_kernel P) (?device @ [''.operation.lock'']))
       (pseq (sys_lock (pub_kernel P) (?device @ [''.operation.lock'']))
       (pub_locked P (to_path state) args ?device (?device @ [print_name (finger + 1)]))))))) (\<lambda>r w. r = 0 \<longrightarrow> ?D w) (\<lambda>_ _. True)"
      unfolding succeeds_def Inr lift_Inr by (rule triple_weaken) auto
  qed
  have caught: "triple (\<lambda>_. True) (\<lambda>_. True) (pcatch (pub_body P (to_path store) (to_path state) args) user_failed)
      (\<lambda>r w. r = 0 \<longrightarrow> ?D w) (\<lambda>_ _. True)"
    using body by (rule triple_catch) (auto dest!: user_failed_ret intro: triple_ret)
  have drop: "triple (\<lambda>_. True) (\<lambda>w. r = (0::int) \<longrightarrow> ?D w) (drop_unpublished P) (\<lambda>_ w. r = 0 \<longrightarrow> ?D w) (\<lambda>_ _. True)" for r
    by (cases "r = 0") (auto simp: anything triple_def none_pending_def drop_unpublished_def get_local_def run_defs pbind_def look_def ret_def)
  have fin: "triple (\<lambda>_. True) (\<lambda>_. True) (pfinally (pcatch (pub_body P (to_path store) (to_path state) args) user_failed) (drop_unpublished P))
      (\<lambda>r w. r = 0 \<longrightarrow> ?D w) (\<lambda>_ _. True)"
    by (rule triple_finally [OF caught drop anything])
  have "triple (\<lambda>_. True) (\<lambda>_. True) (pub_main P arguments) (\<lambda>r w. r = 0 \<longrightarrow> ?D w) (\<lambda>_ _. True)"
    unfolding pub_main_def assms(1) prod.case by (intro triple_if triple_seq [OF anything] fin triple_ret) simp
  from tripleD(2) [OF this _ assms(2)] show ?thesis by auto
qed

text \<open>C14. Status 0 means that the finger's print is in the store, a private file of more than three bytes
  that survives a power loss, and that nothing is pending any more.\<close>

theorem publication_status_zero:
  assumes "split_places arguments = (store, state, args)" "result_of (pub_main P arguments) w = Inr 0"
  shows "\<exists>finger n. index_of (args ! 2) FINGERS = Inr finger
    \<and> fs (world_of (pub_main P arguments) w) (device_store (to_path store) (args ! 1) @ [print_name (finger + 1)]) = Some n
    \<and> is_private Regular FILE_MODE n \<and> 3 < length (n_data n) \<and> n_durable n
    \<and> fs (world_of (pub_main P arguments) w) (database_file (args ! 1)) = None
    \<and> fs (world_of (pub_main P arguments) w) (ready_file (args ! 1)) = None"
  using main_succeeds [OF assms] by (auto simp: done_for_def installed_def print_ok_def core_def is_private_def)

end
