(* ===== verification/KeyringUse.thy ===== *)
theory KeyringUse
  imports UserOutcome
begin

text \<open>
  Every input that \<^verbatim>\<open>acceptance_input.py\<close> leaves in the keyring is handed to the provider at most
  once.
\<close>

definition live :: "key list \<Rightarrow> nat" where
  "live ks = length (filter (\<lambda>k. \<not> k_revoked k) ks)"

definition added :: "(sys_op \<times> fs) list \<Rightarrow> nat" where
  "added t = length (filter (\<lambda>e. case fst e of KeyOp name serial \<Rightarrow> name = ''add_key'' | _ \<Rightarrow> False) t)"

text \<open>Starts of the provider: a Python program that is given a state directory.\<close>

definition starts_provider :: "sys_op \<Rightarrow> bool" where
  "starts_provider op \<longleftrightarrow> (case op of Spawn c \<Rightarrow> (case script_args c of [] \<Rightarrow> False | flag # rest \<Rightarrow> flag = ''--state-dir'') | _ \<Rightarrow> False)"

definition started :: "(sys_op \<times> fs) list \<Rightarrow> nat" where
  "started t = length (filter (\<lambda>e. starts_provider (fst e)) t)"

definition cost :: "bool \<Rightarrow> (sys_op \<times> fs) list \<Rightarrow> nat" where
  "cost u t = (if u then started t else 0)"

lemma counts_append [simp]:
  "added [] = 0" "added (s @ t) = added s + added t" "started [] = 0" "started (s @ t) = started s + started t"
  "cost u [] = 0" "cost u (s @ t) = cost u s + cost u t"
  by (simp_all add: added_def started_def cost_def)

text \<open>With credit \<open>c\<close>, a part leaves credit \<open>d x\<close> with its result: a start of the provider costs one
  (when \<open>u\<close>), and so does a live key; adding a key and revoking one earn one.\<close>

definition balanced :: "bool \<Rightarrow> nat \<Rightarrow> ('o, 'a) user_prog \<Rightarrow> ('a \<Rightarrow> nat) \<Rightarrow> bool" where
  "balanced u c m d \<longleftrightarrow> (\<forall>w. live (keyring (locals (world_of m w))) + cost u (trace_of m w)
     + (case result_of m w of Inr x \<Rightarrow> d x | Inl e \<Rightarrow> 0) \<le> live (keyring (locals w)) + added (trace_of m w) + c)"

lemma balanced_bind: "balanced u c m d \<Longrightarrow> (\<And>x. balanced u (d x) (f x) e) \<Longrightarrow> balanced u c (pbind m f) e"
  unfolding balanced_def
proof
  fix w
  assume m: "\<forall>w. live (keyring (locals (world_of m w))) + cost u (trace_of m w)
      + (case result_of m w of Inr x \<Rightarrow> d x | Inl e \<Rightarrow> 0) \<le> live (keyring (locals w)) + added (trace_of m w) + c"
    and f: "\<And>x. \<forall>w. live (keyring (locals (world_of (f x) w))) + cost u (trace_of (f x) w)
      + (case result_of (f x) w of Inr x \<Rightarrow> e x | Inl e \<Rightarrow> 0) \<le> live (keyring (locals w)) + added (trace_of (f x) w) + d x"
  show "live (keyring (locals (world_of (pbind m f) w))) + cost u (trace_of (pbind m f) w)
      + (case result_of (pbind m f) w of Inr x \<Rightarrow> e x | Inl e \<Rightarrow> 0) \<le> live (keyring (locals w)) + added (trace_of (pbind m f) w) + c"
  proof (cases "result_of m w")
    case (Inl x)
    then show ?thesis using spec [OF m, of w] by (simp add: run_bind)
  next
    case (Inr x)
    have "live (keyring (locals (world_of m w))) + cost u (trace_of m w) + d x
        \<le> live (keyring (locals w)) + added (trace_of m w) + c"
      using spec [OF m, of w] Inr by simp
    moreover have "live (keyring (locals (world_of (f x) (world_of m w)))) + cost u (trace_of (f x) (world_of m w))
        + (case result_of (f x) (world_of m w) of Inr x \<Rightarrow> e x | Inl e \<Rightarrow> 0)
        \<le> live (keyring (locals (world_of m w))) + added (trace_of (f x) (world_of m w)) + d x"
      using spec [OF f [of x], of "world_of m w"] .
    ultimately show ?thesis using Inr by (simp add: run_bind)
  qed
qed

lemma balanced_seq: "balanced u c m (\<lambda>_. d) \<Longrightarrow> balanced u d n e \<Longrightarrow> balanced u c (pseq m n) e"
  unfolding pseq_def by (rule balanced_bind)

lemma step_bind: "balanced u c m (\<lambda>_. c) \<Longrightarrow> (\<And>x. balanced u c (f x) e) \<Longrightarrow> balanced u c (pbind m f) e"
  by (rule balanced_bind)

lemma step_seq: "balanced u c m (\<lambda>_. c) \<Longrightarrow> balanced u c n e \<Longrightarrow> balanced u c (pseq m n) e"
  by (rule balanced_seq)

lemma balanced_if: "(b \<Longrightarrow> balanced u c m d) \<Longrightarrow> (\<not> b \<Longrightarrow> balanced u c n d) \<Longrightarrow> balanced u c (if b then m else n) d"
  and balanced_option: "(r = None \<Longrightarrow> balanced u c m d) \<Longrightarrow> (\<And>x. r = Some x \<Longrightarrow> balanced u c (f x) d) \<Longrightarrow>
    balanced u c (case r of None \<Rightarrow> m | Some x \<Rightarrow> f x) d"
  and balanced_prod: "(\<And>x y. p = (x, y) \<Longrightarrow> balanced u c (g x y) d) \<Longrightarrow> balanced u c (case p of (x, y) \<Rightarrow> g x y) d"
  by (simp_all split: option.split prod.split)

lemma balanced_catch:
  assumes "balanced u c m d" "\<And>e n. h e = Some n \<Longrightarrow> balanced u 0 n d"
  shows "balanced u c (pcatch m h) d"
  unfolding balanced_def
proof
  fix w
  have m: "live (keyring (locals (world_of m w))) + cost u (trace_of m w)
      + (case result_of m w of Inr x \<Rightarrow> d x | Inl e \<Rightarrow> 0) \<le> live (keyring (locals w)) + added (trace_of m w) + c"
    using assms(1) by (simp add: balanced_def)
  show "live (keyring (locals (world_of (pcatch m h) w))) + cost u (trace_of (pcatch m h) w)
      + (case result_of (pcatch m h) w of Inr x \<Rightarrow> d x | Inl e \<Rightarrow> 0) \<le> live (keyring (locals w)) + added (trace_of (pcatch m h) w) + c"
  proof (cases "result_of m w")
    case (Inr x)
    then show ?thesis using m by (simp add: run_defs pcatch_def split_beta)
  next
    case (Inl e)
    show ?thesis
    proof (cases "h e")
      case None
      then show ?thesis using m Inl by (simp add: run_defs pcatch_def split_beta)
    next
      case (Some n)
      have "live (keyring (locals (world_of n (world_of m w)))) + cost u (trace_of n (world_of m w))
          + (case result_of n (world_of m w) of Inr x \<Rightarrow> d x | Inl e \<Rightarrow> 0)
          \<le> live (keyring (locals (world_of m w))) + added (trace_of n (world_of m w))"
        using assms(2) [OF Some] by (simp add: balanced_def)
      then show ?thesis using m Inl Some by (simp add: run_defs pcatch_def split_beta)
    qed
  qed
qed

text \<open>Parts that leave the keyring alone and start nothing.\<close>

lemma balanced_still:
  assumes "\<And>w. keyring (locals (world_of m w)) = keyring (locals w)" "emits (\<lambda>op. \<not> starts_provider op) m" "\<And>x. d x \<le> c"
  shows "balanced u c m d"
proof -
  have "started (trace_of m w) = 0" for w
    using assms(2) by (auto simp: emits_def started_def filter_empty_conv)
  then show ?thesis using assms(1,3) by (auto simp: balanced_def cost_def trans_le_add2 split: sum.split)
qed

lemma balanced_basic:
  "d x \<le> c \<Longrightarrow> balanced u c (ret x) d" "balanced u c (raise e) d" "balanced u c (look f) (\<lambda>_. c)" "balanced u c (check b e) (\<lambda>_. c)"
  "balanced u c (lift r) (\<lambda>_. c)" "balanced u c (is_cancelled K) (\<lambda>_. c)" "balanced u c (consult g) (\<lambda>_. c)"
  by (auto simp: balanced_def cost_def consult_def is_cancelled_def run_defs Let_def split_beta
      ret_def raise_def look_def check_def lift_def split: sum.split)

lemma balanced_call: "\<not> starts_provider op \<Longrightarrow> balanced u c (syscall K op failing f) (\<lambda>_. c)"
  by (rule balanced_still) (simp_all add: emits_syscall, simp add: run_defs syscall_def split_beta)

lemma balanced_start: "balanced True (Suc c) (syscall K op failing f) (\<lambda>_. c)"
  by (auto simp: balanced_def run_defs syscall_def split_beta cost_def started_def added_def split: sum.split)

lemma still_ops [simp]:
  "\<not> starts_provider (Mkdir p)" "\<not> starts_provider (OpenAt p)" "\<not> starts_provider (CreateExcl p)" "\<not> starts_provider (WriteAt p b)"
  "\<not> starts_provider (Flush p)" "\<not> starts_provider (SyncDir p)" "\<not> starts_provider (Unlink p)" "\<not> starts_provider (Lock p)"
  "\<not> starts_provider (MakeInput b)" "\<not> starts_provider (Ran c i ls)" "\<not> starts_provider (Print l)" "\<not> starts_provider (KeyOp n i)"
  by (simp_all add: starts_provider_def)

lemma balanced_calls:
  "balanced u c (sys_lstat p) (\<lambda>_. c)" "balanced u c (sys_open K p) (\<lambda>_. c)" "balanced u c (sys_create K p) (\<lambda>_. c)"
  "balanced u c (sys_create_excl K p) (\<lambda>_. c)" "balanced u c (sys_write K p b) (\<lambda>_. c)" "balanced u c (sys_fsync K p) (\<lambda>_. c)"
  "balanced u c (sys_sync_dir K p) (\<lambda>_. c)" "balanced u c (sys_unlink K p) (\<lambda>_. c)" "balanced u c (sys_print K l) (\<lambda>_. c)"
  "balanced u c (sys_mkdir K p) (\<lambda>_. c)" "balanced u c (sys_mkdir_one K p) (\<lambda>_. c)" "balanced u c (sealed_memory K b) (\<lambda>_. c)"
  "balanced u c (sys_lock K p) (\<lambda>_. c)"
proof -
  show "balanced u c (sys_lstat p) (\<lambda>_. c)"
    unfolding sys_lstat_def by (rule step_bind [OF balanced_basic(3)], rule balanced_option) (simp_all add: balanced_basic)
  show "balanced u c (sys_lock K p) (\<lambda>_. c)"
    by (rule balanced_still) (simp_all add: emits_def run_defs sys_lock_def syscall_def split_beta)
qed (simp_all add: sys_open_def sys_create_def sys_create_excl_def sys_write_def sys_fsync_def sys_sync_dir_def sys_unlink_def
    sys_print_def sys_mkdir_def sys_mkdir_one_def sealed_memory_def balanced_call)

subsection \<open>Calls on keys\<close>

lemma balanced_key:
  fixes K :: "'o kernel"
  assumes "\<And>ks r ks'. f ks = (r, ks') \<Longrightarrow> live ks' + d r \<le> live ks + c + (if name = ''add_key'' then 1 else 0)" "d None \<le> c"
  shows "balanced u c (key_call K name serial f) d"
  unfolding balanced_def
proof
  fix w :: "(user_locals, 'o) process"
  obtain bad o' where b: "k_fault K (KeyOp name serial) (choices w) = (bad, o')" by (cases "k_fault K (KeyOp name serial) (choices w)")
  obtain r ks where f: "f (keyring (locals w)) = (r, ks)" by (cases "f (keyring (locals w))")
  show "live (keyring (locals (world_of (key_call K name serial f) w))) + cost u (trace_of (key_call K name serial f) w)
      + (case result_of (key_call K name serial f) w of Inr x \<Rightarrow> d x | Inl e \<Rightarrow> 0)
      \<le> live (keyring (locals w)) + added (trace_of (key_call K name serial f) w) + c"
    using assms(1) [OF f] assms(2)
    by (cases bad) (simp_all add: key_call_def run_defs b f cost_def started_def added_def split: if_splits)
qed

lemma live_map: "(\<And>k. k_revoked k \<Longrightarrow> k_revoked (g k)) \<Longrightarrow> live (map g ks) \<le> live ks"
  by (induction ks) (auto simp: live_def)

lemma live_revoke: "list_ex (live_key serial) ks \<Longrightarrow>
    Suc (live (map (\<lambda>k. if k_serial k = serial then k\<lparr>k_revoked := True\<rparr> else k) ks)) \<le> live ks"
proof (induction ks)
  case (Cons k ks)
  have le: "live (map (\<lambda>k. if k_serial k = serial then k\<lparr>k_revoked := True\<rparr> else k) ks) \<le> live ks"
    by (rule live_map) auto
  show ?case
  proof (cases "live_key serial k")
    case True
    then show ?thesis using le by (simp add: live_def live_key_def)
  next
    case False
    then show ?thesis using Cons by (auto simp: live_def)
  qed
qed simp

lemma live_filter: "live (filter P ks) \<le> live ks"
  by (induction ks) (auto simp: live_def)

lemma balanced_keys:
  "balanced u c (key_call K ''get_keyring_ID'' i (\<lambda>ks. (Some (), ks))) (\<lambda>_. c)"
  "balanced u c (key_call K ''link'' i (\<lambda>ks. (Some (), ks))) (\<lambda>_. c)"
  "balanced u c (key_call K ''search'' i (key_search name)) (\<lambda>_. c)"
  "balanced u c (key_call K ''read'' i (key_read serial)) (\<lambda>_. c)"
  "balanced u c (key_call K ''setperm'' i (key_touch serial)) (\<lambda>_. c)"
  "balanced u c (key_call K ''set_timeout'' i (key_touch serial)) (\<lambda>_. c)"
  "balanced u c (key_call K ''unlink'' i (key_unlink serial)) (\<lambda>_. c)"
  "balanced u c (key_call K ''add_key'' i (key_add name data serial)) (\<lambda>_. c)"
  "balanced u c (key_call K ''revoke'' i (key_revoke serial)) (\<lambda>r. case r of None \<Rightarrow> c | Some _ \<Rightarrow> Suc c)"
proof -
  show "balanced u c (key_call K ''add_key'' i (key_add name data serial)) (\<lambda>_. c)"
  proof (rule balanced_key)
    fix ks r ks' assume a: "key_add name data serial ks = (r, ks')"
    have "live (map (\<lambda>k. if live_key i k then k\<lparr>k_data := data\<rparr> else k) ks) \<le> Suc (live ks)" for i
      by (rule le_SucI, rule live_map) auto
    then show "live ks' + c \<le> live ks + c + (if ''add_key'' = ''add_key'' then 1 else 0)"
      using a by (auto simp: key_add_def split: option.splits) (simp add: live_def)
  qed simp
  show "balanced u c (key_call K ''revoke'' i (key_revoke serial)) (\<lambda>r. case r of None \<Rightarrow> c | Some _ \<Rightarrow> Suc c)"
    by (rule balanced_key) (auto simp: key_revoke_def dest: live_revoke split: if_splits)
qed (rule balanced_key; auto simp: key_search_def key_read_def key_touch_def key_unlink_def live_filter)+


lemma balanced_need:
  "balanced u c m (\<lambda>_. d) \<Longrightarrow> balanced u c (need m) (\<lambda>_. d)"
  "balanced u c m (\<lambda>r. case r of None \<Rightarrow> c | Some _ \<Rightarrow> d) \<Longrightarrow> balanced u c (need m) (\<lambda>_. d)"
  unfolding need_def by (erule balanced_bind; auto intro: balanced_basic split: option.split)+

lemma balanced_weaken: "balanced u c m d \<Longrightarrow> c \<le> c' \<Longrightarrow> (\<And>x. d' x \<le> d x) \<Longrightarrow> balanced u c' m d'"
  unfolding balanced_def
proof (intro allI)
  fix w
  assume m: "\<forall>w. live (keyring (locals (world_of m w))) + cost u (trace_of m w) + (case result_of m w of Inl e \<Rightarrow> 0 | Inr x \<Rightarrow> d x)
      \<le> live (keyring (locals w)) + added (trace_of m w) + c" and c: "c \<le> c'" and d: "\<And>x. d' x \<le> d x"
  have "(case result_of m w of Inl e \<Rightarrow> 0 | Inr x \<Rightarrow> d' x) \<le> (case result_of m w of Inl e \<Rightarrow> 0 | Inr x \<Rightarrow> d x)"
    using d by (simp split: sum.split)
  then show "live (keyring (locals (world_of m w))) + cost u (trace_of m w) + (case result_of m w of Inl e \<Rightarrow> 0 | Inr x \<Rightarrow> d' x)
      \<le> live (keyring (locals w)) + added (trace_of m w) + c'"
    using spec [OF m, of w] c by linarith
qed

lemma balanced_revoke: "balanced u c (key_call K ''revoke'' i (key_revoke serial)) (\<lambda>_. c)"
  by (rule balanced_weaken [OF balanced_keys(9) [where c = c]]) (auto split: option.split)

lemma balanced_drop: "balanced u c (drop_key K serial) (\<lambda>_. c)"
  unfolding drop_key_def by (intro step_seq balanced_keys balanced_revoke balanced_basic) simp

lemma balanced_context: "balanced u c (acceptance_context B username) (\<lambda>_. c)"
  unfolding acceptance_context_def
  by (intro step_seq step_bind balanced_basic balanced_need(1) balanced_keys balanced_calls)

lemma balanced_private: "balanced u c (private_state K p) (\<lambda>_. c)"
  unfolding private_state_def by (intro step_bind balanced_calls balanced_if balanced_basic) simp

text \<open>An input leaves the keyring when it is consumed.\<close>

lemma balanced_consume: "balanced u 0 (consume B username uid) (\<lambda>_. 1)"
  unfolding consume_def Let_def
  by (rule step_seq, rule balanced_context, rule step_bind, rule balanced_private, rule step_seq, rule balanced_basic,
      rule step_bind, rule balanced_basic, rule step_bind, rule balanced_basic, rule step_seq, rule balanced_basic,
      rule step_bind, rule balanced_basic, rule step_bind, rule balanced_keys, rule step_seq, rule balanced_basic,
      rule step_seq, rule balanced_calls, rule balanced_seq [OF balanced_need(2) [OF balanced_keys(9)]],
      intro step_seq balanced_keys balanced_calls balanced_basic, simp)

lemma balanced_prepare: "balanced u 0 (prepare B username uid input) (\<lambda>_. 0)"
proof -
  have p: "balanced u 0 (publish_key B username uid secret serial) (\<lambda>_. 0)" for secret serial
    unfolding publish_key_def Let_def
    by (intro step_seq step_bind balanced_basic balanced_need(1) balanced_keys balanced_calls)
  have st: "balanced u 0 (drop_stale K name) (\<lambda>_. 0)" for K name
    unfolding drop_stale_def
    by (intro step_bind balanced_option step_seq balanced_need(1) balanced_keys balanced_revoke balanced_basic) simp
  show ?thesis
    unfolding prepare_def Let_def is_prepared_def
    by (intro step_seq step_bind balanced_context balanced_basic st balanced_need(1) balanced_keys balanced_catch p)
      (auto intro: step_seq balanced_drop balanced_basic)
qed

lemma balanced_discard: "balanced u 0 (discard B username) (\<lambda>_. 0)"
  unfolding discard_def Let_def is_prepared_def
  by (intro step_bind step_seq balanced_if balanced_context balanced_private balanced_basic balanced_drop balanced_calls) simp_all


subsection \<open>Runs of the bridge\<close>

lemma balanced_directory: "balanced u c (private_directory K p) (\<lambda>_. c)"
  unfolding private_directory_def by (intro step_seq step_bind balanced_basic balanced_calls)

lemma balanced_for_each: "(\<And>x. balanced u c (f x) (\<lambda>_. c)) \<Longrightarrow> balanced u c (for_each f xs) (\<lambda>_. c)"
  by (induction xs) (auto intro: balanced_basic step_bind)

lemma balanced_programs: "balanced u c (check_programs B) (\<lambda>_. c)"
  unfolding check_programs_def Let_def by (intro step_seq step_bind balanced_for_each balanced_basic balanced_calls)

lemma balanced_write: "balanced u c (write_state K p data) (\<lambda>_. c)"
  unfolding write_state_def by (intro step_seq balanced_calls)

lemma balanced_salt: "balanced u c (account_salt B create account username linux_uid uid) (\<lambda>_. c)"
  unfolding account_salt_def Let_def
  by (intro step_seq step_bind balanced_if balanced_private balanced_basic balanced_write balanced_calls) simp

lemma balanced_seal: "balanced u c (seal_inputs B args previous input) (\<lambda>_. c)"
  unfolding seal_inputs_def by (intro step_seq balanced_if balanced_basic balanced_calls) simp_all

lemma balanced_print: "balanced u c (sys_print K l) (\<lambda>_. c)"
  by (rule balanced_calls)

lemma balanced_finish: "balanced u 0 (finish_request B args username uid input status) (\<lambda>_. 0)"
  unfolding finish_request_def
  by (intro step_bind step_seq balanced_if balanced_prepare balanced_discard balanced_basic balanced_calls) simp_all

lemma balanced_native:
  assumes "child (en B) = provider_child E"
  shows "balanced u c (run_native (en B) command) (\<lambda>_. c)"
proof (rule balanced_still)
  show "keyring (locals (world_of (run_native (en B) command) w)) = keyring (locals w)" for w
    by (simp add: run_native_def run_defs split: prod.split)
  have "\<not> starts_provider op" if "runtime_only op" for op
    using that by (auto simp: runtime_only_def starts_provider_def script_args_def cmd_def split: sys_op.splits list.splits)
  then show "emits (\<lambda>op. \<not> starts_provider op) (run_native (en B) command)"
    using provider_child_emits [of E command]
    by (auto simp: emits_def run_native_def run_defs assms split: prod.splits)
qed simp

lemma balanced_run:
  assumes "\<And>u c. balanced u c m (\<lambda>_. c)"
  shows "balanced True 1 (guarded_run K command x m) (\<lambda>_. 0)" "balanced False 0 (guarded_run K command x m) (\<lambda>_. 0)"
proof -
  have rest: "balanced u 0 (pbind m (\<lambda>(status, x). pbind (is_cancelled K) (\<lambda>c. ret (if c then 1 else status, x)))) (\<lambda>_. 0)" for u
    by (intro step_bind assms balanced_prod balanced_basic) simp
  show "balanced True 1 (guarded_run K command x m) (\<lambda>_. 0)"
    unfolding guarded_run_def
    by (rule step_bind, rule balanced_basic, rule balanced_if, rule balanced_basic, simp, rule balanced_seq [OF _ rest])
      (simp add: balanced_start)
  have "balanced False 0 (syscall K (Spawn command) unchanged (\<lambda>s. (Inr (), s))) (\<lambda>_. 0)"
    by (auto simp: balanced_def run_defs syscall_def split_beta cost_def split: sum.split)
  then show "balanced False 0 (guarded_run K command x m) (\<lambda>_. 0)"
    unfolding guarded_run_def
    by (intro step_bind balanced_basic balanced_if balanced_seq [OF _ rest]) simp_all
qed

lemma balanced_provider:
  assumes "child (en B) = provider_child E"
  shows "balanced True 1 (run_provider B command) (\<lambda>_. 0)" "balanced False 0 (run_provider B command) (\<lambda>_. 0)"
proof -
  have m: "balanced u c (pbind (run_native (en B) command) (\<lambda>(status, said). ret (status, ()))) (\<lambda>_. c)" for u c
    by (rule step_bind, rule balanced_native [OF assms], rule balanced_prod, rule balanced_basic) simp
  show "balanced True 1 (run_provider B command) (\<lambda>_. 0)" "balanced False 0 (run_provider B command) (\<lambda>_. 0)"
    unfolding run_provider_def by (rule balanced_run, rule m)+
qed

lemma balanced_helper: "balanced False 0 (run_helper B command) (\<lambda>_. 0)"
  unfolding run_helper_def
  by (rule balanced_run) (auto simp: balanced_def run_defs cost_def started_def starts_provider_def added_def split: prod.split)

lemma balanced_request:
  assumes "child (en B) = provider_child E"
  shows "wants_prepared_enrol args \<Longrightarrow> balanced True 1 (request_provider B state args username uid input) (\<lambda>_. 0)"
    "balanced False 0 (request_provider B state args username uid input) (\<lambda>_. 0)"
proof -
  have w: "balanced u c (if wants_create args then write_state (ker (en B)) p [] else ret ()) (\<lambda>_. c)" for u c p
    by (intro balanced_if balanced_write balanced_basic) simp
  show "balanced True 1 (request_provider B state args username uid input) (\<lambda>_. 0)"
    unfolding request_provider_def
    by (rule step_seq [OF w], rule balanced_bind [OF balanced_provider(1) [OF assms]], rule balanced_prod, rule balanced_finish)
  show "balanced False 0 (request_provider B state args username uid input) (\<lambda>_. 0)"
    unfolding request_provider_def
    by (rule step_seq [OF w], rule balanced_bind [OF balanced_provider(2) [OF assms]], rule balanced_prod, rule balanced_finish)
qed

lemma balanced_inputs:
  "wants_prepared_enrol args \<Longrightarrow> balanced True 0 (user_inputs B args username uid) (\<lambda>_. 1)"
  "balanced False 0 (user_inputs B args username uid) (\<lambda>_. 0)"
proof -
  have s: "balanced u c (if wants_sync args then sealed_memory (ker (en B)) [] else ret ()) (\<lambda>_. c)" for u c
    by (intro balanced_if balanced_calls balanced_basic) simp
  have c: "balanced u 0 (pbind (consume B username uid) (\<lambda>input. ret (0::int, [], input))) (\<lambda>_. 1)" for u
    by (rule balanced_bind [OF balanced_consume]) (simp add: balanced_basic)
  show "balanced True 0 (user_inputs B args username uid) (\<lambda>_. 1)" if "wants_prepared_enrol args"
    unfolding user_inputs_def Let_def if_P [OF that] by (intro step_seq balanced_calls s c)
  show "balanced False 0 (user_inputs B args username uid) (\<lambda>_. 0)"
    unfolding user_inputs_def Let_def
    by (intro step_seq balanced_calls s balanced_if balanced_helper balanced_weaken [OF c]) simp_all
qed

lemma balanced_locked:
  assumes "child (en B) = provider_child E"
  shows "balanced (wants_prepared_enrol args) 0 (user_locked B state args username linux_uid uid) (\<lambda>_. 0)"
proof -
  have body: "balanced u 0 (pbind (user_inputs B args username uid) (\<lambda>(status, previous, input).
      if status \<noteq> 0 then ret status else pseq (check (check_inputs args previous input) ValueError)
        (pseq (seal_inputs B args previous input) (request_provider B state args username uid input)))) (\<lambda>_. 0)"
    if "balanced u 0 (user_inputs B args username uid) (\<lambda>_. c)"
      "\<And>input. balanced u c (request_provider B state args username uid input) (\<lambda>_. 0)" for u c
    by (rule balanced_bind [OF that(1)])
      (auto intro!: balanced_prod balanced_if step_seq balanced_seal that(2) balanced_basic)
  have "balanced (wants_prepared_enrol args) 0 (pbind (user_inputs B args username uid) (\<lambda>(status, previous, input).
      if status \<noteq> 0 then ret status else pseq (check (check_inputs args previous input) ValueError)
        (pseq (seal_inputs B args previous input) (request_provider B state args username uid input)))) (\<lambda>_. 0)"
  proof (cases "wants_prepared_enrol args")
    case True
    then show ?thesis using body [OF balanced_inputs(1) balanced_request(1) [OF assms]] by simp
  next
    case False
    then show ?thesis using body [OF balanced_inputs(2) balanced_request(2) [OF assms]] by simp
  qed
  then show ?thesis
    unfolding user_locked_def Let_def
    by (intro step_bind [OF balanced_basic(3)] balanced_prod balanced_if step_seq [OF balanced_salt]) (auto intro: balanced_basic)
qed

lemma balanced_main:
  assumes "child (en B) = provider_child E" "split_native arguments = (t, args)"
  shows "balanced (wants_prepared_enrol args) 0 (user_main B arguments) (\<lambda>_. 0)"
proof -
  have "balanced (wants_prepared_enrol args) 0 (user_request B (to_path t) args) (\<lambda>_. 0)"
    unfolding user_request_def user_body_def
    by (intro step_bind step_seq balanced_basic balanced_programs balanced_directory balanced_calls balanced_locked [OF assms(1)])
  then show ?thesis
    unfolding user_main_def assms(2)
    by (auto intro!: balanced_catch balanced_basic dest!: user_failed_ret)
qed

text \<open>
  Runs of the bridge since the machine was started, for any accounts; between them keys may expire. \<open>p\<close>
  counts the inputs that were prepared, \<open>u\<close> the starts of the provider by \<^verbatim>\<open>--enrol-prepared\<close>.
  (A killed run is one whose later calls all fail.)
\<close>

definition prepared_mode :: "string list \<Rightarrow> bool" where
  "prepared_mode arguments \<longleftrightarrow> wants_prepared_enrol (snd (split_native arguments))"

inductive keyring_history :: "(user_locals, 'o) process \<Rightarrow> nat \<Rightarrow> nat \<Rightarrow> bool" where
  booted: "keyring (locals w) = [] \<Longrightarrow> keyring_history w 0 0"
| ran: "keyring_history w p u \<Longrightarrow> child (en B) = provider_child E \<Longrightarrow>
    keyring (locals w') = keyring (locals (world_of (user_main B arguments) w)) \<Longrightarrow>
    keyring_history w' (p + added (trace_of (user_main B arguments) w))
      (u + (if prepared_mode arguments then started (trace_of (user_main B arguments) w) else 0))"
| expired: "keyring_history w p u \<Longrightarrow> keyring (locals w') = filter lives (keyring (locals w)) \<Longrightarrow> keyring_history w' p u"

lemma keyring_balance: "keyring_history w p u \<Longrightarrow> live (keyring (locals w)) + u \<le> p"
proof (induction rule: keyring_history.induct)
  case (booted w)
  then show ?case by (simp add: live_def)
next
  case (ran w p u B E w' arguments)
  obtain t args where a: "split_native arguments = (t, args)" by (cases "split_native arguments")
  have "live (keyring (locals (world_of (user_main B arguments) w))) + cost (wants_prepared_enrol args) (trace_of (user_main B arguments) w)
      \<le> live (keyring (locals w)) + added (trace_of (user_main B arguments) w)"
    using balanced_main [OF ran.hyps(2) a] unfolding balanced_def by (auto dest!: spec [of _ w] split: sum.splits)
  then show ?case using ran.IH ran.hyps(3) by (simp add: prepared_mode_def a cost_def split: if_splits)
next
  case (expired w p u w' lives)
  then show ?case using live_filter [of lives "keyring (locals w)"] by simp
qed

text \<open>C6. Since the machine was started, the provider has been given a prepared input at most as often as
  one was put into the keyring: each authentication serves one enrolment, whatever calls fail on the
  way.\<close>

theorem prepared_inputs_used_once:
  assumes "keyring_history w p u"
  shows "u \<le> p"
  using keyring_balance [OF assms] by simp

end
