(* ===== verification/HandleLive.thy ===== *)
theory HandleLive
  imports HandleSafety
begin

text \<open>
  That \<^verbatim>\<open>--create\<close> makes a handle when nothing stands in its way, and concrete runs of the
  provider.
\<close>

definition calm :: "'o kernel \<Rightarrow> string \<Rightarrow> bool" where
  "calm K suffix \<longleftrightarrow> (\<forall>op o'. k_fault K op o' = (None, o')) \<and> (\<forall>p o'. k_busy K p o' = (False, o'))
     \<and> (\<forall>o'. k_signal K o' = (False, o')) \<and> (\<forall>o'. k_suffix K o' = (suffix, o'))"

lemma calm_call: "calm K suffix \<Longrightarrow> syscall K op failing f w = (case f (fs w) of (r, s) \<Rightarrow> ([(op, s)], w\<lparr>fs := s\<rparr>, r))"
  by (simp add: calm_def syscall_def split: prod.split)

lemma calm_cancelled: "calm K suffix \<Longrightarrow> \<not> cancelled w \<Longrightarrow> is_cancelled K w = ([], w, Inr False)"
  by (simp add: calm_def is_cancelled_def)

lemma calm_lock: "calm K suffix \<Longrightarrow> sys_lock K p w = ([(Lock p, fs w)], w, Inr ())"
  by (simp add: sys_lock_def calm_call unchanged_def) (simp add: calm_def calm_call unchanged_def)

lemma calm_mkstemp:
  "calm K suffix \<Longrightarrow> fs w (d @ [prefix @ suffix]) = None \<Longrightarrow> sys_mkstemp K d prefix w =
     ([(CreateExcl (d @ [prefix @ suffix]), (fs w)(d @ [prefix @ suffix] \<mapsto> new_file))],
      w\<lparr>fs := (fs w)(d @ [prefix @ suffix] \<mapsto> new_file)\<rparr>, Inr (d @ [prefix @ suffix]))"
  by (simp add: sys_mkstemp_def sys_create_excl_def pseq_def pbind_def ret_def calm_call) (simp add: calm_def Let_def)

lemma calm_runtime:
  assumes "calm (kernel E) suffix" "\<not> cancelled w" "runtime E op (choices w) = ((status, data, said), choices w)"
  shows "run_runtime E op (Fill p) w =
    ([(Spawn op, fs w), (Ran op status said, put p data (fs w))], w\<lparr>fs := put p data (fs w)\<rparr>, Inr status)"
proof -
  let ?w = "w\<lparr>fs := put p data (fs w)\<rparr>"
  have c: "is_cancelled (kernel E) w = ([], w, Inr False)" "is_cancelled (kernel E) ?w = ([], ?w, Inr False)"
    using assms by (simp_all add: calm_cancelled)
  show ?thesis
    using assms(1,3) by (simp add: run_runtime_def pbind_def pseq_def ret_def c run_child_def Let_def calm_call)
qed

lemma make_succeeds:
  assumes "calm (kernel E) suffix" "\<not> cancelled w"
    and "runtime E (cmd @ [''--new-native-credential'', str_int uid, str_int fd, ''HANDLE'']) (choices w) = ((0, data, said), choices w)"
    and "fs w temp = Some n" "is_private Regular FILE_MODE n" "fs w (handle_path account) = None"
    and "0 < length data" "length data \<le> HANDLE_LIMIT" "temp_path account temp"
  shows "\<exists>t w' h. make_handle E account uid fd temp w = (t, w', Inr 0) \<and> temporary (locals w') = None
    \<and> fs w' (handle_path account) = Some h \<and> handle_ok h \<and> n_durable h \<and> n_data h = data"
proof -
  have ne: "handle_path account \<noteq> temp" "temp \<noteq> handle_path account" using assms(9) by auto
  have d: "handle_path account \<noteq> []" "butlast (handle_path account) = account" by (simp_all add: handle_path_def)
  show ?thesis
    using assms(4-8)
    by (simp add: make_handle_def publish_handle_def Let_def pbind_def pseq_def ret_def look_def set_local_def
      calm_runtime [OF assms(1-3)] sys_fsync_def sys_link_def sys_unlink_def sys_sync_dir_def sys_print_def
      calm_call [OF assms(1)] handle_path_def [symmetric] size_ok_def file_size_def put_def flush_def ne settle_def d
      handle_ok_def handle_private_def is_private_def)
qed

definition private_dir :: "path \<Rightarrow> fs \<Rightarrow> bool" where
  "private_dir p s \<longleftrightarrow> (\<exists>n. s p = Some n \<and> n_kind n = Directory \<and> n_uid n = 0 \<and> n_mode n = DIR_MODE)"

lemma calm_directory:
  "calm K suffix \<Longrightarrow> private_dir p (fs w) \<Longrightarrow> private_directory K p w = ([(Mkdir p, fs w)], w, Inr ())"
  by (auto simp: private_dir_def private_directory_def sys_mkdir_def sys_lstat_def pseq_def pbind_def check_def ret_def
      look_def calm_call)

definition lock_free :: "path \<Rightarrow> fs \<Rightarrow> bool" where
  "lock_free account s \<longleftrightarrow> (case s (lock_path account) of None \<Rightarrow> True | Some n \<Rightarrow> n_kind n \<in> {Regular, Special})"

lemma calm_create_lock:
  assumes "calm K suffix" "lock_free account (fs w)"
  shows "\<exists>t x. sys_create K (lock_path account) w = (t, w\<lparr>fs := (fs w)(lock_path account := x)\<rparr>, Inr ())"
proof (cases "fs w (lock_path account)")
  case (Some n)
  have "(fs w)(lock_path account := Some n) = fs w" using Some by (simp add: fun_upd_idem)
  then show ?thesis
    using assms Some by (intro exI [of _ "[(OpenAt (lock_path account), fs w)]"] exI [of _ "Some n"])
      (auto simp: sys_create_def calm_call lock_free_def)
qed (auto simp: sys_create_def calm_call [OF assms(1)])

lemma create_runs:
  assumes "calm (kernel E) suffix" "\<not> cancelled w"
    and "runtime E (cmd @ [''--new-native-credential'', str_int uid, str_int fd, ''HANDLE'']) (choices w) = ((0, data, said), choices w)"
    and "fs w (account @ [''.gatekeeper-handle-'' @ suffix]) = None" "fs w (handle_path account) = None"
    and "0 < length data" "length data \<le> HANDLE_LIMIT"
  shows "\<exists>t w' h. create_handle E account uid fd w = (t, w', Inr 0) \<and> temporary (locals w') = None
    \<and> fs w' (handle_path account) = Some h \<and> handle_ok h \<and> n_durable h \<and> n_data h = data"
proof -
  define temp where temp: "temp = account @ [''.gatekeeper-handle-'' @ suffix]"
  have tp: "temp_path account temp" by (simp add: temp temp_path_def)
  then have ne: "temp \<noteq> handle_path account" by auto
  let ?fs = "(fs w)(temp \<mapsto> new_file)"
  let ?w = "w\<lparr>fs := ?fs, locals := (locals w)\<lparr>temporary := Some temp\<rparr>\<rparr>"
  have m: "\<exists>t w' h. make_handle E account uid fd temp ?w = (t, w', Inr 0) \<and> temporary (locals w') = None
      \<and> fs w' (handle_path account) = Some h \<and> handle_ok h \<and> n_durable h \<and> n_data h = data"
    by (rule make_succeeds [OF assms(1), where n = new_file])
      (use assms tp ne in \<open>simp_all add: new_file_def is_private_def\<close>)
  have mk: "sys_mkstemp (kernel E) account ''.gatekeeper-handle-'' w = ([(CreateExcl temp, ?fs)], w\<lparr>fs := ?fs\<rparr>, Inr temp)"
    using calm_mkstemp [OF assms(1,4)] by (simp add: temp)
  have ch: "sys_chmod (kernel E) temp ?w = ([(Chmod temp, ?fs)], ?w, Inr ())"
    by (simp add: sys_chmod_def calm_call [OF assms(1)] new_file_def)
  have "create_handle E account uid fd w
      = (case make_handle E account uid fd temp ?w of (t', w', r) \<Rightarrow> ([(CreateExcl temp, ?fs), (Chmod temp, ?fs)] @ t', w', r))"
    using assms(5)
    by (simp add: create_handle_def handle_path_def [symmetric] lexists_def pbind_def pseq_def look_def set_local_def mk ch)
      (simp add: split_beta)
  then show ?thesis using m by fastforce
qed

lemma create_run:
  assumes "split_state arguments = (state, args)" "is_absolute state" "is_create args"
    and "parse_request E args = Inr (uid, fd, current_fd)" "euid E = 0"
    and "account = to_path state @ [str_int uid]" "private_dir (to_path state) (fs w)" "private_dir account (fs w)"
    and "lock_free account (fs w)" "fs w (handle_path account) = None"
    and "fs w (account @ [''.gatekeeper-handle-'' @ suffix]) = None"
    and "calm (kernel E) suffix" "\<not> cancelled w"
    and "runtime E (cmd @ [''--new-native-credential'', str_int uid, str_int fd, ''HANDLE'']) (choices w) = ((0, data, said), choices w)"
    and "0 < length data" "length data \<le> HANDLE_LIMIT"
  shows "result_of (provider_main E arguments) w = Inr 0
    \<and> (\<exists>h. fs (world_of (provider_main E arguments) w) (handle_path account) = Some h
         \<and> handle_ok h \<and> n_durable h \<and> n_data h = data)"
proof -
  note K = assms(12)
  have set_up: "set_up E (to_path state) args w = ([(Mkdir (to_path state), fs w), (Mkdir account, fs w)], w, Inr (Some (uid, fd, current_fd)))"
    using calm_directory [OF K assms(7)] calm_directory [OF K assms(8)]
    by (simp add: set_up_def pcatch_def pbind_def pseq_def ret_def lift_def assms(4,6))
  obtain t x where lock: "sys_create (kernel E) (lock_path account) (w\<lparr>locals := \<lparr>temporary = None, retain = False\<rparr>\<rparr>)
      = (t, w\<lparr>locals := \<lparr>temporary = None, retain = False\<rparr>, fs := (fs w)(lock_path account := x)\<rparr>, Inr ())"
    using calm_create_lock [OF K, of account "w\<lparr>locals := \<lparr>temporary = None, retain = False\<rparr>\<rparr>"] assms(9) by auto
  let ?w = "w\<lparr>locals := \<lparr>temporary = None, retain = False\<rparr>, fs := (fs w)(lock_path account := x)\<rparr>"
  have apart: "handle_path account \<noteq> lock_path account" "account @ [''.gatekeeper-handle-'' @ suffix] \<noteq> lock_path account"
    by (simp_all add: handle_path_def lock_path_def)
  have "\<exists>t w' h. create_handle E account uid fd ?w = (t, w', Inr 0) \<and> temporary (locals w') = None
      \<and> fs w' (handle_path account) = Some h \<and> handle_ok h \<and> n_durable h \<and> n_data h = data"
    by (rule create_runs [OF K]) (use assms(10,11,13-16) apart in simp_all)
  then obtain t' w' h where c: "create_handle E account uid fd ?w = (t', w', Inr 0)" "temporary (locals w') = None"
    "fs w' (handle_path account) = Some h" "handle_ok h" "n_durable h" "n_data h = data" by blast
  have "\<exists>t. provide E args account uid fd current_fd w = (t, w', Inr 0)"
    using assms(3) c(1,2)
    by (simp add: provide_def pfinally_def pcatch_def pseq_def pbind_def ret_def set_local_def lock_path_def [symmetric] lock
        calm_lock [OF K] drop_temporary_def get_local_def look_def)
  then show ?thesis
    using c(3-6) assms(3,5)
    by (auto simp: run_defs provider_main_def assms(1,2) pbind_def set_up assms(6) [symmetric])
qed

text \<open>C9. Creating a handle for a new account succeeds when nothing fails: with private directories, a
  free lock, no handle and a runtime that ends with status 0 and at most 1024 bytes, the provider
  returns 0 and the account has a durable handle with exactly the bytes of the runtime.\<close>

theorem create_succeeds:
  assumes "split_state arguments = (state, args)" "is_absolute state" "is_create args"
    and "parse_request E args = Inr (uid, fd, current_fd)" "euid E = 0"
    and "account = to_path state @ [str_int uid]" "private_dir (to_path state) (fs w)" "private_dir account (fs w)"
    and "lock_free account (fs w)" "fs w (handle_path account) = None"
    and "fs w (account @ [''.gatekeeper-handle-'' @ suffix]) = None"
    and "calm (kernel E) suffix" "\<not> cancelled w"
    and "runtime E (cmd @ [''--new-native-credential'', str_int uid, str_int fd, ''HANDLE'']) (choices w) = ((0, data, said), choices w)"
    and "0 < length data" "length data \<le> HANDLE_LIMIT"
  shows "result_of (provider_main E arguments) w = Inr 0
    \<and> (\<exists>h. fs (world_of (provider_main E arguments) w) (handle_path account) = Some h
         \<and> handle_ok h \<and> n_durable h \<and> n_data h = data)"
  using assms by (rule create_run)

subsection \<open>A concrete run\<close>

definition demo_kernel :: "unit kernel" where
  "demo_kernel = \<lparr>k_fault = \<lambda>op o'. (None, o'), k_busy = \<lambda>p o'. (False, o'), k_signal = \<lambda>o'. (False, o'),
     k_suffix = \<lambda>o'. (''x1'', o')\<rparr>"

definition demo_provider :: "unit provider" where
  "demo_provider = \<lparr>kernel = demo_kernel, euid = 0, runtime_present = True,
     fd_info = \<lambda>fd. Some \<lparr>fd_tty = False, fd_write_only = False\<rparr>, runtime = \<lambda>op o'. ((0, ''opaque'', []), o')\<rparr>"

definition demo_args :: "string list" where
  "demo_args = [''--state-dir'', ''/fp'', ''--create'', ''1073741824'', ''3'']"

definition demo_start :: "(cred_locals, unit) process" where
  "demo_start = \<lparr>fs = [[''fp''] \<mapsto> new_dir, [''fp'', ''1073741824''] \<mapsto> new_dir], cancelled = False,
     locals = \<lparr>temporary = None, retain = False\<rparr>, choices = ()\<rparr>"

lemma demo_request:
  "split_state demo_args = (''/fp'', [''--create'', ''1073741824'', ''3''])" "is_create [''--create'', ''1073741824'', ''3'']"
  "to_path ''/fp'' = [''fp'']" "is_absolute ''/fp''"
  by (simp_all add: split_state_def demo_args_def is_create_def to_path_def is_absolute_def)

lemma demo_chars:
  "char_of (48::nat) = CHR ''0''" "char_of (49::nat) = CHR ''1''" "char_of (50::nat) = CHR ''2''" "char_of (51::nat) = CHR ''3''"
  "char_of (52::nat) = CHR ''4''" "char_of (55::nat) = CHR ''7''" "char_of (56::nat) = CHR ''8''"
  "alnum_value CHR ''0'' = Some 0" "alnum_value CHR ''1'' = Some 1" "alnum_value CHR ''2'' = Some 2" "alnum_value CHR ''3'' = Some 3"
  "alnum_value CHR ''4'' = Some 4" "alnum_value CHR ''7'' = Some 7" "alnum_value CHR ''8'' = Some 8"
  "strip ''1073741824'' = ''1073741824''" "strip ''3'' = ''3''"
  by code_simp+

lemma demo_uid: "str_int 1073741824 = ''1073741824''"
  by (simp add: str_int_def dec.simps digit_char_def demo_chars)

lemma demo_int: "py_int 10 ''1073741824'' = Some 1073741824" "py_int 10 ''3'' = Some 3"
  by (simp_all add: py_int_def int_body_def demo_chars Let_def)

lemma demo_parse: "parse_request demo_provider [''--create'', ''1073741824'', ''3''] = Inr (1073741824, 3, -1)"
  by (simp add: parse_request_def is_enrol_existing_def is_enrol_def is_change_def int_arg_def demo_int is_tty_def
      readable_fd_def demo_provider_def)

lemma demo_run:
  "result_of (provider_main demo_provider demo_args) demo_start = Inr 0
   \<and> (\<exists>h. fs (world_of (provider_main demo_provider demo_args) demo_start) (handle_path [''fp'', ''1073741824'']) = Some h
        \<and> handle_ok h \<and> n_durable h \<and> n_data h = ''opaque'')"
proof (rule create_run [OF demo_request(1,4,2) demo_parse])
  show "calm (kernel demo_provider) ''x1''" by (simp add: calm_def demo_provider_def demo_kernel_def)
qed (simp_all add: demo_request demo_uid demo_provider_def demo_start_def private_dir_def new_dir_def lock_free_def
      lock_path_def handle_path_def HANDLE_LIMIT_def)

theorem create_succeeds_witness:
  "result_of (provider_main demo_provider demo_args) demo_start = Inr 0
   \<and> (\<exists>h. fs (world_of (provider_main demo_provider demo_args) demo_start) (handle_path [''fp'', ''1073741824'']) = Some h
        \<and> handle_ok h \<and> n_durable h \<and> n_data h = ''opaque'')"
proof (rule create_succeeds [OF demo_request(1,4,2) demo_parse])
  show "calm (kernel demo_provider) ''x1''" by (simp add: calm_def demo_provider_def demo_kernel_def)
qed (simp_all add: demo_request demo_uid demo_provider_def demo_start_def private_dir_def new_dir_def lock_free_def
      lock_path_def handle_path_def HANDLE_LIMIT_def)

theorem native_status_zero_witness:
  "has_handle [''fp'', ''1073741824''] (fs (world_of (provider_main demo_provider demo_args) demo_start))"
  using native_status_zero [OF demo_request(1) _ demo_parse, of demo_start] demo_run by (simp add: demo_request demo_uid)

end
