(* ===== verification/EnrolDemo.thy ===== *)
theory EnrolDemo
  imports EnrolOutcome HandleLive
begin

text \<open>Concrete enrolments.\<close>

definition demo_secret :: string where
  "demo_secret = replicate 64 CHR ''0''"

definition demo_child :: "unit child_process" where
  "demo_child c st = ([], ((fst st)(to_path (c ! 6) \<mapsto> new_file\<lparr>n_data := ''database''\<rparr>), snd st), 0, [CLEANUP])"

definition demo_enroller :: "unit child_process \<Rightarrow> unit enroller" where
  "demo_enroller c = \<lparr>ker = demo_kernel, superuser = True, passwd = [''ada'' \<mapsto> (''ada'', 1000)], passwd_uid = [1000 \<mapsto> ''ada''],
     here = [''opt''], json_object = (\<lambda>b. if b = ''candidate''
       then Some [(''linux_username'', JString ''ada''), (''linux_uid'', JInt 1000)]
       else Some (binding ''ada'' 1000 @ [(''secret_hex'', JString demo_secret)])),
     json_text = (\<lambda>_. ''record''), urandom = (\<lambda>o'. (replicate 32 CHR ''k'', o')), input_fd = 7, child = c,
     still_running = (\<lambda>o'. (False, o'))\<rparr>"

definition demo_arguments :: "string list" where
  "demo_arguments = [''--enrol'', ''ada'', ''/run/db'']"

definition demo_account :: path where
  "demo_account = STATE_ROOT @ [''1610613736'']"

definition demo_fs :: fs where
  "demo_fs = [[''opt''] \<mapsto> new_dir, [''opt'', ''native_credentials.py''] \<mapsto> new_file,
     [''opt'', ''CANDIDATE.json''] \<mapsto> new_file\<lparr>n_data := ''candidate''\<rparr>, [''run''] \<mapsto> new_dir,
     STATE_ROOT \<mapsto> new_dir, demo_account \<mapsto> new_dir, demo_account @ [''user-operation.lock''] \<mapsto> new_file]"

definition demo_known :: fs where
  "demo_known = demo_fs(record_path demo_account \<mapsto> new_file\<lparr>n_data := ''record''\<rparr>,
     credential_path demo_account \<mapsto> new_file\<lparr>n_data := ''opaque''\<rparr>)"

definition demo_process :: "fs \<Rightarrow> (enrol_locals, unit) process" where
  "demo_process s = \<lparr>fs = s, cancelled = False, locals = \<lparr>cleaned = True, cleanup = False, pending = []\<rparr>, choices = ()\<rparr>"

lemma demo_native: "native_uid 1000 = 1610613736" "str_int 1610613736 = ''1610613736''" "str_int 7 = ''7''"
proof -
  have d: "char_of (48::nat) = CHR ''0''" "char_of (49::nat) = CHR ''1''" "char_of (51::nat) = CHR ''3''"
    "char_of (54::nat) = CHR ''6''" "char_of (55::nat) = CHR ''7''" by code_simp+
  show "native_uid 1000 = 1610613736" by (simp add: native_uid_def)
  show "str_int 1610613736 = ''1610613736''" "str_int 7 = ''7''" by (simp_all add: str_int_def dec.simps digit_char_def d)
qed

lemma demo_calm: "calm demo_kernel ''x1''"
  by (simp add: calm_def demo_kernel_def)

lemma demo_hex: "from_hex demo_secret = Some (replicate 32 CHR 0x00)"
  by code_simp

lemmas demo_defs = demo_enroller_def demo_arguments_def demo_process_def demo_native

lemma demo_uid_ok: "account_uid (demo_enroller c) ''ada'' = Inr 1000"
  by (simp add: account_uid_def demo_enroller_def)

lemma demo_bundle: "s [''opt''] = Some new_dir \<Longrightarrow> s [''opt'', ''native_credentials.py''] = Some new_file \<Longrightarrow>
  s [''opt'', ''CANDIDATE.json''] = Some (new_file\<lparr>n_data := ''candidate''\<rparr>) \<Longrightarrow> 
  check_bundle (demo_enroller c) ''ada'' 1000 (demo_process s) = ([(OpenAt [''opt'', ''CANDIDATE.json''], s)], demo_process s, Inr ())"
  by (simp add: check_bundle_def demo_enroller_def demo_process_def pseq_def pbind_def ret_def look_def sys_lstat_def
     sys_open_def calm_call [OF demo_calm] trusted_def new_dir_def new_file_def DIR_MODE_def FILE_MODE_def check_def lift_def check_target_def
     require_def unchanged_def)


lemma demo_cancelled: "is_cancelled demo_kernel w = ([], w, Inr False)" if "\<not> cancelled w"
  using calm_cancelled [OF demo_calm that] .

lemmas demo_run_rules = pseq_def pbind_def ret_def look_def sys_lstat_def check_def lift_def raise_def set_local_def get_local_def
  sys_open_def sys_create_def sys_create_excl_def sys_write_def sys_fsync_def sys_sync_dir_def sys_print_def sys_mkdir_def
  calm_call [OF demo_calm] demo_cancelled calm_lock [OF demo_calm]

lemma demo_kernel_of [simp]: "ker (demo_enroller c) = demo_kernel"
  by (simp add: demo_enroller_def)

lemma demo_paths: "to_path ''/run/db'' = [''run'', ''db'']" "is_absolute ''/run/db''"
  by (simp_all add: to_path_def is_absolute_def)

lemma demo_template: "f \<noteq> CHR ''.'' \<Longrightarrow> f \<noteq> CHR ''/'' \<Longrightarrow>
   template ''ada'' f = [''var'', ''lib'', ''fprint'', ''ada'', ''fpc1264_oem'', ''liuqin-fpc1264-oem'', [f]]"
  by (simp add: to_path_def template_def FPRINT_ROOT_def)

definition demo_ready :: "fs \<Rightarrow> bool" where
  "demo_ready s \<longleftrightarrow> s [''opt''] = Some new_dir \<and> s [''opt'', ''native_credentials.py''] = Some new_file
     \<and> s [''opt'', ''CANDIDATE.json''] = Some (new_file\<lparr>n_data := ''candidate''\<rparr>) \<and> s [''run''] = Some new_dir
     \<and> s [''run'', ''db''] = None \<and> s STATE_ROOT = Some new_dir \<and> s demo_account = Some new_dir
     \<and> s (demo_account @ [''user-operation.lock'']) = Some new_file
     \<and> (\<forall>f. s [''var'', ''lib'', ''fprint'', ''ada'', ''fpc1264_oem'', ''liuqin-fpc1264-oem'', f] = None)"

lemma demo_ready: "demo_ready demo_fs" "demo_ready demo_known"
  by (simp_all add: demo_ready_def demo_fs_def demo_known_def demo_account_def STATE_ROOT_def record_path_def credential_path_def)

lemma demo_output: "demo_ready s \<Longrightarrow> check_output ''/run/db'' (demo_process s) = ([], demo_process s, Inr ())"
  by (simp add: check_output_def Let_def demo_paths resolved_def lexists_def demo_process_def demo_run_rules demo_ready_def
    is_private_def new_dir_def)

lemma demo_front: "demo_ready s \<Longrightarrow> enrol (demo_enroller c) ''ada'' ''/run/db'' (demo_process s) =
   (case enrol_locked (demo_enroller c) demo_account ''ada'' 1000 [''run'', ''db''] (demo_process s) of (t, w, r) \<Rightarrow>
      ([(OpenAt [''opt'', ''CANDIDATE.json''], s), (Mkdir STATE_ROOT, s), (Mkdir demo_account, s),
        (OpenAt (demo_account @ [''user-operation.lock'']), s), (Lock (demo_account @ [''user-operation.lock'']), s)] @ t, w, r))"
proof -
  assume r: "demo_ready s"
  have acc: "STATE_ROOT @ [str_int (native_uid 1000)] = demo_account"
    "STATE_ROOT @ [str_int (native_uid 1000), x] = demo_account @ [x]" for x by (simp_all add: demo_native demo_account_def)
  have b: "check_bundle (demo_enroller c) ''ada'' 1000 (demo_process s) = ([(OpenAt [''opt'', ''CANDIDATE.json''], s)], demo_process s, Inr ())"
    using r by (simp add: demo_bundle demo_ready_def)
  have d: "enrol_directory demo_kernel p (demo_process s) = ([(Mkdir p, s)], demo_process s, Inr ())" if "s p = Some new_dir" for p
    using that by (simp add: enrol_directory_def demo_process_def demo_run_rules new_dir_def is_private_def)
  have l: "sys_create demo_kernel (demo_account @ [''user-operation.lock'']) (demo_process s)
      = ([(OpenAt (demo_account @ [''user-operation.lock'']), s)], demo_process s, Inr ())"
    using r by (simp add: demo_process_def demo_run_rules demo_ready_def new_file_def)
  have f: "fs (demo_process s) = s" by (simp add: demo_process_def)
  have t: "\<not> list_ex (\<lambda>finger. lexists (template ''ada'' finger) s) ''123456789a''"
    using r by (simp add: demo_template demo_ready_def lexists_def)
  show ?thesis
    using t r unfolding enrol_def Let_def
    by (simp add: acc check_def ret_def demo_uid_ok pseq_def pbind_def lift_def look_def b f demo_output d l demo_ready_def calm_lock [OF demo_calm] demo_paths
        split: prod.split sum.split)
qed


lemma demo_seal: "length secret = 32 \<Longrightarrow> \<not> cancelled w \<Longrightarrow> seal_input demo_kernel secret w = ([(MakeInput secret, fs w)], w, Inr ())"
  by (simp add: seal_input_def demo_run_rules unchanged_def)


lemma demo_reads: "fs w p = Some n \<Longrightarrow> private_file limit n \<Longrightarrow> private_read demo_kernel p limit w = ([(OpenAt p, fs w)], w, Inr (n_data n))"
  by (auto simp: private_read_def private_file_def is_private_def demo_run_rules unchanged_def)

lemma demo_credential:
  "read_credential (demo_enroller c) demo_account ''ada'' 1000 (demo_process demo_known)
    = ([(OpenAt (record_path demo_account), demo_known), (OpenAt (credential_path demo_account), demo_known)],
       demo_process demo_known, Inr (replicate 32 CHR 0x00))"
proof -
  have n: "demo_known (record_path demo_account) = Some (new_file\<lparr>n_data := ''record''\<rparr>)"
    "demo_known (credential_path demo_account) = Some (new_file\<lparr>n_data := ''opaque''\<rparr>)"
    by (simp_all add: demo_known_def record_path_def credential_path_def)
  have b: "take_secret (json_object (demo_enroller c) ''record'') (binding ''ada'' 1000) = Inr (replicate 32 CHR 0x00)"
    by (simp add: demo_enroller_def take_secret_def binding_def demo_hex)
  have r: "private_read demo_kernel (record_path demo_account) 4096 (demo_process demo_known)
      = ([(OpenAt (record_path demo_account), demo_known)], demo_process demo_known, Inr ''record'')"
    "private_read demo_kernel (credential_path demo_account) 1024 (demo_process demo_known)
      = ([(OpenAt (credential_path demo_account), demo_known)], demo_process demo_known, Inr ''opaque'')"
    by (simp_all add: demo_process_def n demo_reads private_file_def is_private_def new_file_def)
  show ?thesis
    by (simp add: read_credential_def pbind_def pseq_def ret_def lift_def r b)
qed


definition demo_temp :: path where
  "demo_temp = [''run'', ''.native-enrol-x1'']"

definition demo_made :: fs where
  "demo_made = demo_known(demo_temp \<mapsto> new_dir)"

definition demo_db :: fs where
  "demo_db = demo_made(demo_temp @ [''database''] \<mapsto> new_file\<lparr>n_data := ''database''\<rparr>)"

lemma demo_mkdtemp:
  "sys_mkdtemp demo_kernel [''run''] ''.native-enrol-'' (demo_process demo_known) = ([(Mkdir demo_temp, demo_made)], demo_process demo_made, Inr demo_temp)"
proof -
  have "demo_known demo_temp = None"
    by (simp add: demo_known_def demo_fs_def demo_temp_def demo_account_def STATE_ROOT_def record_path_def credential_path_def)
  moreover have "k_suffix demo_kernel o' = (''x1'', o')" for o' by (simp add: demo_kernel_def)
  ultimately show ?thesis
    by (simp add: sys_mkdtemp_def demo_run_rules demo_process_def demo_temp_def demo_made_def Let_def)
qed

lemma demo_runtime:
  assumes "to_path (c ! 6) = demo_temp @ [''database'']"
  shows "runtime_run (demo_enroller demo_child) c False (demo_process demo_made) =
   ([(Spawn c, demo_made), (Ran c 0 [CLEANUP], demo_db), (Print CLEANUP, demo_db)],
    (demo_process demo_db)\<lparr>locals := \<lparr>cleaned = True, cleanup = True, pending = []\<rparr>\<rparr>, Inr 0)"
proof -
  have "forwarded CLEANUP" "note_line CLEANUP b" for b
    by (simp_all add: forwarded_def CLEANUP_def FORWARD_def starts_with_def note_line_def)
  then show ?thesis
    using assms
    by (simp add: runtime_run_def start_child_def run_native_def drain_def demo_enroller_def demo_process_def demo_run_rules
        pcatch_def pfinally_def demo_child_def unchanged_def demo_db_def)
qed


lemma demo_publish:
  assumes "\<not> cancelled w" "fs w = demo_db"
  shows "\<exists>t s. publish demo_kernel (demo_temp @ [''database'']) [''run'', ''db''] w = (t, w\<lparr>fs := s\<rparr>, Inr ())"
proof -
  have f: "demo_db (demo_temp @ [''database'']) = Some (new_file\<lparr>n_data := ''database''\<rparr>)" "demo_db [''run'', ''db''] = None"
    by (simp_all add: demo_db_def demo_made_def demo_known_def demo_fs_def demo_temp_def demo_account_def STATE_ROOT_def
        record_path_def credential_path_def)
  have n: "n_kind new_file = Regular" "private_file DATABASE_LIMIT (new_file\<lparr>n_data := ''database''\<rparr>)"
    by (simp_all add: new_file_def private_file_def is_private_def DATABASE_LIMIT_def)
  show ?thesis
    using assms by (simp add: publish_def copy_database_def demo_run_rules pcatch_def unchanged_def f n) (intro exI, rule refl)
qed

lemma demo_finger:
  "\<exists>t w. enrol_finger (demo_enroller demo_child) 1000 [''run'', ''db''] (demo_process demo_known) = (t, w, Inr 0)
    \<and> \<not> cancelled w \<and> cleaned (locals w)"
proof -
  let ?c = "native_command (demo_enroller demo_child) [''--enrol'', path_text (demo_temp @ [''database'']), str_int (native_uid 1000),
    str_int (input_fd (demo_enroller demo_child))]"
  let ?w = "(demo_process demo_db)\<lparr>locals := \<lparr>cleaned = True, cleanup = True, pending = []\<rparr>\<rparr>"
  have p: "to_path (?c ! 6) = demo_temp @ [''database'']"
    by (simp add: native_command_def demo_temp_def path_text_def to_path_def)
  have w: "\<not> cancelled ?w" "fs ?w = demo_db" by (simp_all add: demo_process_def)
  obtain t s where pub: "publish demo_kernel (demo_temp @ [''database'']) [''run'', ''db''] ?w = (t, ?w\<lparr>fs := s\<rparr>, Inr ())"
    using demo_publish [OF w] by blast
  show ?thesis
    by (simp add: enrol_finger_def pbind_def pfinally_def pseq_def demo_mkdtemp demo_runtime [OF p] get_local_def look_def
        demo_cancelled [OF w(1)] pub ret_def sys_rmtree_def calm_call [OF demo_calm])
      (simp add: demo_process_def)
qed

lemma demo_known_run:
  "\<exists>t w. enrol_locked (demo_enroller demo_child) demo_account ''ada'' 1000 [''run'', ''db''] (demo_process demo_known) = (t, w, Inr 0)
    \<and> \<not> cancelled w \<and> cleaned (locals w)"
proof -
  obtain t w where f: "enrol_finger (demo_enroller demo_child) 1000 [''run'', ''db''] (demo_process demo_known) = (t, w, Inr 0)"
    "\<not> cancelled w" "cleaned (locals w)" using demo_finger by blast
  have s: "fs (demo_process demo_known) = demo_known" "\<not> cancelled (demo_process demo_known)" by (simp_all add: demo_process_def)
  have l: "demo_known (marker_path demo_account) = None" "demo_known (record_path demo_account) \<noteq> None"
    "demo_known (credential_path demo_account) \<noteq> None"
    by (simp_all add: demo_known_def demo_fs_def demo_account_def STATE_ROOT_def marker_path_def record_path_def credential_path_def)
  show ?thesis
    using f by (simp add: enrol_locked_def use_identity_def lexists_def s l pseq_def pbind_def look_def ret_def check_def
        demo_cancelled [OF s(2)] demo_credential demo_seal)
qed

lemma demo_main:
  assumes "demo_ready s" "enrol_locked (demo_enroller c) demo_account ''ada'' 1000 [''run'', ''db''] (demo_process s) = (t, w, Inr r)"
    "\<not> cancelled w"
  shows "result_of (enrol_main (demo_enroller c) demo_arguments) (demo_process s) = Inr r"
    "requests (trace_of (enrol_main (demo_enroller c) demo_arguments) (demo_process s)) = requests t"
proof -
  let ?f = "[(OpenAt [''opt'', ''CANDIDATE.json''], s), (Mkdir STATE_ROOT, s), (Mkdir demo_account, s),
        (OpenAt (demo_account @ [''user-operation.lock'']), s), (Lock (demo_account @ [''user-operation.lock'']), s)]"
  have e: "enrol (demo_enroller c) ''ada'' ''/run/db'' (demo_process s) = (?f @ t, w, Inr r)"
    using demo_front [OF assms(1), of c] assms(2) by simp
  have u: "superuser (demo_enroller c)" "set_local (\<lambda>_. \<lparr>cleaned = True, cleanup = False, pending = []\<rparr>) (demo_process s)
      = ([], demo_process s, Inr ())"
    by (simp_all add: demo_enroller_def set_local_def demo_process_def)
  have g: "\<exists>p. (\<forall>x \<in> set p. \<not> create_request (fst x)) \<and> enrol_main (demo_enroller c) demo_arguments (demo_process s) = (?f @ t @ p, w, Inr r)"
    using assms(3) u
    by (simp add: enrol_main_def demo_arguments_def pseq_def pbind_def pfinally_def pcatch_def e report_cleaned_def get_local_def look_def
        ret_def sys_print_def calm_call [OF demo_calm] demo_cancelled)
  then show "result_of (enrol_main (demo_enroller c) demo_arguments) (demo_process s) = Inr r"
    "requests (trace_of (enrol_main (demo_enroller c) demo_arguments) (demo_process s)) = requests t"
    by (auto simp: run_defs requests_def filter_empty_conv)
qed

definition refusing_provider :: "unit provider" where
  "refusing_provider = demo_provider\<lparr>euid := 1\<rparr>"

lemma demo_fresh_run:
  "\<exists>t w r. enrol_locked (demo_enroller (provider_child refusing_provider)) demo_account ''ada'' 1000 [''run'', ''db''] (demo_process demo_fs) = (t, w, Inr r)
    \<and> \<not> cancelled w \<and> requests t = 1"
proof -
  let ?H = "demo_enroller (provider_child refusing_provider)"
  have s: "fs (demo_process s) = s" "\<not> cancelled (demo_process s)" for s by (simp_all add: demo_process_def)
  have l: "demo_fs (marker_path demo_account) = None" "demo_fs (record_path demo_account) = None"
    "demo_fs (credential_path demo_account) = None" "marker_path demo_account \<noteq> record_path demo_account"
    by (simp_all add: demo_fs_def demo_account_def STATE_ROOT_def marker_path_def record_path_def credential_path_def)
  have c: "provider_child refusing_provider c st = ([], st, 2, [])" for c st
    by (cases st) (simp add: provider_child_def provider_main_def refusing_provider_def ret_def Let_def said_in_def split: prod.split)
  have settled: "settle d s p = None" if "s p = None" for d s p using that by simp
  have m: "\<exists>t s2. make_credential ?H demo_account ''ada'' 1000 (demo_process demo_fs) = (t, demo_process s2, Inr (replicate 32 CHR ''k'')) \<and> requests t = 0"
    using l by (simp add: make_credential_def write_exclusive_def new_secret_def demo_run_rules demo_process_def demo_enroller_def requests_def unchanged_def
        put_def flush_def settled)
  then obtain t s2 where m: "make_credential ?H demo_account ''ada'' 1000 (demo_process demo_fs) = (t, demo_process s2, Inr (replicate 32 CHR ''k''))"
    "requests t = 0" by blast
  let ?c = "native_command ?H [''--create'', str_int (native_uid 1000), str_int (input_fd ?H)]"
  have q: "create_request (Spawn ?c)" by (simp add: create_request_def script_args_def native_command_def)
  have "\<exists>t w. request_creation ?H demo_account 1000 (demo_process s2) = (t, w, Inr 1) \<and> \<not> cancelled w \<and> requests t = 1"
    using q by (simp add: request_creation_def runtime_run_def start_child_def run_native_def drain_def demo_run_rules pcatch_def
        pfinally_def demo_process_def demo_enroller_def [of "provider_child refusing_provider"] c requests_def unchanged_def)
  then obtain t2 w where r: "request_creation ?H demo_account 1000 (demo_process s2) = (t2, w, Inr 1)" "\<not> cancelled w" "requests t2 = 1"
    by blast
  show ?thesis
    using r m(2) by (simp add: enrol_locked_def use_identity_def lexists_def s l pseq_def pbind_def look_def ret_def check_def
        demo_cancelled m demo_seal requests_def)
qed


subsection \<open>Witnesses\<close>

lemma demo_enrols: "enrols_account (demo_enroller c) demo_arguments demo_account"
  by (simp add: enrols_account_def demo_arguments_def demo_uid_ok demo_native demo_account_def)

theorem at_most_one_creation_witness:
  "\<exists>w :: (enrol_locals, unit) process. history demo_account w 1 \<and> (marked demo_account (fs w) \<or> settled_pair demo_account (fs w))"
proof -
  let ?H = "demo_enroller (provider_child refusing_provider)"
  let ?w = "demo_process demo_fs"
  let ?m = "enrol_main ?H demo_arguments"
  obtain t w r where "enrol_locked ?H demo_account ''ada'' 1000 [''run'', ''db''] ?w = (t, w, Inr r)" "\<not> cancelled w" "requests t = 1"
    using demo_fresh_run by blast
  from demo_main(2) [OF demo_ready(1) this(1,2)] this(3) have one: "requests (trace_of ?m ?w) = 1" by simp
  have "history demo_account (world_of ?m ?w) (0 + requests (trace_of ?m ?w))"
    by (rule finished [OF start _ demo_enrols refl, of _ refusing_provider]) (simp add: demo_enroller_def)
  then have h: "history demo_account (world_of ?m ?w) 1" using one by simp
  from at_most_one_creation [OF h] h show ?thesis by (intro exI [of _ "world_of ?m ?w"]) simp
qed

definition demo_marked :: fs where
  "demo_marked = demo_fs(marker_path demo_account \<mapsto> new_file)"

theorem unfinished_refused_witness:
  "result_of (enrol_main (demo_enroller demo_child) demo_arguments) (demo_process demo_marked) \<noteq> Inr 0"
  using unfinished_refused [OF demo_enrols, of "demo_process demo_marked"]
  by (simp add: demo_process_def unfinished_def lexists_def demo_marked_def)

theorem enrol_status_zero_witness:
  "\<exists>n. fs (world_of (enrol_main (demo_enroller demo_child) demo_arguments) (demo_process demo_known)) [''run'', ''db''] = Some n
    \<and> is_private Regular FILE_MODE n \<and> n_durable n"
proof -
  have p: "to_path (demo_arguments ! 2) = [''run''] @ [''db'']" by (simp add: demo_arguments_def demo_paths)
  have x: "\<not> starts_with ''.native-enrol-'' ''db''" by (simp add: starts_with_def)
  obtain t w where "enrol_locked (demo_enroller demo_child) demo_account ''ada'' 1000 [''run'', ''db''] (demo_process demo_known) = (t, w, Inr 0)"
    "\<not> cancelled w" using demo_known_run by blast
  from enrol_status_zero [OF p x demo_main(1) [OF demo_ready(2) this]] show ?thesis by auto
qed

end
