(* ===== verification/UserDemo.thy ===== *)
theory UserDemo
  imports KeyringUse EnrolDemo
begin

text \<open>Concrete runs of the bridge.\<close>

definition password_input :: bytes where
  "password_input = replicate 32 CHR ''p''"

definition user_uid :: int where
  "user_uid = 1342178280"

definition user_account :: path where
  "user_account = [''fp'', ''1342178280'']"

definition demo_prepared :: "(string \<times> json) list" where
  "demo_prepared = [(''schema'', JInt 1), (''username'', JString ''ada''), (''native_uid'', JInt user_uid),
     (''boot_id'', JString ''boot''), (''key_serial'', JInt 5), (''expires'', JInt LIFETIME)]"

definition demo_salt :: bytes where
  "demo_salt = replicate 32 CHR ''k''"

definition parameters_body :: bytes where
  "parameters_body = ''parameters''"

definition prepared_body :: bytes where
  "prepared_body = ''prepared''"

definition parameters_text :: bytes where
  "parameters_text = parameters_body @ [newline]"

definition prepared_text :: bytes where
  "prepared_text = prepared_body @ [newline]"

lemma text_sizes [simp]: "length parameters_text \<le> 4096" "length prepared_text \<le> 4096"
  by (simp_all add: parameters_text_def prepared_text_def parameters_body_def prepared_body_def)

definition demo_bridge :: "unit child_process \<Rightarrow> unit bridge" where
  "demo_bridge c = \<lparr>en = (demo_enroller c)\<lparr>
       json_object := (\<lambda>b. Some (if b = parameters_text then new_parameters ''ada'' 1000 user_uid demo_salt else demo_prepared)),
       json_text := (\<lambda>ob. if map_of ob ''username'' = None then parameters_body else prepared_body)\<rparr>,
     is_root = True, helper = (\<lambda>c o'. ((0, [], password_input), o')), boot_id = ''boot'', clock = (\<lambda>o'. (0, o')),
     new_serial = (\<lambda>o'. (5, o')), salt_no = 8, current_no = 9, input_no = 3\<rparr>"

definition user_process :: "fs \<Rightarrow> key list \<Rightarrow> (user_locals, unit) process" where
  "user_process s ks = \<lparr>fs = s, cancelled = False, locals = \<lparr>keyring = ks\<rparr>, choices = ()\<rparr>"

definition user_fs :: fs where
  "user_fs = [[''opt''] \<mapsto> new_dir, [''opt'', ''pam-input''] \<mapsto> new_file, [''opt'', ''native_credentials.py''] \<mapsto> new_file,
     [''fp''] \<mapsto> new_dir, user_account \<mapsto> new_dir, user_account @ [''user-operation.lock''] \<mapsto> new_file,
     user_account @ [''operation.lock''] \<mapsto> new_file, [''run''] \<mapsto> new_dir, RUN_ROOT \<mapsto> new_dir]"

definition known_fs :: fs where
  "known_fs = user_fs(handle_path user_account \<mapsto> new_file\<lparr>n_data := ''opaque''\<rparr>,
     parameter_file user_account \<mapsto> new_file\<lparr>n_data := parameters_text\<rparr>)"

definition prepared_fs :: fs where
  "prepared_fs = known_fs(acceptance_path ''ada'' \<mapsto> new_file\<lparr>n_data := prepared_text\<rparr>)"

definition user_ready :: "fs \<Rightarrow> bool" where
  "user_ready s \<longleftrightarrow> s [''opt''] = Some new_dir \<and> s [''opt'', ''pam-input''] = Some new_file
     \<and> s [''opt'', ''native_credentials.py''] = Some new_file \<and> s [''fp''] = Some new_dir
     \<and> s user_account = Some new_dir \<and> s (user_account @ [''user-operation.lock'']) = Some new_file
     \<and> s (user_account @ [''operation.lock'']) = Some new_file \<and> s [''run''] = Some new_dir \<and> s RUN_ROOT = Some new_dir
     \<and> (\<forall>name. s [''fp'', ''1073742824'', name] = None)"

lemma user_ready: "user_ready user_fs" "user_ready known_fs" "user_ready prepared_fs"
  by (simp_all add: user_ready_def user_fs_def known_fs_def prepared_fs_def user_account_def RUN_ROOT_def handle_path_def
      parameter_file_def acceptance_path_def)

lemma user_digits: "str_int 1073742824 = ''1073742824''" "str_int user_uid = ''1342178280''" "str_int 3 = ''3''"
proof -
  have d: "char_of (48::nat) = CHR ''0''" "char_of (49::nat) = CHR ''1''" "char_of (50::nat) = CHR ''2''" "char_of (51::nat) = CHR ''3''"
    "char_of (52::nat) = CHR ''4''" "char_of (55::nat) = CHR ''7''" "char_of (56::nat) = CHR ''8''" by code_simp+
  show "str_int 1073742824 = ''1073742824''" "str_int user_uid = ''1342178280''" "str_int 3 = ''3''"
    by (simp_all add: str_int_def dec.simps digit_char_def d user_uid_def)
qed

lemma user_native: "user_ready s \<Longrightarrow> native_account_uid [''fp''] 1000 s = user_uid"
proof -
  assume r: "user_ready s"
  have l: "legacy_uid 1000 = 1073742824" by (simp add: legacy_uid_def)
  have "0x50000000 OR (1000::int) = user_uid" by (simp add: user_uid_def)
  then show ?thesis using r by (simp add: native_account_uid_def l user_digits IDENTITY_FILES_def user_ready_def lexists_def)
qed

lemma demo_bridge_simps [simp]:
  "ker (en (demo_bridge c)) = demo_kernel" "is_root (demo_bridge c)" "child (en (demo_bridge c)) = c" "here (en (demo_bridge c)) = [''opt'']"
  "input_no (demo_bridge c) = 3" "boot_id (demo_bridge c) = ''boot''" "urandom (en (demo_bridge c)) = (\<lambda>o'. (demo_salt, o'))"
  "helper (demo_bridge c) = (\<lambda>c o'. ((0, [], password_input), o'))" "clock (demo_bridge c) = (\<lambda>o'. (0, o'))"
  "new_serial (demo_bridge c) = (\<lambda>o'. (5, o'))" "account_uid (en (demo_bridge c)) ''ada'' = Inr 1000"
  by (simp_all add: demo_bridge_def demo_enroller_def demo_salt_def account_uid_def)

lemma user_process_simps [simp]:
  "fs (user_process s ks) = s" "cancelled (user_process s ks) = False" "keyring (locals (user_process s ks)) = ks" "choices (user_process s ks) = ()"
  "(user_process s ks)\<lparr>fs := s'\<rparr> = user_process s' ks" "(user_process s ks)\<lparr>choices := o'\<rparr> = user_process s ks"
  "(user_process s ks)\<lparr>locals := \<lparr>keyring = ks'\<rparr>\<rparr> = user_process s ks'"
  by (simp_all add: user_process_def)

definition user_arguments :: "string list \<Rightarrow> string list" where
  "user_arguments args = [''--state-dir'', ''/fp''] @ args"

lemma user_split: "split_native (user_arguments args) = (''/fp'', args)" "to_path ''/fp'' = [''fp'']" "is_absolute ''/fp''"
  by (simp_all add: split_native_def user_arguments_def demo_request)

lemma user_front:
  assumes "user_ready s" "user_accepts args" "args ! 1 = ''ada''"
    "user_locked (demo_bridge c) [''fp''] args ''ada'' 1000 user_uid (user_process s ks) = (t, w, Inr r)"
  shows "\<exists>p. user_main (demo_bridge c) (user_arguments args) (user_process s ks) = (p @ t, w, Inr r)"
proof -
  have acc: "[''fp'', str_int user_uid] = user_account" "[''fp'', str_int user_uid, x] = user_account @ [x]" for x
    by (simp_all add: user_digits user_account_def)
  have d: "private_directory demo_kernel p (user_process s ks) = ([(Mkdir p, s)], user_process s ks, Inr ())" if "s p = Some new_dir" for p
    by (subst calm_directory [OF demo_calm]) (simp_all add: private_dir_def that new_dir_def)
  have c: "check_programs (demo_bridge c) (user_process s ks) = ([], user_process s ks, Inr ())"
    using assms(1) by (simp add: user_ready_def check_programs_def Let_def demo_run_rules safe_program_def new_dir_def new_file_def
        DIR_MODE_def FILE_MODE_def)
  have l: "sys_create demo_kernel (user_account @ [''user-operation.lock'']) (user_process s ks)
      = ([(OpenAt (user_account @ [''user-operation.lock'']), s)], user_process s ks, Inr ())"
    using assms(1) by (simp add: demo_run_rules user_ready_def new_file_def)
  show ?thesis
    using assms(1-3) unfolding user_main_def user_split
    by (simp add: user_split assms(3) user_request_def user_body_def pcatch_def pbind_def pseq_def lift_def look_def user_native acc d c l
        assms(4) calm_lock [OF demo_calm] user_ready_def)
qed


subsection \<open>The provider\<close>

definition user_op :: "string \<Rightarrow> string list" where
  "user_op name = [name, ''1342178280'', ''3'']"

lemma user_script: "script_args (provider_command (demo_bridge c) [''fp''] op) = [''--state-dir'', ''/fp''] @ op"
  by (simp add: script_args_def provider_command_def path_text_def)

lemma user_int: "py_int 10 ''1342178280'' = Some user_uid"
proof -
  have "alnum_value CHR ''8'' = Some 8" "strip ''1342178280'' = ''1342178280''" by code_simp+
  then show ?thesis by (simp add: py_int_def int_body_def demo_chars Let_def user_uid_def)
qed

lemma user_parse: "parse_request demo_provider (user_op name) = Inr (user_uid, 3, -1)"
  by (simp add: parse_request_def is_enrol_existing_def is_enrol_def is_change_def int_arg_def demo_int user_int is_tty_def
      readable_fd_def demo_provider_def user_op_def user_uid_def)

lemma user_provider_split: "split_state ([''--state-dir'', ''/fp''] @ op) = (''/fp'', op)" "split_state (''--state-dir'' # ''/fp'' # op) = (''/fp'', op)"
  by (simp_all add: split_state_def)

lemma provider_creates:
  "\<exists>t s said. provider_child demo_provider (provider_command (demo_bridge c) [''fp''] (user_op ''--create'')) (s0, ()) = (t, (s, ()), 0, said)"
  if "user_ready s0" "s0 (handle_path user_account) = None" "s0 (user_account @ [''.gatekeeper-handle-x1'']) = None"
proof -
  let ?w = "\<lparr>fs = s0, cancelled = False, locals = \<lparr>temporary = None, retain = False\<rparr>, choices = ()\<rparr> :: (cred_locals, unit) process"
  have "result_of (provider_main demo_provider ([''--state-dir'', ''/fp''] @ user_op ''--create'')) ?w = Inr 0 \<and> 
     (\<exists>h. fs (world_of (provider_main demo_provider ([''--state-dir'', ''/fp''] @ user_op ''--create'')) ?w) (handle_path user_account) = Some h
         \<and> handle_ok h \<and> n_durable h \<and> n_data h = ''opaque'')"
  proof (rule create_run [OF user_provider_split(1) _ _ user_parse])
    show "calm (kernel demo_provider) ''x1''" by (simp add: calm_def demo_provider_def demo_kernel_def)
  qed (use that in \<open>simp_all add: user_op_def is_create_def demo_request user_digits demo_provider_def private_dir_def new_dir_def lock_free_def
      lock_path_def HANDLE_LIMIT_def user_ready_def user_account_def new_file_def\<close>)
  then show ?thesis
    unfolding provider_child_def user_script by (auto simp: run_defs Let_def split: prod.split)
qed

lemma provider_authorizes:
  "\<exists>t said. provider_child demo_provider (provider_command (demo_bridge c) [''fp''] (user_op ''--auth-preflight-renew'')) (s, ()) = (t, (s, ()), 0, said)"
  if "user_ready s" "s (handle_path user_account) = Some (new_file\<lparr>n_data := ''opaque''\<rparr>)"
proof -
  let ?w = "\<lparr>fs = s, cancelled = False, locals = \<lparr>temporary = None, retain = False\<rparr>, choices = ()\<rparr> :: (cred_locals, unit) process"
  have acc: "[''fp'', str_int user_uid] = user_account" "[''fp'', str_int user_uid, x] = user_account @ [x]" for x
    by (simp_all add: user_digits user_account_def)
  have d: "private_directory demo_kernel p ?w = ([(Mkdir p, s)], ?w, Inr ())" if "s p = Some new_dir" for p
    by (subst calm_directory [OF demo_calm]) (simp_all add: private_dir_def that new_dir_def)
  have K: "kernel demo_provider = demo_kernel" "euid demo_provider = 0" "runtime demo_provider = (\<lambda>op o'. ((0, ''opaque'', []), o'))"
    by (simp_all add: demo_provider_def)
  have ops: "is_authorize (user_op ''--auth-preflight-renew'')" "\<not> is_create (user_op ''--auth-preflight-renew'')"
     "\<not> is_change (user_op ''--auth-preflight-renew'')"  "\<not> is_enrol (user_op ''--auth-preflight-renew'')"
     "\<not> is_enrol_existing (user_op ''--auth-preflight-renew'')" 
    by (simp_all add: user_op_def is_authorize_def is_create_def is_change_def is_enrol_def is_enrol_existing_def)
  have h: "s (user_account @ [''gatekeeper.handle'']) = Some (new_file\<lparr>n_data := ''opaque''\<rparr>)" "handle_private (new_file\<lparr>n_data := ''opaque''\<rparr>)"
    "n_kind (new_file\<lparr>n_data := ''opaque''\<rparr>) \<noteq> Symlink"
    using that(2) by (simp_all add: handle_path_def handle_private_def new_file_def HANDLE_LIMIT_def)
  have k: "n_kind (new_file\<lparr>n_data := x\<rparr>) = Regular" "n_kind new_file = Regular" for x by (simp_all add: new_file_def)
  show ?thesis
    unfolding provider_child_def user_script
    using that(1)
    by (simp add: provider_main_def user_provider_split K ops set_up_def user_parse demo_request acc d user_ready_def pcatch_def provide_def
       pfinally_def demo_run_rules with_handle_def h k run_runtime_def run_child_def database_def drop_temporary_def unchanged_def)
qed

lemma provider_refuses: "provider_child refusing_provider c (s, ()) = ([], (s, ()), 2, [])"
  by (simp add: provider_child_def provider_main_def refusing_provider_def ret_def Let_def said_in_def split: prod.split)


subsection \<open>The parts of a run\<close>

lemma user_kinds: "n_kind (new_file\<lparr>n_data := x\<rparr>) = Regular" "n_kind new_file = Regular" "n_uid new_file = 0" "n_mode new_file = FILE_MODE"
  by (simp_all add: new_file_def)

lemma salt_taken: "take_salt (Some (new_parameters ''ada'' 1000 user_uid demo_salt)) ''ada'' 1000 user_uid = Inr demo_salt"
proof -
  have "from_hex (hex_text demo_salt) = Some demo_salt" by code_simp
  then show ?thesis by (simp add: take_salt_def new_parameters_def demo_salt_def)
qed

lemma demo_json: "json_object (en (demo_bridge c)) parameters_text = Some (new_parameters ''ada'' 1000 user_uid demo_salt)"
  "json_object (en (demo_bridge c)) prepared_text = Some demo_prepared"
  "json_text (en (demo_bridge c)) (new_parameters ''ada'' 1000 user_uid demo_salt) = parameters_body"
  by (simp_all add: demo_bridge_def new_parameters_def parameters_text_def prepared_text_def parameters_body_def prepared_body_def)

lemma state_read: "s p = Some (new_file\<lparr>n_data := x\<rparr>) \<Longrightarrow> private_state demo_kernel p (user_process s ks) = ([(OpenAt p, s)], user_process s ks, Inr x)"
  by (simp add: private_state_def demo_run_rules user_kinds unchanged_def)

lemma memory_sealed: "sealed_memory demo_kernel x (user_process s ks) = ([(MakeInput x, s)], user_process s ks, Inr ())"
  by (simp add: sealed_memory_def demo_run_rules unchanged_def)

lemma known_salt: "s (parameter_file account) = Some (new_file\<lparr>n_data := parameters_text\<rparr>) \<Longrightarrow>
  account_salt (demo_bridge c) create account ''ada'' 1000 user_uid (user_process s ks)
    = ([(OpenAt (parameter_file account), s), (MakeInput demo_salt, s)], user_process s ks, Inr ())"
  by (simp add: account_salt_def Let_def demo_run_rules lexists_def state_read memory_sealed demo_json salt_taken parameters_text_def [symmetric])

lemma helper_runs: "run_helper (demo_bridge c) command (user_process s ks)
    = ([(Spawn command, s), (Ran command 0 [], s)], user_process s ks, Inr (0, [], password_input))"
  by (simp add: run_helper_def guarded_run_def demo_run_rules unchanged_def)

lemma provider_runs: "c command (s, ()) = (t, (s', ()), status, said) \<Longrightarrow>
  run_provider (demo_bridge c) command (user_process s ks) = ((Spawn command, s) # t @ [(Ran command status said, s')], user_process s' ks, Inr (status, ()))"
  by (simp add: run_provider_def guarded_run_def run_native_def demo_run_rules unchanged_def)


definition written :: "fs \<Rightarrow> path \<Rightarrow> bytes \<Rightarrow> fs" where
  "written s p data = settle (butlast p) (flush p (put p data (s(p \<mapsto> new_file))))"

lemma written_at: "p \<noteq> [] \<Longrightarrow> written s p data p = Some (new_file\<lparr>n_data := data, n_flushed := True, n_durable := True\<rparr>)"
  "s q = None \<Longrightarrow> q \<noteq> p \<Longrightarrow> written s p data q = None" "s q = Some new_file \<Longrightarrow> q \<noteq> p \<Longrightarrow> written s p data q = Some new_file"
  "s q = Some n \<Longrightarrow> q \<noteq> p \<Longrightarrow> butlast q \<noteq> butlast p \<Longrightarrow> written s p data q = Some n"
  by (simp_all add: written_def settle_def flush_def put_def new_file_def)

lemma state_written: "s p = None \<Longrightarrow> \<exists>t. write_state demo_kernel p data (user_process s ks) = (t, user_process (written s p data) ks, Inr ())"
  by (simp add: write_state_def demo_run_rules written_def)

lemma written_ready: "user_ready s \<Longrightarrow> ''user-operation.lock'' \<noteq> name \<Longrightarrow> ''operation.lock'' \<noteq> name \<Longrightarrow>
    user_ready (written s (user_account @ [name]) data)"
  by (simp add: user_ready_def written_at user_account_def RUN_ROOT_def)

lemma command_create: "user_operation (demo_bridge c) [''--create'', ''ada''] user_uid = user_op ''--create''"
  by (simp add: user_operation_def user_op_def wants_create_def wants_def user_digits)

lemma wanted: "wants_create [''--create'', ''ada'']" "\<not> wants_prepare [''--create'', ''ada'']" "\<not> wants_sync [''--create'', ''ada'']"
    "\<not> wants_prepared_enrol [''--create'', ''ada'']" "user_accepts [''--create'', ''ada'']"
  by (simp_all add: user_accepts_def wants_create_def wants_prepare_def wants_both_def wants_sync_def wants_prepared_enrol_def wants_def)

lemma password_taken: "\<not> wants_sync args \<Longrightarrow> \<not> wants_prepared_enrol args \<Longrightarrow>
  \<exists>t. user_inputs (demo_bridge c) args ''ada'' user_uid (user_process s ks) = (t, user_process s ks, Inr (0, [], password_input))"
  by (simp add: user_inputs_def Let_def pseq_def pbind_def ret_def memory_sealed helper_runs)

lemma inputs_checked: "\<not> wants_sync args \<Longrightarrow> check_inputs args x password_input"
  by (simp add: check_inputs_def password_input_def)

lemma inputs_sealed: "\<not> wants_sync args \<Longrightarrow>
  \<exists>t. seal_inputs (demo_bridge c) args x y (user_process s ks) = (t, user_process s ks, Inr ())"
  by (simp add: seal_inputs_def pseq_def pbind_def ret_def memory_sealed)

lemma finished_plain: "\<not> wants_prepare args \<or> status \<noteq> 0 \<Longrightarrow> \<not> wants_sync args \<Longrightarrow>
  \<exists>t. finish_request (demo_bridge c) args username uid x status (user_process s ks) = (t, user_process s ks, Inr status)"
  by (auto simp: finish_request_def demo_run_rules)

lemma user_creates:
  "\<exists>t w. user_locked (demo_bridge (provider_child demo_provider)) [''fp''] [''--create'', ''ada''] ''ada'' 1000 user_uid (user_process user_fs [])
     = (t, w, Inr 0) \<and> 1 \<le> requests t"
proof -
  let ?B = "demo_bridge (provider_child demo_provider)"
  let ?s1 = "written user_fs (parameter_file user_account) parameters_text"
  let ?s2 = "written ?s1 (requested_file user_account) []"
  let ?c = "provider_command ?B [''fp''] (user_op ''--create'')"
  have acc: "[''fp'', str_int user_uid] = user_account" by (simp add: user_digits user_account_def)
  have p: "user_fs (handle_path user_account) = None" "user_fs (parameter_file user_account) = None" "user_fs (requested_file user_account) = None"
    "user_fs (user_account @ [''.gatekeeper-handle-x1'']) = None"
    by (simp_all add: user_fs_def handle_path_def parameter_file_def requested_file_def user_account_def RUN_ROOT_def)
  have ne: "requested_file user_account \<noteq> parameter_file user_account" "handle_path user_account \<noteq> parameter_file user_account"
    "handle_path user_account \<noteq> requested_file user_account" "user_account @ [''.gatekeeper-handle-x1''] \<noteq> parameter_file user_account"
    "user_account @ [''.gatekeeper-handle-x1''] \<noteq> requested_file user_account" "parameter_file user_account \<noteq> []"
    by (simp_all add: handle_path_def parameter_file_def requested_file_def)
  have q: "?s2 (handle_path user_account) = None" "?s2 (user_account @ [''.gatekeeper-handle-x1'']) = None"
    "?s1 (requested_file user_account) = None"
    by (simp_all add: written_at p ne)
  have "user_ready ?s2"
    using user_ready(1) by (simp add: written_ready parameter_file_def requested_file_def)
  then obtain tp s3 said where prov: "provider_child demo_provider ?c (?s2, ()) = (tp, (s3, ()), 0, said)"
    using provider_creates [of ?s2, OF _ q(1,2)] by blast
  obtain t1 where w1: "write_state demo_kernel (parameter_file user_account) parameters_text (user_process user_fs []) = (t1, user_process ?s1 [], Inr ())"
    using state_written [of user_fs "parameter_file user_account", OF p(2)] by blast
  obtain t2 where w2: "write_state demo_kernel (requested_file user_account) [] (user_process ?s1 []) = (t2, user_process ?s2 [], Inr ())"
    using state_written [of ?s1 "requested_file user_account", OF q(3)] by blast
  have r: "private_state demo_kernel (parameter_file user_account) (user_process ?s1 [])
      = ([(OpenAt (parameter_file user_account), ?s1)], user_process ?s1 [], Inr parameters_text)"
    using ne by (simp add: private_state_def demo_run_rules user_kinds unchanged_def written_at)
  obtain t3 where salt: "account_salt ?B True user_account ''ada'' 1000 user_uid (user_process user_fs []) = (t3, user_process ?s1 [], Inr ())"
    using p by (simp add: account_salt_def Let_def demo_run_rules lexists_def consult_def w1 r memory_sealed demo_json salt_taken parameters_text_def [symmetric])
  obtain t4 where inp: "user_inputs ?B [''--create'', ''ada''] ''ada'' user_uid (user_process ?s1 []) = (t4, user_process ?s1 [], Inr (0, [], password_input))"
    using password_taken [OF wanted(3,4)] by blast
  obtain t5 where seal: "seal_inputs ?B [''--create'', ''ada''] [] password_input (user_process ?s1 []) = (t5, user_process ?s1 [], Inr ())"
    using inputs_sealed [OF wanted(3)] by blast
  obtain t6 where fin: "finish_request ?B [''--create'', ''ada''] ''ada'' user_uid password_input 0 (user_process s3 []) = (t6, user_process s3 [], Inr 0)"
    using finished_plain [OF disjI1 [OF wanted(2)] wanted(3)] by blast
  have asks: "create_request (Spawn ?c)"
    by (simp add: create_request_def user_script user_op_def)
  have req: "request_provider ?B [''fp''] [''--create'', ''ada''] ''ada'' user_uid password_input (user_process ?s1 [])
      = (t2 @ ((Spawn ?c, ?s2) # tp @ [(Ran ?c 0 said, s3)]) @ t6, user_process s3 [], Inr 0)"
    by (simp add: request_provider_def wanted acc pseq_def pbind_def w2 command_create provider_runs [of "provider_child demo_provider" ?c, OF prov] fin)
  have "user_locked ?B [''fp''] [''--create'', ''ada''] ''ada'' 1000 user_uid (user_process user_fs [])
      = (t3 @ t4 @ t5 @ (t2 @ ((Spawn ?c, ?s2) # tp @ [(Ran ?c 0 said, s3)]) @ t6), user_process s3 [], Inr 0)"
    using p
    by (simp add: user_locked_def Let_def acc lexists_def handle_path_def [symmetric] handle_file_def wanted pseq_def pbind_def look_def
        check_def ret_def salt inp inputs_checked [OF wanted(3)] seal req)
  moreover have "1 \<le> requests (t3 @ t4 @ t5 @ (t2 @ ((Spawn ?c, ?s2) # tp @ [(Ran ?c 0 said, s3)]) @ t6))"
    using asks by (simp add: requests_def)
  ultimately show ?thesis by blast
qed


subsection \<open>An input is prepared and used\<close>

definition demo_key :: key where
  "demo_key = \<lparr>k_serial = 5, k_name = ''liuqin-fpc-acceptance:boot:ada'', k_data = password_input, k_revoked = False\<rparr>"

lemma demo_context: "user_ready s \<Longrightarrow> \<exists>t. acceptance_context (demo_bridge c) ''ada'' (user_process s ks) = (t, user_process s ks, Inr ())"
  by (simp add: acceptance_context_def demo_run_rules need_def key_call_def demo_kernel_def sys_mkdir_one_def syscall_def user_ready_def
      new_dir_def private_mode_def DIR_MODE_def unchanged_def)

lemma key_runs: "key_call demo_kernel name i f (user_process s ks) = (case f ks of (r, ks') \<Rightarrow> ([(KeyOp name i, s)], user_process s ks', Inr r))"
  by (simp add: key_call_def demo_kernel_def split: prod.split)

lemma demo_prepares:
  assumes "user_ready s" "s (acceptance_path ''ada'') = None"
  shows "\<exists>t s'. prepare (demo_bridge c) ''ada'' user_uid password_input (user_process s []) = (t, user_process s' [demo_key], Inr ())"
proof -
  obtain t where ctx: "acceptance_context (demo_bridge c) ''ada'' (user_process s []) = (t, user_process s [], Inr ())"
    using demo_context [OF assms(1)] by blast
  have n: "take 32 password_input = password_input" "32 \<le> length password_input" by (simp_all add: password_input_def)
  have a: "ascii ''liuqin-fpc-acceptance:boot:ada''" by code_simp
  have k: "key_add ''liuqin-fpc-acceptance:boot:ada'' password_input 5 [] = (Some 5, [demo_key])"
    "key_search ''liuqin-fpc-acceptance:boot:ada'' [] = (None, [])" "key_touch 5 [demo_key] = (Some (), [demo_key])"
    "key_read 5 [demo_key] = (Some password_input, [demo_key])"
    by (simp_all add: key_add_def key_search_def key_touch_def key_read_def demo_key_def live_key_def)
  show ?thesis
    using assms(2) a
    by (simp add: prepare_def is_prepared_def lexists_def drop_stale_def publish_key_def consult_def need_def pcatch_def Let_def
        demo_run_rules ctx n key_runs k unchanged_def) blast
qed

lemma demo_consumes:
  assumes "user_ready s" "s (acceptance_path ''ada'') = Some (new_file\<lparr>n_data := prepared_text\<rparr>)"
  shows "\<exists>t s'. consume (demo_bridge c) ''ada'' user_uid (user_process s [demo_key]) = (t, user_process s' [], Inr password_input)"
proof -
  obtain t where ctx: "acceptance_context (demo_bridge c) ''ada'' (user_process s [demo_key]) = (t, user_process s [demo_key], Inr ())"
    using demo_context [OF assms(1)] by blast
  have n: "length password_input = 32" by (simp add: password_input_def)
  have ok: "read_prepared (demo_bridge c) prepared_text = Inr demo_prepared" "check_prepared (demo_bridge c) demo_prepared ''ada'' user_uid 0 = Inr ()"
    "prepared_serial demo_prepared = Inr 5"
    by (simp_all add: read_prepared_def demo_json check_prepared_def demo_prepared_def LIFETIME_def prepared_serial_def int_of_json_def require_def)
  have k: "key_read 5 [demo_key] = (Some password_input, [demo_key])" 
    "key_revoke 5 [demo_key] = (Some (), [demo_key\<lparr>k_revoked := True\<rparr>])" "key_unlink 5 [demo_key\<lparr>k_revoked := True\<rparr>] = (Some (), [])"
    by (simp_all add: key_revoke_def key_unlink_def key_read_def demo_key_def live_key_def)
  show ?thesis
    using assms(2)
    by (simp add: consume_def consult_def need_def Let_def sys_unlink_def
        demo_run_rules ctx n state_read [of s "acceptance_path ''ada''", OF assms(2)] ok memory_sealed key_runs k unchanged_def) blast
qed

lemma wanted_prepare: "\<not> wants_create [''--prepare-acceptance'', ''ada'']" "wants_prepare [''--prepare-acceptance'', ''ada'']"
    "\<not> wants_sync [''--prepare-acceptance'', ''ada'']" "\<not> wants_prepared_enrol [''--prepare-acceptance'', ''ada'']"
    "user_accepts [''--prepare-acceptance'', ''ada'']"
    "user_operation (demo_bridge c) [''--prepare-acceptance'', ''ada''] user_uid = user_op ''--auth-preflight-renew''"
  by (simp_all add: user_accepts_def wants_create_def wants_prepare_def wants_both_def wants_sync_def wants_prepared_enrol_def wants_def
      user_operation_def wants_enrol_def wants_enrol_existing_def user_op_def user_digits)

lemma known_handle: "s (handle_path user_account) = Some n \<Longrightarrow> lexists (handle_file user_account) s"
  by (simp add: lexists_def handle_path_def handle_file_def)

lemma user_prepares:
  "\<exists>t s'. user_locked (demo_bridge (provider_child demo_provider)) [''fp''] [''--prepare-acceptance'', ''ada''] ''ada'' 1000 user_uid
     (user_process known_fs []) = (t, user_process s' [demo_key], Inr 0)"
proof -
  let ?B = "demo_bridge (provider_child demo_provider)"
  let ?a = "[''--prepare-acceptance'', ''ada'']"
  let ?c = "provider_command ?B [''fp''] (user_op ''--auth-preflight-renew'')"
  let ?w = "user_process known_fs []"
  have acc: "[''fp'', str_int user_uid] = user_account" by (simp add: user_digits user_account_def)
  have p: "known_fs (handle_path user_account) = Some (new_file\<lparr>n_data := ''opaque''\<rparr>)"
    "known_fs (parameter_file user_account) = Some (new_file\<lparr>n_data := parameters_text\<rparr>)" "known_fs (acceptance_path ''ada'') = None"
    by (simp_all add: known_fs_def user_fs_def handle_path_def parameter_file_def acceptance_path_def user_account_def RUN_ROOT_def)
  obtain tp said where prov: "provider_child demo_provider ?c (known_fs, ()) = (tp, (known_fs, ()), 0, said)"
    using provider_authorizes [OF user_ready(2) p(1)] by blast
  obtain t4 where inp: "user_inputs ?B ?a ''ada'' user_uid ?w = (t4, ?w, Inr (0, [], password_input))"
    using password_taken [OF wanted_prepare(3,4)] by blast
  obtain t5 where seal: "seal_inputs ?B ?a [] password_input ?w = (t5, ?w, Inr ())"
    using inputs_sealed [OF wanted_prepare(3)] by blast
  obtain t6 s' where prep: "prepare ?B ''ada'' user_uid password_input ?w = (t6, user_process s' [demo_key], Inr ())"
    using demo_prepares [OF user_ready(2) p(3)] by blast
  obtain t7 where fin: "finish_request ?B ?a ''ada'' user_uid password_input 0 ?w = (t7, user_process s' [demo_key], Inr 0)"
    by (simp add: finish_request_def demo_run_rules wanted_prepare prep)
  obtain t8 where req: "request_provider ?B [''fp''] ?a ''ada'' user_uid password_input ?w = (t8, user_process s' [demo_key], Inr 0)"
    by (simp add: request_provider_def wanted_prepare acc pseq_def pbind_def ret_def
        provider_runs [of "provider_child demo_provider" ?c, OF prov] fin)
  show ?thesis
    by (simp add: user_locked_def Let_def acc known_handle [of known_fs, OF p(1)] wanted_prepare pseq_def pbind_def look_def
        check_def ret_def known_salt [of known_fs, OF p(2)] inp inputs_checked [OF wanted_prepare(3)] seal req) blast
qed

lemma wanted_use: "\<not> wants_create [''--enrol-prepared'', ''ada'', ''/db'']" "\<not> wants_prepare [''--enrol-prepared'', ''ada'', ''/db'']"
    "\<not> wants_sync [''--enrol-prepared'', ''ada'', ''/db'']" "wants_prepared_enrol [''--enrol-prepared'', ''ada'', ''/db'']"
    "user_accepts [''--enrol-prepared'', ''ada'', ''/db'']"
  by (simp_all add: user_accepts_def wants_create_def wants_prepare_def wants_both_def wants_sync_def wants_prepared_enrol_def wants_def)

lemma user_uses:
  "\<exists>t w. user_locked (demo_bridge (provider_child refusing_provider)) [''fp''] [''--enrol-prepared'', ''ada'', ''/db''] ''ada'' 1000 user_uid
     (user_process prepared_fs [demo_key]) = (t, w, Inr 2) \<and> 1 \<le> started t"
proof -
  let ?B = "demo_bridge (provider_child refusing_provider)"
  let ?a = "[''--enrol-prepared'', ''ada'', ''/db'']"
  let ?c = "provider_command ?B [''fp''] (user_operation ?B ?a user_uid)"
  let ?w = "user_process prepared_fs [demo_key]"
  have acc: "[''fp'', str_int user_uid] = user_account" by (simp add: user_digits user_account_def)
  have p: "prepared_fs (handle_path user_account) = Some (new_file\<lparr>n_data := ''opaque''\<rparr>)"
    "prepared_fs (parameter_file user_account) = Some (new_file\<lparr>n_data := parameters_text\<rparr>)"
    "prepared_fs (acceptance_path ''ada'') = Some (new_file\<lparr>n_data := prepared_text\<rparr>)"
    by (simp_all add: prepared_fs_def known_fs_def user_fs_def handle_path_def parameter_file_def acceptance_path_def user_account_def RUN_ROOT_def)
  obtain t1 s' where used: "consume ?B ''ada'' user_uid ?w = (t1, user_process s' [], Inr password_input)"
    using demo_consumes [OF user_ready(3) p(3)] by blast
  obtain t4 where inp: "user_inputs ?B ?a ''ada'' user_uid ?w = (t4, user_process s' [], Inr (0, [], password_input))"
    by (simp add: user_inputs_def Let_def wanted_use pseq_def pbind_def ret_def memory_sealed used)
  obtain t6 where fin: "finish_request ?B ?a ''ada'' user_uid password_input 2 (user_process s' []) = (t6, user_process s' [], Inr 2)"
    using finished_plain [OF disjI1 [OF wanted_use(2)] wanted_use(3)] by blast
  have req: "request_provider ?B [''fp''] ?a ''ada'' user_uid password_input (user_process s' [])
      = ((Spawn ?c, s') # (Ran ?c 2 [], s') # t6, user_process s' [], Inr 2)"
    by (simp add: request_provider_def wanted_use acc pseq_def pbind_def ret_def
        provider_runs [of "provider_child refusing_provider" ?c, OF provider_refuses] fin)
  have "starts_provider (Spawn ?c)" by (simp add: starts_provider_def user_script)
  then show ?thesis
    by (simp add: user_locked_def Let_def acc known_handle [of prepared_fs, OF p(1)] wanted_use pseq_def pbind_def look_def
        check_def ret_def known_salt [of prepared_fs, OF p(2)] inp inputs_checked [OF wanted_use(3)] seal_inputs_def req started_def)
qed

subsection \<open>Witnesses\<close>

lemma created_run: "\<exists>t w. user_main (demo_bridge (provider_child demo_provider)) (user_arguments [''--create'', ''ada'']) (user_process user_fs [])
    = (t, w, Inr 0) \<and> 1 \<le> requests t"
proof -
  obtain t w where l: "user_locked (demo_bridge (provider_child demo_provider)) [''fp''] [''--create'', ''ada''] ''ada'' 1000 user_uid (user_process user_fs [])
     = (t, w, Inr 0)" "1 \<le> requests t" using user_creates by blast
  from user_front [OF user_ready(1) wanted(5) _ l(1)] l(2) show ?thesis by (auto simp: requests_def)
qed

theorem password_identity_created_witness:
  "let s = fs (world_of (user_main (demo_bridge (provider_child demo_provider)) (user_arguments [''--create'', ''ada''])) (user_process user_fs []))
   in has_handle user_account s \<and> marked user_account s"
proof -
  have "account_uid (en (demo_bridge (provider_child demo_provider))) ([''--create'', ''ada''] ! 1) = Inr 1000"
    "user_account = to_path ''/fp'' @ [str_int (native_account_uid (to_path ''/fp'') 1000 (fs (user_process user_fs [])))]"
    "result_of (user_main (demo_bridge (provider_child demo_provider)) (user_arguments [''--create'', ''ada''])) (user_process user_fs []) = Inr 0"
    using created_run by (auto simp: user_split user_native user_ready user_digits user_account_def run_defs)
  from password_identity_created [OF _ user_split(1) wanted(1) this, of demo_provider] show ?thesis by (simp add: Let_def)
qed

theorem one_password_identity_witness:
  "\<exists>(w :: (user_locals, unit) process) n. bridge_history user_account w n \<and> 1 \<le> n \<and> n \<le> 1 \<and> marked user_account (fs w)"
proof -
  let ?B = "demo_bridge (provider_child demo_provider)"
  let ?m = "user_main ?B (user_arguments [''--create'', ''ada''])"
  let ?w = "user_process user_fs []"
  have "bridge_account ?B (user_arguments [''--create'', ''ada'']) user_account (fs ?w)"
    by (simp add: bridge_account_def user_split user_native user_ready user_digits user_account_def)
  from bridge_finished [OF bridge_start demo_bridge_simps(3) this refl]
  have h: "bridge_history user_account (world_of ?m ?w) (0 + requests (trace_of ?m ?w))" .
  have n: "1 \<le> requests (trace_of ?m ?w)" using created_run by (auto simp: run_defs)
  show ?thesis
    using one_password_identity [OF h] h n
    by (intro exI [of _ "world_of ?m ?w"] exI [of _ "requests (trace_of ?m ?w)"]) (auto simp: le_antisym)
qed

theorem prepared_inputs_used_once_witness:
  "\<exists>(w :: (user_locals, unit) process) p u. keyring_history w p u \<and> 1 \<le> u \<and> u \<le> p"
proof -
  let ?B = "demo_bridge (provider_child demo_provider)"
  let ?m = "user_main ?B (user_arguments [''--prepare-acceptance'', ''ada''])"
  let ?B' = "demo_bridge (provider_child refusing_provider)"
  let ?n = "user_main ?B' (user_arguments [''--enrol-prepared'', ''ada'', ''/db''])"
  let ?w = "user_process known_fs [] :: (user_locals, unit) process"
  let ?w' = "user_process prepared_fs [demo_key] :: (user_locals, unit) process"
  obtain t s' where l: "user_locked ?B [''fp''] [''--prepare-acceptance'', ''ada''] ''ada'' 1000 user_uid ?w = (t, user_process s' [demo_key], Inr 0)"
    using user_prepares by blast
  from user_front [OF user_ready(2) wanted_prepare(5) _ l] obtain t1 where m: "?m ?w = (t1, user_process s' [demo_key], Inr 0)" by auto
  have "keyring_history ?w' (0 + added (trace_of ?m ?w))
      (0 + (if prepared_mode (user_arguments [''--prepare-acceptance'', ''ada'']) then started (trace_of ?m ?w) else 0))"
    by (rule ran [OF booted demo_bridge_simps(3)]) (simp_all add: m run_defs)
  then have h: "keyring_history ?w' (added (trace_of ?m ?w)) 0"
    by (simp add: prepared_mode_def user_split wanted_prepare)
  obtain t w where l: "user_locked ?B' [''fp''] [''--enrol-prepared'', ''ada'', ''/db''] ''ada'' 1000 user_uid ?w' = (t, w, Inr 2)"
    "1 \<le> started t" using user_uses by blast
  from user_front [OF user_ready(3) wanted_use(5) _ l(1)] l(2) have u: "1 \<le> started (trace_of ?n ?w')" by (auto simp: run_defs)
  have h2: "keyring_history (world_of ?n ?w') (added (trace_of ?m ?w) + added (trace_of ?n ?w')) (started (trace_of ?n ?w'))"
    using ran [OF h demo_bridge_simps(3) refl, of refusing_provider "user_arguments [''--enrol-prepared'', ''ada'', ''/db'']"]
    by (simp add: prepared_mode_def user_split wanted_use)
  from prepared_inputs_used_once [OF h2] h2 u show ?thesis by blast
qed

end
