(* ===== verification/PublishDemo.thy ===== *)
theory PublishDemo
  imports PublishOutcome UserDemo
begin

text \<open>Concrete runs of the publication.\<close>

definition demo_publisher :: "unit publisher" where
  "demo_publisher = \<lparr>pub_kernel = demo_kernel, pub_root = True, accounts = [''ada'' \<mapsto> (''ada'', 1000)], bundle_dir = [''opt''],
     read_json = (\<lambda>b. Some (accepted_export ''ada'' ''right-thumb'')), write_json = (\<lambda>ob. ''ready''),
     enrolment = (\<lambda>c st. ([], st, 1, [])), serializer = (\<lambda>c data o'. ((0, ''FP3 '' @ data), o')), database_no = 5, output_no = 6\<rparr>"

definition pub_arguments :: "string list" where
  "pub_arguments = [''--store-dir'', ''/store'', ''--enrol'', ''ada'', ''right-thumb'']"

definition pub_device :: path where
  "pub_device = [''store'', ''ada'', ''fpc1264_oem'', ''liuqin-fpc1264-oem'']"

definition pub_fs :: fs where
  "pub_fs = [[''opt''] \<mapsto> new_dir, [''opt'', ''fpc-oem-print''] \<mapsto> new_file, [''opt'', ''user_credentials.py''] \<mapsto> new_file,
     [''opt'', ''tod'', ''libfprint-tod-fpc1264-oem.so''] \<mapsto> new_file, [''store''] \<mapsto> new_dir, [''store'', ''ada''] \<mapsto> new_dir,
     [''store'', ''ada'', ''fpc1264_oem''] \<mapsto> new_dir, pub_device \<mapsto> new_dir, pub_device @ [''.operation.lock''] \<mapsto> new_file,
     pending_dir ''ada'' \<mapsto> new_dir, database_file ''ada'' \<mapsto> new_file\<lparr>n_data := ''db''\<rparr>, ready_file ''ada'' \<mapsto> new_file]"

definition pub_process :: "fs \<Rightarrow> path option \<Rightarrow> (pub_locals, unit) process" where
  "pub_process s t = \<lparr>fs = s, cancelled = False, locals = \<lparr>unpublished = t\<rparr>, choices = ()\<rparr>"

lemma pub_process_simps [simp]:
  "fs (pub_process s t) = s" "cancelled (pub_process s t) = False" "unpublished (locals (pub_process s t)) = t" "choices (pub_process s t) = ()"
  "(pub_process s t)\<lparr>fs := s'\<rparr> = pub_process s' t" "(pub_process s t)\<lparr>choices := o'\<rparr> = pub_process s t"
  "(pub_process s t)\<lparr>locals := \<lparr>unpublished = t'\<rparr>\<rparr> = pub_process s t'"
  by (simp_all add: pub_process_def)

lemma pub_split: "split_places pub_arguments = (''/store'', ''/var/lib/liuqin-fingerprint/native'', [''--enrol'', ''ada'', ''right-thumb''])"
  "to_path ''/store'' = [''store'']" "device_store [''store''] ''ada'' = pub_device"
  by (simp_all add: split_places_def split_option_def pub_arguments_def to_path_def device_store_def pub_device_def)

theorem existing_print_refused_witness:
  "result_of (pub_main demo_publisher pub_arguments) (pub_process (pub_fs(pub_device @ [''6''] \<mapsto> new_file)) None) \<noteq> Inr 0"
  using existing_print_refused [OF pub_split(1), of "pub_process (pub_fs(pub_device @ [''6''] \<mapsto> new_file)) None" demo_publisher]
  by (simp add: pub_split has_print_def print_name_def lexists_def upt_rec)

theorem pending_export_kept_witness:
  "let s = fs (world_of (pub_main demo_publisher pub_arguments) (pub_process pub_fs None))
   in exported (database_file ''ada'') (new_file\<lparr>n_data := ''db''\<rparr>) s \<or> printed pub_device s"
proof -
  have "fs (pub_process pub_fs None) (database_file ([''--enrol'', ''ada'', ''right-thumb''] ! 1)) = Some (new_file\<lparr>n_data := ''db''\<rparr>)"
    by (simp add: pub_fs_def database_file_def ready_file_def pending_dir_def)
  from pending_export_kept [OF pub_split(1) this, of demo_publisher] show ?thesis by (simp add: Let_def pub_split)
qed

subsection \<open>A publication\<close>

lemma demo_publisher_simps [simp]:
  "pub_kernel demo_publisher = demo_kernel" "pub_root demo_publisher" "bundle_dir demo_publisher = [''opt'']"
  "pub_account demo_publisher ''ada'' = Inr ()" "serializer demo_publisher = (\<lambda>c data o'. ((0, ''FP3 '' @ data), o'))"
  "read_json demo_publisher = (\<lambda>b. Some (accepted_export ''ada'' ''right-thumb''))"
  by (simp_all add: demo_publisher_def pub_account_def require_def)

lemma pub_directory: "s p = Some new_dir \<Longrightarrow> private_directory demo_kernel p (pub_process s t) = ([(Mkdir p, s)], pub_process s t, Inr ())"
  by (subst calm_directory [OF demo_calm]) (simp_all add: private_dir_def new_dir_def)

lemma pub_files: "pub_fs [''opt''] = Some new_dir" "pub_fs [''opt'', ''fpc-oem-print''] = Some new_file"
  "pub_fs [''opt'', ''user_credentials.py''] = Some new_file" "pub_fs [''opt'', ''tod'', ''libfprint-tod-fpc1264-oem.so''] = Some new_file"
  "pub_fs [''store''] = Some new_dir" "pub_fs [''store'', ''ada''] = Some new_dir" "pub_fs [''store'', ''ada'', ''fpc1264_oem''] = Some new_dir"
  "pub_fs pub_device = Some new_dir" "pub_fs (pub_device @ [''.operation.lock'']) = Some new_file" "pub_fs (pending_dir ''ada'') = Some new_dir"
  "pub_fs (database_file ''ada'') = Some (new_file\<lparr>n_data := ''db''\<rparr>)" "pub_fs (ready_file ''ada'') = Some new_file"
  "pub_fs (pub_device @ [''.fpc-publish-x1'']) = None" "pub_fs (pub_device @ [print_name v]) = None"
  by (simp_all add: pub_fs_def pub_device_def database_file_def ready_file_def pending_dir_def print_name_def)

lemma pub_prepared: "pub_bundle demo_publisher (pub_process pub_fs None) = ([], pub_process pub_fs None, Inr ())"
  "make_store demo_publisher [''store''] ''ada'' (pub_process pub_fs None) =
     ([(Mkdir [''store''], pub_fs), (Mkdir [''store'', ''ada''], pub_fs), (Mkdir [''store'', ''ada'', ''fpc1264_oem''], pub_fs), (Mkdir pub_device, pub_fs)],
      pub_process pub_fs None, Inr ())"
proof -
  have ok: "safe_program new_dir" "safe_program new_file" by (simp_all add: safe_program_def new_dir_def new_file_def DIR_MODE_def FILE_MODE_def)
  show "pub_bundle demo_publisher (pub_process pub_fs None) = ([], pub_process pub_fs None, Inr ())"
    by (simp add: pub_bundle_def demo_run_rules pub_files ok)
  show "make_store demo_publisher [''store''] ''ada'' (pub_process pub_fs None) =
     ([(Mkdir [''store''], pub_fs), (Mkdir [''store'', ''ada''], pub_fs), (Mkdir [''store'', ''ada'', ''fpc1264_oem''], pub_fs), (Mkdir pub_device, pub_fs)],
      pub_process pub_fs None, Inr ())"
    by (simp add: make_store_def Let_def pseq_def pbind_def pub_split pub_directory pub_files)
qed

lemma pub_reuses: "reuse_export demo_publisher ''ada'' ''right-thumb'' (pub_process pub_fs None) =
    ([(OpenAt (ready_file ''ada''), pub_fs), (Print ''oem_print_publication=REUSE accepted_pending_export=1 touch_not_collected=1'', pub_fs)],
     pub_process pub_fs None, Inr 0)"
  by (simp add: reuse_export_def demo_run_rules lexists_def pub_files private_state_def user_kinds unchanged_def same_object_def accepted_export_def)

lemma pub_install:
  fixes w :: "(pub_locals, unit) process"
  assumes "fs w temp = Some n" "fs w target = None" "temp \<noteq> target" "fs w (database_file ''ada'') = Some d" "fs w (ready_file ''ada'') = Some r"
    "temp \<notin> {database_file ''ada'', ready_file ''ada''}" "target \<notin> {database_file ''ada'', ready_file ''ada''}"
  shows "\<exists>t w'. install_print demo_publisher ''ada'' device temp target w = (t, w', Inr 0) \<and> unpublished (locals w') = None"
  using assms publish_names(6) [of "''ada''"]
  by (simp add: install_print_def Let_def demo_run_rules sys_link_def sys_unlink_def flush_def settle_def unchanged_def) blast

lemma pub_publishes:
  "\<exists>t w. publish_export demo_publisher [''--enrol'', ''ada'', ''right-thumb''] pub_device (pub_device @ [print_name v]) (pub_process pub_fs None)
     = (t, w, Inr 0) \<and> unpublished (locals w) = None"
proof -
  let ?temp = "pub_device @ [''.fpc-publish-x1'']" and ?target = "pub_device @ [print_name v]"
  let ?n = "new_file\<lparr>n_data := ''FP3 db''\<rparr>"
  let ?s1 = "pub_fs(?temp \<mapsto> new_file)" and ?s2 = "pub_fs(?temp \<mapsto> ?n)"
  have k: "n_mode_update (\<lambda>_. FILE_MODE) new_file = new_file" "new_file\<lparr>n_data := x, n_flushed := False, n_durable := False\<rparr> = new_file\<lparr>n_data := x\<rparr>" for x
    by (simp_all add: new_file_def)
  have ne: "?temp \<noteq> ?target" "?temp \<noteq> database_file ''ada''" "?temp \<noteq> ready_file ''ada''" "?target \<noteq> database_file ''ada''" "?target \<noteq> ready_file ''ada''"
    by (auto simp: pub_device_def database_file_def ready_file_def pending_dir_def print_name_def)
  have mk: "sys_mkstemp demo_kernel pub_device ''.fpc-publish-'' (pub_process pub_fs None)
      = ([(CreateExcl ?temp, ?s1)], pub_process ?s1 None, Inr ?temp)"
    by (subst calm_mkstemp [OF demo_calm]) (simp_all add: pub_files)
  have ch: "sys_chmod demo_kernel ?temp (pub_process ?s1 (Some ?temp)) = ([(Chmod ?temp, ?s1)], pub_process ?s1 (Some ?temp), Inr ())"
    by (simp add: sys_chmod_def calm_call [OF demo_calm] k)
  obtain t1 where se: "run_serializer demo_publisher c ''db'' ?temp (pub_process ?s1 (Some ?temp)) = (t1 c, pub_process ?s2 (Some ?temp), Inr (0, ()))" for c
    by (simp add: run_serializer_def guarded_run_def demo_run_rules unchanged_def put_def k)
  obtain t w where i: "install_print demo_publisher ''ada'' pub_device ?temp ?target (pub_process ?s2 (Some ?temp)) = (t, w, Inr 0)"
    "unpublished (locals w) = None"
    using pub_install [of "pub_process ?s2 (Some ?temp)" ?temp ?n ?target] ne by (force simp: pub_files)
  have sz: "file_size ?temp ?s2 = 6" by (simp add: file_size_def)
  have op: "sys_open demo_kernel (database_file ''ada'') (pub_process pub_fs None)
      = ([(OpenAt (database_file ''ada''), pub_fs)], pub_process pub_fs None, Inr (new_file\<lparr>n_data := ''db''\<rparr>))"
    by (simp add: sys_open_def calm_call [OF demo_calm] pub_files user_kinds)
  have lo: "set_local (\<lambda>_. \<lparr>unpublished = x\<rparr>) (pub_process s y) = ([], pub_process s x, Inr ())" for x y s
    by (simp add: set_local_def)
  show ?thesis
    using i by (simp add: publish_export_def Let_def pseq_def pbind_def look_def ret_def op mk lo ch se sz demo_cancelled)
qed

lemma pub_locked_run:
  "\<exists>t w. pub_locked demo_publisher state [''--enrol'', ''ada'', ''right-thumb''] pub_device (pub_device @ [print_name v]) (pub_process pub_fs None)
     = (t, w, Inr 0) \<and> unpublished (locals w) = None"
proof -
  obtain t w where p: "publish_export demo_publisher [''--enrol'', ''ada'', ''right-thumb''] pub_device (pub_device @ [print_name v]) (pub_process pub_fs None)
     = (t, w, Inr 0)" "unpublished (locals w) = None" using pub_publishes by blast
  have h: "\<not> has_print pub_device pub_fs" by (simp add: has_print_def lexists_def pub_files list_ex_iff)
  show ?thesis
    using p by (simp add: pub_locked_def pseq_def pbind_def look_def ret_def h pub_directory pub_files lexists_def pub_reuses)
qed

theorem publication_status_zero_witness:
  "\<exists>n. fs (world_of (pub_main demo_publisher pub_arguments) (pub_process pub_fs None)) (pub_device @ [''6'']) = Some n
    \<and> is_private Regular FILE_MODE n \<and> n_durable n"
proof -
  let ?args = "[''--enrol'', ''ada'', ''right-thumb'']"
  obtain t w where l: "pub_locked demo_publisher (to_path ''/var/lib/liuqin-fingerprint/native'') ?args pub_device (pub_device @ [print_name 6]) (pub_process pub_fs None)
     = (t, w, Inr 0)" "unpublished (locals w) = None" using pub_locked_run by blast
  have f: "index_of ''right-thumb'' FINGERS = Inr 5" by (simp add: FINGERS_def ebind_def)
  have c: "sys_create demo_kernel (pub_device @ [''.operation.lock'']) (pub_process pub_fs None)
      = ([(OpenAt (pub_device @ [''.operation.lock'']), pub_fs)], pub_process pub_fs None, Inr ())"
    by (simp add: sys_create_def calm_call [OF demo_calm] pub_files user_kinds)
  have "\<exists>t. pub_body demo_publisher [''store''] (to_path ''/var/lib/liuqin-fingerprint/native'') ?args (pub_process pub_fs None) = (t, w, Inr 0)"
    by (simp add: pub_body_def Let_def pub_split f pseq_def pbind_def lift_def pub_prepared c calm_lock [OF demo_calm] l)
  then obtain t where b: "pub_body demo_publisher [''store''] (to_path ''/var/lib/liuqin-fingerprint/native'') ?args (pub_process pub_fs None) = (t, w, Inr 0)"
    by blast
  have a: "pub_accepts ?args" "is_absolute ''/store''" "is_absolute ''/var/lib/liuqin-fingerprint/native''"
    by (simp_all add: pub_accepts_def is_absolute_def)
  have s: "set_local (\<lambda>_. \<lparr>unpublished = None\<rparr>) (pub_process pub_fs None) = ([], pub_process pub_fs None, Inr ())" by (simp add: set_local_def)
  have "result_of (pub_main demo_publisher pub_arguments) (pub_process pub_fs None) = Inr 0"
    using l(2) by (simp add: pub_main_def pub_split a pseq_def pbind_def s pfinally_def pcatch_def b drop_unpublished_def get_local_def look_def ret_def run_defs)
  from publication_status_zero [OF pub_split(1) this] show ?thesis by (auto simp: f pub_split print_name_def)
qed

end
