(* ===== verification/Spec2Isabelle.thy ===== *)
theory Spec2Isabelle
  imports LayoutText FlashSafety CpioLoop TinyImage RootContract TreeDemo PublishDemo
begin

text \<open>
  A verification development for the Python tools of the mainline port to the tablet \<open>liuqin\<close>:
  the installer that repartitions and flashes it, the patcher of Android boot images, the build
  tools that decide what the bootloader and the first boot stage accept, and the services that
  guard the fingerprint reader's persistent credential.

  The parts and their theories (files are named under \<^verbatim>\<open>src/\<close>):

  \<^item> \<open>Prelude\<close>, \<open>PyFloat\<close>, \<open>PyRegex\<close>, \<open>PyRegexRules\<close>: what the components share. Errors are values of
    a sum (\<open>Inl\<close> the exception), \<open>ebind\<close>/\<open>require\<close>/\<open>each\<close> are the early returns of the code; Python's
    binary64 arithmetic is written out on rationals where \<^verbatim>\<open>parse_size\<close> uses it; the regular
    expressions of the code are values of a datatype, run by a backtracking matcher with Python's
    priorities, and the rules say when a search succeeds and what its groups hold.

  \<^item> \<open>Layout\<close> (\<^verbatim>\<open>tools/lib/liuqin_layout.py\<close>): the disk, its classification, the plan and the checks of
    the table, one definition per function. \<open>LayoutPlan\<close> shows the exact outcome of a request and
    that a plan tiles the end of the disk; \<open>LayoutEdit\<close> runs the one \<^verbatim>\<open>sgdisk\<close> command on a table and
    shows that the result is the plan and that \<open>verify_applied\<close> accepts it and little else;
    \<open>LayoutSize\<close> shows what sizes mean; \<open>LayoutText\<close> parses the printed table.

  \<^item> \<open>Effects\<close>: programs with effects as state transformers that log the events they perform. The
    world \<open>'w\<close> is a parameter: the tablet, the host's files and the operator answer as they like. A
    policy is a predicate on an event and the events before it; one rule per construct shows that a
    program only ever performs what the policy permits, wherever it stops.
    \<open>Shell\<close>, \<open>Device\<close>, \<open>Images\<close>, \<open>InstallSteps\<close>, \<open>Installer\<close> (\<^verbatim>\<open>tools/install-liuqin.py\<close>): every step of
    an installation and of a restore, from the arguments to the last \<^verbatim>\<open>fastboot reboot\<close>.
    \<open>InstallSafety\<close> and \<open>FlashSafety\<close> show that the partition table is never edited unprepared and
    that nothing is flashed early. The waiting loops run \<open>ready_tries\<close> and \<open>reboot_tries\<close> times, the
    number of polls that fit before the code's deadlines, a parameter because it depends on the clock.

  \<^item> \<open>Cpio\<close>, \<open>CpioLoop\<close>, \<open>BootImage\<close>, \<open>KsuPatch\<close>, \<open>TinyImage\<close> (\<^verbatim>\<open>tools/patch-android-boot-ksu.py\<close>): the
    archive, the lz4-legacy and gzip containers, the boot image and the patch, on byte strings. The
    loop of \<^verbatim>\<open>Cpio.load\<close> may run forever, so \<open>load_from\<close> is a partial function whose value is None
    then; \<open>CpioLoop\<close> says when it returns and shows an archive on which it does not.

  \<^item> \<open>RootContract\<close> (\<^verbatim>\<open>tools/lib/build-root-contract.py\<close>): the paths the first boot stage pins.

  \<^item> \<open>DeviceTree\<close>, \<open>DtbIds\<close>, \<open>AblSymbols\<close>, \<open>TreeDemo\<close> (\<^verbatim>\<open>tools/lib/abl-dtb-ids.py\<close>,
    \<^verbatim>\<open>tools/lib/abl-symbols.py\<close>): the two tools that rewrite a decompiled device tree so that the
    vendor bootloader accepts it, with their own verification of the result. The counters that bound
    the repeated removal and counting of a node start at the length of the text, which every step
    shortens.

  \<^item> \<open>Storage\<close>: programs over a private file system, for the fingerprint tools. A file remembers whether
    it was flushed and whether its name is durable; every call is logged with the file system it leaves,
    so a condition on the log is a condition on every moment at which the process may be killed. A
    triple carries such a crash condition besides the result and the exception. Any call may fail (the
    kernel is a parameter), a failing write may have written a part.

  \<^item> \<open>NativeCredentials\<close>, \<open>HandleSafety\<close>, \<open>HandleLive\<close>
    (\<^verbatim>\<open>device/fingerprint/oem/src/fingerprint/oem/native_credentials.py\<close>): the provider that keeps the
    Gatekeeper handle. The handle is whole at every moment, status 0 means that it is there and
    durable, and a creation succeeds when nothing stands in its way.

  \<^item> \<open>NativeEnrol\<close>, \<open>EnrolRules\<close>, \<open>EnrolSafety\<close>, \<open>EnrolHistory\<close>, \<open>EnrolOutcome\<close>, \<open>EnrolDemo\<close>
    (\<^verbatim>\<open>native_enrol.py\<close> of the same directory): the enrolment and its machine credential. What it needs
    of its child is the locale \<open>native_child\<close>, which \<open>EnrolHistory\<close> interprets on the provider above. A
    history is any sequence of enrolments of an account, each finished or killed at any call and
    perhaps followed by a power loss.

  \<^item> \<open>UserCredentials\<close>, \<open>UserSafety\<close>, \<open>UserOutcome\<close>, \<open>KeyringUse\<close>, \<open>UserDemo\<close>
    (\<^verbatim>\<open>user_credentials.py\<close> and \<^verbatim>\<open>acceptance_input.py\<close>): the bridge from the password of an account to
    its native identity, over the same child, and the one-use input it leaves in the kernel's keyring,
    a list of keys in the local state. \<open>KeyringUse\<close> keeps an account of live keys, additions and starts
    of the provider; there a killed run is one whose later calls all fail.

  \<^item> \<open>EnrolPublish\<close>, \<open>PublishSafety\<close>, \<open>PublishOutcome\<close>, \<open>PublishDemo\<close> (\<^verbatim>\<open>enrol_publish.py\<close>): one
    enrolment and its publication in fprintd's store. An export is pending from the enrolment to the
    moment its print is durable, and a user with a print is refused.

  Strings and byte strings are character lists; a byte string is decoded to itself, so code points
  stay below 256. Python integers are \<^typ>\<open>int\<close> and \<^typ>\<open>nat\<close>; a width is written out where a field has
  one (the little-endian words of a boot image, the eight hex digits of an archive header).

  Parameters of the model, never given a definition: \<^verbatim>\<open>fastboot\<close>, the RAM installer's shell and its
  HTTP client, the host's file system and clock, JSON and SHA-256 of the installer; zlib, lz4 and
  SHA-256 of the patcher; \<^verbatim>\<open>dtc\<close> of the tree tools; the vendor runtime, the PAM helper and the
  print serializer, the account database, JSON, the clock, the random source and the serial numbers of
  keys for the fingerprint tools. What a proof needs of them is a hypothesis of its theorem, and the
  witness instantiates it.

  Not modelled: shell (the first boot stage, the device side of the installer, the build scripts), C
  (daemons, fingerprint driver, vendored libraries), kernel configuration, firmware, and the Python
  programs that only run other programs (the supervisor of the vendor runtime, the build drivers).
  The self-tests, argument parsing and printed progress of the modelled tools are left out too.
\<close>

end
